(* ===== verification/Nix_Prelude.thy ===== *)
theory Nix_Prelude
  imports Complex_Main "HOL-Library.AList" "HOL-Library.Char_ord" "HOL-Library.List_Lexorder"
    "HOL-Library.Word"
begin

text \<open>
  Shared vocabulary of the development: exceptions as values, the outcome of a request
  handler, the containers of the C++ standard library that the program uses
  (\<open>std::unordered_map\<close> and \<open>std::map\<close> as association lists), machine integers, and
  one locale for invariants of systems that handle a sequence of events.
\<close>

section \<open>Automation\<close>

named_theorems nix_simps \<open>equations that evaluate the model's operations\<close>
named_theorems nix_inv \<open>preservation of the components' invariants\<close>

section \<open>Failures as values\<close>

text \<open>
  What can leave a C++ function instead of a return value: a \<open>std::runtime_error\<close> or a
  \<open>nix::FatalError\<close> (also called \<open>InitializationError\<close>, src/src/nix/exception.hxx) the program
  throws, the \<open>bad_any_cast\<close> of an option read at the wrong type, the \<open>Json::LogicError\<close> that jsoncpp throws when a member operation meets
  a value that is neither an object nor null, and undefined behaviour (a dereferenced null
  pointer, an iterator before the first element, an invalidated iterator).
\<close>

datatype exc =
    RuntimeError string
  | FatalError string
  | BadAnyCast
  | JsonLogicError
  | UndefinedBehaviour

type_synonym 'a res = "exc + 'a"

definition rbind :: "'a res \<Rightarrow> ('a \<Rightarrow> 'b res) \<Rightarrow> 'b res" where
  "rbind r f = (case r of Inl e \<Rightarrow> Inl e | Inr x \<Rightarrow> f x)"

lemma rbind_simps [simp]:
  "rbind (Inl e) f = Inl e"
  "rbind (Inr x) f = f x"
  by (simp_all add: rbind_def)

lemma rbind_Inr_iff: "rbind r f = Inr y \<longleftrightarrow> (\<exists>x. r = Inr x \<and> f x = Inr y)"
  by (cases r) auto

lemma rbind_InrE:
  assumes "rbind r f = Inr y"
  obtains x where "r = Inr x" "f x = Inr y"
  using assms by (auto simp: rbind_Inr_iff)

lemma rbind_assoc: "rbind (rbind r f) g = rbind r (\<lambda>x. rbind (f x) g)"
  by (cases r) auto

section \<open>Calls on the reply channel and the outcome of a handler\<close>

text \<open>
  A request that came in over the network is answered through its channel. The model
  records the calls: a reply carrying the text of a message, an empty reply, a rejection.
  Requests are numbered; the number says whose channel it is.
\<close>

datatype net =
    Reply nat string
  | EmptyReply nat
  | Reject nat string

fun net_id :: "net \<Rightarrow> nat" where
  "net_id (Reply i _) = i"
| "net_id (EmptyReply i) = i"
| "net_id (Reject i _) = i"

text \<open>
  A handler finishes in a new state having made some calls, or an exception leaves it (the
  state it has reached stays, since C++ objects are updated in place), or it blocks on a
  condition variable in the state it has reached.
\<close>

datatype 's outcome =
    Done 's "net list"
  | Raised exc 's "net list"
  | Blocked 's

fun final_state :: "'s \<Rightarrow> 's outcome \<Rightarrow> 's" where
  "final_state s (Done s' _) = s'"
| "final_state s (Raised _ s' _) = s'"
| "final_state s (Blocked s') = s'"

fun sent :: "'s outcome \<Rightarrow> net list" where
  "sent (Done _ ns) = ns"
| "sent (Raised _ _ ns) = ns"
| "sent (Blocked _) = []"

definition completes :: "'s outcome \<Rightarrow> bool" where
  "completes r = (case r of Done _ _ \<Rightarrow> True | _ \<Rightarrow> False)"

text \<open>
  \<open>answer r s s'\<close> is a last call \<open>r\<close> on the channel made in state \<open>s\<close>, followed by the
  statements that lead to \<open>s'\<close>: an exception in the call leaves \<open>s\<close>.
\<close>

definition answer :: "net res \<Rightarrow> 's \<Rightarrow> 's \<Rightarrow> 's outcome" where
  "answer r s s' = (case r of Inl e \<Rightarrow> Raised e s [] | Inr n \<Rightarrow> Done s' [n])"

lemma answer_simps [simp]:
  "answer (Inl e) s s' = Raised e s []"
  "answer (Inr n) s s' = Done s' [n]"
  by (simp_all add: answer_def)

lemma completes_simps [simp]:
  "completes (Done s ns)" "\<not> completes (Raised e s ns)" "\<not> completes (Blocked s)"
  by (simp_all add: completes_def)

lemma final_state_answer:
  "final_state t (answer r s s') = (case r of Inl _ \<Rightarrow> s | Inr _ \<Rightarrow> s')"
  by (cases r) simp_all

lemma answer_same: "final_state t (answer x s s) = s"
  by (cases x) simp_all

text \<open>No undefined behaviour: at worst an exception leaves the handler.\<close>

definition no_crash :: "'s outcome \<Rightarrow> bool" where
  "no_crash r = (case r of Raised e _ _ \<Rightarrow> e \<noteq> UndefinedBehaviour | _ \<Rightarrow> True)"

lemma no_crash_simps [simp]:
  "no_crash (Done s ns)" "no_crash (Blocked s)" "no_crash (Raised e s ns) \<longleftrightarrow> e \<noteq> UndefinedBehaviour"
  by (simp_all add: no_crash_def)

lemma no_crash_answer: "no_crash (answer x s s') \<longleftrightarrow> x \<noteq> Inl UndefinedBehaviour"
  by (cases x) simp_all

fun map_outcome_state :: "('s \<Rightarrow> 't) \<Rightarrow> 's outcome \<Rightarrow> 't outcome" where
  "map_outcome_state f (Done s ns) = Done (f s) ns"
| "map_outcome_state f (Raised e s ns) = Raised e (f s) ns"
| "map_outcome_state f (Blocked s) = Blocked (f s)"

lemma sent_map_outcome [simp]: "sent (map_outcome_state f r) = sent r"
  by (cases r) simp_all

text \<open>What a sequence of events sends, and where it leads.\<close>

fun serve :: "('e \<Rightarrow> 's \<Rightarrow> 's outcome) \<Rightarrow> 'e list \<Rightarrow> 's \<Rightarrow> net list \<times> 's" where
  "serve f [] s = ([], s)"
| "serve f (e # es) s =
     (let r = f e s; (ns, s') = serve f es (final_state s r) in (sent r @ ns, s'))"

lemma serve_Cons:
  "fst (serve f (e # es) s) = sent (f e s) @ fst (serve f es (final_state s (f e s)))"
  "snd (serve f (e # es) s) = snd (serve f es (final_state s (f e s)))"
  by (simp_all add: case_prod_unfold Let_def)

section \<open>Operations on the world\<close>

text \<open>
  What a client or a start-up function does to the world around it: it returns a value or the
  exception that leaves it, and the world as it is then.
\<close>

type_synonym ('a, 'w) action = "'w \<Rightarrow> 'a res \<times> 'w"

definition act_ret :: "'a \<Rightarrow> ('a, 'w) action" where
  "act_ret x w = (Inr x, w)"

definition act_lift :: "'a res \<Rightarrow> ('a, 'w) action" where
  "act_lift r w = (r, w)"

definition act_bind :: "('a, 'w) action \<Rightarrow> ('a \<Rightarrow> ('b, 'w) action) \<Rightarrow> ('b, 'w) action" where
  "act_bind m f w = (case m w of (Inl e, w') \<Rightarrow> (Inl e, w') | (Inr x, w') \<Rightarrow> f x w')"

text \<open>The member access \<open>p->f()\<close> on a pointer that may be null.\<close>

definition deref :: "'a option \<Rightarrow> ('a, 'w) action" where
  "deref p w = (case p of None \<Rightarrow> (Inl UndefinedBehaviour, w) | Some x \<Rightarrow> (Inr x, w))"

lemma act_simps [simp]:
  "act_ret x w = (Inr x, w)" "act_lift r w = (r, w)"
  "deref (Some x) w = (Inr x, w)" "deref None w = (Inl UndefinedBehaviour, w)"
  "m w = (Inl e, w') \<Longrightarrow> act_bind m f w = (Inl e, w')"
  "m w = (Inr x, w') \<Longrightarrow> act_bind m f w = f x w'"
  by (simp_all add: act_ret_def act_lift_def deref_def act_bind_def)

lemma act_bind_split:
  "P (act_bind m f w) \<longleftrightarrow>
     (\<forall>e w'. m w = (Inl e, w') \<longrightarrow> P (Inl e, w')) \<and> (\<forall>x w'. m w = (Inr x, w') \<longrightarrow> P (f x w'))"
  by (cases "m w"; cases "fst (m w)") auto

section \<open>Containers\<close>

text \<open>
  \<open>std::unordered_map\<close> is an association list: \<open>map_of\<close> is \<open>find\<close>, \<open>AList.update\<close> is
  \<open>m[k] = v\<close>, \<open>AList.delete\<close> is \<open>erase\<close>. The order of the list stands for the unspecified
  iteration order; \<open>distinct\<close> keys are an invariant of every component that keeps one.
  \<open>m[k]\<close> read on a missing key first inserts a value-initialised element
  (\<open>index_or_insert\<close>).
\<close>

type_synonym ('k, 'v) umap = "('k \<times> 'v) list"

abbreviation keys :: "('k, 'v) umap \<Rightarrow> 'k list" where
  "keys m \<equiv> map fst m"

definition um_count :: "'k \<Rightarrow> ('k, 'v) umap \<Rightarrow> bool" where
  "um_count k m = (map_of m k \<noteq> None)"

definition um_emplace :: "'k \<Rightarrow> 'v \<Rightarrow> ('k, 'v) umap \<Rightarrow> ('k, 'v) umap" where
  "um_emplace k v m = (if um_count k m then m else AList.update k v m)"

definition index_or_insert :: "'v \<Rightarrow> 'k \<Rightarrow> ('k, 'v) umap \<Rightarrow> 'v \<times> ('k, 'v) umap" where
  "index_or_insert d k m =
     (case map_of m k of Some v \<Rightarrow> (v, m) | None \<Rightarrow> (d, AList.update k d m))"

lemma um_count_iff: "um_count k m \<longleftrightarrow> k \<in> fst ` set m"
  by (simp add: um_count_def map_of_eq_None_iff)

lemma map_of_um_emplace:
  "map_of (um_emplace k v m) = (if um_count k m then map_of m else (map_of m)(k \<mapsto> v))"
  by (simp add: um_emplace_def update_conv')

lemma distinct_um_emplace [simp]:
  "distinct (keys m) \<Longrightarrow> distinct (keys (um_emplace k v m))"
  by (simp add: um_emplace_def distinct_update)

lemma index_or_insert_value:
  "fst (index_or_insert d k m) = (case map_of m k of Some v \<Rightarrow> v | None \<Rightarrow> d)"
  by (simp add: index_or_insert_def split: option.split)

lemma index_or_insert_map:
  "map_of (snd (index_or_insert d k m)) = (map_of m)(k \<mapsto> fst (index_or_insert d k m))"
  by (auto simp: index_or_insert_def update_conv' fun_eq_iff split: option.split)

lemma distinct_index_or_insert [simp]:
  "distinct (keys m) \<Longrightarrow> distinct (keys (snd (index_or_insert d k m)))"
  by (simp add: index_or_insert_def distinct_update split: option.split)

lemma map_of_delete: "map_of (AList.delete k m) = (map_of m)(k := None)"
  by (rule delete_conv')

lemma distinct_delete [simp]: "distinct (keys m) \<Longrightarrow> distinct (keys (AList.delete k m))"
  by (induction m) (auto simp: AList.delete_eq)

text \<open>The interface of a map, and the two facts every client of one uses.\<close>

locale map_like =
  fixes lookup :: "'m \<Rightarrow> 'k \<Rightarrow> 'v option"
    and store :: "'k \<Rightarrow> 'v \<Rightarrow> 'm \<Rightarrow> 'm"
    and erase :: "'k \<Rightarrow> 'm \<Rightarrow> 'm"
    and good :: "'m \<Rightarrow> bool"
  assumes lookup_store: "good m \<Longrightarrow> lookup (store k v m) = (lookup m)(k \<mapsto> v)"
    and lookup_erase: "good m \<Longrightarrow> lookup (erase k m) = (lookup m)(k := None)"
    and good_store: "good m \<Longrightarrow> good (store k v m)"
    and good_erase: "good m \<Longrightarrow> good (erase k m)"
begin

lemma lookup_store_same: "good m \<Longrightarrow> lookup (store k v m) k = Some v"
  by (simp add: lookup_store)

lemma lookup_store_other: "good m \<Longrightarrow> k' \<noteq> k \<Longrightarrow> lookup (store k v m) k' = lookup m k'"
  by (simp add: lookup_store)

lemma lookup_erase_same: "good m \<Longrightarrow> lookup (erase k m) k = None"
  by (simp add: lookup_erase)

lemma erase_store: "good m \<Longrightarrow> lookup (erase k (store k v m)) = lookup (erase k m)"
  by (simp add: lookup_store lookup_erase good_store)

lemma store_store:
  "good m \<Longrightarrow> lookup (store k v' (store k v m)) = lookup (store k v' m)"
  by (simp add: lookup_store good_store)

end

interpretation um: map_like map_of AList.update AList.delete "\<lambda>m. distinct (keys m)"
  by unfold_locales (auto simp: update_conv' delete_conv' distinct_update)

section \<open>Machine integers\<close>

text \<open>
  \<open>int\<close> is 32 bits wide. \<open>narrow32\<close> is the conversion of a wider integer to \<open>int\<close>;
  \<open>size_of_int\<close> that of an \<open>int\<close> to \<open>size_t\<close>, 64 bits wide.
\<close>

definition narrow32 :: "int \<Rightarrow> int" where
  "narrow32 x = (x + 2 ^ 31) mod 2 ^ 32 - 2 ^ 31"

definition int32 :: "int \<Rightarrow> bool" where
  "int32 x \<longleftrightarrow> - (2 ^ 31) \<le> x \<and> x < 2 ^ 31"

definition size_of_int :: "int \<Rightarrow> nat" where
  "size_of_int x = nat (x mod 2 ^ 64)"

lemma narrow32_int32: "int32 (narrow32 x)"
  using pos_mod_bound [of "2 ^ 32" "x + 2 ^ 31"] pos_mod_sign [of "2 ^ 32" "x + 2 ^ 31"]
  by (simp add: int32_def narrow32_def)

lemma narrow32_id: "int32 x \<Longrightarrow> narrow32 x = x"
  by (simp add: int32_def narrow32_def)

lemma narrow32_wraps: "2 ^ 31 \<le> x \<Longrightarrow> x < 2 ^ 32 \<Longrightarrow> narrow32 x = x - 2 ^ 32"
  using mod_pos_pos_trivial [of "x - 2 ^ 31" "2 ^ 32"] mod_add_self2 [of "x - 2 ^ 31" "2 ^ 32 :: int"]
  by (simp add: narrow32_def add.commute)

lemma size_of_int_nonneg: "0 \<le> x \<Longrightarrow> x < 2 ^ 64 \<Longrightarrow> size_of_int x = nat x"
  by (simp add: size_of_int_def)

section \<open>Systems that handle a sequence of events\<close>

text \<open>
  Every service of the program is a state and a function from an event to a new state. A
  property of the state that each event keeps holds after any sequence of them.
\<close>

locale event_system =
  fixes react :: "'e \<Rightarrow> 's \<Rightarrow> 's"
    and inv :: "'s \<Rightarrow> bool"
  assumes react_inv: "inv s \<Longrightarrow> inv (react e s)"
begin

lemma fold_inv: "inv s \<Longrightarrow> inv (fold react es s)"
  by (induction es arbitrary: s) (auto intro: react_inv)

lemma fold_prefix_inv: "inv s \<Longrightarrow> inv (fold react (take n es) s)"
  by (rule fold_inv)

end

end
