(* ===== verification/Nix_Strings.thy ===== *)
theory Nix_Strings
  imports Nix_Prelude
begin

text \<open>
  \<open>nix::util::string\<close> (src/src/nix/util/string.cxx). A \<open>std::string\<close> is a list of bytes.
  \<open>split\<close> is translated with its positions and \<open>npos\<close>; \<open>tokens\<close> is the reference
  definition it is proved equal to. Dotted keys of messages are split with it, so the laws of
  \<open>tokens\<close> on concatenations are what the message component builds on.
\<close>

section \<open>Searching and splitting\<close>

text \<open>\<open>find_first_of\<close> and \<open>find_first_not_of\<close> of \<open>std::string\<close>, \<open>npos\<close> being \<open>None\<close>.\<close>

definition find_from :: "(char \<Rightarrow> bool) \<Rightarrow> string \<Rightarrow> nat option \<Rightarrow> nat option" where
  "find_from P s pos =
     (case pos of None \<Rightarrow> None | Some i \<Rightarrow> List.find (\<lambda>j. P (s ! j)) [i..<length s])"

definition find_first_of :: "string \<Rightarrow> string \<Rightarrow> nat option \<Rightarrow> nat option" where
  "find_first_of s ds pos = find_from (\<lambda>c. c \<in> set ds) s pos"

definition find_first_not_of :: "string \<Rightarrow> string \<Rightarrow> nat option \<Rightarrow> nat option" where
  "find_first_not_of s ds pos = find_from (\<lambda>c. c \<notin> set ds) s pos"

text \<open>\<open>str.substr(last_pos, pos - last_pos)\<close>; with \<open>pos = npos\<close> the rest of the string.\<close>

definition substr :: "string \<Rightarrow> nat \<Rightarrow> nat option \<Rightarrow> string" where
  "substr s i pos = (case pos of None \<Rightarrow> drop i s | Some j \<Rightarrow> take (j - i) (drop i s))"

lemma find_from_Some_iff:
  "find_from P s (Some i) = Some j \<longleftrightarrow>
     i \<le> j \<and> j < length s \<and> P (s ! j) \<and> (\<forall>k. i \<le> k \<and> k < j \<longrightarrow> \<not> P (s ! k))"
  (is "?l \<longleftrightarrow> ?r")
proof
  assume ?l
  then obtain n where n: "n < length s - i" "j = i + n" "P (s ! (i + n))"
    "\<forall>m<n. \<not> P (s ! (i + m))"
    by (auto simp: find_from_def find_Some_iff)
  have "\<not> P (s ! k)" if "i \<le> k" "k < j" for k
    using n(4) [rule_format, of "k - i"] that n(2) by simp
  with n show ?r by auto
next
  assume r: ?r
  then show ?l
    by (auto simp: find_from_def find_Some_iff intro!: exI [of _ "j - i"])
qed

lemma find_from_None_iff:
  "find_from P s (Some i) = None \<longleftrightarrow> (\<forall>k. i \<le> k \<and> k < length s \<longrightarrow> \<not> P (s ! k))"
  by (auto simp: find_from_def find_None_iff)

text \<open>
  The loop of \<open>split\<close>. In the code \<open>pos\<close> is always \<open>find_first_of(delimiters, last_pos)\<close>,
  computed before the loop and at the end of each round, so it is \<open>npos\<close> when \<open>last_pos\<close>
  is and the loop condition is \<open>last_pos \<noteq> npos\<close>.
\<close>

function split_loop :: "string \<Rightarrow> string \<Rightarrow> nat option \<Rightarrow> string list" where
  "split_loop s ds last_pos =
     (case last_pos of
        None \<Rightarrow> []
      | Some i \<Rightarrow>
          (let pos = find_first_of s ds (Some i)
           in substr s i pos # split_loop s ds (find_first_not_of s ds pos)))"
  by pat_completeness auto

termination
proof (relation "measure (\<lambda>(s, ds, l). case l of None \<Rightarrow> 0 | Some i \<Rightarrow> Suc (length s - i))")
  fix s ds :: string and last_pos :: "nat option" and i pos
  assume l: "last_pos = Some i" and p: "pos = find_first_of s ds (Some i)"
  have "j > i \<and> j < length s" if j: "find_first_not_of s ds pos = Some j" for j
  proof -
    from j obtain k where k: "pos = Some k"
      by (cases pos) (auto simp: find_first_not_of_def find_from_def)
    from k p have "i \<le> k" "s ! k \<in> set ds"
      by (auto simp: find_first_of_def find_from_Some_iff)
    moreover from j k have "k \<le> j" "j < length s" "s ! j \<notin> set ds"
      by (auto simp: find_first_not_of_def find_from_Some_iff)
    ultimately show ?thesis by (cases "k = j") auto
  qed
  with l show "((s, ds, find_first_not_of s ds pos), s, ds, last_pos)
    \<in> measure (\<lambda>(s, ds, l). case l of None \<Rightarrow> 0 | Some i \<Rightarrow> Suc (length s - i))"
    by (auto split: option.splits)
qed simp

declare split_loop.simps [simp del]

definition split :: "string \<Rightarrow> string \<Rightarrow> string list" where
  "split s ds = split_loop s ds (find_first_not_of s ds (Some 0))"

section \<open>The reference tokeniser\<close>

function tokens :: "(char \<Rightarrow> bool) \<Rightarrow> string \<Rightarrow> string list" where
  "tokens D s =
     (let r = dropWhile D s
      in if r = [] then []
         else takeWhile (\<lambda>c. \<not> D c) r # tokens D (dropWhile (\<lambda>c. \<not> D c) r))"
  by pat_completeness auto

termination
proof (relation "measure (\<lambda>(D, s). length s)")
  fix D :: "char \<Rightarrow> bool" and s r
  assume r: "r = dropWhile D s" and ne: "r \<noteq> []"
  then have "\<not> D (hd r)" by (simp add: hd_dropWhile)
  with ne have "length (dropWhile (\<lambda>c. \<not> D c) r) < length r"
    by (cases r) (auto simp: le_imp_less_Suc length_dropWhile_le)
  also have "length r \<le> length s" using r by (simp add: length_dropWhile_le)
  finally show "((D, dropWhile (\<lambda>c. \<not> D c) r), D, s) \<in> measure (\<lambda>(D, s). length s)"
    by simp
qed simp

declare tokens.simps [simp del]

lemma tokens_Nil [simp]: "tokens D [] = []"
  by (simp add: tokens.simps)

lemma tokens_delim [simp]: "D c \<Longrightarrow> tokens D (c # s) = tokens D s"
  by (simp add: tokens.simps [of D "c # s"] tokens.simps [of D s])

lemma tokens_word:
  "\<not> D c \<Longrightarrow>
     tokens D (c # s) = (c # takeWhile (\<lambda>c. \<not> D c) s) # tokens D (dropWhile (\<lambda>c. \<not> D c) s)"
  by (simp add: tokens.simps [of D "c # s"])

lemma tokens_shape: "t \<in> set (tokens D s) \<Longrightarrow> t \<noteq> [] \<and> (\<forall>c \<in> set t. \<not> D c)"
proof (induction D s rule: tokens.induct)
  case (1 D s)
  let ?r = "dropWhile D s"
  show ?case
  proof (cases "?r = []")
    case True
    with "1.prems" show ?thesis by (simp add: tokens.simps [of D s])
  next
    case False
    then have "\<not> D (hd ?r)" by (rule hd_dropWhile)
    with False have ne: "takeWhile (\<lambda>c. \<not> D c) ?r \<noteq> []" by (cases ?r) auto
    have "tokens D s = takeWhile (\<lambda>c. \<not> D c) ?r # tokens D (dropWhile (\<lambda>c. \<not> D c) ?r)"
      using False by (subst tokens.simps) (simp add: Let_def)
    with "1.prems" consider "t = takeWhile (\<lambda>c. \<not> D c) ?r"
      | "t \<in> set (tokens D (dropWhile (\<lambda>c. \<not> D c) ?r))" by auto
    then show ?thesis
    proof cases
      case 1
      with ne show ?thesis using set_takeWhileD by metis
    next
      case 2
      then show ?thesis by (rule "1.IH" [OF refl False])
    qed
  qed
qed

lemma tokens_single:
  assumes "t \<noteq> []" "\<forall>c \<in> set t. \<not> D c"
  shows "tokens D t = [t]"
proof (cases t)
  case (Cons c u)
  with assms have d: "dropWhile (\<lambda>c. \<not> D c) u = []" and t: "takeWhile (\<lambda>c. \<not> D c) u = u"
    by auto
  have "tokens D (c # u) = [c # u]"
    using Cons assms by (subst tokens_word) (simp_all only: d t tokens_Nil, simp)
  with Cons show ?thesis by simp
qed (use assms in simp)

lemma takeWhile_stop: "\<not> P d \<Longrightarrow> takeWhile P (r @ d # t) = takeWhile P r"
  by (induction r) auto

lemma dropWhile_stop: "\<not> P d \<Longrightarrow> dropWhile P (r @ d # t) = dropWhile P r @ d # t"
  by (induction r) auto

lemma tokens_append_delim: "D d \<Longrightarrow> tokens D (s @ d # t) = tokens D s @ tokens D t"
proof (induction D s rule: tokens.induct)
  case (1 D s)
  show ?case
  proof (cases "dropWhile D s = []")
    case True
    then have all: "\<forall>c \<in> set s. D c" by simp
    have "tokens D (s @ d # t) = tokens D t" using all "1.prems" by (induction s) auto
    moreover have "tokens D s = []" using True by (simp add: tokens.simps [of D s])
    ultimately show ?thesis by simp
  next
    case False
    let ?r = "dropWhile D s" and ?N = "\<lambda>c. \<not> D c"
    have r: "dropWhile D (s @ d # t) = ?r @ d # t"
      using False by (auto simp: dropWhile_append)
    have t: "takeWhile ?N (?r @ d # t) = takeWhile ?N ?r"
      using "1.prems" by (simp add: takeWhile_stop)
    have d: "dropWhile ?N (?r @ d # t) = dropWhile ?N ?r @ d # t"
      using "1.prems" by (simp add: dropWhile_stop)
    show ?thesis
      using "1.IH" [OF refl False "1.prems"] False
      by (subst (1 2) tokens.simps) (simp only: Let_def r t d, simp)
  qed
qed

lemma tokens_eq_Nil_iff: "tokens D s = [] \<longleftrightarrow> (\<forall>c \<in> set s. D c)"
  by (subst tokens.simps) (auto simp: Let_def)

section \<open>The loop computes the reference\<close>

lemma find_from_drop:
  "find_from P s (Some i) =
     (let n = length (takeWhile (\<lambda>c. \<not> P c) (drop i s))
      in if i + n < length s then Some (i + n) else None)"
proof -
  let ?n = "length (takeWhile (\<lambda>c. \<not> P c) (drop i s))"
  have below: "\<not> P (s ! k)" if "i \<le> k" "k < i + ?n" "k < length s" for k
  proof -
    have "k - i < ?n" using that by simp
    then have "\<not> P (takeWhile (\<lambda>c. \<not> P c) (drop i s) ! (k - i))"
      using nth_mem set_takeWhileD by metis
    with that \<open>k - i < ?n\<close> show ?thesis by (simp add: takeWhile_nth)
  qed
  show ?thesis
  proof (cases "i + ?n < length s")
    case True
    then have "P (drop i s ! ?n)" by (intro nth_length_takeWhile [of "\<lambda>c. \<not> P c", simplified]) simp
    with True below show ?thesis by (auto simp: find_from_Some_iff Let_def)
  next
    case False
    with below show ?thesis by (auto simp: find_from_None_iff Let_def)
  qed
qed

lemma drop_length_takeWhile: "drop (length (takeWhile P xs)) xs = dropWhile P xs"
  by (simp add: dropWhile_eq_drop)

lemma tokens_drop_step:
  assumes i: "find_first_not_of s ds (Some i) = Some j"
  shows "tokens (\<lambda>c. c \<in> set ds) (drop i s)
    = substr s j (find_first_of s ds (Some j)) #
      (case find_first_of s ds (Some j) of
         None \<Rightarrow> [] | Some k \<Rightarrow> tokens (\<lambda>c. c \<in> set ds) (drop k s))"
    (is "_ = ?rhs")
proof -
  let ?D = "\<lambda>c. c \<in> set ds"
  let ?N = "\<lambda>c. c \<notin> set ds"
  have j: "j = i + length (takeWhile ?D (drop i s))" "j < length s"
    using i by (auto simp: find_first_not_of_def find_from_drop Let_def split: if_splits)
  have r: "dropWhile ?D (drop i s) = drop j s"
    by (simp add: j(1) drop_length_takeWhile [symmetric] add.commute)
  define m where "m = length (takeWhile ?N (drop j s))"
  have w: "dropWhile ?N (drop j s) = drop (j + m) s"
    by (simp add: m_def drop_length_takeWhile [symmetric] add.commute)
  have t: "takeWhile ?N (drop j s) = take m (drop j s)"
    unfolding m_def by (rule takeWhile_eq_take)
  have "tokens ?D (drop i s) = take m (drop j s) # tokens ?D (drop (j + m) s)"
    using j(2) by (subst tokens.simps) (simp only: Let_def r w t, simp)
  moreover have "find_first_of s ds (Some j) = (if j + m < length s then Some (j + m) else None)"
    by (simp add: find_first_of_def find_from_drop Let_def m_def)
  ultimately show ?thesis by (simp add: substr_def)
qed

lemma find_first_progress:
  assumes "find_first_not_of s ds (Some i) = Some j" "find_first_of s ds (Some j) = Some k"
  shows "i < k \<and> k < length s"
proof -
  from assms have "i \<le> j" "j \<le> k" "k < length s" "s ! j \<notin> set ds" "s ! k \<in> set ds"
    by (simp_all add: find_first_not_of_def find_first_of_def find_from_Some_iff)
  then show ?thesis by (cases "j = k") auto
qed

lemma split_loop_tokens:
  "split_loop s ds (find_first_not_of s ds (Some i)) = tokens (\<lambda>c. c \<in> set ds) (drop i s)"
proof (induction "length s - i" arbitrary: i rule: less_induct)
  case less
  show ?case
  proof (cases "find_first_not_of s ds (Some i)")
    case None
    then have "\<forall>c \<in> set (drop i s). c \<in> set ds"
      by (auto simp: find_first_not_of_def find_from_None_iff in_set_conv_nth)
    then have "tokens (\<lambda>c. c \<in> set ds) (drop i s) = []" by (simp add: tokens_eq_Nil_iff)
    with None show ?thesis by (simp add: split_loop.simps [of _ _ None])
  next
    case (Some j)
    show ?thesis
    proof (cases "find_first_of s ds (Some j)")
      case None
      with Some show ?thesis
        by (simp add: split_loop.simps [of _ _ "Some j"] split_loop.simps [of _ _ None]
            tokens_drop_step find_first_not_of_def [of _ _ None] find_from_def)
    next
      case (Some k)
      with find_first_progress \<open>find_first_not_of s ds (Some i) = Some j\<close>
      have "length s - k < length s - i" by fastforce
      from less [OF this] Some \<open>find_first_not_of s ds (Some i) = Some j\<close> show ?thesis
        by (simp add: split_loop.simps [of _ _ "Some j"] tokens_drop_step)
    qed
  qed
qed

lemma split_tokens: "split s ds = tokens (\<lambda>c. c \<in> set ds) s"
  using split_loop_tokens [of s ds 0] by (simp add: split_def)

section \<open>Decimal numbers\<close>

text \<open>\<open>std::to_string\<close> of an integer.\<close>

definition digit :: "nat \<Rightarrow> char" where
  "digit n = char_of (n + 48)"

fun decimal :: "nat \<Rightarrow> string" where
  "decimal n = (if n < 10 then [digit n] else decimal (n div 10) @ [digit (n mod 10)])"

declare decimal.simps [simp del]

definition is_digit :: "char \<Rightarrow> bool" where
  "is_digit c \<longleftrightarrow> 48 \<le> (of_char c :: nat) \<and> (of_char c :: nat) < 58"

definition digits_value :: "string \<Rightarrow> nat" where
  "digits_value s = foldl (\<lambda>a c. 10 * a + (of_char c - 48)) 0 s"

lemma of_char_digit: "n < 10 \<Longrightarrow> of_char (digit n) = n + 48"
  by (simp add: digit_def take_bit_eq_mod)

lemma is_digit_digit: "n < 10 \<Longrightarrow> is_digit (digit n)"
  by (simp add: is_digit_def of_char_digit)

lemma decimal_digits: "c \<in> set (decimal n) \<Longrightarrow> is_digit c"
proof (induction n rule: decimal.induct)
  case (1 n)
  then show ?case
    by (subst (asm) decimal.simps) (auto simp: is_digit_digit split: if_splits)
qed

lemma decimal_not_Nil [simp]: "decimal n \<noteq> []"
  by (subst decimal.simps) simp

lemma digits_value_decimal: "digits_value (decimal n) = n"
proof (induction n rule: decimal.induct)
  case (1 n)
  then show ?case
    by (subst decimal.simps) (auto simp: digits_value_def of_char_digit)
qed

definition to_string_int :: "int \<Rightarrow> string" where
  "to_string_int i = (if i < 0 then ''-'' else []) @ decimal (nat \<bar>i\<bar>)"

section \<open>Letter case\<close>

text \<open>
  \<open>::tolower\<close> and \<open>::toupper\<close> of the C locale: the ASCII letters change, other bytes stay.
\<close>

definition tolower :: "char \<Rightarrow> char" where
  "tolower c = (if 65 \<le> (of_char c :: nat) \<and> (of_char c :: nat) \<le> 90 then char_of (of_char c + 32 :: nat) else c)"

definition toupper :: "char \<Rightarrow> char" where
  "toupper c = (if 97 \<le> (of_char c :: nat) \<and> (of_char c :: nat) \<le> 122 then char_of (of_char c - 32 :: nat) else c)"

definition to_lower :: "string \<Rightarrow> string" where
  "to_lower s = map tolower s"

definition to_upper :: "string \<Rightarrow> string" where
  "to_upper s = map toupper s"

section \<open>Properties\<close>

lemma filter_dropWhile: "filter (\<lambda>c. \<not> D c) (dropWhile D s) = filter (\<lambda>c. \<not> D c) s"
  by (induction s) auto

lemma filter_takeWhile: "filter N s = takeWhile N s @ filter N (dropWhile N s)"
  by (induction s) auto

lemma concat_tokens: "concat (tokens D s) = filter (\<lambda>c. \<not> D c) s"
proof (induction D s rule: tokens.induct)
  case (1 D s)
  show ?case
  proof (cases "dropWhile D s = []")
    case True
    then have "tokens D s = []" by (subst tokens.simps) simp
    with True show ?thesis using filter_dropWhile [of D s] by simp
  next
    case False
    then have "concat (tokens D s) = takeWhile (\<lambda>c. \<not> D c) (dropWhile D s)
        @ concat (tokens D (dropWhile (\<lambda>c. \<not> D c) (dropWhile D s)))"
      by (subst tokens.simps) (simp only: Let_def if_False concat.simps)
    then show ?thesis
      using "1.IH" [OF refl False] filter_takeWhile [of "\<lambda>c. \<not> D c" "dropWhile D s"] filter_dropWhile [of D s]
      by simp
  qed
qed

text \<open>
  \<open>split\<close>, with its positions and \<open>npos\<close>, is the tokeniser one would write instead of it: it drops the
  delimiters before a word, takes the word and goes on. Its words are not empty and hold no
  delimiter, and one after the other they are the string without its delimiters.
\<close>

theorem split_is_tokeniser:
  "split s ds = tokens (\<lambda>c. c \<in> set ds) s
   \<and> list_all (\<lambda>t. t \<noteq> [] \<and> set t \<inter> set ds = {}) (split s ds)
   \<and> concat (split s ds) = filter (\<lambda>c. c \<notin> set ds) s"
  using tokens_shape [of _ "\<lambda>c. c \<in> set ds" s]
  by (auto simp: split_tokens list_all_iff concat_tokens)

end
