(* ===== verification/Nix_Json.thy ===== *)
theory Nix_Json
  imports Nix_Strings "HOL-Library.Sublist"
begin

text \<open>
  Values of \<open>Json::Value\<close> and its member operations, as their declarations and comments in
  src/src/external/include/jsoncpp/value.h state them. The library's own sources are not part
  of the repository: its text reader and writer and its conversions between value types are
  the fields of \<open>jlib\<close>, a parameter of every definition that uses them.
\<close>

section \<open>Values\<close>

text \<open>
  The constructors are those of \<open>ValueType\<close>. The members of an object are a
  \<open>std::map\<close>, kept here as the list of its entries in the order of the keys, so that equal
  objects are equal lists. A double is one of the rational numbers a double can hold: the
  program only copies doubles and compares them.
\<close>

datatype json =
    JNull
  | JInt int
  | JUInt nat
  | JReal rat
  | JString string
  | JBool bool
  | JArray "json list"
  | JObject "(string \<times> json) list"

fun is_null_value :: "json \<Rightarrow> bool" where
  "is_null_value JNull = True"
| "is_null_value _ = False"

fun is_array_value :: "json \<Rightarrow> bool" where
  "is_array_value (JArray _) = True"
| "is_array_value _ = False"

fun is_object_value :: "json \<Rightarrow> bool" where
  "is_object_value (JObject _) = True"
| "is_object_value _ = False"

text \<open>\<open>empty()\<close>: empty array, empty object, or null.\<close>

fun is_empty_value :: "json \<Rightarrow> bool" where
  "is_empty_value JNull = True"
| "is_empty_value (JArray xs) = (xs = [])"
| "is_empty_value (JObject ms) = (ms = [])"
| "is_empty_value _ = False"

fun obj_put :: "'k::linorder \<Rightarrow> 'v \<Rightarrow> ('k \<times> 'v) list \<Rightarrow> ('k \<times> 'v) list" where
  "obj_put k v [] = [(k, v)]"
| "obj_put k v (m # ms) =
     (if k = fst m then (k, v) # ms
      else if k < fst m then (k, v) # m # ms
      else m # obj_put k v ms)"

definition obj_sorted :: "('k::linorder \<times> 'v) list \<Rightarrow> bool" where
  "obj_sorted ms \<longleftrightarrow> sorted_wrt (<) (keys ms)"

lemma map_of_obj_put: "map_of (obj_put k v ms) = (map_of ms)(k \<mapsto> v)"
  by (induction ms) (auto simp: fun_eq_iff)

lemma set_keys_obj_put: "set (keys (obj_put k v ms)) = insert k (set (keys ms))"
  by (induction ms) auto

lemma obj_sorted_put: "obj_sorted ms \<Longrightarrow> obj_sorted (obj_put k v ms)"
proof (induction ms)
  case (Cons m ms)
  have "set (keys (obj_put k v ms)) = insert k (set (keys ms))" by (rule set_keys_obj_put)
  with Cons show ?case unfolding obj_sorted_def
    by (auto simp del: set_map dest: order.strict_trans)
qed (simp add: obj_sorted_def)

lemma obj_sorted_delete: "obj_sorted ms \<Longrightarrow> obj_sorted (AList.delete k ms)"
  unfolding obj_sorted_def AList.delete_eq
  by (induction ms) (auto simp: image_iff)

lemma obj_sorted_distinct: "obj_sorted ms \<Longrightarrow> distinct (keys ms)"
  unfolding obj_sorted_def using strict_sorted_iff by blast

interpretation om: map_like map_of obj_put AList.delete obj_sorted
  by unfold_locales (auto simp: map_of_obj_put delete_conv' obj_sorted_put obj_sorted_delete)

text \<open>
  \<open>isMember(k)\<close>, \<open>v[k] = x\<close>, \<open>removeMember(k)\<close> and \<open>clear()\<close>. A null value has no
  members and becomes an object when one is assigned; on a value of another type the
  precondition fails, which jsoncpp reports as a \<open>LogicError\<close>.
\<close>

fun is_member :: "json \<Rightarrow> string \<Rightarrow> bool res" where
  "is_member (JObject ms) k = Inr (map_of ms k \<noteq> None)"
| "is_member JNull k = Inr False"
| "is_member _ k = Inl JsonLogicError"

fun put_member :: "string \<Rightarrow> json \<Rightarrow> json \<Rightarrow> json res" where
  "put_member k v (JObject ms) = Inr (JObject (obj_put k v ms))"
| "put_member k v JNull = Inr (JObject [(k, v)])"
| "put_member k v _ = Inl JsonLogicError"

fun remove_member :: "string \<Rightarrow> json \<Rightarrow> json res" where
  "remove_member k (JObject ms) = Inr (JObject (AList.delete k ms))"
| "remove_member k JNull = Inr JNull"
| "remove_member k _ = Inl JsonLogicError"

text \<open>\<open>(*ptr)[k]\<close> on the way down a path, where \<open>k\<close> is a member.\<close>

fun member_value :: "string \<Rightarrow> json \<Rightarrow> json" where
  "member_value k (JObject ms) = (case map_of ms k of Some v \<Rightarrow> v | None \<Rightarrow> JNull)"
| "member_value k _ = JNull"

fun clear_value :: "json \<Rightarrow> json res" where
  "clear_value (JObject ms) = Inr (JObject [])"
| "clear_value (JArray xs) = Inr (JArray [])"
| "clear_value JNull = Inr JNull"
| "clear_value _ = Inl JsonLogicError"

text \<open>Objects with their members in order, at every level.\<close>

fun json_ok :: "json \<Rightarrow> bool" where
  "json_ok (JArray xs) = (\<forall>x \<in> set xs. json_ok x)"
| "json_ok (JObject ms) = (obj_sorted ms \<and> (\<forall>m \<in> set ms. json_ok (snd m)))"
| "json_ok _ = True"

lemma json_ok_put:
  assumes "json_ok (JObject ms)" "json_ok v"
  shows "json_ok (JObject (obj_put k v ms))"
proof -
  have "\<forall>m \<in> set (obj_put k v ms). m \<in> set ms \<or> m = (k, v)"
    by (induction ms) auto
  with assms show ?thesis by (force simp: obj_sorted_put)
qed

lemma json_ok_delete: "json_ok (JObject ms) \<Longrightarrow> json_ok (JObject (AList.delete k ms))"
  using obj_sorted_delete [of ms k] by (auto simp: AList.delete_eq)

lemma json_ok_member: "json_ok (JObject ms) \<Longrightarrow> map_of ms k = Some v \<Longrightarrow> json_ok v"
  by (auto dest!: map_of_SomeD)

lemma json_ok_put_member:
  "put_member k v j = Inr j' \<Longrightarrow> json_ok j \<Longrightarrow> json_ok v \<Longrightarrow> json_ok j'"
  using json_ok_put by (cases j) (auto simp: obj_sorted_def)

lemma json_ok_remove_member: "remove_member k j = Inr j' \<Longrightarrow> json_ok j \<Longrightarrow> json_ok j'"
  using json_ok_delete by (cases j) auto

lemma json_ok_member_value: "json_ok j \<Longrightarrow> json_ok (member_value k j)"
  using json_ok_member by (cases j) (auto split: option.split)

section \<open>The parts of jsoncpp that are not in the repository\<close>

text \<open>
  \<open>jl_read\<close> is \<open>Reader::parse\<close> (\<open>None\<close> when it returns false) and \<open>jl_error\<close> its
  error text; \<open>jl_write\<close> is \<open>FastWriter::write\<close>, \<open>jl_styled\<close> is \<open>toStyledString\<close>. The
  conversions pair a test with its accessor, \<open>None\<close> when the test fails:
  \<open>isConvertibleTo(stringValue)\<close> with \<open>asString\<close>, \<open>isInt\<close> with \<open>asInt\<close>, \<open>isDouble\<close>
  with \<open>asDouble\<close>, \<open>isIntegral\<close> with \<open>asLargestInt\<close>, \<open>isConvertibleTo(booleanValue)\<close>
  with \<open>asBool\<close>.
\<close>

record jlib =
  jl_read :: "string \<Rightarrow> json option"
  jl_error :: "string \<Rightarrow> string"
  jl_write :: "json \<Rightarrow> string"
  jl_styled :: "json \<Rightarrow> string"
  jl_string :: "json \<Rightarrow> string option"
  jl_int :: "json \<Rightarrow> int option"
  jl_double :: "json \<Rightarrow> rat option"
  jl_int64 :: "json \<Rightarrow> int option"
  jl_bool :: "json \<Rightarrow> bool option"

text \<open>
  What the code relies on: a value of a type converts to that type as itself, and a written
  document is not the empty string. \<open>reads_back L v\<close>: the reader recovers \<open>v\<close> from its text.
\<close>

definition jlib_ok :: "jlib \<Rightarrow> bool" where
  "jlib_ok L \<longleftrightarrow>
     (\<forall>s. jl_string L (JString s) = Some s) \<and>
     (\<forall>i. int32 i \<longrightarrow> jl_int L (JInt i) = Some i) \<and>
     (\<forall>q. jl_double L (JReal q) = Some q) \<and>
     (\<forall>b. jl_bool L (JBool b) = Some b) \<and>
     (\<forall>v. jl_write L v \<noteq> [])"

definition reads_back :: "jlib \<Rightarrow> json \<Rightarrow> bool" where
  "reads_back L v \<longleftrightarrow> jl_read L (jl_write L v) = Some v"

lemma jlib_okD:
  assumes "jlib_ok L"
  shows "jl_string L (JString s) = Some s"
    and "int32 i \<Longrightarrow> jl_int L (JInt i) = Some i"
    and "jl_double L (JReal q) = Some q"
    and "jl_bool L (JBool b) = Some b"
    and "jl_write L v \<noteq> []"
  using assms by (simp_all add: jlib_ok_def)

section \<open>Access along a path\<close>

text \<open>
  \<open>Message\<close> addresses nested members by a list of keys. \<open>find_path\<close> is the loop of
  \<open>Message::find\<close>; \<open>set_path\<close> that of \<open>Message::set\<close>: missing members on the way are created
  as empty objects, the last one is removed and assigned again. On an empty list of keys
  \<open>keys.end() - 1\<close> is an iterator before the first element.
\<close>

fun find_path :: "string list \<Rightarrow> json \<Rightarrow> json option" where
  "find_path [] j = Some j"
| "find_path (k # ks) (JObject ms) =
     (case map_of ms k of None \<Rightarrow> None | Some c \<Rightarrow> find_path ks c)"
| "find_path (k # ks) _ = None"

definition enter_member :: "string \<Rightarrow> json \<Rightarrow> json res" where
  "enter_member k j =
     rbind (is_member j k) (\<lambda>m.
       if \<not> m then put_member k (JObject []) j
       else if \<not> is_object_value j then Inl (RuntimeError ''Not an object'')
       else Inr j)"

fun set_path :: "string list \<Rightarrow> json \<Rightarrow> json \<Rightarrow> json res" where
  "set_path [] v j = Inl UndefinedBehaviour"
| "set_path [k] v j = rbind (remove_member k j) (put_member k v)"
| "set_path (k # k' # ks) v j =
     rbind (enter_member k j) (\<lambda>j'.
       rbind (set_path (k' # ks) v (member_value k j')) (\<lambda>c. put_member k c j'))"

lemma obj_put_delete: "obj_sorted ms \<Longrightarrow> obj_put k v (AList.delete k ms) = obj_put k v ms"
proof (induction ms)
  case (Cons m ms)
  then have s: "obj_sorted ms" "\<forall>k' \<in> set (keys ms). fst m < k'"
    by (auto simp: obj_sorted_def)
  show ?case
  proof (cases "k = fst m")
    case True
    with s have "k \<notin> set (keys ms)" by auto
    then have d: "AList.delete k ms = ms" by (simp add: AList.delete_id)
    have "obj_put k v ms = (k, v) # ms"
      using s(2) True by (cases ms) auto
    with d True show ?thesis by (cases m) simp
  next
    case False
    with Cons.IH s(1) show ?thesis
    proof (cases "k < fst m")
      case True
      with s have "k \<notin> set (keys ms)" by force
      then have "AList.delete k ms = ms" by (simp add: AList.delete_id)
      with False show ?thesis by (cases m) simp
    qed (cases m, simp)
  qed
qed simp

lemma enter_member_object:
  "enter_member k (JObject ms) =
     Inr (JObject (if map_of ms k = None then obj_put k (JObject []) ms else ms))"
  by (simp add: enter_member_def)

lemma enter_member_null: "enter_member k JNull = Inr (JObject [(k, JObject [])])"
  by (simp add: enter_member_def)

lemma enter_member_cases:
  assumes "enter_member k j = Inr j'"
  obtains ms where "j = JObject ms" "j' = JObject (if map_of ms k = None then obj_put k (JObject []) ms else ms)"
  | "j = JNull" "j' = JObject [(k, JObject [])]"
  using assms by (cases j) (auto simp: enter_member_object enter_member_null,
      auto simp: enter_member_def)

section \<open>Laws of access along a path\<close>

lemma find_path_append:
  "find_path (ks @ ls) j = Option.bind (find_path ks j) (find_path ls)"
  by (induction ks j rule: find_path.induct) (auto split: option.split)

lemma find_path_put_member:
  assumes "put_member k v j = Inr j'"
  shows "find_path (k # ks) j' = find_path ks v"
    and "k \<noteq> k' \<Longrightarrow> find_path (k' # ks) j' = find_path (k' # ks) j"
  using assms by (cases j; auto simp: map_of_obj_put)+

lemma find_path_remove_member:
  assumes "remove_member k j = Inr j'" "k \<noteq> k'"
  shows "find_path (k' # ks) j' = find_path (k' # ks) j"
  using assms by (cases j) (auto simp: delete_conv')

lemma set_path_step:
  assumes "set_path (k # k' # ks) v j = Inr j'"
  obtains j1 c where "enter_member k j = Inr j1" "set_path (k' # ks) v (member_value k j1) = Inr c"
    "put_member k c j1 = Inr j'"
  using assms by (auto simp: rbind_Inr_iff)

text \<open>What was set is found again.\<close>

lemma find_set_same: "set_path ks v j = Inr j' \<Longrightarrow> find_path ks j' = Some v"
proof (induction ks v j arbitrary: j' rule: set_path.induct)
  case (2 k v j)
  then show ?case by (auto simp: rbind_Inr_iff find_path_put_member)
next
  case (3 k k' ks v j)
  from "3.prems" obtain j1 c where "enter_member k j = Inr j1"
    "set_path (k' # ks) v (member_value k j1) = Inr c" "put_member k c j1 = Inr j'"
    by (rule set_path_step)
  with "3.IH" show ?case by (simp add: find_path_put_member(1))
qed simp

text \<open>Members off the path keep their value.\<close>

lemma find_enter_member:
  assumes "enter_member k j = Inr j1"
  shows "k \<noteq> k' \<Longrightarrow> find_path (k' # ls) j1 = find_path (k' # ls) j"
    and "ls \<noteq> [] \<Longrightarrow> find_path ls (member_value k j1) = find_path (k # ls) j"
  using assms
  by (auto elim!: enter_member_cases simp: map_of_obj_put neq_Nil_conv split: option.split)

lemma find_set_other:
  "set_path ks v j = Inr j' \<Longrightarrow> \<not> prefix ks ls \<Longrightarrow> \<not> prefix ls ks \<Longrightarrow>
     find_path ls j' = find_path ls j"
proof (induction ks v j arbitrary: j' ls rule: set_path.induct)
  case (2 k v j)
  then obtain l ls' where ls: "ls = l # ls'" "l \<noteq> k" by (cases ls) auto
  from "2.prems"(1) obtain j1 where "remove_member k j = Inr j1" "put_member k v j1 = Inr j'"
    by (auto simp: rbind_Inr_iff)
  with ls show ?case by (simp add: find_path_put_member(2) find_path_remove_member)
next
  case (3 k k' ks v j)
  from "3.prems"(1) obtain j1 c where j1: "enter_member k j = Inr j1"
    and c: "set_path (k' # ks) v (member_value k j1) = Inr c" and j': "put_member k c j1 = Inr j'"
    by (rule set_path_step)
  from "3.prems" obtain l ls' where ls: "ls = l # ls'" by (cases ls) auto
  show ?case
  proof (cases "l = k")
    case True
    with "3.prems" ls have np: "\<not> prefix (k' # ks) ls'" "\<not> prefix ls' (k' # ks)" by auto
    then have "ls' \<noteq> []" by auto
    have "find_path ls j' = find_path ls' c"
      using j' ls True by (simp add: find_path_put_member(1))
    also have "\<dots> = find_path ls' (member_value k j1)"
      using "3.IH" [OF c np] by simp
    also have "\<dots> = find_path ls j"
      using find_enter_member(2) [OF j1 \<open>ls' \<noteq> []\<close>] ls True by simp
    finally show ?thesis .
  next
    case False
    with ls j' find_enter_member(1) [OF j1] show ?thesis
      by (simp add: find_path_put_member(2) del: find_path.simps)
  qed
qed simp

lemma json_ok_empty: "json_ok (JObject [])"
  by (simp add: obj_sorted_def)

lemma json_ok_enter_member:
  assumes "enter_member k j = Inr j1" "json_ok j"
  shows "json_ok j1"
  using assms(1)
proof (cases rule: enter_member_cases)
  case (1 ms)
  with assms(2) json_ok_put [OF _ json_ok_empty] show ?thesis
    by (auto simp del: json_ok.simps(2))
qed (simp add: obj_sorted_def)

lemma set_path_ok: "set_path ks v j = Inr j' \<Longrightarrow> json_ok j \<Longrightarrow> json_ok v \<Longrightarrow> json_ok j'"
proof (induction ks v j arbitrary: j' rule: set_path.induct)
  case (2 k v j)
  then show ?case
    by (auto simp: rbind_Inr_iff intro: json_ok_put_member json_ok_remove_member)
next
  case (3 k k' ks v j)
  from "3.prems"(1) obtain j1 c where j1: "enter_member k j = Inr j1"
    "set_path (k' # ks) v (member_value k j1) = Inr c" "put_member k c j1 = Inr j'"
    by (rule set_path_step)
  moreover from j1(1) "3.prems"(2) have "json_ok j1" by (rule json_ok_enter_member)
  ultimately show ?case
    using "3.IH" "3.prems"(3) by (auto intro: json_ok_put_member json_ok_member_value)
qed simp

text \<open>
  Setting succeeds exactly when the path is not empty and no value on the way to its last
  key is something else than an object or null.
\<close>

definition passable :: "json \<Rightarrow> bool" where
  "passable j \<longleftrightarrow> is_object_value j \<or> is_null_value j"

lemma passable_iff: "passable j \<longleftrightarrow> (\<exists>ms. j = JObject ms) \<or> j = JNull"
  by (cases j) (auto simp: passable_def)

lemma set_path_defined:
  "(\<exists>j'. set_path ks v j = Inr j') \<longleftrightarrow>
     ks \<noteq> [] \<and> (\<forall>p c. strict_prefix p ks \<and> find_path p j = Some c \<longrightarrow> passable c)"
proof (induction ks v j rule: set_path.induct)
  case (2 k v j)
  have "strict_prefix p [k] \<longleftrightarrow> p = []" for p
    by (auto simp: strict_prefix_def prefix_Cons)
  then have "(\<forall>p c. strict_prefix p [k] \<and> find_path p j = Some c \<longrightarrow> passable c) \<longleftrightarrow> passable j"
    by auto
  then show ?case by (cases j) (auto simp: passable_def)
next
  case (3 k k' ks v j)
  let ?P = "\<lambda>ks j. \<forall>p c. strict_prefix p ks \<and> find_path p j = Some c \<longrightarrow> passable c"
  have split: "?P (k # k' # ks) j \<longleftrightarrow>
      passable j \<and> (\<forall>c. find_path [k] j = Some c \<longrightarrow> ?P (k' # ks) c)" (is "?a \<longleftrightarrow> ?b")
  proof
    assume a: ?a
    then have "passable j" by (metis Nil_prefix find_path.simps(1) list.distinct(1) strict_prefix_def)
    moreover have "?P (k' # ks) c" if "find_path [k] j = Some c" for c
    proof (intro allI impI)
      fix p d assume p: "strict_prefix p (k' # ks) \<and> find_path p c = Some d"
      with that have "find_path (k # p) j = Some d"
        using find_path_append [of "[k]" p j] by simp
      with a p show "passable d" by (metis prefix_order.less_le Cons_prefix_Cons list.inject)
    qed
    ultimately show ?b by blast
  next
    assume b: ?b
    show ?a
    proof (intro allI impI)
      fix p d assume p: "strict_prefix p (k # k' # ks) \<and> find_path p j = Some d"
      show "passable d"
      proof (cases p)
        case Nil
        with p b show ?thesis by simp
      next
        case (Cons l p')
        with p have l: "l = k" "strict_prefix p' (k' # ks)" by (auto simp: strict_prefix_def)
        with p Cons find_path_append [of "[k]" p' j] obtain c
          where "find_path [k] j = Some c" "find_path p' c = Some d"
          by (auto split: Option.bind_splits)
        with b l show ?thesis by blast
      qed
    qed
  qed
  have fresh: "?P (k' # ks) (JObject [])"
  proof (intro allI impI)
    fix p c assume "strict_prefix p (k' # ks) \<and> find_path p (JObject []) = Some c"
    then show "passable c" by (cases p) (auto simp: passable_def)
  qed
  show ?case
  proof (cases "passable j")
    case False
    then have "enter_member k j = Inl JsonLogicError"
      by (cases j) (auto simp: passable_def enter_member_def)
    with False split show ?thesis by simp
  next
    case True
    then obtain j1 where j1: "enter_member k j = Inr j1"
      by (auto simp: passable_iff enter_member_object enter_member_null)
    have put: "\<exists>j'. put_member k c j1 = Inr j'" for c
      using j1 by (auto elim!: enter_member_cases)
    have mv: "?P (k' # ks) (member_value k j1) \<longleftrightarrow> (\<forall>c. find_path [k] j = Some c \<longrightarrow> ?P (k' # ks) c)"
      using j1 fresh by (auto elim!: enter_member_cases simp: map_of_obj_put split: option.splits)
    have "(\<exists>j'. set_path (k # k' # ks) v j = Inr j') \<longleftrightarrow>
        (\<exists>c. set_path (k' # ks) v (member_value k j1) = Inr c)"
      using put by (auto simp: j1 rbind_Inr_iff)
    also have "\<dots> \<longleftrightarrow> ?P (k' # ks) (member_value k j1)"
      using "3.IH" by simp
    finally show ?thesis using mv split True by simp
  qed
qed simp

lemma set_path_fresh:
  "ks \<noteq> [] \<Longrightarrow> map_of ms (hd ks) = None \<Longrightarrow> \<exists>j'. set_path ks v (JObject ms) = Inr j'"
  by (subst set_path_defined)
    (auto simp: neq_Nil_conv passable_def strict_prefix_def prefix_Cons)

text \<open>The interface through which messages are read and written, on abstract paths.\<close>

locale path_store =
  fixes find_at :: "'p list \<Rightarrow> 'd \<Rightarrow> 'v option"
    and set_at :: "'p list \<Rightarrow> 'v \<Rightarrow> 'd \<Rightarrow> 'd res"
    and ok :: "'d \<Rightarrow> bool"
    and okv :: "'v \<Rightarrow> bool"
  assumes find_same: "set_at ks v d = Inr d' \<Longrightarrow> find_at ks d' = Some v"
    and find_other: "set_at ks v d = Inr d' \<Longrightarrow> \<not> prefix ks ls \<Longrightarrow> \<not> prefix ls ks \<Longrightarrow>
      find_at ls d' = find_at ls d"
    and set_ok: "set_at ks v d = Inr d' \<Longrightarrow> ok d \<Longrightarrow> okv v \<Longrightarrow> ok d'"
begin

lemma set_set_find:
  assumes "set_at ks v d = Inr d1" "set_at ls w d1 = Inr d2" "\<not> prefix ks ls" "\<not> prefix ls ks"
  shows "find_at ks d2 = Some v \<and> find_at ls d2 = Some w"
  using assms find_same find_other by metis

lemma find_other_single:
  assumes "set_at [k] v d = Inr d'" "k \<noteq> l"
  shows "find_at (l # ls) d' = find_at (l # ls) d"
  using assms find_other by simp

end

interpretation jp: path_store find_path set_path json_ok json_ok
  by unfold_locales (fact find_set_same, fact find_set_other, fact set_path_ok)

end
