(* ===== verification/Nix_Message.thy ===== *)
theory Nix_Message
  imports Nix_Json
begin

text \<open>
  \<open>nix::Message\<close> (src/src/nix/message.hxx, message.cxx), the value wrappers of
  src/src/nix/message/value.cxx and the status codes of src/src/nix/status_code.hxx. The state
  of a message is its root value; a member function that changes it returns the new root or
  the exception that leaves it.
\<close>

section \<open>Status codes\<close>

datatype status_code =
    Null_value
  | Ok
  | Fail
  | Not_ready
  | Service_unavailable
  | Temporary_failue
  | Access_denied
  | Auth_unauthorized
  | Temp_limit_reached
  | Data_invalid_content

fun code_of :: "status_code \<Rightarrow> int" where
  "code_of Null_value = - 1"
| "code_of Ok = 0"
| "code_of Fail = 1"
| "code_of Not_ready = 2"
| "code_of Service_unavailable = 3"
| "code_of Temporary_failue = 4"
| "code_of Access_denied = 51"
| "code_of Auth_unauthorized = 101"
| "code_of Temp_limit_reached = 201"
| "code_of Data_invalid_content = 501"

lemma code_of_inj: "code_of a = code_of b \<longleftrightarrow> a = b"
  by (cases a; cases b) simp_all

lemma code_of_int32 [simp]: "int32 (code_of a)"
  by (cases a) (simp_all add: int32_def)

section \<open>Value wrappers\<close>

definition object_value :: "json \<Rightarrow> json" where
  "object_value v = (if is_object_value v then v else JObject [])"

definition array_value :: "json \<Rightarrow> json" where
  "array_value v = (if is_array_value v then v else JArray [])"

definition value_to_string :: "jlib \<Rightarrow> json \<Rightarrow> bool \<Rightarrow> string" where
  "value_to_string L v pretty = (if pretty then jl_styled L v else jl_write L v)"

section \<open>Construction, parsing, text\<close>

definition message_new :: json where
  "message_new = JObject []"

text \<open>An empty text leaves the root as it is.\<close>

definition message_parse :: "jlib \<Rightarrow> string \<Rightarrow> json \<Rightarrow> json res" where
  "message_parse L s doc =
     (if s = [] then Inr doc
      else case jl_read L s of
             None \<Rightarrow> Inl (RuntimeError (jl_error L s))
           | Some v \<Rightarrow> Inr v)"

definition message_clear :: "json \<Rightarrow> json res" where
  "message_clear doc = clear_value doc"

definition message_find :: "string \<Rightarrow> json \<Rightarrow> json option" where
  "message_find k doc =
     (let ks = split k ''.''
      in if is_array_value doc then None else find_path ks doc)"

definition message_to_string :: "jlib \<Rightarrow> string \<Rightarrow> bool \<Rightarrow> json \<Rightarrow> string" where
  "message_to_string L k pretty doc =
     (if k \<noteq> [] then
        (case message_find k doc of
           Some v \<Rightarrow> if pretty then jl_styled L v else jl_write L v
         | None \<Rightarrow> jl_write L JNull)
      else if pretty then jl_styled L doc
      else jl_write L doc)"

section \<open>Getters\<close>

definition get_raw_value :: "string \<Rightarrow> json \<Rightarrow> json" where
  "get_raw_value k doc = (case message_find k doc of Some v \<Rightarrow> v | None \<Rightarrow> JNull)"

text \<open>All typed getters have one shape: find, test, convert, or the default.\<close>

definition get_as :: "(json \<Rightarrow> 'a option) \<Rightarrow> string \<Rightarrow> 'a \<Rightarrow> json \<Rightarrow> 'a" where
  "get_as conv k d doc =
     (case message_find k doc of
        None \<Rightarrow> d
      | Some v \<Rightarrow> (case conv v of None \<Rightarrow> d | Some x \<Rightarrow> x))"

definition get_string :: "jlib \<Rightarrow> string \<Rightarrow> string \<Rightarrow> json \<Rightarrow> string" where
  "get_string L k d doc = get_as (jl_string L) k d doc"

definition get_int :: "jlib \<Rightarrow> string \<Rightarrow> int \<Rightarrow> json \<Rightarrow> int" where
  "get_int L k d doc = get_as (jl_int L) k d doc"

definition get_double :: "jlib \<Rightarrow> string \<Rightarrow> rat \<Rightarrow> json \<Rightarrow> rat" where
  "get_double L k d doc = get_as (jl_double L) k d doc"

definition get_int64 :: "jlib \<Rightarrow> string \<Rightarrow> int \<Rightarrow> json \<Rightarrow> int" where
  "get_int64 L k d doc = get_as (jl_int64 L) k d doc"

definition get_bool :: "jlib \<Rightarrow> string \<Rightarrow> bool \<Rightarrow> json \<Rightarrow> bool" where
  "get_bool L k d doc = get_as (jl_bool L) k d doc"

definition message_exists :: "string \<Rightarrow> json \<Rightarrow> bool" where
  "message_exists k doc = (message_find k doc \<noteq> None)"

definition message_is_null :: "string \<Rightarrow> json \<Rightarrow> bool" where
  "message_is_null k doc =
     (case message_find k doc of None \<Rightarrow> True | Some v \<Rightarrow> is_null_value v)"

definition message_is_array :: "string \<Rightarrow> json \<Rightarrow> bool" where
  "message_is_array k doc =
     (case message_find k doc of None \<Rightarrow> False | Some v \<Rightarrow> is_array_value v)"

definition message_is_object :: "string \<Rightarrow> json \<Rightarrow> bool" where
  "message_is_object k doc =
     (case message_find k doc of None \<Rightarrow> False | Some v \<Rightarrow> is_object_value v)"

definition get_array :: "string \<Rightarrow> json \<Rightarrow> json \<Rightarrow> json" where
  "get_array k d doc =
     (if message_is_array k doc then array_value (get_raw_value k doc) else d)"

text \<open>\<open>get_meta\<close> is \<open>get\<close> on the key behind an at sign.\<close>

definition meta_key :: "string \<Rightarrow> string" where
  "meta_key k = CHR ''@'' # k"

definition get_meta :: "jlib \<Rightarrow> string \<Rightarrow> string \<Rightarrow> json \<Rightarrow> string" where
  "get_meta L k d doc = get_string L (meta_key k) d doc"

section \<open>Setters\<close>

definition message_set :: "string \<Rightarrow> json \<Rightarrow> json \<Rightarrow> json res" where
  "message_set k v doc = set_path (split k ''.'') v doc"

definition set_object :: "string \<Rightarrow> json \<Rightarrow> json res" where
  "set_object k doc = message_set k (object_value (JObject [])) doc"

definition set_array :: "string \<Rightarrow> json \<Rightarrow> json res" where
  "set_array k doc = message_set k (array_value (JArray [])) doc"

definition set_null :: "string \<Rightarrow> json \<Rightarrow> json res" where
  "set_null k doc = message_set k JNull doc"

definition set_deserialized :: "jlib \<Rightarrow> string \<Rightarrow> string \<Rightarrow> json \<Rightarrow> json res" where
  "set_deserialized L k text doc =
     (case jl_read L text of
        None \<Rightarrow> Inl (RuntimeError (jl_error L text))
      | Some v \<Rightarrow> message_set k v doc)"

definition set_meta :: "string \<Rightarrow> json \<Rightarrow> json \<Rightarrow> json res" where
  "set_meta k v doc = put_member (meta_key k) v doc"

definition set_status_code :: "status_code \<Rightarrow> json \<Rightarrow> json res" where
  "set_status_code st doc = put_member ''@status_code'' (JInt (code_of st)) doc"

definition set_status_msg :: "string \<Rightarrow> json \<Rightarrow> json res" where
  "set_status_msg msg doc = put_member ''@status'' (JString msg) doc"

definition set_status :: "status_code \<Rightarrow> string \<Rightarrow> json \<Rightarrow> json res" where
  "set_status st msg doc = rbind (set_status_code st doc) (set_status_msg msg)"

text \<open>
  \<open>append\<close> walks the whole path, then turns an empty value into an array and adds to it.
\<close>

fun append_path :: "string list \<Rightarrow> json \<Rightarrow> json \<Rightarrow> json res" where
  "append_path [] v j =
     (let a = (if is_empty_value j then JArray [] else j)
      in case a of JArray xs \<Rightarrow> Inr (JArray (xs @ [v])) | _ \<Rightarrow> Inl (RuntimeError ''Not an array''))"
| "append_path (k # ks) v j =
     rbind (enter_member k j) (\<lambda>j1.
       rbind (append_path ks v (member_value k j1)) (\<lambda>c. put_member k c j1))"

definition message_append :: "string \<Rightarrow> json \<Rightarrow> json \<Rightarrow> json res" where
  "message_append k v doc = append_path (split k ''.'') v doc"

definition append_null :: "string \<Rightarrow> json \<Rightarrow> json res" where
  "append_null k doc = message_append k JNull doc"

fun remove_path :: "string list \<Rightarrow> json \<Rightarrow> json res" where
  "remove_path [] j = Inl UndefinedBehaviour"
| "remove_path [k] j = remove_member k j"
| "remove_path (k # k' # ks) j =
     rbind (enter_member k j) (\<lambda>j1.
       rbind (remove_path (k' # ks) (member_value k j1)) (\<lambda>c. put_member k c j1))"

definition message_remove :: "string \<Rightarrow> json \<Rightarrow> json res" where
  "message_remove k doc = remove_path (split k ''.'') doc"

section \<open>Keys\<close>

definition plain_key :: "string \<Rightarrow> bool" where
  "plain_key k \<longleftrightarrow> k \<noteq> [] \<and> CHR ''.'' \<notin> set k"

lemma split_plain: "plain_key k \<Longrightarrow> split k ''.'' = [k]"
  by (auto simp: plain_key_def split_tokens intro: tokens_single)

lemma split_dot: "split (k @ CHR ''.'' # l) ''.'' = split k ''.'' @ split l ''.''"
  by (simp add: split_tokens tokens_append_delim)

lemma split_dotted: "plain_key k \<Longrightarrow> split (k @ CHR ''.'' # l) ''.'' = k # split l ''.''"
  by (simp add: split_dot split_plain)

lemma split_eq_Nil: "split k ''.'' = [] \<longleftrightarrow> set k \<subseteq> {CHR ''.''}"
  by (auto simp: split_tokens tokens_eq_Nil_iff)

lemma split_key_parts: "p \<in> set (split k ''.'') \<Longrightarrow> plain_key p"
  using tokens_shape [of p "\<lambda>c. c \<in> set ''.''" k] by (auto simp: split_tokens plain_key_def)

lemma plain_meta_key: "CHR ''.'' \<notin> set k \<Longrightarrow> plain_key (meta_key k)"
  by (simp add: plain_key_def meta_key_def)

section \<open>Laws of messages\<close>

lemma put_member_object: "put_member k v j = Inr j' \<Longrightarrow> \<exists>ms. j' = JObject ms"
  by (cases j) auto

lemma set_path_object: "set_path ks v j = Inr j' \<Longrightarrow> \<exists>ms. j' = JObject ms"
  by (induction ks v j rule: set_path.induct) (auto simp: rbind_Inr_iff dest: put_member_object)

lemma find_path_Nil_None: "find_path ks j = None \<Longrightarrow> ks \<noteq> []"
  by auto

lemma message_find_object: "message_find k (JObject ms) = find_path (split k ''.'') (JObject ms)"
  by (simp add: message_find_def)

lemma message_find_plain: "plain_key k \<Longrightarrow> message_find k (JObject ms) = map_of ms k"
  by (simp add: message_find_object split_plain split: option.split)

lemma message_find_set:
  assumes "message_set k v doc = Inr doc'"
  shows "message_find k doc' = Some v"
proof -
  from assms obtain ms where "doc' = JObject ms"
    unfolding message_set_def by (auto dest: set_path_object)
  with assms show ?thesis
    by (auto simp: message_set_def message_find_object dest: find_set_same)
qed

lemma set_path_passable: "set_path ks v j = Inr j' \<Longrightarrow> passable j"
  by (induction ks v j rule: set_path.induct)
    (auto simp: rbind_Inr_iff passable_iff elim!: remove_member.elims enter_member_cases)

lemma message_set_not_array: "message_set k v doc = Inr doc' \<Longrightarrow> \<not> is_array_value doc"
  unfolding message_set_def by (drule set_path_passable) (auto simp: passable_iff)

lemma message_find_set_other:
  assumes "message_set k v doc = Inr doc'"
    "\<not> prefix (split k ''.'') (split l ''.'')" "\<not> prefix (split l ''.'') (split k ''.'')"
  shows "message_find l doc' = message_find l doc"
proof -
  from assms(1) obtain ms where "doc' = JObject ms"
    unfolding message_set_def by (auto dest: set_path_object)
  moreover have "find_path (split l ''.'') doc' = find_path (split l ''.'') doc"
    using find_set_other assms unfolding message_set_def by blast
  ultimately show ?thesis
    using message_set_not_array [OF assms(1)] by (simp add: message_find_def)
qed

lemma message_set_plain:
  "plain_key k \<Longrightarrow> obj_sorted ms \<Longrightarrow> message_set k v (JObject ms) = Inr (JObject (obj_put k v ms))"
  by (simp add: message_set_def split_plain obj_put_delete)

lemma message_set_ok:
  "message_set k v doc = Inr doc' \<Longrightarrow> json_ok doc \<Longrightarrow> json_ok v \<Longrightarrow> json_ok doc'"
  by (simp add: message_set_def set_path_ok)

lemma message_set_empty:
  "\<not> set k \<subseteq> {CHR ''.''} \<Longrightarrow> \<exists>doc'. message_set k v (JObject []) = Inr doc'"
  unfolding message_set_def by (rule set_path_fresh) (auto simp: split_eq_Nil)

lemma message_set_only_dots: "set k \<subseteq> {CHR ''.''} \<Longrightarrow> message_set k v doc = Inl UndefinedBehaviour"
proof -
  assume "set k \<subseteq> {CHR ''.''}"
  then have "split k ''.'' = []" by (simp only: split_eq_Nil)
  then show ?thesis by (simp add: message_set_def)
qed

lemma set_status_object:
  "set_status st msg (JObject ms) =
     Inr (JObject (obj_put ''@status'' (JString msg) (obj_put ''@status_code'' (JInt (code_of st)) ms)))"
  by (simp add: set_status_def set_status_code_def set_status_msg_def)

lemma get_as_found: "message_find k doc = Some v \<Longrightarrow> conv v = Some x \<Longrightarrow> get_as conv k d doc = x"
  by (simp add: get_as_def)

lemma get_as_missing: "message_find k doc = None \<Longrightarrow> get_as conv k d doc = d"
  by (simp add: get_as_def)

lemmas getter_defs = get_string_def get_int_def get_double_def get_int64_def get_bool_def
  get_meta_def

end
