(* ===== verification/Nix_Reference.thy ===== *)
theory Nix_Reference
  imports Nix_Message
begin

text \<open>
  An instance of \<open>jlib\<close>: a textual form of values and its reader, written as length-prefixed
  items so that reading back is easy to prove, and the conversions of numbers, booleans and
  null. It is no model of jsoncpp's own text format. Its purpose is to show that what the
  properties assume of the library can hold, and to give them concrete inputs.
\<close>

section \<open>Numbers in a text\<close>

text \<open>A number ends at the first character that is no digit.\<close>

definition read_nat :: "string \<Rightarrow> nat \<times> string" where
  "read_nat s = (digits_value (takeWhile is_digit s), dropWhile is_digit s)"

lemma read_nat_decimal:
  assumes "\<not> is_digit c"
  shows "read_nat (decimal n @ c # s) = (n, c # s)"
proof -
  have "takeWhile is_digit (decimal n @ c # s) = decimal n"
    using assms decimal_digits by (subst takeWhile_append2) auto
  moreover have "dropWhile is_digit (decimal n @ c # s) = c # s"
    using assms decimal_digits by (subst dropWhile_append2) auto
  ultimately show ?thesis by (simp add: read_nat_def digits_value_decimal)
qed

section \<open>Writing and reading values\<close>

definition write_int :: "int \<Rightarrow> string" where
  "write_int i = (if i < 0 then ''-'' else ''+'') @ decimal (nat \<bar>i\<bar>) @ '';''"

definition write_str :: "string \<Rightarrow> string" where
  "write_str s = decimal (length s) @ '':'' @ s"

fun ref_write :: "json \<Rightarrow> string" where
  "ref_write JNull = ''n''"
| "ref_write (JInt i) = ''i'' @ write_int i"
| "ref_write (JUInt n) = ''u'' @ decimal n @ '';''"
| "ref_write (JReal q) = ''r'' @ write_int (fst (quotient_of q)) @ write_int (snd (quotient_of q))"
| "ref_write (JString s) = ''s'' @ write_str s"
| "ref_write (JBool b) = (if b then ''t'' else ''f'')"
| "ref_write (JArray xs) = ''['' @ concat (map ref_write xs) @ '']''"
| "ref_write (JObject ms) = ''{'' @ concat (map (\<lambda>m. '','' @ write_str (fst m) @ ref_write (snd m)) ms) @ ''}''"

definition read_int :: "string \<Rightarrow> int \<times> string" where
  "read_int s = (let (n, r) = read_nat (tl s) in (if hd s = CHR ''-'' then - int n else int n, tl r))"

definition read_str :: "string \<Rightarrow> string \<times> string" where
  "read_str s = (let (n, r) = read_nat s in (take n (tl r), drop n (tl r)))"

text \<open>The reader takes fuel; the length of the text is enough.\<close>

fun read_value :: "nat \<Rightarrow> string \<Rightarrow> (json \<times> string) option"
  and read_items :: "nat \<Rightarrow> string \<Rightarrow> (json list \<times> string) option"
  and read_members :: "nat \<Rightarrow> string \<Rightarrow> ((string \<times> json) list \<times> string) option"
where
  "read_value 0 s = None"
| "read_value (Suc n) [] = None"
| "read_value (Suc n) (c # s) =
     (if c = CHR ''n'' then Some (JNull, s)
      else if c = CHR ''i'' then (let (i, r) = read_int s in Some (JInt i, r))
      else if c = CHR ''u'' then (let (i, r) = read_nat s in Some (JUInt i, tl r))
      else if c = CHR ''r'' then
        (let (a, r) = read_int s; (b, r') = read_int r in Some (JReal (Fract a b), r'))
      else if c = CHR ''s'' then (let (t, r) = read_str s in Some (JString t, r))
      else if c = CHR ''t'' then Some (JBool True, s)
      else if c = CHR ''f'' then Some (JBool False, s)
      else if c = CHR ''['' then map_option (\<lambda>(xs, r). (JArray xs, r)) (read_items n s)
      else if c = CHR ''{'' then map_option (\<lambda>(ms, r). (JObject ms, r)) (read_members n s)
      else None)"
| "read_items 0 s = None"
| "read_items (Suc n) s =
     (if s = [] then None
      else if hd s = CHR '']'' then Some ([], tl s)
      else case read_value n s of None \<Rightarrow> None
           | Some (x, r) \<Rightarrow> map_option (\<lambda>(xs, r'). (x # xs, r')) (read_items n r))"
| "read_members 0 s = None"
| "read_members (Suc n) s =
     (if s = [] then None
      else if hd s = CHR ''}'' then Some ([], tl s)
      else let (k, r) = read_str (tl s)
           in case read_value n r of None \<Rightarrow> None
              | Some (x, r') \<Rightarrow> map_option (\<lambda>(ms, r''). ((k, x) # ms, r'')) (read_members n r'))"

definition ref_read :: "string \<Rightarrow> json option" where
  "ref_read s = map_option fst (read_value (Suc (length s)) s)"

lemma read_int_write: "read_int (write_int i @ s) = (i, s)"
proof -
  have "\<not> is_digit CHR '';''" by (simp add: is_digit_def)
  then have "read_nat (decimal n @ CHR '';'' # s) = (n, CHR '';'' # s)" for n
    by (rule read_nat_decimal)
  then show ?thesis by (simp add: read_int_def write_int_def)
qed

lemma read_str_write: "read_str (write_str t @ s) = (t, s)"
proof -
  have "\<not> is_digit CHR '':''" by (simp add: is_digit_def)
  then have "read_nat (decimal (length t) @ CHR '':'' # t @ s) = (length t, CHR '':'' # t @ s)"
    by (rule read_nat_decimal)
  then show ?thesis by (simp add: read_str_def write_str_def)
qed

lemma ref_write_hd:
  "ref_write v \<noteq> []" "hd (ref_write v @ s) \<noteq> CHR '']''"
  by (cases v; simp)+

lemma length_write_pos: "0 < length (ref_write v)"
  by (simp add: ref_write_hd)

lemma read_items_write:
  assumes "\<And>x r n. x \<in> set xs \<Longrightarrow> length (ref_write x) \<le> n \<Longrightarrow>
      read_value n (ref_write x @ r) = Some (x, r)"
    and "length (concat (map ref_write xs)) < n"
  shows "read_items n (concat (map ref_write xs) @ CHR '']'' # s) = Some (xs, s)"
  using assms
proof (induction xs arbitrary: n)
  case Nil
  then show ?case by (cases n) auto
next
  case (Cons x xs)
  then obtain m where n: "n = Suc m" by (cases n) auto
  let ?r = "concat (map ref_write xs) @ CHR '']'' # s"
  have "read_value m (ref_write x @ ?r) = Some (x, ?r)"
    using Cons.prems n by simp
  moreover have "length (concat (map ref_write xs)) < m"
    using Cons.prems(2) n length_write_pos [of x] by (simp del: length_greater_0_conv)
  with Cons have "read_items m ?r = Some (xs, s)" by simp
  ultimately show ?case
    using n ref_write_hd [of x] ref_write_hd(2) [of x ?r] by simp
qed

lemma read_members_write:
  assumes "\<And>m r n. m \<in> set ms \<Longrightarrow> length (ref_write (snd m)) \<le> n \<Longrightarrow>
      read_value n (ref_write (snd m) @ r) = Some (snd m, r)"
    and "length (concat (map (\<lambda>m. '','' @ write_str (fst m) @ ref_write (snd m)) ms)) < n"
  shows "read_members n
      (concat (map (\<lambda>m. '','' @ write_str (fst m) @ ref_write (snd m)) ms) @ CHR ''}'' # s)
    = Some (ms, s)"
  using assms
proof (induction ms arbitrary: n)
  case Nil
  then show ?case by (cases n) auto
next
  case (Cons x ms)
  then obtain m where n: "n = Suc m" by (cases n) auto
  let ?r = "concat (map (\<lambda>m. '','' @ write_str (fst m) @ ref_write (snd m)) ms) @ CHR ''}'' # s"
  have "read_value m (ref_write (snd x) @ ?r) = Some (snd x, ?r)"
    using Cons.prems n by simp
  moreover have "read_members m ?r = Some (ms, s)"
    using Cons n by simp
  moreover have "read_str (write_str (fst x) @ ref_write (snd x) @ ?r)
      = (fst x, ref_write (snd x) @ ?r)"
    by (rule read_str_write)
  ultimately show ?case using n by simp
qed

lemma fuel_Suc: "length (ref_write v) \<le> n \<Longrightarrow> \<exists>m. n = Suc m"
  using length_write_pos [of v] by (cases n) auto

lemma Fract_quotient_of: "Fract (fst (quotient_of q)) (snd (quotient_of q)) = q"
  by (metis prod.collapse quotient_of_div Fract_of_int_quotient)

lemma read_value_write:
  "length (ref_write v) \<le> n \<Longrightarrow> read_value n (ref_write v @ s) = Some (v, s)"
proof (induction v arbitrary: n s)
  case (JUInt k)
  then obtain m where "n = Suc m" using fuel_Suc by blast
  moreover have "read_nat (decimal k @ CHR '';'' # s) = (k, CHR '';'' # s)"
    by (rule read_nat_decimal) (simp add: is_digit_def)
  ultimately show ?case by simp
next
  case (JReal q)
  then obtain m where "n = Suc m" using fuel_Suc by blast
  then show ?case by (simp add: read_int_write Fract_quotient_of)
next
  case (JArray xs)
  then obtain m where n: "n = Suc m" using fuel_Suc by blast
  have "read_items m (concat (map ref_write xs) @ CHR '']'' # s) = Some (xs, s)"
  proof (rule read_items_write)
    fix x r k
    assume "x \<in> set xs" "length (ref_write x) \<le> k"
    then show "read_value k (ref_write x @ r) = Some (x, r)" by (rule JArray.IH)
  qed (use JArray.prems n in simp)
  with n show ?case by simp
next
  case (JObject ms)
  then obtain m where n: "n = Suc m" using fuel_Suc by blast
  have "read_members m
      (concat (map (\<lambda>m. '','' @ write_str (fst m) @ ref_write (snd m)) ms) @ CHR ''}'' # s)
    = Some (ms, s)"
  proof (rule read_members_write)
    fix x r k
    assume x: "x \<in> set ms" and le: "length (ref_write (snd x)) \<le> k"
    have "snd x \<in> Basic_BNFs.snds x" by (cases x) simp
    with x le show "read_value k (ref_write (snd x) @ r) = Some (snd x, r)"
      by (intro JObject.IH)
  qed (use JObject.prems n in simp)
  with n show ?case by simp
next
  case JNull
  then obtain m where "n = Suc m" using fuel_Suc by blast
  then show ?case by simp
next
  case (JInt i)
  then obtain m where "n = Suc m" using fuel_Suc by blast
  then show ?case by (simp add: read_int_write)
next
  case (JString t)
  then obtain m where "n = Suc m" using fuel_Suc by blast
  then show ?case by (simp add: read_str_write)
next
  case (JBool b)
  then obtain m where "n = Suc m" using fuel_Suc by blast
  then show ?case by simp
qed

lemma ref_read_write: "ref_read (ref_write v) = Some v"
  using read_value_write [of v "Suc (length (ref_write v))" "[]"]
  by (simp add: ref_read_def del: read_value.simps)

section \<open>Conversions and the library\<close>

fun ref_string :: "json \<Rightarrow> string option" where
  "ref_string (JString s) = Some s"
| "ref_string JNull = Some []"
| "ref_string (JBool b) = Some (if b then ''true'' else ''false'')"
| "ref_string (JInt i) = Some ((if i < 0 then ''-'' else []) @ decimal (nat \<bar>i\<bar>))"
| "ref_string (JUInt n) = Some (decimal n)"
| "ref_string _ = None"

fun ref_int64 :: "json \<Rightarrow> int option" where
  "ref_int64 (JInt i) = Some i"
| "ref_int64 (JUInt n) = (if n < 2 ^ 63 then Some (int n) else None)"
| "ref_int64 _ = None"

definition ref_int :: "json \<Rightarrow> int option" where
  "ref_int v = (case ref_int64 v of Some i \<Rightarrow> if int32 i then Some i else None | None \<Rightarrow> None)"

fun ref_double :: "json \<Rightarrow> rat option" where
  "ref_double (JReal q) = Some q"
| "ref_double (JInt i) = Some (of_int i)"
| "ref_double (JUInt n) = Some (of_nat n)"
| "ref_double _ = None"

fun ref_bool :: "json \<Rightarrow> bool option" where
  "ref_bool (JBool b) = Some b"
| "ref_bool JNull = Some False"
| "ref_bool (JInt i) = Some (i \<noteq> 0)"
| "ref_bool (JUInt n) = Some (n \<noteq> 0)"
| "ref_bool (JReal q) = Some (q \<noteq> 0)"
| "ref_bool _ = None"

definition ref_lib :: jlib where
  "ref_lib = \<lparr>jl_read = ref_read, jl_error = (\<lambda>_. ''syntax error''),
     jl_write = ref_write, jl_styled = ref_write, jl_string = ref_string, jl_int = ref_int,
     jl_double = ref_double, jl_int64 = ref_int64, jl_bool = ref_bool\<rparr>"

lemma ref_lib_simps [simp]:
  "jl_write ref_lib v = ref_write v"
  "jl_read ref_lib (ref_write v) = Some v"
  "jl_string ref_lib v = ref_string v"
  "jl_int ref_lib v = ref_int v"
  "jl_double ref_lib v = ref_double v"
  "jl_int64 ref_lib v = ref_int64 v"
  "jl_bool ref_lib v = ref_bool v"
  by (simp_all add: ref_lib_def ref_read_write)

lemma ref_lib_ok [simp]: "jlib_ok ref_lib"
  by (simp add: jlib_ok_def ref_int_def ref_write_hd)

lemma ref_lib_reads_back [simp]: "reads_back ref_lib v"
  by (simp add: reads_back_def)

end
