(* ===== verification/Nix_Job.thy ===== *)
theory Nix_Job
  imports Nix_Reference
begin

text \<open>
  \<open>nix::Job\<close> (src/src/nix/job.hxx, job.cxx). The static UUID generator of \<open>set_id\<close> is a
  parameter: \<open>rg n\<close> is the \<open>n\<close>-th identifier it hands out, and functions that may draw one
  take and return the number of those drawn so far. The clock is the parameter \<open>now\<close>.
\<close>

section \<open>State and operations\<close>

record job =
  j_id :: string
  j_origin_node :: string
  j_module :: string
  j_action :: string
  j_api_key :: string
  j_progress :: rat
  j_ctime :: int
  j_completed :: bool
  j_parameters :: json

definition job_blank :: job where
  "job_blank = \<lparr>j_id = [], j_origin_node = [], j_module = [], j_action = [], j_api_key = [],
     j_progress = 0, j_ctime = 0, j_completed = False, j_parameters = message_new\<rparr>"

definition job_set_id :: "(nat \<Rightarrow> string) \<Rightarrow> string \<Rightarrow> job \<Rightarrow> nat \<Rightarrow> job \<times> nat" where
  "job_set_id rg ident j n =
     (if ident \<noteq> [] then (j\<lparr>j_id := ident\<rparr>, n) else (j\<lparr>j_id := rg n\<rparr>, Suc n))"

definition job_init :: "(nat \<Rightarrow> string) \<Rightarrow> int \<Rightarrow> job \<Rightarrow> nat \<Rightarrow> job \<times> nat" where
  "job_init rg now j n =
     (let (j1, n1) = (if j_id j = [] then job_set_id rg [] j n else (j, n))
      in (if j_ctime j1 = 0 then j1\<lparr>j_ctime := narrow32 now\<rparr> else j1, n1))"

definition job_default :: "(nat \<Rightarrow> string) \<Rightarrow> int \<Rightarrow> nat \<Rightarrow> job \<times> nat" where
  "job_default rg now n = job_init rg now job_blank n"

definition job_from_message :: "jlib \<Rightarrow> json \<Rightarrow> job \<Rightarrow> job" where
  "job_from_message L msg j = j\<lparr>
     j_id := get_meta L ''job_id'' [] msg,
     j_api_key := get_meta L ''api_key'' [] msg,
     j_origin_node := get_meta L ''origin_node'' [] msg,
     j_module := get_string L ''module'' [] msg,
     j_action := get_string L ''action'' [] msg,
     j_ctime := get_int L ''ctime'' 0 msg,
     j_progress := get_double L ''progress'' 0 msg,
     j_completed := get_bool L ''completed'' False msg,
     j_parameters := get_raw_value ''parameters'' msg\<rparr>"

text \<open>
  \<open>Job(const Message&)\<close> delegates to the default constructor, which draws an identifier
  and reads the clock, overwrites every field from the message, and completes what is empty.
\<close>

definition job_of_message :: "jlib \<Rightarrow> (nat \<Rightarrow> string) \<Rightarrow> int \<Rightarrow> json \<Rightarrow> nat \<Rightarrow> job \<times> nat" where
  "job_of_message L rg now msg n =
     (let (j0, n1) = job_default rg now n
      in job_init rg now (job_from_message L msg j0) n1)"

text \<open>The message built by \<open>to_string\<close>, statement by statement.\<close>

definition job_out :: "job \<Rightarrow> json res" where
  "job_out j =
     rbind (set_meta ''job_id'' (JString (j_id j)) message_new) (\<lambda>o1.
     rbind (set_meta ''origin_node'' (JString (j_origin_node j)) o1) (\<lambda>o2.
     rbind (set_meta ''api_key'' (JString (j_api_key j)) o2) (\<lambda>o3.
     rbind (message_set ''module'' (JString (j_module j)) o3) (\<lambda>o4.
     rbind (message_set ''action'' (JString (j_action j)) o4) (\<lambda>o5.
     rbind (message_set ''ctime'' (JInt (j_ctime j)) o5) (\<lambda>o6.
     rbind (message_set ''progress'' (JReal (j_progress j)) o6) (\<lambda>o7.
     rbind (message_set ''completed'' (JBool (j_completed j)) o7) (\<lambda>o8.
     message_set ''parameters'' (j_parameters j) o8))))))))"

definition job_to_string :: "jlib \<Rightarrow> job \<Rightarrow> string res" where
  "job_to_string L j = rbind (job_out j) (\<lambda>d. Inr (message_to_string L [] False d))"

definition job_deserialize :: "jlib \<Rightarrow> string \<Rightarrow> job \<Rightarrow> job res" where
  "job_deserialize L s j =
     rbind (message_parse L s message_new) (\<lambda>msg. Inr (job_from_message L msg j))"

definition job_set_progress :: "rat \<Rightarrow> job \<Rightarrow> job" where
  "job_set_progress p j =
     (if 100 \<le> p then j\<lparr>j_completed := True, j_progress := 100\<rparr> else j\<lparr>j_progress := p\<rparr>)"

definition job_set_origin_node :: "string \<Rightarrow> job \<Rightarrow> job" where
  "job_set_origin_node nodename j = j\<lparr>j_origin_node := nodename\<rparr>"

definition job_set_api_key :: "string \<Rightarrow> job \<Rightarrow> job" where
  "job_set_api_key api_key j = j\<lparr>j_api_key := api_key\<rparr>"

definition job_set_module :: "string \<Rightarrow> job \<Rightarrow> job" where
  "job_set_module mdl j = j\<lparr>j_module := mdl\<rparr>"

definition job_set_action :: "string \<Rightarrow> job \<Rightarrow> job" where
  "job_set_action action j = j\<lparr>j_action := action\<rparr>"

definition job_is_completed :: "job \<Rightarrow> bool" where
  "job_is_completed j = j_completed j"

section \<open>The document of a job\<close>

text \<open>
  The document with its progress written as \<open>v\<close>. A library need not read a real number back as one:
  jsoncpp 1.6.1 writes the real number 100 without a decimal point and reads an integer. \<open>reads_as L j v\<close>
  tells that the text of the job's document is read as the document with \<open>v\<close> for the progress, and
  that \<open>v\<close> converts to the same number.
\<close>

definition job_doc_as :: "json \<Rightarrow> job \<Rightarrow> json" where
  "job_doc_as v j = JObject
     [(''@api_key'', JString (j_api_key j)),
      (''@job_id'', JString (j_id j)),
      (''@origin_node'', JString (j_origin_node j)),
      (''action'', JString (j_action j)),
      (''completed'', JBool (j_completed j)),
      (''ctime'', JInt (j_ctime j)),
      (''module'', JString (j_module j)),
      (''parameters'', j_parameters j),
      (''progress'', v)]"

definition job_doc :: "job \<Rightarrow> json" where
  "job_doc j = job_doc_as (JReal (j_progress j)) j"

lemma job_out_doc: "job_out j = Inr (job_doc j)"
  unfolding job_out_def job_doc_def job_doc_as_def message_new_def
  by (simp add: set_meta_def meta_key_def message_set_plain plain_key_def obj_sorted_def
      less_char_def)

lemma job_to_string_doc: "job_to_string L j = Inr (jl_write L (job_doc j))"
  by (simp add: job_to_string_def job_out_doc message_to_string_def)

lemma job_doc_ok: "json_ok (j_parameters j) \<Longrightarrow> json_ok (job_doc j)"
  by (simp add: job_doc_def job_doc_as_def obj_sorted_def less_char_def)

definition reads_as :: "jlib \<Rightarrow> job \<Rightarrow> json \<Rightarrow> bool" where
  "reads_as L j v \<longleftrightarrow> jl_read L (jl_write L (job_doc j)) = Some (job_doc_as v j)
     \<and> jl_double L v = Some (j_progress j)"

lemma reads_back_as: "jlib_ok L \<Longrightarrow> reads_back L (job_doc j) \<Longrightarrow> reads_as L j (JReal (j_progress j))"
  by (simp add: reads_as_def reads_back_def job_doc_def jlib_okD)

lemma reads_asD:
  assumes "reads_as L j v"
  shows "jl_read L (jl_write L (job_doc j)) = Some (job_doc_as v j)" "jl_double L v = Some (j_progress j)"
  using assms by (simp_all add: reads_as_def)

text \<open>Each member of the document, found by the getters.\<close>

lemma job_doc_as_find:
  "message_find ''@api_key'' (job_doc_as v j) = Some (JString (j_api_key j))"
  "message_find ''@job_id'' (job_doc_as v j) = Some (JString (j_id j))"
  "message_find ''@origin_node'' (job_doc_as v j) = Some (JString (j_origin_node j))"
  "message_find ''action'' (job_doc_as v j) = Some (JString (j_action j))"
  "message_find ''completed'' (job_doc_as v j) = Some (JBool (j_completed j))"
  "message_find ''ctime'' (job_doc_as v j) = Some (JInt (j_ctime j))"
  "message_find ''module'' (job_doc_as v j) = Some (JString (j_module j))"
  "message_find ''parameters'' (job_doc_as v j) = Some (j_parameters j)"
  "message_find ''progress'' (job_doc_as v j) = Some v"
  by (simp_all add: job_doc_as_def message_find_plain plain_key_def)

lemma job_doc_find:
  "message_find ''@api_key'' (job_doc j) = Some (JString (j_api_key j))"
  "message_find ''@job_id'' (job_doc j) = Some (JString (j_id j))"
  "message_find ''@origin_node'' (job_doc j) = Some (JString (j_origin_node j))"
  "message_find ''action'' (job_doc j) = Some (JString (j_action j))"
  "message_find ''completed'' (job_doc j) = Some (JBool (j_completed j))"
  "message_find ''ctime'' (job_doc j) = Some (JInt (j_ctime j))"
  "message_find ''module'' (job_doc j) = Some (JString (j_module j))"
  "message_find ''parameters'' (job_doc j) = Some (j_parameters j)"
  "message_find ''progress'' (job_doc j) = Some (JReal (j_progress j))"
  by (simp_all add: job_doc_def job_doc_as_find)

lemma job_from_doc_as:
  "jlib_ok L \<Longrightarrow> int32 (j_ctime j) \<Longrightarrow> jl_double L v = Some (j_progress j) \<Longrightarrow>
     job_from_message L (job_doc_as v j) j0 = j"
  by (simp add: job_from_message_def getter_defs meta_key_def get_as_def job_doc_as_find
      get_raw_value_def jlib_okD)

lemma job_from_doc:
  "jlib_ok L \<Longrightarrow> int32 (j_ctime j) \<Longrightarrow> job_from_message L (job_doc j) j0 = j"
  unfolding job_doc_def by (rule job_from_doc_as) (simp_all add: jlib_okD)

lemma job_from_message_overwrites:
  "job_from_message L msg j = job_from_message L msg job_blank"
  by (simp add: job_from_message_def)

section \<open>Properties\<close>

text \<open>
  C28. Serialising a job with \<open>to_string\<close> and deserialising the text gives the same job back,
  every field included, whatever job it is read into: neither step can throw. It needs the
  library to read the text as this document, up to the form of the progress, and the creation time
  to fit an \<open>int\<close>.
\<close>

theorem job_text_roundtrip:
  assumes "jlib_ok L" and "reads_as L j v" and "int32 (j_ctime j)"
  shows "rbind (job_to_string L j) (\<lambda>s. job_deserialize L s j0) = Inr j"
proof -
  have "message_parse L (jl_write L (job_doc j)) message_new = Inr (job_doc_as v j)"
    using assms(1) reads_asD [OF assms(2)] by (simp add: message_parse_def jlib_okD(5))
  with assms(1,3) reads_asD [OF assms(2)] show ?thesis
    by (simp add: job_to_string_doc job_deserialize_def job_from_doc_as)
qed

definition sample_job :: job where
  "sample_job = \<lparr>j_id = ''id-1'', j_origin_node = ''n1'', j_module = ''mod'', j_action = ''run'',
     j_api_key = ''key'', j_progress = 1 / 2, j_ctime = 1400000000, j_completed = False,
     j_parameters = JObject [(''x'', JInt 5)]\<rparr>"

theorem job_text_roundtrip_witness:
  "rbind (job_to_string ref_lib sample_job) (\<lambda>s. job_deserialize ref_lib s job_blank)
    = Inr sample_job"
  by (rule job_text_roundtrip [OF _ reads_back_as]) (simp_all add: sample_job_def int32_def)

lemma job_init_id:
  "fst (job_init rg now j n) = j\<lparr>j_id := (if j_id j = [] then rg n else j_id j),
     j_ctime := (if j_ctime j = 0 then narrow32 now else j_ctime j)\<rparr>"
  "snd (job_init rg now j n) = (if j_id j = [] then Suc n else n)"
  by (simp_all add: job_init_def job_set_id_def Let_def)

lemma job_default_eq:
  "job_default rg now n = (job_blank\<lparr>j_id := rg n, j_ctime := narrow32 now\<rparr>, Suc n)"
  by (simp add: job_default_def prod_eq_iff job_init_id) (simp add: job_blank_def)

text \<open>
  A job made from a message has the identifier the message names, or else the second
  identifier drawn by this construction (the first one, drawn by the delegated default
  constructor, is overwritten and lost); the creation time of the message or else the clock;
  and the other fields as \<open>from_message\<close> reads them.
\<close>

theorem job_of_message_fields:
  "job_of_message L rg now msg n =
     (let j = job_from_message L msg job_blank
      in (j\<lparr>j_id := (if j_id j = [] then rg (Suc n) else j_id j),
            j_ctime := (if j_ctime j = 0 then narrow32 now else j_ctime j)\<rparr>,
          if j_id j = [] then Suc (Suc n) else Suc n))"
  by (simp add: job_of_message_def job_default_eq prod_eq_iff job_init_id Let_def
      job_from_message_overwrites [of L msg "job_blank\<lparr>j_id := rg n, j_ctime := narrow32 now\<rparr>"])

definition progress_ok :: "job \<Rightarrow> bool" where
  "progress_ok j \<longleftrightarrow> j_progress j \<le> 100 \<and> (j_progress j = 100 \<longrightarrow> job_is_completed j)"

text \<open>
  \<open>set_progress\<close> keeps the progress of a job at most 100, a job that has reached 100 is
  completed, and a completed job stays completed.
\<close>

theorem job_set_progress_ok:
  "progress_ok (job_set_progress p j)
   \<and> job_is_completed (job_set_progress p j) = (job_is_completed j \<or> 100 \<le> p)"
  by (simp add: progress_ok_def job_set_progress_def job_is_completed_def)

end
