(* ===== verification/Nix_Incoming.thy ===== *)
theory Nix_Incoming
  imports Nix_Job
begin

text \<open>
  \<open>nix::IncomingMessage\<close> and \<open>nix::Response\<close> (src/src/nix/message/incoming.cxx,
  response.cxx): the two ends of a call over YAMI. The transport itself is not part of the
  repository. A reply is the call \<open>msg_.reply\<close> with the text of a message; an error YAMI
  raises in it is logged and dropped, so the caller's state does not depend on it.
\<close>

section \<open>The server's end\<close>

record imsg =
  im_id :: nat
  im_doc :: json

definition im_reply_msg :: "jlib \<Rightarrow> nat \<Rightarrow> json \<Rightarrow> status_code \<Rightarrow> net res" where
  "im_reply_msg L i d st =
     rbind (set_status_code st d) (\<lambda>d'. Inr (Reply i (message_to_string L [] False d')))"

definition im_reply :: "jlib \<Rightarrow> imsg \<Rightarrow> net res" where
  "im_reply L m =
     rbind (message_clear (im_doc m)) (\<lambda>d.
     rbind (set_status Ok [] d) (\<lambda>d'. im_reply_msg L (im_id m) d' Ok))"

definition im_reply_job :: "jlib \<Rightarrow> nat \<Rightarrow> job \<Rightarrow> status_code \<Rightarrow> net res" where
  "im_reply_job L i j st =
     rbind (job_to_string L j) (\<lambda>s.
     rbind (message_parse L s message_new) (\<lambda>d. im_reply_msg L i d st))"

definition im_reply_with_error :: "jlib \<Rightarrow> imsg \<Rightarrow> status_code \<Rightarrow> string \<Rightarrow> net res" where
  "im_reply_with_error L m st msg =
     rbind (message_clear (im_doc m)) (\<lambda>d.
     rbind (set_status st msg d) (\<lambda>d'. im_reply_msg L (im_id m) d' Ok))"

definition im_fail_code :: "jlib \<Rightarrow> imsg \<Rightarrow> status_code \<Rightarrow> string \<Rightarrow> net res" where
  "im_fail_code L m st reason =
     rbind (message_clear (im_doc m)) (\<lambda>d.
     rbind (set_status st reason d) (\<lambda>d'.
     Inr (Reply (im_id m) (message_to_string L [] False d'))))"

definition im_fail :: "jlib \<Rightarrow> imsg \<Rightarrow> string \<Rightarrow> net res" where
  "im_fail L m reason =
     rbind (message_clear (im_doc m)) (\<lambda>d. im_fail_code L (m\<lparr>im_doc := d\<rparr>) Fail reason)"

definition im_reject :: "imsg \<Rightarrow> string \<Rightarrow> net" where
  "im_reject m reason = Reject (im_id m) reason"

definition im_reject_code :: "imsg \<Rightarrow> status_code \<Rightarrow> string \<Rightarrow> net" where
  "im_reject_code m st reason =
     Reject (im_id m) (to_string_int (code_of st) @ '': '' @ reason)"

section \<open>The client's end\<close>

text \<open>
  The outcome of a sent message as YAMI reports it: its state, the \<open>message\<close> entry of the
  reply if there is one, and the text of a rejection.
\<close>

datatype yami_state = Posted | Transmitted | Replied | Rejected | Abandoned

record omsg =
  om_state :: yami_state
  om_reply :: "string option"
  om_exception :: string

record response =
  rs_om :: omsg
  rs_doc :: json
  rs_exception_msg :: string

definition response_new :: "jlib \<Rightarrow> omsg \<Rightarrow> response res" where
  "response_new L om =
     (if om_state om = Replied then
        (case om_reply om of
           Some text \<Rightarrow> rbind (message_parse L text message_new)
             (\<lambda>d. Inr \<lparr>rs_om = om, rs_doc = d, rs_exception_msg = []\<rparr>)
         | None \<Rightarrow> Inr \<lparr>rs_om = om, rs_doc = message_new, rs_exception_msg = []\<rparr>)
      else if om_state om = Rejected then
        Inr \<lparr>rs_om = om, rs_doc = message_new, rs_exception_msg = om_exception om\<rparr>
      else Inr \<lparr>rs_om = om, rs_doc = message_new, rs_exception_msg = []\<rparr>)"

definition is_replied :: "response \<Rightarrow> bool" where
  "is_replied r = (om_state (rs_om r) = Replied)"

definition is_rejected :: "response \<Rightarrow> bool" where
  "is_rejected r = (om_state (rs_om r) = Rejected)"

definition is_transmitted :: "response \<Rightarrow> bool" where
  "is_transmitted r = (om_state (rs_om r) = Transmitted)"

definition is_abandoned :: "response \<Rightarrow> bool" where
  "is_abandoned r = (om_state (rs_om r) = Abandoned)"

definition is_status_ok :: "jlib \<Rightarrow> response \<Rightarrow> bool" where
  "is_status_ok L r = (get_int L ''@status_code'' (code_of Null_value) (rs_doc r) = code_of Ok)"

definition is_status_fail :: "jlib \<Rightarrow> response \<Rightarrow> bool" where
  "is_status_fail L r = (get_int L ''@status_code'' (code_of Ok) (rs_doc r) \<noteq> code_of Ok)"

definition get_status_code :: "jlib \<Rightarrow> response \<Rightarrow> int" where
  "get_status_code L r = get_int L ''@status_code'' (code_of Null_value) (rs_doc r)"

definition get_status_msg :: "jlib \<Rightarrow> response \<Rightarrow> string" where
  "get_status_msg L r = get_string L ''@status_msg'' [] (rs_doc r)"

section \<open>The documents of replies\<close>

definition status_doc :: "status_code \<Rightarrow> string \<Rightarrow> json" where
  "status_doc st msg =
     JObject [(''@status'', JString msg), (''@status_code'', JInt (code_of st))]"

lemma clear_value_cases:
  assumes "clear_value d = Inr d'"
  obtains "d' = JObject []" "\<exists>ms. d = JObject ms" | "d' = JArray []" "\<exists>xs. d = JArray xs"
  | "d' = JNull" "d = JNull"
  using assms by (cases d) auto

lemma set_status_empty:
  "set_status st msg (JObject []) = Inr (status_doc st msg)"
  "set_status st msg JNull = Inr (status_doc st msg)"
  by (simp_all add: set_status_def set_status_code_def set_status_msg_def status_doc_def
      less_char_def)

lemma set_status_array: "set_status st msg (JArray xs) = Inl JsonLogicError"
  by (simp add: set_status_def set_status_code_def)

lemma set_status_code_doc: "set_status_code st (status_doc st' msg) = Inr (status_doc st msg)"
  by (simp add: set_status_code_def status_doc_def less_char_def)

lemma clear_passable: "passable d \<Longrightarrow> clear_value d = Inr (JObject []) \<or> clear_value d = Inr JNull"
  by (auto simp: passable_iff)

lemma im_fail_code_eq:
  "im_fail_code L m st reason =
     (if passable (im_doc m) then Inr (Reply (im_id m) (jl_write L (status_doc st reason)))
      else Inl JsonLogicError)"
  by (cases "im_doc m")
    (auto simp: im_fail_code_def message_clear_def set_status_empty set_status_array
      passable_def message_to_string_def)

lemma im_fail_eq:
  "im_fail L m reason =
     (if passable (im_doc m) then Inr (Reply (im_id m) (jl_write L (status_doc Fail reason)))
      else Inl JsonLogicError)"
  by (cases "im_doc m")
    (auto simp: im_fail_def message_clear_def im_fail_code_eq passable_def)

lemma im_reply_eq:
  "im_reply L m =
     (if passable (im_doc m) then Inr (Reply (im_id m) (jl_write L (status_doc Ok [])))
      else Inl JsonLogicError)"
  by (cases "im_doc m")
    (auto simp: im_reply_def im_reply_msg_def message_clear_def set_status_empty
      set_status_array set_status_code_doc passable_def message_to_string_def)

lemma im_reply_msg_object:
  "im_reply_msg L i (JObject ms) st =
     Inr (Reply i (jl_write L (JObject (obj_put ''@status_code'' (JInt (code_of st)) ms))))"
  by (simp add: im_reply_msg_def set_status_code_def message_to_string_def)

lemmas reply_eqs = im_fail_code_eq im_fail_eq im_reply_eq im_reply_msg_object

text \<open>A reply with a job carries the job's document and the status.\<close>

definition job_reply_doc_as :: "json \<Rightarrow> job \<Rightarrow> status_code \<Rightarrow> json" where
  "job_reply_doc_as v j st = (case job_doc_as v j of
     JObject ms \<Rightarrow> JObject (obj_put ''@status_code'' (JInt (code_of st)) ms) | d \<Rightarrow> d)"

definition job_reply_doc :: "job \<Rightarrow> status_code \<Rightarrow> json" where
  "job_reply_doc j st = job_reply_doc_as (JReal (j_progress j)) j st"

lemma im_reply_job_as:
  "jlib_ok L \<Longrightarrow> reads_as L j v \<Longrightarrow>
     im_reply_job L i j st = Inr (Reply i (jl_write L (job_reply_doc_as v j st)))"
  by (simp add: im_reply_job_def job_to_string_doc message_parse_def jlib_okD(5) reads_asD(1)
      job_reply_doc_as_def job_doc_as_def im_reply_msg_object)

lemma im_reply_job_eq:
  "jlib_ok L \<Longrightarrow> reads_back L (job_doc j) \<Longrightarrow>
     im_reply_job L i j st = Inr (Reply i (jl_write L (job_reply_doc j st)))"
  unfolding job_reply_doc_def by (rule im_reply_job_as) (simp_all add: reads_back_as)

lemma job_reply_doc_as_find:
  "message_find ''@status_code'' (job_reply_doc_as v j st) = Some (JInt (code_of st))"
  "plain_key k \<Longrightarrow> k \<noteq> ''@status_code'' \<Longrightarrow>
     message_find k (job_reply_doc_as v j st) = message_find k (job_doc_as v j)"
  by (simp_all add: job_reply_doc_as_def job_doc_as_def message_find_plain plain_key_def
      map_of_obj_put del: obj_put.simps)

lemma job_reply_doc_find:
  "message_find ''@status_code'' (job_reply_doc j st) = Some (JInt (code_of st))"
  "plain_key k \<Longrightarrow> k \<noteq> ''@status_code'' \<Longrightarrow>
     message_find k (job_reply_doc j st) = message_find k (job_doc j)"
  by (simp_all add: job_reply_doc_def job_doc_def job_reply_doc_as_find)

lemma job_from_reply_doc_as:
  "jlib_ok L \<Longrightarrow> int32 (j_ctime j) \<Longrightarrow> jl_double L v = Some (j_progress j) \<Longrightarrow>
     job_from_message L (job_reply_doc_as v j st) j0 = j"
  by (simp add: job_from_message_def getter_defs meta_key_def get_as_def job_reply_doc_as_find
      plain_key_def job_doc_as_find get_raw_value_def jlib_okD)

lemma job_from_reply_doc:
  "jlib_ok L \<Longrightarrow> int32 (j_ctime j) \<Longrightarrow> job_from_message L (job_reply_doc j st) j0 = j"
  unfolding job_reply_doc_def by (rule job_from_reply_doc_as) (simp_all add: jlib_okD)

section \<open>Properties\<close>

text \<open>What the client sees of a text the server replied with.\<close>

definition replied_with :: "string \<Rightarrow> omsg" where
  "replied_with text = \<lparr>om_state = Replied, om_reply = Some text, om_exception = []\<rparr>"

lemma response_of_reply:
  assumes "jlib_ok L" "reads_back L d"
  shows "response_new L (replied_with (jl_write L d))
    = Inr \<lparr>rs_om = replied_with (jl_write L d), rs_doc = d, rs_exception_msg = []\<rparr>"
  using assms by (simp add: response_new_def replied_with_def message_parse_def jlib_okD(5)
      reads_back_def)

lemma status_doc_find:
  "message_find ''@status_code'' (status_doc st msg) = Some (JInt (code_of st))"
  "message_find ''@status_msg'' (status_doc st msg) = None"
  "message_find ''@status'' (status_doc st msg) = Some (JString msg)"
  by (simp_all add: status_doc_def message_find_plain plain_key_def)

text \<open>
  A request whose root is an object or null that is answered with \<open>fail(status, reason)\<close>
  reaches the client as that status code: \<open>get_status_code\<close> returns it, \<open>is_status_ok\<close> and
  \<open>is_status_fail\<close> agree with it and exclude each other.
\<close>

theorem fail_reaches_client:
  assumes "jlib_ok L" and "reads_back L (status_doc st reason)" and "passable (im_doc m)"
  shows "\<exists>text r. im_fail_code L m st reason = Inr (Reply (im_id m) text)
    \<and> response_new L (replied_with text) = Inr r
    \<and> is_replied r \<and> get_status_code L r = code_of st
    \<and> (is_status_ok L r \<longleftrightarrow> st = Ok) \<and> (is_status_fail L r \<longleftrightarrow> st \<noteq> Ok)"
proof -
  have g: "get_int L ''@status_code'' d (status_doc st reason) = code_of st" for d
    using assms(1) by (simp add: get_int_def get_as_def status_doc_find jlib_okD(2))
  have "im_fail_code L m st reason = Inr (Reply (im_id m) (jl_write L (status_doc st reason)))"
    using assms(3) by (simp add: im_fail_code_eq)
  with response_of_reply [OF assms(1,2)] show ?thesis
    by (auto simp: is_replied_def replied_with_def get_status_code_def is_status_ok_def
        is_status_fail_def g simp flip: code_of_inj)
qed

theorem fail_reaches_client_witness:
  "\<exists>text r. im_fail_code ref_lib \<lparr>im_id = 7, im_doc = JObject [(''k'', JNull)]\<rparr>
        Data_invalid_content ''bad'' = Inr (Reply 7 text)
    \<and> response_new ref_lib (replied_with text) = Inr r
    \<and> is_replied r \<and> get_status_code ref_lib r = 501
    \<and> (is_status_ok ref_lib r \<longleftrightarrow> Data_invalid_content = Ok)
    \<and> (is_status_fail ref_lib r \<longleftrightarrow> Data_invalid_content \<noteq> Ok)"
  using fail_reaches_client [of ref_lib Data_invalid_content "''bad''"
      "\<lparr>im_id = 7, im_doc = JObject [(''k'', JNull)]\<rparr>"]
  by (simp add: passable_def)

text \<open>
  The reason of a failure never reaches \<open>get_status_msg\<close>: the server stores it under
  \<open>@status\<close>, the client reads \<open>@status_msg\<close> and gets the empty string, although the text is
  in the document it received.
\<close>

theorem fail_reason_lost:
  assumes "jlib_ok L" and "reads_back L (status_doc st reason)" and "passable (im_doc m)"
  shows "\<exists>text r. im_fail_code L m st reason = Inr (Reply (im_id m) text)
    \<and> response_new L (replied_with text) = Inr r
    \<and> get_status_msg L r = [] \<and> get_string L ''@status'' [] (rs_doc r) = reason"
proof -
  have "im_fail_code L m st reason = Inr (Reply (im_id m) (jl_write L (status_doc st reason)))"
    using assms(3) by (simp add: im_fail_code_eq)
  with response_of_reply [OF assms(1,2)] assms(1) show ?thesis
    by (auto simp: get_status_msg_def get_string_def get_as_def status_doc_find jlib_okD(1))
qed

theorem fail_reason_lost_witness:
  "\<exists>text r. im_fail_code ref_lib \<lparr>im_id = 7, im_doc = JNull\<rparr> Fail ''Unknown node.''
        = Inr (Reply 7 text)
    \<and> response_new ref_lib (replied_with text) = Inr r
    \<and> get_status_msg ref_lib r = [] \<and> get_string ref_lib ''@status'' [] (rs_doc r) = ''Unknown node.''"
  using fail_reason_lost [of ref_lib Fail "''Unknown node.''" "\<lparr>im_id = 7, im_doc = JNull\<rparr>"]
  by (simp add: passable_def)

text \<open>
  Which requests can be answered at all: \<open>reply()\<close>, \<open>fail(reason)\<close> and
  \<open>fail(status, reason)\<close> send exactly one message when the root of the request is an object or
  null, and otherwise throw the library's \<open>LogicError\<close> and send nothing.
\<close>

theorem answers_need_object:
  "(case im_reply L m of Inr n \<Rightarrow> passable (im_doc m) \<and> net_id n = im_id m
      | Inl e \<Rightarrow> \<not> passable (im_doc m) \<and> e = JsonLogicError)
   \<and> (case im_fail L m reason of Inr n \<Rightarrow> passable (im_doc m) \<and> net_id n = im_id m
      | Inl e \<Rightarrow> \<not> passable (im_doc m) \<and> e = JsonLogicError)
   \<and> (case im_fail_code L m st reason of Inr n \<Rightarrow> passable (im_doc m) \<and> net_id n = im_id m
      | Inl e \<Rightarrow> \<not> passable (im_doc m) \<and> e = JsonLogicError)"
  by (simp add: reply_eqs)

text \<open>
  A response that is no reply, or a reply without a message, is neither \<open>is_status_ok\<close> nor
  \<open>is_status_fail\<close>; its code is that of \<open>null_value\<close>.
\<close>

theorem no_reply_no_status:
  assumes "om_state om \<noteq> Replied \<or> om_reply om = None"
  shows "\<exists>r. response_new L om = Inr r \<and> \<not> is_status_ok L r \<and> \<not> is_status_fail L r
    \<and> get_status_code L r = code_of Null_value"
  using assms
  by (auto simp: response_new_def is_status_ok_def is_status_fail_def get_status_code_def
      get_int_def get_as_def message_find_def message_new_def split_plain plain_key_def
      split: option.split)

theorem no_reply_no_status_witness:
  "\<exists>r. response_new ref_lib \<lparr>om_state = Abandoned, om_reply = None, om_exception = []\<rparr> = Inr r
    \<and> \<not> is_status_ok ref_lib r \<and> \<not> is_status_fail ref_lib r
    \<and> get_status_code ref_lib r = code_of Null_value"
  by (rule no_reply_no_status) simp

end
