(* ===== verification/Nix_Documents.thy ===== *)
theory Nix_Documents
  imports Nix_Incoming
begin

text \<open>
  Documents built by a sequence of \<open>set\<close> calls, the way every status report of the program
  is written. \<open>set_all\<close> is that sequence; the lemmas say when it succeeds and what the
  document then holds.
\<close>

fun set_all :: "(string \<times> json) list \<Rightarrow> json \<Rightarrow> json res" where
  "set_all [] d = Inr d"
| "set_all ((k, v) # kvs) d = rbind (message_set k v d) (set_all kvs)"

lemma set_all_append: "set_all (kvs @ kvs') d = rbind (set_all kvs d) (set_all kvs')"
  proof (induction kvs arbitrary: d)
  case (Cons kv kvs)
  then have "set_all (kvs @ kvs') = (\<lambda>x. rbind (set_all kvs x) (set_all kvs'))" by auto
  then show ?case by (cases kv) (simp add: rbind_assoc)
qed simp

text \<open>
  A key \<open>k\<close> overruns \<open>l\<close> when the path of \<open>k\<close> ends inside the path of \<open>l\<close>; two keys are apart
  when neither path is a prefix of the other.
\<close>

definition overruns :: "string \<Rightarrow> string \<Rightarrow> bool" where
  "overruns k l \<longleftrightarrow> strict_prefix (split k ''.'') (split l ''.'')"

definition apart :: "string \<Rightarrow> string \<Rightarrow> bool" where
  "apart k l \<longleftrightarrow>
     \<not> prefix (split k ''.'') (split l ''.'') \<and> \<not> prefix (split l ''.'') (split k ''.'')"

lemma apart_sym: "apart k l \<Longrightarrow> apart l k"
  by (simp add: apart_def)

definition settable :: "string \<Rightarrow> json \<Rightarrow> bool" where
  "settable k d \<longleftrightarrow> split k ''.'' \<noteq> [] \<and>
     (\<forall>p c. strict_prefix p (split k ''.'') \<and> find_path p d = Some c \<longrightarrow> passable c)"

lemma message_set_defined: "(\<exists>d'. message_set k v d = Inr d') \<longleftrightarrow> settable k d"
  by (simp add: message_set_def set_path_defined settable_def)

lemma settable_empty: "split k ''.'' \<noteq> [] \<Longrightarrow> settable k (JObject [])"
  using message_set_empty message_set_defined split_eq_Nil by metis

lemma set_path_inner:
  "set_path ks v j = Inr j' \<Longrightarrow> strict_prefix p ks \<Longrightarrow> find_path p j' = Some c \<Longrightarrow> passable c"
proof (induction ks v j arbitrary: j' p rule: set_path.induct)
  case (2 k v j)
  then have "p = []" by (auto simp: strict_prefix_def prefix_Cons)
  with "2.prems" show ?case
    by (auto simp: rbind_Inr_iff passable_iff dest!: put_member_object)
next
  case (3 k k' ks v j)
  from "3.prems"(1) obtain j1 c1 where j1: "enter_member k j = Inr j1"
    and c1: "set_path (k' # ks) v (member_value k j1) = Inr c1" and put: "put_member k c1 j1 = Inr j'"
    by (rule set_path_step)
  show ?case
  proof (cases p)
    case Nil
    with "3.prems"(3) put show ?thesis by (auto simp: passable_iff dest!: put_member_object)
  next
    case (Cons q p')
    with "3.prems"(2) have p': "q = k" "strict_prefix p' (k' # ks)"
      by (auto simp: strict_prefix_def)
    with "3.prems"(3) Cons put have "find_path p' c1 = Some c"
      by (simp add: find_path_put_member(1) del: find_path.simps)
    with "3.IH" [OF c1 p'(2)] show ?thesis by simp
  qed
qed simp

lemma settable_set:
  assumes "message_set l v d = Inr d'" "settable k d" "\<not> overruns l k"
  shows "settable k d'"
  unfolding settable_def
proof (intro conjI allI impI)
  show "split k ''.'' \<noteq> []" using assms(2) by (simp add: settable_def)
  fix p c assume p: "strict_prefix p (split k ''.'') \<and> find_path p d' = Some c"
  have s: "set_path (split l ''.'') v d = Inr d'" using assms(1) by (simp add: message_set_def)
  have np: "\<not> prefix (split l ''.'') p"
    using assms(3) p by (auto simp: overruns_def dest: prefix_order.le_less_trans)
  show "passable c"
  proof (cases "prefix p (split l ''.'')")
    case True
    with np have "strict_prefix p (split l ''.'')" by (auto simp: strict_prefix_def)
    with set_path_inner [OF s] p show ?thesis by simp
  next
    case False
    with find_set_other [OF s np] p have "find_path p d = Some c" by simp
    with assms(2) p show ?thesis unfolding settable_def by blast
  qed
qed

lemma set_all_defined:
  assumes "\<And>k. k \<in> set (keys kvs) \<Longrightarrow> settable k d"
    and "\<And>k l. k \<in> set (keys kvs) \<Longrightarrow> l \<in> set (keys kvs) \<Longrightarrow> \<not> overruns k l"
  shows "\<exists>d'. set_all kvs d = Inr d'"
  using assms
proof (induction kvs d rule: set_all.induct)
  case (2 k v kvs d)
  from "2.prems"(1) [of k] obtain d1 where d1: "message_set k v d = Inr d1"
    using message_set_defined [of k v d] by auto
  with "2.prems" settable_set [OF d1] have "\<exists>d'. set_all kvs d1 = Inr d'"
    by (intro "2.IH") auto
  with d1 show ?case by simp
qed simp

lemma set_all_other:
  assumes "set_all kvs d = Inr d'" "\<And>k. k \<in> set (keys kvs) \<Longrightarrow> apart k l"
  shows "message_find l d' = message_find l d"
  using assms
proof (induction kvs d rule: set_all.induct)
  case (2 k v kvs d)
  then obtain d1 where d1: "message_set k v d = Inr d1" "set_all kvs d1 = Inr d'"
    by (auto simp: rbind_Inr_iff)
  with "2.prems" message_find_set_other [OF d1(1), of l] "2.IH" [OF d1(2)]
  show ?case by (auto simp: apart_def)
qed simp

lemma set_all_found:
  assumes "set_all (kvs @ (k, v) # kvs') d = Inr d'" "\<And>l. l \<in> set (keys kvs') \<Longrightarrow> apart l k"
  shows "message_find k d' = Some v"
  using assms message_find_set set_all_other
  by (fastforce simp: set_all_append rbind_Inr_iff)

text \<open>When all keys are apart the document holds what was set.\<close>

lemma set_all_lookup:
  assumes "set_all kvs d = Inr d'" "pairwise apart (set (keys kvs))" "distinct (keys kvs)"
    "(k, v) \<in> set kvs"
  shows "message_find k d' = Some v"
proof -
  from assms(4) obtain xs ys where kvs: "kvs = xs @ (k, v) # ys" by (meson split_list)
  with assms(2,3) have "apart l k" if "l \<in> set (keys ys)" for l
    using that by (auto simp: pairwise_def image_iff)
  with set_all_found assms(1) kvs show ?thesis by blast
qed

lemma set_all_object: "set_all kvs (JObject ms) = Inr d' \<Longrightarrow> \<exists>ms'. d' = JObject ms'"
proof (induction kvs arbitrary: ms)
  case (Cons kv kvs)
  then show ?case
    by (cases kv) (auto simp: rbind_Inr_iff message_set_def dest!: set_path_object)
qed auto

lemma apart_not_overruns: "apart k l \<Longrightarrow> \<not> overruns k l"
  by (auto simp: apart_def overruns_def)

lemma not_overruns_self [simp]: "\<not> overruns k k"
  by (simp add: overruns_def)

text \<open>
  Keys made of a common path, a name without dots and a last part: apart when the names
  differ, or the last parts do.
\<close>

definition sub_key :: "string \<Rightarrow> string \<Rightarrow> string \<Rightarrow> string" where
  "sub_key p n l = p @ CHR ''.'' # n @ CHR ''.'' # l"

lemma split_sub_key:
  "plain_key n \<Longrightarrow> plain_key l \<Longrightarrow> split (sub_key p n l) ''.'' = split p ''.'' @ [n, l]"
  by (simp add: sub_key_def split_dot split_dotted split_plain)

lemma apart_same_length:
  "length (split k ''.'') = length (split l ''.'') \<Longrightarrow> split k ''.'' \<noteq> split l ''.'' \<Longrightarrow> apart k l"
  by (auto simp: apart_def prefix_def)

lemma apart_sub_keys:
  "plain_key n \<Longrightarrow> plain_key l \<Longrightarrow> plain_key n' \<Longrightarrow> plain_key l' \<Longrightarrow> (n, l) \<noteq> (n', l') \<Longrightarrow>
     apart (sub_key p n l) (sub_key p n' l')"
  by (rule apart_same_length) (auto simp: split_sub_key)

lemma apart_heads:
  "split k ''.'' = x # xs \<Longrightarrow> split l ''.'' = y # ys \<Longrightarrow> x \<noteq> y \<Longrightarrow> apart k l"
  by (simp add: apart_def)

text \<open>
  A report is written into an empty document: with keys that are apart from each other every
  \<open>set\<close> succeeds and the report holds all the entries, also after the status code is added.
\<close>

lemma settable_blank: "split k ''.'' \<noteq> [] \<Longrightarrow> d = JObject [] \<or> d = JNull \<Longrightarrow> settable k d"
  unfolding settable_def
proof (intro conjI allI impI)
  fix p c assume d: "d = JObject [] \<or> d = JNull" and "strict_prefix p (split k ''.'') \<and> find_path p d = Some c"
  then have "p = []" by (cases p) auto
  with d \<open>strict_prefix p (split k ''.'') \<and> find_path p d = Some c\<close> show "passable c"
    by (auto simp: passable_def)
qed

lemma set_all_blank:
  assumes "d = JObject [] \<or> d = JNull" "kvs \<noteq> []"
    and "\<And>k. k \<in> set (keys kvs) \<Longrightarrow> split k ''.'' \<noteq> []"
    and "\<And>k l. k \<in> set (keys kvs) \<Longrightarrow> l \<in> set (keys kvs) \<Longrightarrow> \<not> overruns k l"
  shows "\<exists>ms. set_all kvs d = Inr (JObject ms)"
proof -
  from set_all_defined [OF settable_blank [OF assms(3,1)] assms(4)]
  obtain d' where d': "set_all kvs d = Inr d'" by blast
  obtain k v kvs' where "kvs = (k, v) # kvs'" using assms(2) by (cases kvs) auto
  with d' obtain d1 where d1: "message_set k v d = Inr d1" "set_all kvs' d1 = Inr d'"
    by (auto simp: rbind_Inr_iff)
  from d1(1) obtain ms where "d1 = JObject ms"
    unfolding message_set_def by (auto dest: set_path_object)
  with d1(2) d' set_all_object show ?thesis by metis
qed

text \<open>A member with another key does not hide an entry.\<close>

lemma find_beside:
  "split k ''.'' = x # xs \<Longrightarrow> x \<noteq> y \<Longrightarrow>
     message_find k (JObject (obj_put y v ms)) = message_find k (JObject ms)"
  by (simp add: message_find_object map_of_obj_put del: obj_put.simps)

definition report_keys :: "string list \<Rightarrow> bool" where
  "report_keys ks \<longleftrightarrow> ks \<noteq> [] \<and> distinct ks \<and> pairwise apart (set ks)
     \<and> (\<forall>k \<in> set ks. split k ''.'' \<noteq> [] \<and> hd (split k ''.'') \<noteq> ''@status_code'')"

lemma report_reply:
  assumes "report_keys (keys kvs)" and "d = JObject [] \<or> d = JNull"
  shows "\<exists>d'. rbind (set_all kvs d) (\<lambda>d'. im_reply_msg L i d' st) = Inr (Reply i (jl_write L d'))
    \<and> (\<forall>(k, v) \<in> set kvs. message_find k d' = Some v)
    \<and> message_find ''@status_code'' d' = Some (JInt (code_of st))"
proof -
  have r: "kvs \<noteq> []" "distinct (keys kvs)" "pairwise apart (set (keys kvs))"
    "\<And>k. k \<in> set (keys kvs) \<Longrightarrow> split k ''.'' \<noteq> [] \<and> hd (split k ''.'') \<noteq> ''@status_code''"
    using assms(1) by (auto simp: report_keys_def)
  from r(3) have no: "\<not> overruns k l" if "k \<in> set (keys kvs)" "l \<in> set (keys kvs)" for k l
    using that apart_not_overruns by (metis not_overruns_self pairwiseD)
  obtain ms where ms: "set_all kvs d = Inr (JObject ms)"
    using set_all_blank [OF assms(2) r(1)] r(4) no by blast
  let ?d = "JObject (obj_put ''@status_code'' (JInt (code_of st)) ms)"
  have "message_find k ?d = Some v" if "(k, v) \<in> set kvs" for k v
  proof -
    have "k \<in> set (keys kvs)" using that by (force simp: image_iff)
    with r(4) obtain x xs where "split k ''.'' = x # xs" "x \<noteq> ''@status_code''"
      by (metis list.collapse)
    with find_beside set_all_lookup [OF ms r(3,2) that] show ?thesis by simp
  qed
  moreover have "message_find ''@status_code'' ?d = Some (JInt (code_of st))"
    by (simp add: message_find_plain plain_key_def map_of_obj_put del: obj_put.simps)
  ultimately show ?thesis
    using ms by (intro exI [of _ ?d]) (auto simp: im_reply_msg_object)
qed

section \<open>Operations that run into no undefined behaviour\<close>

lemma rbind_no_crash:
  "rbind x f \<noteq> Inl UndefinedBehaviour \<longleftrightarrow>
     x \<noteq> Inl UndefinedBehaviour \<and> (\<forall>y. x = Inr y \<longrightarrow> f y \<noteq> Inl UndefinedBehaviour)"
  by (cases x) auto

lemma clear_no_crash: "message_clear d \<noteq> Inl UndefinedBehaviour"
  by (cases d) (simp_all add: message_clear_def)

lemma put_member_no_crash: "put_member k v d \<noteq> Inl UndefinedBehaviour"
  by (cases d) simp_all

lemma im_reply_msg_no_crash: "im_reply_msg L i d st \<noteq> Inl UndefinedBehaviour"
  by (simp add: im_reply_msg_def rbind_no_crash set_status_code_def put_member_no_crash)

lemma answers_no_crash:
  "im_fail_code L m st r \<noteq> Inl UndefinedBehaviour" "im_fail L m r \<noteq> Inl UndefinedBehaviour"
  "im_reply L m \<noteq> Inl UndefinedBehaviour"
  by (simp_all add: reply_eqs)

lemma message_parse_no_crash: "message_parse L t d \<noteq> Inl UndefinedBehaviour"
  by (simp add: message_parse_def split: option.split)

lemma im_reply_job_no_crash: "im_reply_job L i j st \<noteq> Inl UndefinedBehaviour"
  by (simp add: im_reply_job_def job_to_string_doc rbind_no_crash message_parse_no_crash im_reply_msg_no_crash)

lemma set_path_no_crash: "ks \<noteq> [] \<Longrightarrow> set_path ks v d \<noteq> Inl UndefinedBehaviour"
proof (induction ks v d rule: set_path.induct)
  case (2 k v d)
  then show ?case by (cases d) (simp_all add: rbind_no_crash put_member_no_crash)
next
  case (3 k k' ks v d)
  have "enter_member k d \<noteq> Inl UndefinedBehaviour"
    by (cases d) (simp_all add: enter_member_def put_member_no_crash)
  with "3.IH" show ?case by (simp add: rbind_no_crash put_member_no_crash)
qed simp

lemma set_all_no_crash:
  "\<forall>k \<in> set (keys kvs). split k ''.'' \<noteq> [] \<Longrightarrow> set_all kvs d \<noteq> Inl UndefinedBehaviour"
  by (induction kvs d rule: set_all.induct) (simp_all add: rbind_no_crash message_set_def set_path_no_crash)

end
