(* ===== verification/Nix_Route.thy ===== *)
theory Nix_Route
  imports Nix_Documents
begin

text \<open>
  Routes (src/src/nix/route.hxx, route.cxx), their names for people (types.cxx) and the base
  class of all modules (module.hxx, module.cxx, module/builtin.hxx). A handler is a
  \<open>std::function\<close> bound to a member of a module; the model keeps which member it is, and
  the theory of the module runs it.
\<close>

section \<open>Routes\<close>

datatype processing_type = VOID | SYNC | ASYNC | FUTURE | PUBLISH

datatype access_modifier = ANY | PUBLIC | API_PRIVATE | ADMIN

fun processing_code :: "processing_type \<Rightarrow> int" where
  "processing_code VOID = 0"
| "processing_code SYNC = 1"
| "processing_code ASYNC = 2"
| "processing_code FUTURE = 3"
| "processing_code PUBLISH = 4"

fun access_code :: "access_modifier \<Rightarrow> int" where
  "access_code ANY = 0"
| "access_code PUBLIC = 1"
| "access_code API_PRIVATE = 2"
| "access_code ADMIN = 3"

lemma access_code_inj [simp]: "access_code a = access_code b \<longleftrightarrow> a = b"
  by (cases a; cases b) simp_all

text \<open>The modifiers in the order of the enumeration, from the most open one.\<close>

instantiation access_modifier :: linorder
begin

definition less_eq_access_modifier :: "access_modifier \<Rightarrow> access_modifier \<Rightarrow> bool" where
  "less_eq_access_modifier a b \<longleftrightarrow> access_code a \<le> access_code b"

definition less_access_modifier :: "access_modifier \<Rightarrow> access_modifier \<Rightarrow> bool" where
  "less_access_modifier a b \<longleftrightarrow> access_code a < access_code b"

instance
  by standard (auto simp: less_eq_access_modifier_def less_access_modifier_def
      simp flip: access_code_inj)

end

fun str_processing_type :: "processing_type \<Rightarrow> string" where
  "str_processing_type VOID = ''VOID''"
| "str_processing_type SYNC = ''SYNC''"
| "str_processing_type ASYNC = ''ASYNC''"
| "str_processing_type FUTURE = ''FUTURE''"
| "str_processing_type PUBLISH = ''PUBLISH''"

fun str_access_modifier :: "access_modifier \<Rightarrow> string" where
  "str_access_modifier ANY = ''ANY''"
| "str_access_modifier PUBLIC = ''PUBLIC''"
| "str_access_modifier API_PRIVATE = ''API_PRIVATE''"
| "str_access_modifier ADMIN = ''ADMIN''"

record 'h route =
  rt_name :: string
  rt_handler :: 'h
  rt_access :: access_modifier
  rt_processing :: processing_type
  rt_description :: string

definition route_new ::
    "string \<Rightarrow> 'h \<Rightarrow> access_modifier \<Rightarrow> processing_type \<Rightarrow> string \<Rightarrow> 'h route" where
  "route_new name h am pt descr =
     \<lparr>rt_name = name, rt_handler = h, rt_access = am, rt_processing = pt, rt_description = descr\<rparr>"

lemma route_new_simps [simp]:
  "rt_name (route_new n h am pt ds) = n"
  "rt_handler (route_new n h am pt ds) = h"
  "rt_access (route_new n h am pt ds) = am"
  "rt_processing (route_new n h am pt ds) = pt"
  "rt_description (route_new n h am pt ds) = ds"
  by (simp_all add: route_new_def)

section \<open>Modules\<close>

text \<open>
  A module handles \<open>list_routes\<close> and \<open>ping\<close> itself; \<open>Own\<close> is a handler of the derived class.
\<close>

datatype 'h mod_handler = List_routes | Is_alive | Own 'h

record 'h nix_module =
  md_ident :: string
  md_version :: int
  md_routes :: "'h mod_handler route list"

definition module_new :: "string \<Rightarrow> int \<Rightarrow> 'h nix_module" where
  "module_new ident version =
     \<lparr>md_ident = ident, md_version = version,
      md_routes =
        [route_new ''list_routes'' List_routes ANY SYNC
           (''Display all routes handled by '' @ CHR 0x27 # ident @ CHR 0x27 # '' module''),
         route_new ''ping'' Is_alive ANY SYNC []]\<rparr>"

definition module_push_route :: "'h mod_handler route \<Rightarrow> 'h nix_module \<Rightarrow> 'h nix_module" where
  "module_push_route r m = m\<lparr>md_routes := md_routes m @ [r]\<rparr>"

definition builtin_new :: "string \<Rightarrow> int \<Rightarrow> 'h mod_handler route list \<Rightarrow> 'h nix_module" where
  "builtin_new name version rs = fold module_push_route rs (module_new name version)"

lemma builtin_new_routes:
  "md_routes (builtin_new name version rs) = md_routes (module_new name version :: 'h nix_module) @ rs"
  "md_ident (builtin_new name version rs) = name"
proof -
  have "md_routes (fold module_push_route rs m) = md_routes m @ rs
      \<and> md_ident (fold module_push_route rs m) = md_ident m" for m :: "'h nix_module"
    by (induction rs arbitrary: m) (simp_all add: module_push_route_def)
  then show "md_routes (builtin_new name version rs) = md_routes (module_new name version :: 'h nix_module) @ rs"
    "md_ident (builtin_new name version rs) = name"
    by (simp_all add: builtin_new_def module_new_def)
qed

definition route_entries :: "'h route \<Rightarrow> (string \<times> json) list" where
  "route_entries r =
     (let pre = ''routing.'' @ rt_name r
      in [(pre @ ''.access_modifier'', JString (str_access_modifier (rt_access r))),
          (pre @ ''.processing_type'', JString (str_processing_type (rt_processing r))),
          (pre @ ''.description'', JString (rt_description r))])"

definition listing :: "'h nix_module \<Rightarrow> (string \<times> json) list" where
  "listing m =
     [(''module.ident'', JString (md_ident m)), (''module.version'', JInt (md_version m))]
     @ concat (map route_entries (md_routes m))"

definition list_routes :: "jlib \<Rightarrow> 'h nix_module \<Rightarrow> imsg \<Rightarrow> net res" where
  "list_routes L m msg =
     rbind (message_clear (im_doc msg)) (\<lambda>d.
     rbind (set_all (listing m) d) (\<lambda>d'.
     im_reply_msg L (im_id msg) d' Ok))"

definition is_alive :: "jlib \<Rightarrow> imsg \<Rightarrow> net res" where
  "is_alive L msg = im_reply L msg"

text \<open>The handlers every module has, and those of the derived class.\<close>

definition run_handler ::
    "jlib \<Rightarrow> 'h nix_module \<Rightarrow> ('h \<Rightarrow> imsg \<Rightarrow> 's \<Rightarrow> 's outcome) \<Rightarrow> 'h mod_handler \<Rightarrow> imsg \<Rightarrow> 's \<Rightarrow> 's outcome" where
  "run_handler L m own h msg s = (case h of
     List_routes \<Rightarrow> answer (list_routes L m msg) s s
   | Is_alive \<Rightarrow> answer (is_alive L msg) s s
   | Own f \<Rightarrow> own f msg s)"

text \<open>The default \<open>start\<close> and \<open>stop\<close> do nothing.\<close>

definition module_start :: "'s \<Rightarrow> 's" where "module_start s = s"

definition module_stop :: "'s \<Rightarrow> 's" where "module_stop s = s"

section \<open>Listing routes\<close>

lemma route_entries_eq:
  "route_entries r =
     [(sub_key ''routing'' (rt_name r) ''access_modifier'', JString (str_access_modifier (rt_access r))),
      (sub_key ''routing'' (rt_name r) ''processing_type'', JString (str_processing_type (rt_processing r))),
      (sub_key ''routing'' (rt_name r) ''description'', JString (rt_description r))]"
  by (simp add: route_entries_def sub_key_def Let_def)

lemma plain_names [simp]:
  "plain_key ''access_modifier''" "plain_key ''processing_type''" "plain_key ''description''"
  "plain_key ''routing''" "plain_key ''module''" "plain_key ''ident''" "plain_key ''version''"
  by (simp_all add: plain_key_def)

lemma split_module_keys:
  "split ''module.ident'' ''.'' = [''module'', ''ident'']"
  "split ''module.version'' ''.'' = [''module'', ''version'']"
  using split_dotted [of "''module''" "''ident''"] split_dotted [of "''module''" "''version''"]
  by (simp_all add: split_plain)

lemma split_routing: "split ''routing'' ''.'' = [''routing'']"
  by (simp add: split_plain)

lemma key_in_route_entries:
  "k \<in> set (keys (route_entries r)) \<Longrightarrow> plain_key (rt_name r) \<Longrightarrow>
     \<exists>l. split k ''.'' = [''routing'', rt_name r, l] \<and> k = sub_key ''routing'' (rt_name r) l \<and> plain_key l"
  by (auto simp: route_entries_eq split_sub_key split_routing)

definition plain_routes :: "'h route list \<Rightarrow> bool" where
  "plain_routes rs \<longleftrightarrow> distinct (map rt_name rs) \<and> (\<forall>r \<in> set rs. plain_key (rt_name r))"

lemma plain_routes_Cons:
  "plain_routes (r # rs) \<longleftrightarrow> plain_key (rt_name r) \<and> rt_name r \<notin> rt_name ` set rs \<and> plain_routes rs"
  by (auto simp: plain_routes_def)

definition routing_keys :: "'h route list \<Rightarrow> string list" where
  "routing_keys rs = keys (concat (map route_entries rs))"

lemma routing_keys_Cons:
  "routing_keys (r # rs) = keys (route_entries r) @ routing_keys rs"
  by (simp add: routing_keys_def)

lemma key_in_routing:
  "k \<in> set (routing_keys rs) \<Longrightarrow> plain_routes rs \<Longrightarrow>
     \<exists>r \<in> set rs. \<exists>l. k = sub_key ''routing'' (rt_name r) l \<and> plain_key l
       \<and> split k ''.'' = [''routing'', rt_name r, l]"
proof (induction rs)
  case (Cons r rs)
  with key_in_route_entries [of k r] show ?case
    by (auto simp: routing_keys_Cons plain_routes_Cons)
qed (simp add: routing_keys_def)

lemma distinct_routing_keys: "plain_routes rs \<Longrightarrow> distinct (routing_keys rs)"
proof (induction rs)
  case (Cons r rs)
  have "distinct (keys (route_entries r))" by (simp add: route_entries_eq sub_key_def)
  moreover have "False" if k: "k \<in> set (keys (route_entries r))" "k \<in> set (routing_keys rs)" for k
  proof -
    from Cons.prems k(1) obtain l where l: "split k ''.'' = [''routing'', rt_name r, l]"
      using key_in_route_entries [OF k(1)] by (auto simp: plain_routes_Cons)
    from Cons.prems key_in_routing [OF k(2)] obtain r' l' where
      "r' \<in> set rs" "split k ''.'' = [''routing'', rt_name r', l']"
      by (auto simp: plain_routes_Cons)
    with l Cons.prems show False by (simp add: plain_routes_Cons) (metis image_eqI)
  qed
  ultimately show ?case
    using Cons by (auto simp: routing_keys_Cons plain_routes_Cons)
qed (simp add: routing_keys_def)

lemma apart_routing_keys: "plain_routes rs \<Longrightarrow> pairwise apart (set (routing_keys rs))"
proof (rule pairwiseI)
  fix k l assume rs: "plain_routes rs" and k: "k \<in> set (routing_keys rs)" and l: "l \<in> set (routing_keys rs)"
    and "k \<noteq> l"
  from key_in_routing [OF k rs] obtain x y where "k = sub_key ''routing'' x y"
    "split k ''.'' = [''routing'', x, y]" by blast
  moreover from key_in_routing [OF l rs] obtain x' y' where "l = sub_key ''routing'' x' y'"
    "split l ''.'' = [''routing'', x', y']" by blast
  ultimately show "apart k l" using \<open>k \<noteq> l\<close> by (intro apart_same_length) auto
qed

lemma keys_listing: "keys (listing m) = ''module.ident'' # ''module.version'' # routing_keys (md_routes m)"
  by (simp add: listing_def routing_keys_def)

lemma report_listing:
  assumes "plain_routes (md_routes m)"
  shows "report_keys (keys (listing m))"
proof -
  have k: "\<exists>x l. split k ''.'' = [''routing'', x, l]" if "k \<in> set (routing_keys (md_routes m))" for k
    using key_in_routing [OF that assms] by auto
  have ap: "apart ''module.ident'' k" "apart ''module.version'' k"
    if "k \<in> set (routing_keys (md_routes m))" for k
    using k [OF that] by (auto intro!: apart_heads simp: split_module_keys)
  have "apart ''module.ident'' ''module.version''"
    by (rule apart_same_length) (simp_all add: split_module_keys)
  with ap have "pairwise apart (insert ''module.ident'' (insert ''module.version''
      (set (routing_keys (md_routes m)))))"
    using apart_routing_keys [OF assms] by (auto simp: pairwise_insert intro: apart_sym)
  moreover have "''module.ident'' \<notin> set (routing_keys (md_routes m))"
    "''module.version'' \<notin> set (routing_keys (md_routes m))"
    using k by (force simp: split_module_keys)+
  ultimately show ?thesis
    using distinct_routing_keys [OF assms]
    by (auto simp: report_keys_def keys_listing split_module_keys dest!: k)
qed

lemma list_routes_no_crash:
  "\<forall>k \<in> set (keys (listing m)). split k ''.'' \<noteq> [] \<Longrightarrow> list_routes L m msg \<noteq> Inl UndefinedBehaviour"
  using set_all_no_crash [of "listing m"]
  by (simp add: list_routes_def rbind_no_crash clear_no_crash im_reply_msg_no_crash)

text \<open>
  \<open>list_routes\<close> answers a request whose root is an object or null with the module's name and
  version and, for every route of the module, its access modifier, processing type and
  description, none overwritten by another: for a module whose routes have distinct names
  without dots.
\<close>

theorem list_routes_complete:
  assumes "plain_routes (md_routes m)" and "passable (im_doc msg)"
  shows "\<exists>d. list_routes L m msg = Inr (Reply (im_id msg) (jl_write L d))
    \<and> message_find ''module.ident'' d = Some (JString (md_ident m))
    \<and> message_find ''module.version'' d = Some (JInt (md_version m))
    \<and> (\<forall>r \<in> set (md_routes m).
        message_find (sub_key ''routing'' (rt_name r) ''access_modifier'') d
          = Some (JString (str_access_modifier (rt_access r)))
      \<and> message_find (sub_key ''routing'' (rt_name r) ''processing_type'') d
          = Some (JString (str_processing_type (rt_processing r)))
      \<and> message_find (sub_key ''routing'' (rt_name r) ''description'') d
          = Some (JString (rt_description r)))"
proof -
  from clear_passable [OF assms(2)] obtain d where d: "message_clear (im_doc msg) = Inr d"
    "d = JObject [] \<or> d = JNull" by (auto simp: message_clear_def)
  obtain d' where "rbind (set_all (listing m) d) (\<lambda>d'. im_reply_msg L (im_id msg) d' Ok)
      = Inr (Reply (im_id msg) (jl_write L d'))"
    and found: "\<forall>(k, v) \<in> set (listing m). message_find k d' = Some v"
    using report_reply [OF report_listing [OF assms(1)] d(2)] by blast
  then have "list_routes L m msg = Inr (Reply (im_id msg) (jl_write L d'))"
    by (simp add: list_routes_def d(1))
  moreover have "\<forall>r \<in> set (md_routes m). \<forall>(k, v) \<in> set (route_entries r). message_find k d' = Some v"
    using found by (fastforce simp: listing_def)
  moreover have "message_find ''module.ident'' d' = Some (JString (md_ident m))"
    "message_find ''module.version'' d' = Some (JInt (md_version m))"
    using found by (auto simp: listing_def)
  ultimately show ?thesis by (intro exI [of _ d']) (simp add: route_entries_eq)
qed

theorem list_routes_complete_witness:
  "\<exists>d. list_routes ref_lib (module_new ''Cache'' 1 :: nat nix_module) \<lparr>im_id = 3, im_doc = JNull\<rparr>
        = Inr (Reply 3 (jl_write ref_lib d))
    \<and> message_find ''module.ident'' d = Some (JString ''Cache'')
    \<and> message_find (sub_key ''routing'' ''ping'' ''access_modifier'') d = Some (JString ''ANY'')"
proof -
  have "plain_routes (md_routes (module_new ''Cache'' 1 :: nat nix_module))"
    by (simp add: plain_routes_def module_new_def plain_key_def)
  from list_routes_complete [OF this, of "\<lparr>im_id = 3, im_doc = JNull\<rparr>" ref_lib] show ?thesis
    by (auto simp: passable_def module_new_def)
qed

end
