(* ===== verification/Nix_Runs.thy ===== *)
theory Nix_Runs
  imports Nix_Prelude
begin

text \<open>
  Runs of a service that end where the process ends. A step that runs into undefined behaviour has no
  state after it; an exception leaves the state the handler has reached (the dispatcher catches it),
  and so does a handler that waits: the service goes on beside it.
\<close>

definition alive_step :: "('e \<Rightarrow> 's \<Rightarrow> 's outcome) \<Rightarrow> 'e \<Rightarrow> 's \<Rightarrow> 's option" where
  "alive_step react e s = (if no_crash (react e s) then Some (final_state s (react e s)) else None)"

fun alive_run :: "('e \<Rightarrow> 's \<Rightarrow> 's outcome) \<Rightarrow> 'e list \<Rightarrow> 's \<Rightarrow> 's option" where
  "alive_run react [] s = Some s"
| "alive_run react (e # es) s = Option.bind (alive_step react e s) (alive_run react es)"

lemma alive_step_Some:
  "alive_step react e s = Some s' \<longleftrightarrow> no_crash (react e s) \<and> s' = final_state s (react e s)"
  by (auto simp: alive_step_def)

lemma alive_run_Cons_Some:
  "alive_run react (e # es) s = Some s' \<longleftrightarrow>
     no_crash (react e s) \<and> alive_run react es (final_state s (react e s)) = Some s'"
  by (auto simp: alive_step_def)

lemma alive_run_append:
  "alive_run react (es @ es') s = Option.bind (alive_run react es s) (alive_run react es')"
  by (induction es arbitrary: s) (auto simp: alive_step_def)

text \<open>A property that every step keeps which does not end the process.\<close>

locale mortal_system =
  fixes react :: "'e \<Rightarrow> 's \<Rightarrow> 's outcome"
    and inv :: "'s \<Rightarrow> bool"
  assumes react_inv: "inv s \<Longrightarrow> no_crash (react e s) \<Longrightarrow> inv (final_state s (react e s))"
begin

lemma run_inv: "alive_run react es s = Some s' \<Longrightarrow> inv s \<Longrightarrow> inv s'"
  by (induction es arbitrary: s) (auto simp del: alive_run.simps(2) simp: alive_run_Cons_Some react_inv)

end

text \<open>What steps leave alone that are all of one kind.\<close>

lemma alive_run_kept:
  assumes "alive_run react es s = Some s'" and "\<forall>e \<in> set es. P e"
    and "\<And>e s. P e \<Longrightarrow> f (final_state s (react e s)) = f s"
  shows "f s' = f s"
  using assms(1,2)
  by (induction es arbitrary: s) (auto simp del: alive_run.simps(2) simp: alive_run_Cons_Some assms(3))

end
