(* ===== verification/Nix_Cache.thy ===== *)
theory Nix_Cache
  imports Nix_Route Nix_Runs
begin

text \<open>
  The cache service (src/src/nix/module/builtin/service/cache.hxx, cache.cxx). A handler
  reads the clock once; \<open>now\<close> is what \<open>std::time(0)\<close> returns. The counters are atomic 64 bit
  words. \<open>retrieve\<close> takes the mutex twice, so it is also given as its two critical sections. A handler is
  one step in the runs of this theory: requests and passes of the cleaner come one after the other. (In the
  server \<open>status\<close> reads the counters before it takes the mutex, and \<open>store\<close>, \<open>retrieve\<close> and \<open>remove\<close> raise theirs
  after they have released it, so with several threads a status may show a contents and counters that do not
  belong together.)
\<close>

section \<open>Entries\<close>

record cache_entry =
  ce_ctime :: int
  ce_max_age :: int
  ce_content :: string

definition cache_entry_new :: "int \<Rightarrow> cache_entry" where
  "cache_entry_new now = \<lparr>ce_ctime = narrow32 now, ce_max_age = 5 * 60, ce_content = []\<rparr>"

definition expired :: "int \<Rightarrow> cache_entry \<Rightarrow> bool" where
  "expired now e \<longleftrightarrow> now - ce_ctime e \<ge> ce_max_age e"

section \<open>State and handlers\<close>

record cache =
  ca_map :: "(string, cache_entry) umap"
  ca_writes :: "64 word"
  ca_writes_failed :: "64 word"
  ca_removals :: "64 word"
  ca_hits :: "64 word"
  ca_hits_expired :: "64 word"
  ca_misses :: "64 word"

definition cache_new :: cache where
  "cache_new = \<lparr>ca_map = [], ca_writes = 0, ca_writes_failed = 0, ca_removals = 0, ca_hits = 0,
     ca_hits_expired = 0, ca_misses = 0\<rparr>"

datatype cache_handler = Cache_store | Cache_retrieve | Cache_remove | Cache_status

definition cache_module :: "cache_handler nix_module" where
  "cache_module = builtin_new ''Cache'' 1
     [route_new ''store'' (Own Cache_store) API_PRIVATE SYNC [],
      route_new ''retrieve'' (Own Cache_retrieve) API_PRIVATE SYNC [],
      route_new ''remove'' (Own Cache_remove) API_PRIVATE VOID [],
      route_new ''status'' (Own Cache_status) API_PRIVATE SYNC []]"

definition cache_put :: "int \<Rightarrow> string \<Rightarrow> int \<Rightarrow> string \<Rightarrow> cache \<Rightarrow> cache" where
  "cache_put now key max_age content c =
     (let e = cache_entry_new now;
          e1 = e\<lparr>ce_max_age := (if max_age \<noteq> 0 then max_age else ce_max_age e), ce_content := content\<rparr>
      in c\<lparr>ca_map := AList.update key e1 (ca_map c)\<rparr>)"

definition cache_store :: "jlib \<Rightarrow> int \<Rightarrow> imsg \<Rightarrow> cache \<Rightarrow> cache outcome" where
  "cache_store L now msg c =
     (let key = get_string L ''key'' [] (im_doc msg)
      in if key = [] then
           answer (im_fail_code L msg Data_invalid_content ''Cannot cache empty key/value.'')
             c (c\<lparr>ca_writes_failed := ca_writes_failed c + 1\<rparr>)
         else
           let max_age = get_int L ''max_age'' 0 (im_doc msg);
               value = message_to_string L ''value'' False (im_doc msg);
               c1 = cache_put now key max_age value c
           in answer (im_reply L msg) c1 (c1\<lparr>ca_writes := ca_writes c1 + 1\<rparr>))"

text \<open>First critical section of \<open>retrieve\<close>; the second one, under the same key.\<close>

definition cache_found :: "string \<Rightarrow> cache \<Rightarrow> bool" where
  "cache_found key c = um_count key (ca_map c)"

definition cache_read :: "int \<Rightarrow> string \<Rightarrow> cache \<Rightarrow> (bool \<times> string) \<times> cache" where
  "cache_read now key c =
     (let (e, m1) = index_or_insert (cache_entry_new now) key (ca_map c)
      in if expired now e then ((True, []), c\<lparr>ca_map := AList.delete key m1\<rparr>)
         else let (e', m2) = index_or_insert (cache_entry_new now) key m1
              in ((False, ce_content e'), c\<lparr>ca_map := m2\<rparr>))"

definition cache_retrieve_miss :: "jlib \<Rightarrow> imsg \<Rightarrow> cache \<Rightarrow> cache outcome" where
  "cache_retrieve_miss L msg c =
     answer (rbind (message_clear (im_doc msg)) (\<lambda>d. im_fail_code L (msg\<lparr>im_doc := d\<rparr>) Null_value []))
       c (c\<lparr>ca_misses := ca_misses c + 1\<rparr>)"

definition cache_retrieve_hit :: "jlib \<Rightarrow> int \<Rightarrow> string \<Rightarrow> imsg \<Rightarrow> cache \<Rightarrow> cache outcome" where
  "cache_retrieve_hit L now key msg c =
     (let ((exp, content), c1) = cache_read now key c
      in if exp then
           answer (im_fail_code L msg Null_value []) c1 (c1\<lparr>ca_hits_expired := ca_hits_expired c1 + 1\<rparr>)
         else
           answer (rbind (message_clear (im_doc msg)) (\<lambda>d.
                   rbind (set_deserialized L key content d) (\<lambda>d'.
                   im_reply_msg L (im_id msg) d' Ok)))
             c1 (c1\<lparr>ca_hits := ca_hits c1 + 1\<rparr>))"

definition cache_retrieve :: "jlib \<Rightarrow> int \<Rightarrow> imsg \<Rightarrow> cache \<Rightarrow> cache outcome" where
  "cache_retrieve L now msg c =
     (let key = get_string L ''key'' [] (im_doc msg)
      in if key = [] \<or> \<not> cache_found key c then cache_retrieve_miss L msg c
         else cache_retrieve_hit L now key msg c)"

definition cache_remove :: "jlib \<Rightarrow> imsg \<Rightarrow> cache \<Rightarrow> cache outcome" where
  "cache_remove L msg c =
     Done (c\<lparr>ca_map := AList.delete (get_string L ''key'' [] (im_doc msg)) (ca_map c),
             ca_removals := ca_removals c + 1\<rparr>) []"

definition cache_total :: "cache \<Rightarrow> 64 word" where
  "cache_total c =
     (ca_writes c + ca_writes_failed c) + ca_removals c
     + (ca_hits c + ca_hits_expired c + ca_misses c)"

definition cache_bytes :: "cache \<Rightarrow> nat" where
  "cache_bytes c = sum_list (map (\<lambda>(k, e). length (ce_content e)) (ca_map c))"

definition cache_status_entries :: "cache \<Rightarrow> (string \<times> json) list" where
  "cache_status_entries c =
     [(''writes'', JInt (sint (ca_writes c))),
      (''writes_failed'', JInt (sint (ca_writes_failed c))),
      (''removals'', JInt (sint (ca_removals c))),
      (''hits'', JInt (sint (ca_hits c))),
      (''hits_expired'', JInt (sint (ca_hits_expired c))),
      (''misses'', JInt (sint (ca_misses c))),
      (''total_calls'', JInt (sint (cache_total c))),
      (''cache_size'', JInt (int (length (ca_map c)))),
      (''bytes'', JInt (int (cache_bytes c)))]"

definition cache_status :: "jlib \<Rightarrow> imsg \<Rightarrow> cache \<Rightarrow> cache outcome" where
  "cache_status L msg c =
     answer (rbind (message_clear (im_doc msg)) (\<lambda>d.
             rbind (set_all (cache_status_entries c) d) (\<lambda>d'. im_reply_msg L (im_id msg) d' Ok))) c c"

text \<open>
  One pass of the cleaner thread over the map. The element the loop stands on is erased when it has
  expired, and the loop then advances an iterator that no longer exists.
\<close>

fun clean_loop :: "int \<Rightarrow> (string, cache_entry) umap \<Rightarrow> (string, cache_entry) umap
    \<Rightarrow> (string, cache_entry) umap \<times> exc option" where
  "clean_loop now [] m = (m, None)"
| "clean_loop now ((k, e) # rest) m =
     (if expired now e then (AList.delete k m, Some UndefinedBehaviour) else clean_loop now rest m)"

definition cache_clean :: "int \<Rightarrow> cache \<Rightarrow> cache outcome" where
  "cache_clean now c = (case clean_loop now (ca_map c) (ca_map c) of
     (m, Some e) \<Rightarrow> Raised e (c\<lparr>ca_map := m\<rparr>) []
   | (m, None) \<Rightarrow> Done (c\<lparr>ca_map := m\<rparr>) [])"

fun cache_own :: "jlib \<Rightarrow> int \<Rightarrow> cache_handler \<Rightarrow> imsg \<Rightarrow> cache \<Rightarrow> cache outcome" where
  "cache_own L now Cache_store msg c = cache_store L now msg c"
| "cache_own L now Cache_retrieve msg c = cache_retrieve L now msg c"
| "cache_own L now Cache_remove msg c = cache_remove L msg c"
| "cache_own L now Cache_status msg c = cache_status L msg c"

definition cache_run :: "jlib \<Rightarrow> int \<Rightarrow> cache_handler mod_handler \<Rightarrow> imsg \<Rightarrow> cache \<Rightarrow> cache outcome" where
  "cache_run L now = run_handler L cache_module (cache_own L now)"

section \<open>The contract: a map whose entries expire\<close>

text \<open>
  \<open>peek t k s\<close> is what the store gives for \<open>k\<close> at time \<open>t\<close>. An entry put at time \<open>t0\<close> lives
  for the age it was given; \<open>clock\<close> tells for which times the store's clock is right.
\<close>

locale expiring_store =
  fixes put :: "int \<Rightarrow> 'k \<Rightarrow> int \<Rightarrow> 'v \<Rightarrow> 's \<Rightarrow> 's"
    and drop_key :: "'k \<Rightarrow> 's \<Rightarrow> 's"
    and peek :: "int \<Rightarrow> 'k \<Rightarrow> 's \<Rightarrow> 'v option"
    and clock :: "int \<Rightarrow> bool"
    and age :: "int \<Rightarrow> int"
  assumes peek_put: "clock t0 \<Longrightarrow> peek t k (put t0 k a v s) = (if t - t0 < age a then Some v else None)"
    and peek_put_other: "k' \<noteq> k \<Longrightarrow> peek t k' (put t0 k a v s) = peek t k' s"
    and peek_drop: "peek t k (drop_key k s) = None"
    and peek_drop_other: "k' \<noteq> k \<Longrightarrow> peek t k' (drop_key k s) = peek t k' s"
    and peek_later: "peek t k s = None \<Longrightarrow> t \<le> t' \<Longrightarrow> peek t' k s = None"
begin

lemma peek_put_fun:
  "clock t0 \<Longrightarrow> (\<lambda>k'. peek t k' (put t0 k a v s))
     = (\<lambda>k'. peek t k' s)(k := if t - t0 < age a then Some v else None)"
  by (auto simp: fun_eq_iff peek_put peek_put_other)

lemma peek_drop_fun: "(\<lambda>k'. peek t k' (drop_key k s)) = (\<lambda>k'. peek t k' s)(k := None)"
  by (auto simp: fun_eq_iff peek_drop peek_drop_other)

text \<open>Dropping an entry that has expired is not seen later.\<close>

lemma peek_drop_expired:
  "peek t k s = None \<Longrightarrow> t \<le> t' \<Longrightarrow> (\<lambda>k'. peek t' k' (drop_key k s)) = (\<lambda>k'. peek t' k' s)"
  by (auto simp: peek_drop_fun fun_eq_iff dest: peek_later)

end

definition cache_peek :: "int \<Rightarrow> string \<Rightarrow> cache \<Rightarrow> string option" where
  "cache_peek t k c = (case map_of (ca_map c) k of
     None \<Rightarrow> None | Some e \<Rightarrow> if expired t e then None else Some (ce_content e))"

definition cache_drop :: "string \<Rightarrow> cache \<Rightarrow> cache" where
  "cache_drop k c = c\<lparr>ca_map := AList.delete k (ca_map c)\<rparr>"

definition effective_age :: "int \<Rightarrow> int" where
  "effective_age a = (if a = 0 then 300 else a)"

interpretation cs: expiring_store cache_put cache_drop cache_peek int32 effective_age
  by unfold_locales
    (auto simp: cache_peek_def cache_put_def cache_drop_def cache_entry_new_def Let_def
      update_conv' map_of_delete expired_def narrow32_id effective_age_def split: option.splits)

section \<open>The handlers against the contract\<close>

lemma cache_peek_cong: "ca_map c = ca_map c' \<Longrightarrow> cache_peek t k c = cache_peek t k c'"
  by (simp add: cache_peek_def)

lemma cache_read_found:
  assumes "cache_found k c"
  shows "cache_read now k c = (case cache_peek now k c of
     None \<Rightarrow> ((True, []), cache_drop k c) | Some v \<Rightarrow> ((False, v), c))"
  using assms
  by (auto simp: cache_found_def um_count_def cache_read_def cache_peek_def cache_drop_def
      index_or_insert_def)

text \<open>A \<open>retrieve\<close> no other thread interferes with, in terms of \<open>peek\<close>.\<close>

lemma cache_retrieve_peek:
  "cache_retrieve L now msg c =
     (let key = get_string L ''key'' [] (im_doc msg)
      in if key = [] \<or> \<not> cache_found key c then cache_retrieve_miss L msg c
         else case cache_peek now key c of
           None \<Rightarrow> answer (im_fail_code L msg Null_value [])
             (cache_drop key c) ((cache_drop key c)\<lparr>ca_hits_expired := ca_hits_expired c + 1\<rparr>)
         | Some v \<Rightarrow> answer (rbind (message_clear (im_doc msg)) (\<lambda>d.
                   rbind (set_deserialized L key v d) (\<lambda>d'. im_reply_msg L (im_id msg) d' Ok)))
             c (c\<lparr>ca_hits := ca_hits c + 1\<rparr>))"
  by (simp add: cache_retrieve_def cache_retrieve_hit_def cache_read_found Let_def cache_drop_def
      split: option.split)

definition request_key :: "jlib \<Rightarrow> imsg \<Rightarrow> string" where
  "request_key L msg = get_string L ''key'' [] (im_doc msg)"

fun cache_spec :: "jlib \<Rightarrow> int \<Rightarrow> cache_handler mod_handler \<Rightarrow> imsg \<Rightarrow> int
    \<Rightarrow> (string \<Rightarrow> string option) \<Rightarrow> (string \<Rightarrow> string option)" where
  "cache_spec L now (Own Cache_store) msg t f =
     (if request_key L msg = [] then f
      else f(request_key L msg :=
        if t - now < effective_age (get_int L ''max_age'' 0 (im_doc msg))
        then Some (message_to_string L ''value'' False (im_doc msg)) else None))"
| "cache_spec L now (Own Cache_remove) msg t f = f(request_key L msg := None)"
| "cache_spec L now _ msg t f = f"

datatype cache_event = Ask int "cache_handler mod_handler" imsg | Clean int

fun event_time :: "cache_event \<Rightarrow> int" where
  "event_time (Ask now _ _) = now"
| "event_time (Clean now) = now"

fun cache_react :: "jlib \<Rightarrow> cache_event \<Rightarrow> cache \<Rightarrow> cache outcome" where
  "cache_react L (Ask now h msg) c = cache_run L now h msg c"
| "cache_react L (Clean now) c = cache_clean now c"

definition cache_step :: "jlib \<Rightarrow> cache_event \<Rightarrow> cache \<Rightarrow> cache" where
  "cache_step L e c = final_state c (cache_react L e c)"

lemma clean_loop_cases:
  "\<forall>(k, e) \<in> set rest. \<not> expired now e \<Longrightarrow> clean_loop now rest m = (m, None)"
  "\<exists>(k, e) \<in> set rest. expired now e \<Longrightarrow>
     \<exists>(k, e) \<in> set rest. expired now e \<and> clean_loop now rest m = (AList.delete k m, Some UndefinedBehaviour)"
  by (induction now rest m rule: clean_loop.induct) auto

lemma cache_clean_cases:
  "\<forall>(k, e) \<in> set (ca_map c). \<not> expired now e \<Longrightarrow> cache_clean now c = Done c []"
  "\<exists>(k, e) \<in> set (ca_map c). expired now e \<Longrightarrow>
     \<exists>(k, e) \<in> set (ca_map c). expired now e \<and> cache_clean now c = Raised UndefinedBehaviour (cache_drop k c) []"
  using clean_loop_cases [of "ca_map c" now "ca_map c"]
  by (fastforce simp: cache_clean_def cache_drop_def)+

lemma cache_clean_alive: "no_crash (cache_clean now c) \<Longrightarrow> cache_clean now c = Done c []"
  using cache_clean_cases [of c now] by fastforce

lemma retrieve_state:
  "ca_map (final_state c (cache_retrieve L now msg c)) =
     (if request_key L msg \<noteq> [] \<and> cache_peek now (request_key L msg) c = None
      then ca_map (cache_drop (request_key L msg) c) else ca_map c)"
  by (auto simp: cache_retrieve_peek request_key_def Let_def cache_retrieve_miss_def final_state_answer
      cache_found_def um_count_def cache_drop_def AList.delete_id map_of_eq_None_iff image_iff
      split: option.split sum.split)

lemma store_state:
  "ca_map (final_state c (cache_store L now msg c)) =
     (if request_key L msg = [] then ca_map c
      else ca_map (cache_put now (request_key L msg) (get_int L ''max_age'' 0 (im_doc msg))
        (message_to_string L ''value'' False (im_doc msg)) c))"
  by (auto simp: cache_store_def request_key_def Let_def final_state_answer cache_put_def split: sum.split)

text \<open>
  The parts of the state a request leaves alone.
\<close>

lemma module_handlers_state:
  "final_state c (cache_run L now List_routes msg c) = c"
  "final_state c (cache_run L now Is_alive msg c) = c"
  "final_state c (cache_run L now (Own Cache_status) msg c) = c"
  by (simp_all add: cache_run_def run_handler_def cache_status_def final_state_answer split: sum.split)

section \<open>Properties\<close>

lemma cache_peek_final:
  assumes "int32 now" "now \<le> t"
  shows "(\<lambda>k. cache_peek t k (final_state c (cache_run L now h msg c)))
     = cache_spec L now h msg t (\<lambda>k. cache_peek t k c)"
proof (cases h)
  case (Own f)
  let ?k = "request_key L msg"
  show ?thesis
  proof (cases f)
    case Cache_store
    have "cache_peek t k (final_state c (cache_store L now msg c)) =
        (if ?k = [] then cache_peek t k c
         else cache_peek t k (cache_put now ?k (get_int L ''max_age'' 0 (im_doc msg))
           (message_to_string L ''value'' False (im_doc msg)) c))" for k
      by (simp add: cache_peek_def store_state)
    then show ?thesis using Own Cache_store cs.peek_put_fun [OF assms(1)]
      by (simp add: cache_run_def run_handler_def fun_eq_iff)
  next
    case Cache_retrieve
    have "cache_peek t k (final_state c (cache_retrieve L now msg c)) =
        (if ?k \<noteq> [] \<and> cache_peek now ?k c = None then cache_peek t k (cache_drop ?k c)
         else cache_peek t k c)" for k
      by (simp add: cache_peek_def retrieve_state)
    then show ?thesis using Own Cache_retrieve cs.peek_drop_expired [OF _ assms(2), of ?k c]
      by (auto simp: cache_run_def run_handler_def fun_eq_iff)
  next
    case Cache_remove
    have "cache_peek t k (final_state c (cache_remove L msg c)) = cache_peek t k (cache_drop ?k c)" for k
      by (rule cache_peek_cong) (simp add: cache_remove_def cache_drop_def request_key_def)
    then show ?thesis using Own Cache_remove cs.peek_drop_fun [of t ?k c]
      by (simp add: cache_run_def run_handler_def)
  qed (use Own in \<open>simp add: module_handlers_state\<close>)
qed (simp_all add: module_handlers_state)

text \<open>
  C8. Refinement: seen through \<open>cache_peek\<close>, the contents of the cache at a later time, every
  request does to the cache what the specification says: \<open>store\<close> binds its key for its age,
  \<open>remove\<close> unbinds it, the other requests change nothing (\<open>retrieve\<close> drops only entries that have
  expired). Up to the clock fitting 32 bits.
\<close>

theorem cache_refines_spec:
  assumes "int32 now" and "now \<le> t"
  shows "(\<lambda>k. cache_peek t k (cache_step L (Ask now h msg) c))
    = cache_spec L now h msg t (\<lambda>k. cache_peek t k c)"
  using cache_peek_final [OF assms] by (simp add: cache_step_def)

theorem cache_refines_spec_witness:
  "(\<lambda>k. cache_peek 1010 k (cache_step ref_lib (Ask 1000 (Own Cache_store)
       \<lparr>im_id = 1, im_doc = JObject [(''key'', JString ''a''), (''value'', JInt 5)]\<rparr>) cache_new))
    = cache_spec ref_lib 1000 (Own Cache_store)
       \<lparr>im_id = 1, im_doc = JObject [(''key'', JString ''a''), (''value'', JInt 5)]\<rparr> 1010
       (\<lambda>k. cache_peek 1010 k cache_new)"
  by (rule cache_refines_spec) (simp_all add: int32_def)

text \<open>An event that neither stores nor removes \<open>k\<close> leaves what a later look at \<open>k\<close> finds.\<close>

fun touches :: "jlib \<Rightarrow> string \<Rightarrow> cache_event \<Rightarrow> bool" where
  "touches L k (Ask _ (Own Cache_store) msg) = (request_key L msg = k)"
| "touches L k (Ask _ (Own Cache_remove) msg) = (request_key L msg = k)"
| "touches L k _ = False"

lemma cache_step_untouched:
  assumes "\<not> touches L k e" "int32 (event_time e)" "event_time e \<le> t" "no_crash (cache_react L e c)"
  shows "cache_peek t k (final_state c (cache_react L e c)) = cache_peek t k c"
proof (cases e)
  case (Ask now h msg)
  with assms fun_cong [OF cache_peek_final [of now t c L h msg], of k] show ?thesis
    by (cases "(L, k, e)" rule: touches.cases) auto
next
  case (Clean now)
  with assms(4) cache_clean_alive [of now c] show ?thesis by simp
qed

lemma cache_run_untouched:
  assumes "\<forall>e \<in> set es. \<not> touches L k e \<and> int32 (event_time e) \<and> event_time e \<le> t"
    and "alive_run (cache_react L) es c = Some c'"
  shows "cache_peek t k c' = cache_peek t k c"
  using assms
proof (induction es arbitrary: c)
  case (Cons e es)
  then show ?case
    using cache_step_untouched [of L k e t c] by (auto simp: alive_run_Cons_Some simp del: alive_run.simps)
qed simp

text \<open>
  What ends the process: a pass of the cleaner that meets an entry whose age has passed, and a \<open>retrieve\<close>
  of a key of dots only. Runs without them come through.
\<close>

fun fatal :: "jlib \<Rightarrow> cache_event \<Rightarrow> cache \<Rightarrow> bool" where
  "fatal L (Clean now) c = (\<exists>(k, e) \<in> set (ca_map c). now - ce_ctime e \<ge> ce_max_age e)"
| "fatal L (Ask now (Own Cache_retrieve) msg) c =
     (request_key L msg \<noteq> [] \<and> set (request_key L msg) \<subseteq> {CHR ''.''})"
| "fatal L _ c = False"

fun comes_through :: "jlib \<Rightarrow> cache_event list \<Rightarrow> cache \<Rightarrow> bool" where
  "comes_through L [] c = True"
| "comes_through L (e # es) c = (\<not> fatal L e c \<and> comes_through L es (final_state c (cache_react L e c)))"

lemma cache_status_keys: "k \<in> set (keys (cache_status_entries c)) \<Longrightarrow> split k ''.'' \<noteq> []"
  unfolding split_eq_Nil by (auto simp: cache_status_entries_def)

lemma cache_routes_split: "k \<in> set (keys (listing cache_module)) \<Longrightarrow> split k ''.'' \<noteq> []"
proof -
  have "plain_routes (md_routes cache_module)"
    by (simp add: cache_module_def builtin_new_routes module_new_def plain_routes_def plain_key_def)
  from report_listing [OF this] show "k \<in> set (keys (listing cache_module)) \<Longrightarrow> split k ''.'' \<noteq> []"
    unfolding report_keys_def by blast
qed

lemma cache_no_crash:
  assumes "\<not> fatal L e c"
  shows "no_crash (cache_react L e c)"
proof (cases e)
  case (Clean now)
  with assms cache_clean_cases(1) [of c now] show ?thesis by (simp add: expired_def case_prod_unfold)
next
  case (Ask now h msg)
  show ?thesis
  proof (cases h)
    case (Own f)
    have "no_crash (cache_own L now f msg c)"
    proof (cases f)
      case Cache_retrieve
      with assms Ask Own have "request_key L msg \<noteq> [] \<Longrightarrow> split (request_key L msg) ''.'' \<noteq> []"
        by (simp add: split_eq_Nil)
      then have "request_key L msg \<noteq> [] \<Longrightarrow> rbind (message_clear d) (\<lambda>d. rbind (set_deserialized L (request_key L msg) v d)
          (\<lambda>d'. im_reply_msg L i d' Ok)) \<noteq> Inl UndefinedBehaviour" for d v i
        by (auto simp: rbind_no_crash clear_no_crash im_reply_msg_no_crash set_deserialized_def message_set_def
            set_path_no_crash split: option.split)
      with Cache_retrieve show ?thesis
        by (auto simp: cache_retrieve_peek cache_retrieve_miss_def Let_def no_crash_answer rbind_no_crash clear_no_crash
            answers_no_crash request_key_def split: option.split)
    next
      case Cache_status
      with cache_status_keys show ?thesis
        by (simp add: cache_status_def no_crash_answer rbind_no_crash clear_no_crash set_all_no_crash im_reply_msg_no_crash)
    qed (simp_all add: cache_store_def cache_remove_def Let_def no_crash_answer answers_no_crash)
    with Ask Own show ?thesis by (simp add: cache_run_def run_handler_def)
  qed (simp_all add: Ask cache_run_def run_handler_def no_crash_answer is_alive_def answers_no_crash
      list_routes_no_crash cache_routes_split)
qed

lemma cache_comes_through: "comes_through L es c \<Longrightarrow> \<exists>c'. alive_run (cache_react L) es c = Some c'"
  by (induction es arbitrary: c) (auto simp: alive_step_def cache_no_crash simp del: cache_react.simps)

lemma cache_peek_found: "cache_peek t k c = Some v \<Longrightarrow> cache_found k c"
  by (auto simp: cache_peek_def cache_found_def um_count_def split: option.splits)

lemma retrieve_hit_reply:
  assumes "request_key L msg = key" "key \<noteq> []" "cache_peek t key c = Some (jl_write L v)"
    and "reads_back L v" "passable (im_doc msg)" "report_keys [key]"
  shows "\<exists>d. cache_retrieve L t msg c
      = Done (c\<lparr>ca_hits := ca_hits c + 1\<rparr>) [Reply (im_id msg) (jl_write L d)]
    \<and> message_find key d = Some v \<and> message_find ''@status_code'' d = Some (JInt (code_of Ok))"
proof -
  from clear_passable [OF assms(5)] obtain d0 where d0: "message_clear (im_doc msg) = Inr d0"
    "d0 = JObject [] \<or> d0 = JNull" by (auto simp: message_clear_def)
  from report_reply [of "[(key, v)]" d0 L "im_id msg" Ok] assms(6) d0(2) obtain d where
    d: "rbind (message_set key v d0) (\<lambda>d'. im_reply_msg L (im_id msg) d' Ok)
        = Inr (Reply (im_id msg) (jl_write L d))"
    "message_find key d = Some v" "message_find ''@status_code'' d = Some (JInt (code_of Ok))"
    by (auto simp: rbind_def split: sum.splits)
  have "cache_found key c" using assms(3) by (rule cache_peek_found)
  then have "cache_retrieve L t msg c =
      answer (rbind (message_set key v d0) (\<lambda>d'. im_reply_msg L (im_id msg) d' Ok))
        c (c\<lparr>ca_hits := ca_hits c + 1\<rparr>)"
    using assms(1-4) d0(1)
    by (simp add: cache_retrieve_peek Let_def request_key_def set_deserialized_def reads_back_def)
  with d show ?thesis by auto
qed

text \<open>
  C27. What was stored is retrieved: after \<open>store\<close> of a value under a key at time \<open>t0\<close>, whatever
  other requests and cleaner passes run that do not store or remove this key, a \<open>retrieve\<close>
  before the entry's age has passed answers with exactly this value under its key (which may be
  a path) and status ok, and counts a hit. An age of 0 stands for 300 seconds. The service lives until
  then if no pass of the cleaner meets an entry whose age has passed and no key of dots only is
  retrieved.
\<close>

theorem cache_store_retrieve:
  assumes "jlib_ok L" and "request_key L sm = key" and "key \<noteq> []"
    and "message_find ''value'' (im_doc sm) = Some v" and "reads_back L v"
    and "int32 t0" and "\<forall>e \<in> set es. \<not> touches L key e \<and> int32 (event_time e) \<and> event_time e \<le> t"
    and "c1 = cache_step L (Ask t0 (Own Cache_store) sm) c" and "comes_through L es c1"
    and "t - t0 < effective_age (get_int L ''max_age'' 0 (im_doc sm))"
    and "request_key L rm = key" and "passable (im_doc rm)" and "report_keys [key]"
  shows "\<exists>c' d. alive_run (cache_react L) es c1 = Some c'
    \<and> cache_react L (Ask t (Own Cache_retrieve) rm) c'
        = Done (c'\<lparr>ca_hits := ca_hits c' + 1\<rparr>) [Reply (im_id rm) (jl_write L d)]
    \<and> message_find key d = Some v
    \<and> message_find ''@status_code'' d = Some (JInt (code_of Ok))"
proof -
  obtain c' where c': "alive_run (cache_react L) es c1 = Some c'" using cache_comes_through [OF assms(9)] by blast
  have val: "message_to_string L ''value'' False (im_doc sm) = jl_write L v"
    using assms(4) by (simp add: message_to_string_def)
  have "cache_peek t key c1 = Some (jl_write L v)"
    using store_state [of c L t0 sm] assms(2,3,8,10) val
      cs.peek_put [OF assms(6), of t key "get_int L ''max_age'' 0 (im_doc sm)" "jl_write L v" c]
    by (simp add: cache_step_def cache_run_def run_handler_def cache_peek_def)
  then have "cache_peek t key c' = Some (jl_write L v)"
    using cache_run_untouched [OF assms(7) c'] by simp
  from retrieve_hit_reply [OF assms(11,3) this assms(5,12,13)] c' show ?thesis
    by (simp add: cache_run_def run_handler_def)
qed

lemma report_single: "plain_key k \<Longrightarrow> k \<noteq> ''@status_code'' \<Longrightarrow> report_keys [k]"
  by (simp add: report_keys_def split_plain)

theorem cache_store_retrieve_witness:
  "\<exists>c' d. alive_run (cache_react ref_lib)
        [Ask 5 (Own Cache_remove) \<lparr>im_id = 2, im_doc = JObject [(''key'', JString ''b'')]\<rparr>, Clean 6]
        (cache_step ref_lib (Ask 0 (Own Cache_store)
          \<lparr>im_id = 1, im_doc = JObject [(''key'', JString ''a''), (''value'', JInt 5)]\<rparr>) cache_new) = Some c'
    \<and> cache_react ref_lib (Ask 9 (Own Cache_retrieve)
          \<lparr>im_id = 3, im_doc = JObject [(''key'', JString ''a'')]\<rparr>) c'
        = Done (c'\<lparr>ca_hits := ca_hits c' + 1\<rparr>) [Reply 3 (jl_write ref_lib d)]
    \<and> message_find ''a'' d = Some (JInt 5)
    \<and> message_find ''@status_code'' d = Some (JInt 0)"
proof -
  let ?sm = "\<lparr>im_id = 1, im_doc = JObject [(''key'', JString ''a''), (''value'', JInt 5)]\<rparr>"
  let ?es = "[Ask 5 (Own Cache_remove) \<lparr>im_id = 2, im_doc = JObject [(''key'', JString ''b'')]\<rparr>, Clean 6]"
  have f: "message_find ''key'' (JObject [(''key'', JString ''a''), (''value'', JInt 5)]) = Some (JString ''a'')"
    "message_find ''value'' (JObject [(''key'', JString ''a''), (''value'', JInt 5)]) = Some (JInt 5)"
    "message_find ''max_age'' (JObject [(''key'', JString ''a''), (''value'', JInt 5)]) = None"
    "message_find ''key'' (JObject [(''key'', JString s)]) = Some (JString s)" for s
    by (simp_all add: message_find_plain plain_key_def)
  have k: "request_key ref_lib ?sm = ''a''" by (simp add: request_key_def get_string_def get_as_def f)
  define c1 where "c1 = cache_step ref_lib (Ask 0 (Own Cache_store) ?sm) cache_new"
  have m: "ca_map (cache_step ref_lib (Ask 0 (Own Cache_store) ?sm) cache_new)
      = ca_map (cache_put 0 ''a'' 0 (message_to_string ref_lib ''value'' False (im_doc ?sm)) cache_new)"
    using store_state [of cache_new ref_lib 0 ?sm] k
    by (simp add: cache_step_def cache_run_def run_handler_def get_int_def get_as_def f)
  have "report_keys [''a'']" by (simp add: report_single plain_key_def)
  moreover have "comes_through ref_lib ?es c1"
    by (simp add: cache_run_def run_handler_def cache_remove_def get_string_def get_as_def f m [folded c1_def],
        simp add: cache_put_def cache_new_def cache_entry_new_def narrow32_def Let_def)
  ultimately show ?thesis
    unfolding c1_def [symmetric]
    using cache_store_retrieve [OF _ _ _ _ _ _ _ c1_def, of "''a''" "JInt 5" ?es
        9 "\<lparr>im_id = 3, im_doc = JObject [(''key'', JString ''a'')]\<rparr>"]
    by (simp add: request_key_def get_string_def get_int_def get_as_def f int32_def effective_age_def
        passable_def del: alive_run.simps comes_through.simps)
qed

text \<open>
  An entry whose age has passed, and a key that was never stored, both read as
  \<open>null_value\<close>: \<open>retrieve\<close> answers with this status, the entry is gone afterwards and one of
  the counters of misses is raised.
\<close>

theorem cache_absent_is_null:
  assumes "cache_peek t (request_key L msg) c = None \<or> request_key L msg = []"
    and "passable (im_doc msg)"
  shows "\<exists>c'. cache_react L (Ask t (Own Cache_retrieve) msg) c
      = Done c' [Reply (im_id msg) (jl_write L (status_doc Null_value []))]
    \<and> (request_key L msg \<noteq> [] \<longrightarrow> \<not> cache_found (request_key L msg) c')
    \<and> ca_misses c' + ca_hits_expired c' = ca_misses c + ca_hits_expired c + 1
    \<and> ca_hits c' = ca_hits c"
proof -
  let ?k = "request_key L msg"
  have miss: "cache_retrieve_miss L msg c = Done (c\<lparr>ca_misses := ca_misses c + 1\<rparr>)
      [Reply (im_id msg) (jl_write L (status_doc Null_value []))]"
    using clear_passable [OF assms(2)]
    by (auto simp: cache_retrieve_miss_def message_clear_def im_fail_code_eq passable_def)
  show ?thesis
  proof (cases "?k = [] \<or> \<not> cache_found ?k c")
    case True
    then have "cache_retrieve L t msg c = cache_retrieve_miss L msg c"
      by (auto simp: cache_retrieve_def request_key_def)
    with miss True show ?thesis
      by (auto simp: cache_run_def run_handler_def cache_found_def algebra_simps)
  next
    case False
    with assms show ?thesis
      by (auto simp: cache_run_def run_handler_def cache_retrieve_peek request_key_def Let_def
          im_fail_code_eq cache_found_def cache_drop_def um_count_def map_of_delete algebra_simps)
  qed
qed

theorem cache_absent_is_null_witness:
  "\<exists>c'. cache_react ref_lib (Ask 7 (Own Cache_retrieve) \<lparr>im_id = 4, im_doc = JObject [(''key'', JString ''a'')]\<rparr>)
        cache_new = Done c' [Reply 4 (jl_write ref_lib (status_doc Null_value []))]
    \<and> ca_misses c' + ca_hits_expired c' = 0 + 0 + 1 \<and> ca_hits c' = 0"
proof -
  have "cache_peek 7 (request_key ref_lib \<lparr>im_id = 4, im_doc = JObject [(''key'', JString ''a'')]\<rparr>) cache_new = None"
    by (simp add: cache_peek_def cache_new_def)
  with cache_absent_is_null [of 7 ref_lib "\<lparr>im_id = 4, im_doc = JObject [(''key'', JString ''a'')]\<rparr>" cache_new]
  show ?thesis by (auto simp: passable_def cache_new_def)
qed

text \<open>
  From January 2038 on the cache caches nothing: the creation time of an entry is an \<open>int\<close>,
  so at any time from \<open>2^31\<close> seconds on (until it fits again, \<open>2^32\<close>) an entry has expired by
  the time it is created, whatever age it was given.
\<close>

theorem cache_year_2038:
  assumes "2 ^ 31 \<le> now" and "now < 2 ^ 32" and "now \<le> t" and "int32 age"
  shows "cache_peek t key (cache_put now key age content c) = None"
proof -
  have "300 \<le> t - (now - 2 ^ 32)" "age \<le> t - (now - 2 ^ 32)"
    using assms by (simp_all add: int32_def)
  with assms show ?thesis
    by (simp add: cache_peek_def cache_put_def cache_entry_new_def Let_def update_conv'
        expired_def narrow32_wraps)
qed

theorem cache_year_2038_witness:
  "cache_peek 2147483648 ''a'' (cache_put 2147483648 ''a'' 3600 ''5'' cache_new) = None"
  by (rule cache_year_2038) (simp_all add: int32_def)

text \<open>
  The counters are a ledger: one request raises their sum, modulo \<open>2^64\<close>, by one when it is a
  \<open>store\<close>, \<open>retrieve\<close> or \<open>remove\<close> that was carried out to its end, and not otherwise. The sum
  is what \<open>status\<close> reports as \<open>total_calls\<close>.
\<close>

theorem cache_counters:
  "cache_total (cache_step L (Ask now h msg) c) = cache_total c
     + (if h \<in> {Own Cache_store, Own Cache_retrieve, Own Cache_remove}
           \<and> completes (cache_react L (Ask now h msg) c) then 1 else 0)
   \<and> (''total_calls'', JInt (sint (cache_total c))) \<in> set (cache_status_entries c)"
proof -
  have store: "cache_total (final_state c (cache_store L now msg c)) = cache_total c
      + (if completes (cache_store L now msg c) then 1 else 0)"
    by (cases "im_fail_code L msg Data_invalid_content ''Cannot cache empty key/value.''"; cases "im_reply L msg")
      (simp_all add: cache_store_def Let_def cache_total_def cache_put_def algebra_simps)
  have miss: "cache_total (final_state c (cache_retrieve_miss L msg c)) = cache_total c
      + (if completes (cache_retrieve_miss L msg c) then 1 else 0)"
    by (simp add: cache_retrieve_miss_def answer_def cache_total_def algebra_simps split: sum.split)
  have hit: "cache_total (final_state c (cache_retrieve_hit L now k msg c)) = cache_total c
      + (if completes (cache_retrieve_hit L now k msg c) then 1 else 0)" for k
    by (auto simp: cache_retrieve_hit_def cache_read_def Let_def answer_def cache_total_def algebra_simps
        split: sum.split prod.split)
  have retrieve: "cache_total (final_state c (cache_retrieve L now msg c)) = cache_total c
      + (if completes (cache_retrieve L now msg c) then 1 else 0)"
    using miss hit by (simp add: cache_retrieve_def Let_def)
  have "cache_total (cache_step L (Ask now h msg) c) = cache_total c
      + (if h \<in> {Own Cache_store, Own Cache_retrieve, Own Cache_remove}
           \<and> completes (cache_react L (Ask now h msg) c) then 1 else 0)"
  proof (cases h)
    case (Own f)
    with store retrieve show ?thesis
      by (cases f) (simp_all add: cache_step_def cache_run_def run_handler_def cache_remove_def
          cache_total_def algebra_simps cache_status_def final_state_answer split: sum.split)
  qed (simp_all add: cache_step_def module_handlers_state)
  then show ?thesis by (simp add: cache_status_entries_def)
qed

text \<open>
  C40. The two critical sections of \<open>retrieve\<close> are not one: when another thread removes the key
  between them, the second one inserts a phantom entry with empty content, the handler throws on
  parsing it and the request is never answered; the phantom entry stays, and every \<open>retrieve\<close> of
  the key throws again until it expires.
\<close>

theorem cache_retrieve_race:
  assumes "jl_read L [] = None" and "int32 now" and "now \<le> t" and "t - now < 300"
    and "key \<noteq> []" and "request_key L rm = key" and "passable (im_doc rm)"
    and "request_key L msg = key" and "passable (im_doc msg)"
  shows "\<exists>c1. cache_retrieve_hit L now key rm (cache_drop key c) = Raised (RuntimeError (jl_error L [])) c1 []
    \<and> cache_peek t key c1 = Some []
    \<and> cache_react L (Ask t (Own Cache_retrieve) msg) c1 = Raised (RuntimeError (jl_error L [])) c1 []"
proof -
  let ?c1 = "(cache_drop key c)\<lparr>ca_map :=
    AList.update key (cache_entry_new now) (ca_map (cache_drop key c))\<rparr>"
  have alive: "\<not> expired t' (cache_entry_new now)" if "t' - now < 300" for t'
    using that assms(2) by (simp add: expired_def cache_entry_new_def narrow32_id)
  have read: "cache_read now key (cache_drop key c) = ((False, []), ?c1)"
    using alive [of now]
    by (simp add: cache_read_def index_or_insert_def cache_drop_def map_of_delete update_conv' Let_def,
        simp add: cache_entry_new_def)
  have peek: "cache_peek t key ?c1 = Some []"
    using alive [OF assms(4)] by (simp add: cache_peek_def update_conv', simp add: cache_entry_new_def)
  have reparse: "rbind (message_clear d) (\<lambda>d. rbind (set_deserialized L key [] d)
      (\<lambda>d'. im_reply_msg L i d' Ok)) = Inl (RuntimeError (jl_error L []))" if "passable d" for d i
    using clear_passable [OF that] assms(1) by (auto simp: message_clear_def set_deserialized_def)
  show ?thesis
  proof (intro exI [of _ ?c1] conjI)
    show "cache_retrieve_hit L now key rm (cache_drop key c) = Raised (RuntimeError (jl_error L [])) ?c1 []"
      using read assms(7) by (simp add: cache_retrieve_hit_def reparse)
    show "cache_peek t key ?c1 = Some []" by (rule peek)
    show "cache_react L (Ask t (Own Cache_retrieve) msg) ?c1 = Raised (RuntimeError (jl_error L [])) ?c1 []"
      using peek cache_peek_found [OF peek] assms(5,8,9) reparse
      by (simp add: cache_run_def run_handler_def cache_retrieve_peek request_key_def)
  qed
qed

theorem cache_retrieve_race_witness:
  "\<exists>c1. cache_retrieve_hit ref_lib 100 ''a'' \<lparr>im_id = 1, im_doc = JObject [(''key'', JString ''a'')]\<rparr>
        (cache_drop ''a'' (cache_put 90 ''a'' 0 ''5'' cache_new))
        = Raised (RuntimeError (jl_error ref_lib [])) c1 []
    \<and> cache_peek 110 ''a'' c1 = Some []
    \<and> cache_react ref_lib (Ask 110 (Own Cache_retrieve) \<lparr>im_id = 1, im_doc = JObject [(''key'', JString ''a'')]\<rparr>) c1
        = Raised (RuntimeError (jl_error ref_lib [])) c1 []"
proof -
  have "request_key ref_lib \<lparr>im_id = 1, im_doc = JObject [(''key'', JString ''a'')]\<rparr> = ''a''"
    by (simp add: request_key_def get_string_def get_as_def message_find_plain plain_key_def)
  moreover have "jl_read ref_lib [] = None" by code_simp
  ultimately show ?thesis
    by (intro cache_retrieve_race) (simp_all add: int32_def passable_def)
qed

text \<open>
  C15. A pass of the cleaner over the cache either finds no entry whose age has passed and leaves the cache as it
  is, or it erases one that has, the element its range-based loop stands on, and then advances
  the iterator of this element: the process does not survive the first entry it removes. A \<open>store\<close> into
  an empty cache and waiting are enough for that.
\<close>

theorem cache_cleaner_unsafe:
  "(if \<exists>(k, e) \<in> set (ca_map c). expired now e
    then \<exists>(k, e) \<in> set (ca_map c). expired now e
      \<and> cache_react L (Clean now) c = Raised UndefinedBehaviour (cache_drop k c) []
      \<and> alive_run (cache_react L) (Clean now # es) c = None
    else cache_react L (Clean now) c = Done c [])
   \<and> alive_run (cache_react L) [Clean 299] (cache_put 0 ''a'' 0 ''5'' cache_new) \<noteq> None
   \<and> alive_run (cache_react L) [Clean 300] (cache_put 0 ''a'' 0 ''5'' cache_new) = None"
proof -
  have "alive_run (cache_react L) [Clean 299] (cache_put 0 ''a'' 0 ''5'' cache_new) \<noteq> None"
    "alive_run (cache_react L) [Clean 300] (cache_put 0 ''a'' 0 ''5'' cache_new) = None"
    by (simp_all add: alive_step_def cache_clean_def cache_put_def cache_new_def cache_entry_new_def Let_def
        expired_def narrow32_def)
  moreover have "alive_run (cache_react L) (Clean now # es) c = None"
    if "cache_react L (Clean now) c = Raised UndefinedBehaviour c' []" for c'
    using that by (simp add: alive_step_def)
  ultimately show ?thesis
    using cache_clean_cases [of c now] by (auto simp del: alive_run.simps)
qed

text \<open>
  A key of dots only can be stored but brings the server down when it is retrieved:
  \<open>retrieve\<close> sets the value under the path of the key, which has no members, so the loop of
  \<open>Message::set\<close> starts from the iterator before an empty vector's first element.
\<close>

theorem cache_dotted_key_crash:
  assumes "request_key L msg = key" and "key \<noteq> []" and "set key \<subseteq> {CHR ''.''}"
    and "cache_peek t key c = Some (jl_write L v)" and "reads_back L v" and "passable (im_doc msg)"
  shows "cache_react L (Ask t (Own Cache_retrieve) msg) c = Raised UndefinedBehaviour c []"
  using assms clear_passable [OF assms(6)] cache_peek_found [OF assms(4)] message_set_only_dots [OF assms(3)]
  by (auto simp: cache_run_def run_handler_def cache_retrieve_peek request_key_def message_clear_def
      set_deserialized_def reads_back_def)

theorem cache_dotted_key_crash_witness:
  "cache_react ref_lib (Ask 5 (Own Cache_retrieve) \<lparr>im_id = 1, im_doc = JObject [(''key'', JString ''.'')]\<rparr>)
      (cache_put 0 ''.'' 0 (jl_write ref_lib (JInt 5)) cache_new)
    = Raised UndefinedBehaviour (cache_put 0 ''.'' 0 (jl_write ref_lib (JInt 5)) cache_new) []"
proof (rule cache_dotted_key_crash [where v = "JInt 5" and key = "''.''"])
  show "cache_peek 5 ''.'' (cache_put 0 ''.'' 0 (jl_write ref_lib (JInt 5)) cache_new)
      = Some (jl_write ref_lib (JInt 5))"
    by (subst cs.peek_put) (simp_all add: int32_def effective_age_def)
qed (simp_all add: request_key_def get_string_def get_as_def message_find_plain plain_key_def passable_def)

end
