(* ===== verification/Nix_Resolver.thy ===== *)
theory Nix_Resolver
  imports Nix_Route
begin

text \<open>
  The resolver service (src/src/nix/module/builtin/service/resolver.hxx, resolver.cxx): names
  of nodes bound to addresses, services bound to sets of nodes, and a thread that pings them
  and unbinds those that do not answer.
\<close>

section \<open>Sets of strings\<close>

text \<open>\<open>std::set<std::string>\<close>: the strictly sorted list of its elements.\<close>

type_synonym sset = "string list"

definition sset_insert :: "string \<Rightarrow> sset \<Rightarrow> sset" where
  "sset_insert x xs = (if x \<in> set xs then xs else insort x xs)"

definition sset_erase :: "string \<Rightarrow> sset \<Rightarrow> sset" where
  "sset_erase x xs = filter (\<lambda>y. y \<noteq> x) xs"

definition sset_ok :: "sset \<Rightarrow> bool" where
  "sset_ok xs \<longleftrightarrow> sorted xs \<and> distinct xs"

lemma sset_set [simp]:
  "set (sset_insert x xs) = insert x (set xs)"
  "set (sset_erase x xs) = set xs - {x}"
  by (auto simp: sset_insert_def sset_erase_def set_insort_key)

lemma sset_ok_ops [simp]:
  "sset_ok []"
  "sset_ok xs \<Longrightarrow> sset_ok (sset_insert x xs)"
  "sset_ok xs \<Longrightarrow> sset_ok (sset_erase x xs)"
  by (auto simp: sset_ok_def sset_insert_def sset_erase_def sorted_insort distinct_insort sorted_wrt_filter)

lemma sset_ok_fold: "sset_ok s \<Longrightarrow> sset_ok (fold sset_insert xs s)"
  by (induction xs arbitrary: s) simp_all

lemma set_fold_insert: "set (fold sset_insert xs s) = set xs \<union> set s"
  by (induction xs arbitrary: s) simp_all

lemma sset_unique: "sset_ok xs \<Longrightarrow> sset_ok ys \<Longrightarrow> set xs = set ys \<Longrightarrow> xs = ys"
  by (simp add: sset_ok_def sorted_distinct_set_unique)

section \<open>State and handlers\<close>

record resolver =
  rv_nodes :: "(string, string) umap"
  rv_services :: "(string, sset) umap"

definition resolver_new :: resolver where
  "resolver_new = \<lparr>rv_nodes = [], rv_services = []\<rparr>"

datatype resolver_handler =
    Node_bind | Node_resolve | Node_unbind | Service_bind | Service_resolve | Service_unbind

definition resolver_module :: "resolver_handler nix_module" where
  "resolver_module = builtin_new ''Resolver'' 1
     [route_new ''node/bind'' (Own Node_bind) API_PRIVATE SYNC ''Bind node name to address'',
      route_new ''node/resolve'' (Own Node_resolve) API_PRIVATE SYNC
        (''Resolve node'' @ CHR 0x27 # ''s address''),
      route_new ''node/unbind'' (Own Node_unbind) API_PRIVATE SYNC
        (''Unbind node'' @ CHR 0x27 # ''s address''),
      route_new ''service/bind'' (Own Service_bind) API_PRIVATE SYNC
        ''Register a node that serves given implementation '',
      route_new ''service/resolve'' (Own Service_resolve) API_PRIVATE SYNC
        ''Resolve a node that serves given implementation '',
      route_new ''service/unbind'' (Own Service_unbind) API_PRIVATE SYNC
        ''Unbind a node that serves given implementation '']"

definition unbind_node :: "string \<Rightarrow> resolver \<Rightarrow> resolver" where
  "unbind_node nodename r =
     r\<lparr>rv_nodes := AList.delete nodename (rv_nodes r),
       rv_services := map (\<lambda>(s, ns). (s, sset_erase nodename ns)) (rv_services r)\<rparr>"

definition resolver_bind :: "jlib \<Rightarrow> imsg \<Rightarrow> resolver \<Rightarrow> resolver outcome" where
  "resolver_bind L msg r =
     (let node = get_string L ''nodename'' [] (im_doc msg);
          address = get_string L ''address'' [] (im_doc msg)
      in if node = [] \<or> address = [] then
           answer (im_fail_code L msg Data_invalid_content ''Resolver cannot bind. Invalid content.'') r r
         else
           let r1 = r\<lparr>rv_nodes := AList.update node address (rv_nodes r)\<rparr>
           in answer (rbind (message_clear (im_doc msg)) (\<lambda>d. im_reply L (msg\<lparr>im_doc := d\<rparr>))) r1 r1)"

definition resolver_resolve :: "jlib \<Rightarrow> imsg \<Rightarrow> resolver \<Rightarrow> resolver outcome" where
  "resolver_resolve L msg r =
     (let node = get_string L ''nodename'' [] (im_doc msg);
          (address, ns) = index_or_insert [] node (rv_nodes r);
          r1 = r\<lparr>rv_nodes := ns\<rparr>
      in if address = [] then answer (im_fail_code L msg Fail ''Unknown node.'') r1 r1
         else answer (rbind (message_clear (im_doc msg)) (\<lambda>d.
                rbind (message_set node (JString address) d) (\<lambda>d'.
                im_reply_msg L (im_id msg) d' Ok))) r1 r1)"

definition resolver_unbind :: "jlib \<Rightarrow> imsg \<Rightarrow> resolver \<Rightarrow> resolver outcome" where
  "resolver_unbind L msg r =
     (let r1 = unbind_node (get_string L ''nodename'' [] (im_doc msg)) r
      in answer (im_reply L msg) r1 r1)"

text \<open>\<open>services_[service]\<close>: its nodes, and the state it leaves.\<close>

definition service_nodes :: "string \<Rightarrow> resolver \<Rightarrow> sset \<times> resolver" where
  "service_nodes service r =
     (let (ns, ss) = index_or_insert [] service (rv_services r) in (ns, r\<lparr>rv_services := ss\<rparr>))"

definition put_service :: "string \<Rightarrow> sset \<Rightarrow> resolver \<Rightarrow> resolver" where
  "put_service service ns r = r\<lparr>rv_services := AList.update service ns (rv_services r)\<rparr>"

definition resolver_bind_service :: "jlib \<Rightarrow> imsg \<Rightarrow> resolver \<Rightarrow> resolver outcome" where
  "resolver_bind_service L msg r =
     (let service = get_string L ''service'' [] (im_doc msg);
          nodename = get_string L ''nodename'' [] (im_doc msg)
      in if service = [] \<or> nodename = [] \<or> \<not> um_count nodename (rv_nodes r) then
           answer (im_fail_code L msg Data_invalid_content
             ''Cannot bind a service. Invalid content or unknown node.'') r r
         else
           let (ns, r1) = service_nodes service r;
               r2 = put_service service (sset_insert nodename ns) r1
           in answer (rbind (message_clear (im_doc msg)) (\<lambda>d. im_reply L (msg\<lparr>im_doc := d\<rparr>))) r2 r2)"

text \<open>The loop over a service's nodes: \<open>nodes_[it]\<close> for each, collected in a set.\<close>

fun resolve_nodes :: "sset \<Rightarrow> sset \<Rightarrow> (string, string) umap \<Rightarrow> sset \<times> (string, string) umap" where
  "resolve_nodes [] acc m = (acc, m)"
| "resolve_nodes (n # ns) acc m =
     (let (a, m') = index_or_insert [] n m in resolve_nodes ns (sset_insert a acc) m')"

fun append_addresses :: "string list \<Rightarrow> json \<Rightarrow> json res" where
  "append_addresses [] d = Inr d"
| "append_addresses (a # as) d =
     (if a \<noteq> [] then rbind (message_append ''addresses'' (JString a) d) (append_addresses as)
      else append_addresses as d)"

definition resolver_resolve_service :: "jlib \<Rightarrow> imsg \<Rightarrow> resolver \<Rightarrow> resolver outcome" where
  "resolver_resolve_service L msg r =
     (let service = get_string L ''service'' [] (im_doc msg);
          (ns, r1) = service_nodes service r;
          (resolved, m) = resolve_nodes ns [] (rv_nodes r1);
          r2 = r1\<lparr>rv_nodes := m\<rparr>
      in if resolved = [] then answer (im_fail_code L msg Fail ''Unknown service.'') r2 r2
         else answer (rbind (message_clear (im_doc msg)) (\<lambda>d.
                rbind (set_array ''addresses'' d) (\<lambda>d1.
                rbind (append_addresses resolved d1) (\<lambda>d2.
                im_reply_msg L (im_id msg) d2 Ok)))) r2 r2)"

definition resolver_unbind_service :: "jlib \<Rightarrow> imsg \<Rightarrow> resolver \<Rightarrow> resolver outcome" where
  "resolver_unbind_service L msg r =
     (let service = get_string L ''service'' [] (im_doc msg);
          nodename = get_string L ''nodename'' [] (im_doc msg)
      in if service = [] \<or> nodename = [] then answer (im_fail_code L msg Data_invalid_content []) r r
         else
           let (ns, r1) = service_nodes service r;
               r2 = put_service service (sset_erase nodename ns) r1
           in answer (im_reply L msg) r2 r2)"

fun resolver_own :: "jlib \<Rightarrow> resolver_handler \<Rightarrow> imsg \<Rightarrow> resolver \<Rightarrow> resolver outcome" where
  "resolver_own L Node_bind msg r = resolver_bind L msg r"
| "resolver_own L Node_resolve msg r = resolver_resolve L msg r"
| "resolver_own L Node_unbind msg r = resolver_unbind L msg r"
| "resolver_own L Service_bind msg r = resolver_bind_service L msg r"
| "resolver_own L Service_resolve msg r = resolver_resolve_service L msg r"
| "resolver_own L Service_unbind msg r = resolver_unbind_service L msg r"

definition resolver_run :: "jlib \<Rightarrow> resolver_handler mod_handler \<Rightarrow> imsg \<Rightarrow> resolver \<Rightarrow> resolver outcome" where
  "resolver_run L = run_handler L resolver_module (resolver_own L)"

section \<open>The monitor thread\<close>

text \<open>
  One round of the monitor. \<open>ping target object name\<close> is what becomes of a message sent with
  the monitor's agent: a reply within the timeout, none, or an exception out of \<open>send\<close>, which
  nothing in the thread catches. The round works on copies of the two maps taken under the
  mutex; the counts of failures live as long as the thread.
\<close>

type_synonym pinger = "string \<Rightarrow> string \<Rightarrow> string \<Rightarrow> bool res"

record monitor =
  mo_nodes :: "(string, int) umap"
  mo_services :: "(string, (string, int) umap) umap"

definition monitor_new :: monitor where
  "monitor_new = \<lparr>mo_nodes = [], mo_services = []\<rparr>"

fun monitor_nodes :: "pinger \<Rightarrow> int \<Rightarrow> (string \<times> string) list \<Rightarrow> monitor \<times> resolver \<Rightarrow> (monitor \<times> resolver) res" where
  "monitor_nodes ping max_failures [] (mo, r) = Inr (mo, r)"
| "monitor_nodes ping max_failures ((name, address) # rest) (mo, r) =
     rbind (ping address ''ping'' []) (\<lambda>replied.
       if replied then
         monitor_nodes ping max_failures rest (mo\<lparr>mo_nodes := AList.update name 0 (mo_nodes mo)\<rparr>, r)
       else
         let (n, m) = index_or_insert 0 name (mo_nodes mo);
             mo' = mo\<lparr>mo_nodes := AList.update name (n + 1) m\<rparr>
         in monitor_nodes ping max_failures rest
              (mo', if n + 1 \<ge> max_failures then unbind_node name r else r))"

text \<open>\<open>soft_fails_services[service][address] = f(old)\<close>.\<close>

definition bump_service :: "(int \<Rightarrow> int) \<Rightarrow> string \<Rightarrow> string \<Rightarrow> monitor \<Rightarrow> int \<times> monitor" where
  "bump_service f service address mo =
     (let (inner, ss) = index_or_insert [] service (mo_services mo);
          (n, inner') = index_or_insert 0 address inner
      in (f n, mo\<lparr>mo_services := AList.update service (AList.update address (f n) inner') ss\<rparr>))"

fun monitor_service :: "pinger \<Rightarrow> int \<Rightarrow> string \<Rightarrow> sset \<Rightarrow> monitor \<times> resolver \<Rightarrow> (monitor \<times> resolver) res" where
  "monitor_service ping max_failures service [] (mo, r) = Inr (mo, r)"
| "monitor_service ping max_failures service (address # rest) (mo, r) =
     rbind (ping address service ''ping'') (\<lambda>replied.
       if replied then
         monitor_service ping max_failures service rest (snd (bump_service (\<lambda>_. 0) service address mo), r)
       else
         let (total, mo') = bump_service (\<lambda>n. n + 1) service address mo
         in monitor_service ping max_failures service rest
              (mo', if total \<ge> max_failures
                    then (let (ns, r1) = service_nodes service r
                          in put_service service (sset_erase address ns) r1)
                    else r))"

fun monitor_services :: "pinger \<Rightarrow> int \<Rightarrow> (string \<times> sset) list \<Rightarrow> monitor \<times> resolver \<Rightarrow> (monitor \<times> resolver) res" where
  "monitor_services ping max_failures [] s = Inr s"
| "monitor_services ping max_failures ((service, ns) # rest) s =
     rbind (monitor_service ping max_failures service ns s) (monitor_services ping max_failures rest)"

definition monitor_round :: "pinger \<Rightarrow> int \<Rightarrow> monitor \<times> resolver \<Rightarrow> (monitor \<times> resolver) res" where
  "monitor_round ping max_failures s =
     rbind (monitor_nodes ping max_failures (rv_nodes (snd s)) s)
       (\<lambda>s1. monitor_services ping max_failures (rv_services (snd s1)) s1)"

section \<open>The abstract directory\<close>

text \<open>
  What the resolver stands for: the nodes it has heard of, their addresses (empty when there is
  none) and the providers of each service.
\<close>

record directory =
  dir_known :: "string set"
  dir_address :: "string \<Rightarrow> string"
  dir_providers :: "string \<Rightarrow> string set"

definition directory_of :: "resolver \<Rightarrow> directory" where
  "directory_of r =
     \<lparr>dir_known = fst ` set (rv_nodes r),
      dir_address = (\<lambda>n. case map_of (rv_nodes r) n of Some a \<Rightarrow> a | None \<Rightarrow> []),
      dir_providers = (\<lambda>s. case map_of (rv_services r) s of Some ns \<Rightarrow> set ns | None \<Rightarrow> {})\<rparr>"

definition msg_node :: "jlib \<Rightarrow> imsg \<Rightarrow> string" where
  "msg_node L msg = get_string L ''nodename'' [] (im_doc msg)"

definition msg_service :: "jlib \<Rightarrow> imsg \<Rightarrow> string" where
  "msg_service L msg = get_string L ''service'' [] (im_doc msg)"

definition msg_address :: "jlib \<Rightarrow> imsg \<Rightarrow> string" where
  "msg_address L msg = get_string L ''address'' [] (im_doc msg)"

fun directory_step :: "jlib \<Rightarrow> resolver_handler mod_handler \<Rightarrow> imsg \<Rightarrow> directory \<Rightarrow> directory" where
  "directory_step L (Own Node_bind) msg d =
     (if msg_node L msg = [] \<or> msg_address L msg = [] then d
      else d\<lparr>dir_known := insert (msg_node L msg) (dir_known d),
             dir_address := (dir_address d)(msg_node L msg := msg_address L msg)\<rparr>)"
| "directory_step L (Own Node_resolve) msg d =
     d\<lparr>dir_known := insert (msg_node L msg) (dir_known d)\<rparr>"
| "directory_step L (Own Node_unbind) msg d =
     d\<lparr>dir_known := dir_known d - {msg_node L msg},
       dir_address := (dir_address d)(msg_node L msg := []),
       dir_providers := (\<lambda>s. dir_providers d s - {msg_node L msg})\<rparr>"
| "directory_step L (Own Service_bind) msg d =
     (if msg_service L msg = [] \<or> msg_node L msg = [] \<or> msg_node L msg \<notin> dir_known d then d
      else d\<lparr>dir_providers := (dir_providers d)
        (msg_service L msg := insert (msg_node L msg) (dir_providers d (msg_service L msg)))\<rparr>)"
| "directory_step L (Own Service_unbind) msg d =
     (if msg_service L msg = [] \<or> msg_node L msg = [] then d
      else d\<lparr>dir_providers := (dir_providers d)
        (msg_service L msg := dir_providers d (msg_service L msg) - {msg_node L msg})\<rparr>)"
| "directory_step L _ msg d = d"

section \<open>Invariant\<close>

text \<open>Providers are nodes the resolver has heard of; the containers are well formed.\<close>

definition resolver_inv :: "resolver \<Rightarrow> bool" where
  "resolver_inv r \<longleftrightarrow>
     distinct (keys (rv_nodes r)) \<and> distinct (keys (rv_services r))
     \<and> (\<forall>(s, ns) \<in> set (rv_services r). sset_ok ns \<and> set ns \<subseteq> fst ` set (rv_nodes r))"

lemma resolver_inv_new [simp]: "resolver_inv resolver_new"
  by (simp add: resolver_inv_def resolver_new_def)

lemma set_update: "set (AList.update k v m) \<subseteq> insert (k, v) (set m)"
  by (induction m) auto

lemma fst_update [simp]: "fst ` set (AList.update k v m) = insert k (fst ` set m)"
  using dom_map_of_conv_image_fst [of "AList.update k v m"] dom_map_of_conv_image_fst [of m]
  by (simp add: update_conv')

lemma fst_delete [simp]: "fst ` set (AList.delete k m) = fst ` set m - {k}"
  by (auto simp: AList.delete_eq image_iff)

lemma fst_index [simp]: "fst ` set (snd (index_or_insert d k m)) = insert k (fst ` set m)"
  using dom_map_of_conv_image_fst [of m]
  by (auto simp: index_or_insert_def insert_absorb domI split: option.split)

lemma service_nodes_value:
  "fst (service_nodes s r) = (case map_of (rv_services r) s of Some ns \<Rightarrow> ns | None \<Rightarrow> [])"
  by (simp add: service_nodes_def index_or_insert_value Let_def split: prod.split)
    (metis fst_conv index_or_insert_value)

lemma service_nodes_state:
  "rv_nodes (snd (service_nodes s r)) = rv_nodes r"
  "map_of (rv_services (snd (service_nodes s r))) = (map_of (rv_services r))(s \<mapsto> fst (service_nodes s r))"
  using index_or_insert_map [of "[]" s "rv_services r"]
  by (auto simp: service_nodes_def case_prod_unfold Let_def)

lemma service_nodes_inv:
  assumes "resolver_inv r"
  shows "resolver_inv (snd (service_nodes s r))"
    and "sset_ok (fst (service_nodes s r))"
    and "set (fst (service_nodes s r)) \<subseteq> fst ` set (rv_nodes r)"
proof -
  have u: "set (AList.update s [] (rv_services r)) \<subseteq> insert (s, []) (set (rv_services r))" by (rule set_update)
  show "resolver_inv (snd (service_nodes s r))"
    using assms u by (auto simp: resolver_inv_def service_nodes_def index_or_insert_def distinct_update
        split: option.split dest!: subsetD)
  show "sset_ok (fst (service_nodes s r))" "set (fst (service_nodes s r)) \<subseteq> fst ` set (rv_nodes r)"
    using assms by (auto simp: service_nodes_value resolver_inv_def split: option.splits dest!: map_of_SomeD)
qed

lemma put_service_inv:
  assumes "resolver_inv r" "sset_ok ns" "set ns \<subseteq> fst ` set (rv_nodes r)"
  shows "resolver_inv (put_service s ns r)"
proof -
  have "\<forall>(s', ns') \<in> set (AList.update s ns (rv_services r)). sset_ok ns' \<and> set ns' \<subseteq> fst ` set (rv_nodes r)"
    using set_update [of s ns "rv_services r"] assms by (fastforce simp: resolver_inv_def)
  with assms(1) show ?thesis by (simp add: resolver_inv_def put_service_def distinct_update)
qed

lemma unbind_node_inv: "resolver_inv r \<Longrightarrow> resolver_inv (unbind_node n r)"
  by (fastforce simp: resolver_inv_def unbind_node_def comp_def case_prod_unfold)

lemma nodes_grow_inv:
  assumes "resolver_inv r" "distinct (keys m)" "fst ` set (rv_nodes r) \<subseteq> fst ` set m"
  shows "resolver_inv (r\<lparr>rv_nodes := m\<rparr>)"
  using assms by (fastforce simp: resolver_inv_def)

lemma resolve_nodes_eq:
  "set ns \<subseteq> fst ` set m \<Longrightarrow>
     resolve_nodes ns acc m = (fold sset_insert (map (\<lambda>n. the (map_of m n)) ns) acc, m)"
proof (induction ns arbitrary: acc)
  case (Cons n ns)
  then obtain a where "map_of m n = Some a"
    by (metis list.set_intros(1) map_of_eq_None_iff not_None_eq subsetD)
  with Cons show ?case by (simp add: index_or_insert_def)
qed simp

lemma erase_service_inv:
  assumes "resolver_inv r"
  shows "resolver_inv (put_service s (sset_erase n (fst (service_nodes s r))) (snd (service_nodes s r)))"
  using service_nodes_inv [OF assms, of s] by (intro put_service_inv) (auto simp: service_nodes_state)

lemmas resolver_handler_defs = resolver_bind_def resolver_resolve_def resolver_unbind_def
  resolver_bind_service_def resolver_resolve_service_def resolver_unbind_service_def

text \<open>The state each handler leaves, whether or not its answer can be sent.\<close>

lemma resolver_states:
  assumes "resolver_inv r"
  shows "final_state r (resolver_bind L msg r) =
      (if msg_node L msg = [] \<or> msg_address L msg = [] then r
       else r\<lparr>rv_nodes := AList.update (msg_node L msg) (msg_address L msg) (rv_nodes r)\<rparr>)"
    and "final_state r (resolver_resolve L msg r) =
      r\<lparr>rv_nodes := snd (index_or_insert [] (msg_node L msg) (rv_nodes r))\<rparr>"
    and "final_state r (resolver_unbind L msg r) = unbind_node (msg_node L msg) r"
    and "final_state r (resolver_bind_service L msg r) =
      (if msg_service L msg = [] \<or> msg_node L msg = [] \<or> \<not> um_count (msg_node L msg) (rv_nodes r) then r
       else put_service (msg_service L msg)
         (sset_insert (msg_node L msg) (fst (service_nodes (msg_service L msg) r)))
         (snd (service_nodes (msg_service L msg) r)))"
    and "final_state r (resolver_resolve_service L msg r) = snd (service_nodes (msg_service L msg) r)"
    and "final_state r (resolver_unbind_service L msg r) =
      (if msg_service L msg = [] \<or> msg_node L msg = [] then r
       else put_service (msg_service L msg)
         (sset_erase (msg_node L msg) (fst (service_nodes (msg_service L msg) r)))
         (snd (service_nodes (msg_service L msg) r)))"
  using service_nodes_inv(3) [OF assms, of "msg_service L msg"]
  by (simp_all add: resolver_handler_defs Let_def answer_same msg_node_def msg_address_def
      msg_service_def case_prod_unfold resolve_nodes_eq service_nodes_state)

lemma resolver_handler_inv:
  assumes "resolver_inv r"
  shows "resolver_inv (final_state r (resolver_run L h msg r))"
proof (cases h)
  case (Own f)
  have d: "distinct (keys (rv_nodes r))" using assms by (simp add: resolver_inv_def)
  let ?n = "msg_node L msg" and ?s = "msg_service L msg"
  have "resolver_inv (final_state r (resolver_own L f msg r))"
  proof (cases f)
    case Node_bind
    have "resolver_inv (r\<lparr>rv_nodes := AList.update ?n (msg_address L msg) (rv_nodes r)\<rparr>)"
      by (rule nodes_grow_inv [OF assms]) (use d in \<open>simp_all add: distinct_update subset_insertI\<close>)
    with Node_bind assms show ?thesis by (simp add: resolver_states)
  next
    case Node_resolve
    have "resolver_inv (r\<lparr>rv_nodes := snd (index_or_insert [] ?n (rv_nodes r))\<rparr>)"
      by (rule nodes_grow_inv [OF assms]) (use d in \<open>simp_all add: subset_insertI\<close>)
    with Node_resolve assms show ?thesis by (simp add: resolver_states)
  next
    case Service_bind
    have "resolver_inv (put_service ?s (sset_insert ?n (fst (service_nodes ?s r))) (snd (service_nodes ?s r)))"
      if "um_count ?n (rv_nodes r)"
      using that service_nodes_inv [OF assms, of ?s]
      by (intro put_service_inv) (simp_all add: service_nodes_state um_count_iff)
    with Service_bind assms show ?thesis by (simp add: resolver_states)
  qed (use assms in \<open>simp_all add: resolver_states unbind_node_inv service_nodes_inv erase_service_inv\<close>)
  with Own show ?thesis by (simp add: resolver_run_def run_handler_def)
qed (use assms in \<open>simp_all add: resolver_run_def run_handler_def answer_same\<close>)

definition resolver_step :: "jlib \<Rightarrow> resolver_handler mod_handler \<times> imsg \<Rightarrow> resolver \<Rightarrow> resolver" where
  "resolver_step L e r = final_state r (resolver_run L (fst e) (snd e) r)"

text \<open>The monitor keeps the invariant too.\<close>

lemma monitor_nodes_inv:
  "monitor_nodes ping k ns (mo, r) = Inr (mo', r') \<Longrightarrow> resolver_inv r \<Longrightarrow> resolver_inv r'"
proof (induction ns arbitrary: mo r)
  case (Cons n ns)
  obtain name address where n: "n = (name, address)" by (cases n)
  with Cons.prems(1) obtain b where p: "ping address ''ping'' [] = Inr b" by (auto simp: rbind_Inr_iff)
  with Cons.prems n Cons.IH unbind_node_inv show ?case
    by (cases b) (auto simp: Let_def case_prod_unfold split: if_splits)
qed simp

lemma monitor_service_inv:
  "monitor_service ping k s ns (mo, r) = Inr (mo', r') \<Longrightarrow> resolver_inv r \<Longrightarrow> resolver_inv r'"
proof (induction ns arbitrary: mo r)
  case (Cons a ns)
  from Cons.prems(1) obtain b where p: "ping a s ''ping'' = Inr b" by (auto simp: rbind_Inr_iff)
  with Cons.prems Cons.IH erase_service_inv [of r s a] show ?case
    by (cases b) (auto simp: Let_def case_prod_unfold split: if_splits)
qed simp

lemma monitor_services_inv:
  "monitor_services ping k ss (mo, r) = Inr (mo', r') \<Longrightarrow> resolver_inv r \<Longrightarrow> resolver_inv r'"
proof (induction ss arbitrary: mo r)
  case (Cons s ss)
  then obtain mo1 r1 where "monitor_service ping k (fst s) (snd s) (mo, r) = Inr (mo1, r1)"
    "monitor_services ping k ss (mo1, r1) = Inr (mo', r')"
    by (cases s) (auto simp: rbind_Inr_iff)
  with Cons.IH monitor_service_inv Cons.prems(2) show ?case by blast
qed simp

lemma monitor_round_inv:
  assumes "monitor_round ping k (mo, r) = Inr (mo', r')" "resolver_inv r"
  shows "resolver_inv r'"
proof -
  from assms(1) obtain mo1 r1 where "monitor_nodes ping k (rv_nodes r) (mo, r) = Inr (mo1, r1)"
    "monitor_services ping k (rv_services r1) (mo1, r1) = Inr (mo', r')"
    by (auto simp: monitor_round_def rbind_Inr_iff)
  with assms(2) monitor_nodes_inv monitor_services_inv show ?thesis by blast
qed

text \<open>The service as a whole: requests and rounds of the monitor, in any order.\<close>

datatype resolver_event =
    Request "resolver_handler mod_handler" imsg
  | Round pinger int

fun resolver_react :: "jlib \<Rightarrow> resolver_event \<Rightarrow> monitor \<times> resolver \<Rightarrow> monitor \<times> resolver" where
  "resolver_react L (Request h msg) (mo, r) = (mo, resolver_step L (h, msg) r)"
| "resolver_react L (Round ping k) s = (case monitor_round ping k s of Inl _ \<Rightarrow> s | Inr s' \<Rightarrow> s')"

lemma resolver_react_inv: "resolver_inv (snd s) \<Longrightarrow> resolver_inv (snd (resolver_react L e s))"
  using resolver_handler_inv monitor_round_inv [of _ _ "fst s" "snd s"]
  by (cases e; cases s) (auto simp: resolver_step_def split: sum.split)

interpretation rs: event_system "resolver_react L" "\<lambda>s. resolver_inv (snd s)" for L
  by unfold_locales (rule resolver_react_inv)

section \<open>Properties\<close>

lemma map_of_erase: "map_of (map (\<lambda>(s, ns). (s, f ns)) m) k = map_option f (map_of m k)"
  by (induction m) auto

lemma directory_unbind:
  "directory_of (unbind_node n r) = (directory_of r)
     \<lparr>dir_known := dir_known (directory_of r) - {n},
      dir_address := (dir_address (directory_of r))(n := []),
      dir_providers := (\<lambda>s. dir_providers (directory_of r) s - {n})\<rparr>"
  by (auto simp: directory_of_def unbind_node_def fun_eq_iff map_of_delete map_of_erase
      split: option.split)

lemma directory_service:
  "directory_of (put_service s ns (snd (service_nodes s r))) =
     (directory_of r)\<lparr>dir_providers := (dir_providers (directory_of r))(s := set ns)\<rparr>"
  "directory_of (snd (service_nodes s r)) = directory_of r"
  "set (fst (service_nodes s r)) = dir_providers (directory_of r) s"
  by (auto simp: directory_of_def put_service_def service_nodes_state service_nodes_value
      update_conv' fun_eq_iff split: option.split)

lemma resolver_step_directory:
  assumes inv: "resolver_inv r"
  shows "directory_of (resolver_step L (h, msg) r) = directory_step L h msg (directory_of r)"
proof (cases h)
  case (Own f)
  have ix: "directory_of (r\<lparr>rv_nodes := snd (index_or_insert [] n (rv_nodes r))\<rparr>)
      = (directory_of r)\<lparr>dir_known := insert n (dir_known (directory_of r))\<rparr>" for n
    using index_or_insert_value [of "[]" n "rv_nodes r"]
    by (auto simp: directory_of_def index_or_insert_map fun_eq_iff split: option.split)
  have "directory_of (final_state r (resolver_own L f msg r)) = directory_step L h msg (directory_of r)"
  proof (cases f)
    case Node_bind
    then show ?thesis using Own
      by (auto simp: resolver_states [OF inv], auto simp: directory_of_def update_conv' fun_eq_iff)
  next
    case Service_bind
    have "um_count n (rv_nodes r) \<longleftrightarrow> n \<in> dir_known (directory_of r)" for n
      by (simp add: um_count_iff directory_of_def)
    with Service_bind Own show ?thesis
      by (simp add: resolver_states [OF inv] directory_service)
  qed (use Own in \<open>simp_all add: resolver_states [OF inv] ix directory_unbind directory_service\<close>)
  with Own show ?thesis by (simp add: resolver_step_def resolver_run_def run_handler_def)
qed (simp_all add: resolver_step_def resolver_run_def run_handler_def answer_same)

definition reachable_resolver :: "jlib \<Rightarrow> resolver_event list \<Rightarrow> resolver" where
  "reachable_resolver L es = snd (fold (resolver_react L) es (monitor_new, resolver_new))"

lemma reachable_resolver_inv: "resolver_inv (reachable_resolver L es)"
  unfolding reachable_resolver_def by (rule rs.fold_inv) simp

text \<open>
  C7. Refinement: in every reachable state each request to the resolver, answered or not, does to
  the directory of nodes and services what the specification says. Resolving a service changes
  nothing, but resolving a node makes it known.
\<close>

theorem resolver_refines_directory:
  "directory_of (resolver_step L (h, msg) (reachable_resolver L es))
     = directory_step L h msg (directory_of (reachable_resolver L es))"
  by (rule resolver_step_directory [OF reachable_resolver_inv])

text \<open>What the two resolving requests answer.\<close>

lemma append_addresses_eq:
  "append_addresses as (JObject [(''addresses'', JArray vs)]) =
     Inr (JObject [(''addresses'', JArray (vs @ map JString (filter (\<lambda>a. a \<noteq> []) as)))])"
proof (induction as arbitrary: vs)
  case (Cons a as)
  have "split ''addresses'' ''.'' = [''addresses'']" by (rule split_plain) (simp add: plain_key_def)
  with Cons show ?case
    by (simp add: message_append_def enter_member_object Let_def less_char_def)
qed simp

lemma set_addresses:
  "d = JObject [] \<or> d = JNull \<Longrightarrow> set_array ''addresses'' d = Inr (JObject [(''addresses'', JArray [])])"
proof -
  have "split ''addresses'' ''.'' = [''addresses'']" by (rule split_plain) (simp add: plain_key_def)
  then show "d = JObject [] \<or> d = JNull \<Longrightarrow> ?thesis"
    by (auto simp: set_array_def message_set_def array_value_def)
qed

text \<open>The addresses of a service: those of its providers, in order and without repetition.\<close>

definition directory_addresses :: "string \<Rightarrow> directory \<Rightarrow> string list" where
  "directory_addresses s d = sorted_list_of_set (dir_address d ` dir_providers d s - {[]})"

lemma resolve_service_eq:
  assumes "resolver_inv r" "passable (im_doc msg)"
  shows "resolver_resolve_service L msg r =
    Done (snd (service_nodes (msg_service L msg) r))
      [Reply (im_id msg) (jl_write L
        (if dir_providers (directory_of r) (msg_service L msg) = {} then status_doc Fail ''Unknown service.''
         else JObject (obj_put ''@status_code'' (JInt (code_of Ok))
           [(''addresses'', JArray (map JString (directory_addresses (msg_service L msg) (directory_of r))))])))]"
proof -
  let ?s = "msg_service L msg"
  let ?ns = "fst (service_nodes ?s r)" and ?r1 = "snd (service_nodes ?s r)"
  let ?as = "fold sset_insert (map (\<lambda>n. the (map_of (rv_nodes r) n)) ?ns) []"
  have ns: "set ?ns \<subseteq> fst ` set (rv_nodes r)" by (rule service_nodes_inv(3) [OF assms(1)])
  then have res: "resolve_nodes ?ns [] (rv_nodes r) = (?as, rv_nodes r)" by (rule resolve_nodes_eq)
  have addr: "the (map_of (rv_nodes r) n) = dir_address (directory_of r) n" if "n \<in> set ?ns" for n
  proof -
    from that ns obtain a where "map_of (rv_nodes r) n = Some a"
      by (metis map_of_eq_None_iff not_None_eq subsetD)
    then show ?thesis by (simp add: directory_of_def)
  qed
  have "set ?as = dir_address (directory_of r) ` dir_providers (directory_of r) ?s"
    using addr by (auto simp: set_fold_insert directory_service(3) [symmetric])
  moreover have "sset_ok ?as" by (rule sset_ok_fold) simp
  then have "sset_ok (filter (\<lambda>a. a \<noteq> []) ?as)" by (simp add: sset_ok_def sorted_wrt_filter)
  ultimately have as: "filter (\<lambda>a. a \<noteq> []) ?as = directory_addresses ?s (directory_of r)"
    unfolding directory_addresses_def
    by (intro sset_unique) (auto simp: sset_ok_def simp flip: directory_service(3))
  have empty: "?as = [] \<longleftrightarrow> dir_providers (directory_of r) ?s = {}"
    using \<open>set ?as = _\<close> by (metis image_is_empty set_empty)
  show ?thesis
  proof (cases "?as = []")
    case True
    with res assms(2) empty show ?thesis
      by (simp add: resolver_resolve_service_def Let_def case_prod_unfold service_nodes_state
          im_fail_code_eq flip: msg_service_def)
  next
    case False
    from clear_passable [OF assms(2)] obtain d where "message_clear (im_doc msg) = Inr d"
      "d = JObject [] \<or> d = JNull" by (auto simp: message_clear_def)
    with res False empty as show ?thesis
      by (simp add: resolver_resolve_service_def Let_def case_prod_unfold service_nodes_state
          set_addresses append_addresses_eq im_reply_msg_object flip: msg_service_def)
  qed
qed

text \<open>
  In every reachable state, \<open>service/resolve\<close> answers a service without providers with
  \<open>fail\<close> and any other with status ok and exactly the addresses of its providers, sorted and
  without repetition; the state does not change as far as the directory goes.
\<close>

theorem resolve_service_answer:
  assumes "r = reachable_resolver L es" and "passable (im_doc msg)"
  shows "\<exists>r'. resolver_run L (Own Service_resolve) msg r =
      Done r' [Reply (im_id msg) (jl_write L
        (if dir_providers (directory_of r) (msg_service L msg) = {} then status_doc Fail ''Unknown service.''
         else JObject (obj_put ''@status_code'' (JInt (code_of Ok))
           [(''addresses'', JArray (map JString (directory_addresses (msg_service L msg) (directory_of r))))])))]
    \<and> directory_of r' = directory_of r"
proof -
  have "resolver_inv r" unfolding assms(1) by (rule reachable_resolver_inv)
  from resolve_service_eq [OF this assms(2), of L] show ?thesis
    by (simp add: resolver_run_def run_handler_def directory_service(2))
qed

theorem resolve_service_answer_witness:
  "\<exists>r'. resolver_run ref_lib (Own Service_resolve) \<lparr>im_id = 2, im_doc = JNull\<rparr> resolver_new
      = Done r' [Reply 2 (jl_write ref_lib (status_doc Fail ''Unknown service.''))]"
  using resolve_service_answer [of resolver_new ref_lib "[]" "\<lparr>im_id = 2, im_doc = JNull\<rparr>"]
  by (auto simp: passable_def directory_of_def resolver_new_def reachable_resolver_def)

lemma resolve_node_eq:
  assumes "passable (im_doc msg)"
  shows "dir_address (directory_of r) (msg_node L msg) = [] \<Longrightarrow>
      resolver_resolve L msg r = Done (final_state r (resolver_resolve L msg r))
        [Reply (im_id msg) (jl_write L (status_doc Fail ''Unknown node.''))]"
    and "dir_address (directory_of r) (msg_node L msg) = a \<Longrightarrow> a \<noteq> [] \<Longrightarrow> report_keys [msg_node L msg] \<Longrightarrow>
      \<exists>d. resolver_resolve L msg r = Done (final_state r (resolver_resolve L msg r))
          [Reply (im_id msg) (jl_write L d)]
        \<and> message_find (msg_node L msg) d = Some (JString a)
        \<and> message_find ''@status_code'' d = Some (JInt (code_of Ok))"
proof -
  let ?n = "msg_node L msg"
  let ?x = "index_or_insert [] ?n (rv_nodes r)"
  have v: "fst ?x = dir_address (directory_of r) ?n"
    by (simp add: index_or_insert_value directory_of_def)
  show "resolver_resolve L msg r = Done (final_state r (resolver_resolve L msg r))
      [Reply (im_id msg) (jl_write L (status_doc Fail ''Unknown node.''))]"
    if "dir_address (directory_of r) ?n = []"
    using v that assms by (simp add: resolver_resolve_def Let_def case_prod_unfold im_fail_code_eq
        flip: msg_node_def)
  assume a: "dir_address (directory_of r) ?n = a" "a \<noteq> []" "report_keys [?n]"
  from clear_passable [OF assms] obtain d0 where d0: "message_clear (im_doc msg) = Inr d0"
    "d0 = JObject [] \<or> d0 = JNull" by (auto simp: message_clear_def)
  from report_reply [of "[(?n, JString a)]" d0 L "im_id msg" Ok] a(3) d0(2) obtain d where
    d: "rbind (message_set ?n (JString a) d0) (\<lambda>d'. im_reply_msg L (im_id msg) d' Ok)
        = Inr (Reply (im_id msg) (jl_write L d))"
    "message_find ?n d = Some (JString a)" "message_find ''@status_code'' d = Some (JInt (code_of Ok))"
    by (auto simp: rbind_def split: sum.splits)
  with v a d0(1) show "\<exists>d. resolver_resolve L msg r = Done (final_state r (resolver_resolve L msg r))
      [Reply (im_id msg) (jl_write L d)] \<and> message_find ?n d = Some (JString a)
      \<and> message_find ''@status_code'' d = Some (JInt (code_of Ok))"
    by (intro exI [of _ d]) (simp add: resolver_resolve_def Let_def case_prod_unfold flip: msg_node_def)
qed

text \<open>A request that neither binds nor unbinds a node leaves its address.\<close>

fun rebinds :: "jlib \<Rightarrow> string \<Rightarrow> resolver_handler mod_handler \<times> imsg \<Rightarrow> bool" where
  "rebinds L n (Own Node_bind, msg) = (msg_node L msg = n)"
| "rebinds L n (Own Node_unbind, msg) = (msg_node L msg = n)"
| "rebinds L n _ = False"

lemma directory_step_address:
  "\<not> rebinds L n (h, msg) \<Longrightarrow> dir_address (directory_step L h msg d) n = dir_address d n"
  by (cases "(L, h, msg, d)" rule: directory_step.cases) auto

lemma resolver_steps:
  assumes "resolver_inv r" "\<forall>e \<in> set es. \<not> rebinds L n e"
  shows "resolver_inv (fold (resolver_step L) es r)
    \<and> dir_address (directory_of (fold (resolver_step L) es r)) n = dir_address (directory_of r) n"
  using assms
proof (induction es arbitrary: r)
  case (Cons e es)
  obtain h msg where e: "e = (h, msg)" by (cases e)
  have "resolver_inv (resolver_step L e r)"
    using Cons.prems(1) by (simp add: resolver_step_def resolver_handler_inv)
  moreover have "dir_address (directory_of (resolver_step L e r)) n = dir_address (directory_of r) n"
    using Cons.prems e by (simp add: resolver_step_directory directory_step_address)
  ultimately show ?case using Cons by simp
qed simp

text \<open>
  C31. A node that was bound is resolved to its address: after \<open>node/bind\<close>, whatever other requests
  follow that do not bind or unbind this node, \<open>node/resolve\<close> answers with the address under the
  node's name and status ok.
\<close>

theorem resolver_bind_resolve:
  assumes "r0 = reachable_resolver L es0"
    and "msg_node L bm = n" and "n \<noteq> []" and "msg_address L bm = a" and "a \<noteq> []"
    and "\<forall>e \<in> set es. \<not> rebinds L n e"
    and "msg_node L rm = n" and "passable (im_doc rm)" and "report_keys [n]"
  shows "\<exists>r' d. resolver_run L (Own Node_resolve) rm
        (fold (resolver_step L) es (resolver_step L (Own Node_bind, bm) r0))
        = Done r' [Reply (im_id rm) (jl_write L d)]
    \<and> message_find n d = Some (JString a)
    \<and> message_find ''@status_code'' d = Some (JInt (code_of Ok))"
proof -
  let ?r1 = "resolver_step L (Own Node_bind, bm) r0"
  have i0: "resolver_inv r0" using assms(1) reachable_resolver_inv by simp
  then have i1: "resolver_inv ?r1" by (simp add: resolver_step_def resolver_handler_inv)
  have "dir_address (directory_of ?r1) n = a"
    using assms(2-5) by (simp add: resolver_step_directory [OF i0])
  with resolver_steps [OF i1 assms(6)]
  have "dir_address (directory_of (fold (resolver_step L) es ?r1)) (msg_node L rm) = a"
    using assms(7) by simp
  from resolve_node_eq(2) [OF assms(8) this assms(5)] assms(7,9) show ?thesis
    by (auto simp: resolver_run_def run_handler_def)
qed

theorem resolver_bind_resolve_witness:
  "\<exists>r' d. resolver_run ref_lib (Own Node_resolve) \<lparr>im_id = 2, im_doc = JObject [(''nodename'', JString ''n1'')]\<rparr>
        (fold (resolver_step ref_lib) [(Own Node_unbind, \<lparr>im_id = 3, im_doc = JObject [(''nodename'', JString ''n2'')]\<rparr>)]
          (resolver_step ref_lib (Own Node_bind, \<lparr>im_id = 1, im_doc =
            JObject [(''address'', JString ''tcp://h:1''), (''nodename'', JString ''n1'')]\<rparr>) resolver_new))
        = Done r' [Reply 2 (jl_write ref_lib d)]
    \<and> message_find ''n1'' d = Some (JString ''tcp://h:1'')"
proof -
  have f: "msg_node ref_lib \<lparr>im_id = i, im_doc = JObject [(''nodename'', JString s)]\<rparr> = s"
    "msg_node ref_lib \<lparr>im_id = i, im_doc = JObject [(''address'', JString a), (''nodename'', JString s)]\<rparr> = s"
    "msg_address ref_lib \<lparr>im_id = i, im_doc = JObject [(''address'', JString a), (''nodename'', JString s)]\<rparr> = a"
    for i s a
    by (simp_all add: msg_node_def msg_address_def get_string_def get_as_def message_find_plain plain_key_def)
  have k: "report_keys [''n1'']" by (simp add: report_keys_def split_plain plain_key_def)
  have z: "resolver_new = reachable_resolver ref_lib []" by (simp add: reachable_resolver_def)
  show ?thesis
    using resolver_bind_resolve [OF z, of "\<lparr>im_id = 1, im_doc =
        JObject [(''address'', JString ''tcp://h:1''), (''nodename'', JString ''n1'')]\<rparr>" "''n1''" "''tcp://h:1''"
        "[(Own Node_unbind, \<lparr>im_id = 3, im_doc = JObject [(''nodename'', JString ''n2'')]\<rparr>)]"
        "\<lparr>im_id = 2, im_doc = JObject [(''nodename'', JString ''n1'')]\<rparr>"]
    by (auto simp: f k passable_def)
qed

text \<open>
  Asking for an unknown node makes it known: the lookup inserts it with an empty address. A
  service may then be bound to it, which was refused before, and the service resolves with
  status ok to a list that holds no address for this node.
\<close>

theorem resolver_phantom_node:
  assumes "r = reachable_resolver L es"
    and "msg_node L qm = n" and "n \<noteq> []" and "n \<notin> dir_known (directory_of r)"
    and "msg_node L sm = n" and "msg_service L sm = s" and "s \<noteq> []"
  shows "directory_of (resolver_step L (Own Service_bind, sm) r) = directory_of r
    \<and> (let d = directory_of (resolver_step L (Own Service_bind, sm)
                   (resolver_step L (Own Node_resolve, qm) r))
       in n \<in> dir_providers d s \<and> dir_address d n = [])"
proof -
  have inv: "resolver_inv r" using assms(1) reachable_resolver_inv by simp
  then have inv': "resolver_inv (resolver_step L (Own Node_resolve, qm) r)"
    by (simp add: resolver_step_def resolver_handler_inv)
  have "dir_address (directory_of r) n = []"
    using assms(4) by (simp add: directory_of_def map_of_eq_None_iff [THEN iffD2])
  then show ?thesis
    using assms(2-)
    by (simp add: resolver_step_directory [OF inv] resolver_step_directory [OF inv'] Let_def)
qed

theorem resolver_phantom_node_witness:
  "let d = directory_of (resolver_step ref_lib (Own Service_bind, \<lparr>im_id = 2, im_doc =
            JObject [(''nodename'', JString ''n''), (''service'', JString ''Cache'')]\<rparr>)
          (resolver_step ref_lib (Own Node_resolve, \<lparr>im_id = 1, im_doc = JObject [(''nodename'', JString ''n'')]\<rparr>)
            resolver_new))
   in ''n'' \<in> dir_providers d ''Cache'' \<and> dir_address d ''n'' = []"
proof -
  have f: "msg_node ref_lib \<lparr>im_id = i, im_doc = JObject [(''nodename'', JString s)]\<rparr> = s"
    "msg_node ref_lib \<lparr>im_id = i, im_doc = JObject [(''nodename'', JString s), (''service'', JString a)]\<rparr> = s"
    "msg_service ref_lib \<lparr>im_id = i, im_doc = JObject [(''nodename'', JString s), (''service'', JString a)]\<rparr> = a"
    for i s a
    by (simp_all add: msg_node_def msg_service_def get_string_def get_as_def message_find_plain plain_key_def)
  have z: "resolver_new = reachable_resolver ref_lib []" by (simp add: reachable_resolver_def)
  have "''n'' \<notin> dir_known (directory_of resolver_new)" by (simp add: directory_of_def resolver_new_def)
  from resolver_phantom_node [OF z f(1) _ this f(2,3)] show ?thesis by simp
qed

section \<open>What the monitor does to services\<close>

definition soft_fails :: "string \<Rightarrow> string \<Rightarrow> monitor \<Rightarrow> int" where
  "soft_fails s n mo = (case map_of (mo_services mo) s of
     None \<Rightarrow> 0 | Some inner \<Rightarrow> (case map_of inner n of None \<Rightarrow> 0 | Some c \<Rightarrow> c))"

abbreviation providers :: "resolver \<Rightarrow> string \<Rightarrow> string set" where
  "providers r s \<equiv> dir_providers (directory_of r) s"

text \<open>Nodes answer at their addresses, and no name of a node is a target.\<close>

definition only_nodes_answer :: "pinger \<Rightarrow> bool" where
  "only_nodes_answer ping \<longleftrightarrow>
     (\<forall>n s. ping n s ''ping'' = Inr False) \<and> (\<forall>a. ping a ''ping'' [] = Inr True)"

lemma only_nodes_answerD:
  assumes "only_nodes_answer ping"
  shows "ping n s ''ping'' = Inr False" "ping a ''ping'' [] = Inr True"
  using assms by (simp_all add: only_nodes_answer_def)

lemma bump_service_value: "fst (bump_service f s n mo) = f (soft_fails s n mo)"
  by (auto simp: bump_service_def soft_fails_def index_or_insert_def Let_def split: option.split)

lemma bump_service_soft:
  "soft_fails s' n' (snd (bump_service f s n mo)) =
     (if s' = s \<and> n' = n then f (soft_fails s n mo) else soft_fails s' n' mo)"
  by (auto simp: bump_service_def soft_fails_def index_or_insert_def Let_def update_conv'
      split: option.split)

lemma erase_service_providers:
  "providers (put_service s (sset_erase n (fst (service_nodes s r))) (snd (service_nodes s r))) s' =
     (if s' = s then providers r s - {n} else providers r s')"
  by (simp add: directory_service)

lemma erase_service_nodes:
  "rv_nodes (put_service s ns (snd (service_nodes s r))) = rv_nodes r"
  by (simp add: put_service_def service_nodes_state)

lemma monitor_service_silent:
  assumes "only_nodes_answer ping" "distinct ns"
  shows "\<exists>mo' r'. monitor_service ping k s ns (mo, r) = Inr (mo', r')
    \<and> (\<forall>s' n. soft_fails s' n mo' = soft_fails s' n mo + (if s' = s \<and> n \<in> set ns then 1 else 0))
    \<and> (\<forall>s'. providers r' s' = providers r s' - {n \<in> set ns. s' = s \<and> k \<le> soft_fails s n mo + 1})
    \<and> rv_nodes r' = rv_nodes r"
  using assms(2)
proof (induction ns arbitrary: mo r)
  case (Cons a ns)
  let ?mo = "snd (bump_service (\<lambda>n. n + 1) s a mo)"
  let ?r = "if k \<le> soft_fails s a mo + 1
    then put_service s (sset_erase a (fst (service_nodes s r))) (snd (service_nodes s r)) else r"
  from Cons.IH [of ?mo ?r] Cons.prems obtain mo' r' where IH: "monitor_service ping k s ns (?mo, ?r) = Inr (mo', r')"
    "\<forall>s' n. soft_fails s' n mo' = soft_fails s' n ?mo + (if s' = s \<and> n \<in> set ns then 1 else 0)"
    "\<forall>s'. providers r' s' = providers ?r s' - {n \<in> set ns. s' = s \<and> k \<le> soft_fails s n ?mo + 1}"
    "rv_nodes r' = rv_nodes ?r"
    by auto
  have "monitor_service ping k s (a # ns) (mo, r) = Inr (mo', r')"
    using IH(1) by (auto simp: only_nodes_answerD [OF assms(1)] case_prod_unfold Let_def bump_service_value
        split: if_splits)
  moreover have "soft_fails s' n mo' = soft_fails s' n mo + (if s' = s \<and> n \<in> set (a # ns) then 1 else 0)" for s' n
    using IH(2) Cons.prems by (auto simp: bump_service_soft)
  moreover have "providers r' s' = providers r s' - {n \<in> set (a # ns). s' = s \<and> k \<le> soft_fails s n mo + 1}" for s'
  proof -
    have "{n \<in> set ns. s' = s \<and> k \<le> soft_fails s n ?mo + 1} = {n \<in> set ns. s' = s \<and> k \<le> soft_fails s n mo + 1}"
      using Cons.prems by (auto simp: bump_service_soft)
    with IH(3) show ?thesis by (auto simp: erase_service_providers)
  qed
  moreover have "rv_nodes r' = rv_nodes r" using IH(4) by (simp add: erase_service_nodes)
  ultimately show ?case by blast
qed simp

lemma monitor_services_silent:
  assumes "only_nodes_answer ping" "distinct (keys ss)" "\<forall>(s, ns) \<in> set ss. distinct ns"
  shows "\<exists>mo' r'. monitor_services ping k ss (mo, r) = Inr (mo', r')
    \<and> (\<forall>s n. soft_fails s n mo' = soft_fails s n mo + (if \<exists>ns. (s, ns) \<in> set ss \<and> n \<in> set ns then 1 else 0))
    \<and> (\<forall>s. providers r' s = providers r s
          - {n. (\<exists>ns. (s, ns) \<in> set ss \<and> n \<in> set ns) \<and> k \<le> soft_fails s n mo + 1})
    \<and> rv_nodes r' = rv_nodes r"
  using assms(2,3)
proof (induction ss arbitrary: mo r)
  case (Cons x ss)
  obtain s0 ns0 where x: "x = (s0, ns0)" by (cases x)
  then have "distinct ns0" using Cons.prems(2) by auto
  from monitor_service_silent [OF assms(1) this, of k s0 mo r] obtain mo1 r1 where
    one: "monitor_service ping k s0 ns0 (mo, r) = Inr (mo1, r1)"
    "\<forall>s' n. soft_fails s' n mo1 = soft_fails s' n mo + (if s' = s0 \<and> n \<in> set ns0 then 1 else 0)"
    "\<forall>s'. providers r1 s' = providers r s' - {n \<in> set ns0. s' = s0 \<and> k \<le> soft_fails s0 n mo + 1}"
    "rv_nodes r1 = rv_nodes r"
    by blast
  from Cons.IH [of mo1 r1] Cons.prems obtain mo' r' where two: "monitor_services ping k ss (mo1, r1) = Inr (mo', r')"
    "\<forall>s n. soft_fails s n mo' = soft_fails s n mo1 + (if \<exists>ns. (s, ns) \<in> set ss \<and> n \<in> set ns then 1 else 0)"
    "\<forall>s. providers r' s = providers r1 s
        - {n. (\<exists>ns. (s, ns) \<in> set ss \<and> n \<in> set ns) \<and> k \<le> soft_fails s n mo1 + 1}"
    "rv_nodes r' = rv_nodes r1"
    by auto
  have s0: "(s0, ns) \<notin> set ss" for ns using Cons.prems(1) x by force
  have "monitor_services ping k (x # ss) (mo, r) = Inr (mo', r')"
    using one(1) two(1) x by simp
  moreover have "soft_fails s n mo' = soft_fails s n mo
      + (if \<exists>ns. (s, ns) \<in> set (x # ss) \<and> n \<in> set ns then 1 else 0)" for s n
    using one(2) two(2) x s0 by (cases "s = s0") auto
  moreover have "providers r' s = providers r s
      - {n. (\<exists>ns. (s, ns) \<in> set (x # ss) \<and> n \<in> set ns) \<and> k \<le> soft_fails s n mo + 1}" for s
    using one(2,3) two(3) x s0 by (cases "s = s0") auto
  moreover have "rv_nodes r' = rv_nodes r" using one(4) two(4) by simp
  ultimately show ?case by blast
qed simp

lemma monitor_nodes_answered:
  assumes "only_nodes_answer ping"
  shows "\<exists>mo'. monitor_nodes ping k ns (mo, r) = Inr (mo', r) \<and> mo_services mo' = mo_services mo"
proof (induction ns arbitrary: mo)
  case (Cons n ns)
  from Cons [of "mo\<lparr>mo_nodes := AList.update (fst n) 0 (mo_nodes mo)\<rparr>"] show ?case
    by (cases n) (simp add: only_nodes_answerD [OF assms])
qed simp

fun monitor_rounds :: "pinger \<Rightarrow> int \<Rightarrow> nat \<Rightarrow> monitor \<times> resolver \<Rightarrow> (monitor \<times> resolver) res" where
  "monitor_rounds ping k 0 s = Inr s"
| "monitor_rounds ping k (Suc m) s = rbind (monitor_round ping k s) (monitor_rounds ping k m)"

lemma monitor_round_silent:
  assumes "only_nodes_answer ping" "resolver_inv r"
  shows "\<exists>mo' r'. monitor_round ping k (mo, r) = Inr (mo', r') \<and> resolver_inv r' \<and> rv_nodes r' = rv_nodes r
    \<and> (\<forall>s n. n \<in> providers r s \<longrightarrow> soft_fails s n mo' = soft_fails s n mo + 1)
    \<and> (\<forall>s. providers r' s = providers r s - {n. k \<le> soft_fails s n mo + 1})"
proof -
  obtain mo1 where mo1: "monitor_nodes ping k (rv_nodes r) (mo, r) = Inr (mo1, r)"
    "mo_services mo1 = mo_services mo"
    using monitor_nodes_answered [OF assms(1)] by blast
  have soft: "soft_fails s n mo1 = soft_fails s n mo" for s n by (simp add: soft_fails_def mo1(2))
  have d: "distinct (keys (rv_services r))" "\<forall>(s, ns) \<in> set (rv_services r). distinct ns"
    using assms(2) by (auto simp: resolver_inv_def sset_ok_def)
  have prov: "(\<exists>ns. (s, ns) \<in> set (rv_services r) \<and> n \<in> set ns) \<longleftrightarrow> n \<in> providers r s" for s n
    unfolding map_of_eq_Some_iff [OF d(1), symmetric] by (simp add: directory_of_def split: option.split)
  from monitor_services_silent [OF assms(1) d, of k mo1 r] obtain mo' r' where
    "monitor_services ping k (rv_services r) (mo1, r) = Inr (mo', r')"
    "\<forall>s n. soft_fails s n mo' = soft_fails s n mo1 + (if n \<in> providers r s then 1 else 0)"
    "\<forall>s. providers r' s = providers r s - {n. n \<in> providers r s \<and> k \<le> soft_fails s n mo1 + 1}"
    "rv_nodes r' = rv_nodes r"
    unfolding prov by blast
  moreover from this mo1 have "monitor_round ping k (mo, r) = Inr (mo', r')"
    by (simp add: monitor_round_def)
  ultimately show ?thesis
    using monitor_round_inv assms(2) soft by (intro exI [of _ mo'] exI [of _ r']) auto
qed

lemma monitor_rounds_silent:
  assumes "only_nodes_answer ping"
  shows "resolver_inv r \<Longrightarrow> \<forall>s n. n \<in> providers r s \<longrightarrow> soft_fails s n mo = k - int m \<Longrightarrow> 0 < m \<Longrightarrow>
     \<exists>mo' r'. monitor_rounds ping k m (mo, r) = Inr (mo', r') \<and> rv_nodes r' = rv_nodes r
       \<and> (\<forall>s. providers r' s = {})"
proof (induction m arbitrary: mo r)
  case (Suc m)
  from monitor_round_silent [OF assms Suc.prems(1), of k mo] obtain mo1 r1 where
    one: "monitor_round ping k (mo, r) = Inr (mo1, r1)" "resolver_inv r1" "rv_nodes r1 = rv_nodes r"
    "\<forall>s n. n \<in> providers r s \<longrightarrow> soft_fails s n mo1 = soft_fails s n mo + 1"
    "\<forall>s. providers r1 s = providers r s - {n. k \<le> soft_fails s n mo + 1}"
    by blast
  show ?case
  proof (cases m)
    case 0
    with one Suc.prems(2) have "\<forall>s. providers r1 s = {}" by auto
    with one 0 show ?thesis by auto
  next
    case (Suc m')
    have "\<forall>s n. n \<in> providers r1 s \<longrightarrow> soft_fails s n mo1 = k - int m"
      using one(4,5) Suc.prems(2) by auto
    from Suc.IH [OF one(2) this] Suc one(1,3) show ?thesis by auto
  qed
qed simp

text \<open>
  The monitor unbinds healthy services: it pings a service at the name of its node, where the
  nodes are bound to addresses. When no name answers as a target, although every node answers
  at its address, every service has lost all its nodes after \<open>max_failures\<close> rounds, and all the
  nodes are still there.
\<close>

theorem monitor_drops_services:
  assumes "only_nodes_answer ping" and "r = reachable_resolver L es" and "0 < m"
  shows "\<exists>mo' r'. monitor_rounds ping (int m) m (monitor_new, r) = Inr (mo', r')
    \<and> rv_nodes r' = rv_nodes r \<and> (\<forall>s. dir_providers (directory_of r') s = {})"
proof -
  have "resolver_inv r" using assms(2) reachable_resolver_inv by simp
  moreover have "\<forall>s n. n \<in> providers r s \<longrightarrow> soft_fails s n monitor_new = int m - int m"
    by (simp add: soft_fails_def monitor_new_def)
  ultimately show ?thesis using monitor_rounds_silent [OF assms(1)] assms(3) by blast
qed

theorem monitor_drops_services_witness:
  "\<exists>mo' r'. monitor_rounds (\<lambda>a obj name. Inr (name = [])) (int 3) 3 (monitor_new, resolver_new) = Inr (mo', r')
    \<and> rv_nodes r' = rv_nodes resolver_new \<and> (\<forall>s. dir_providers (directory_of r') s = {})"
  by (rule monitor_drops_services [where L = ref_lib and es = "[]"])
    (simp_all add: reachable_resolver_def only_nodes_answer_def)

end
