(* ===== verification/Nix_Queue.thy ===== *)
theory Nix_Queue
  imports Nix_Prelude
begin

text \<open>
  \<open>nix::Queue\<close> (src/src/nix/queue.hxx), twice. First each member function as one step on
  the queue's state, with \<open>pop\<close> telling that it waits; the services use this view. Then the
  threads of a program that share a queue, at the granularity of the mutex and the condition
  variable, as a step relation.
\<close>

section \<open>Member functions\<close>

record 'a queue =
  q_items :: "'a list"
  q_size :: nat
  q_closed :: bool

definition queue_new :: "nat \<Rightarrow> 'a queue" where
  "queue_new n = \<lparr>q_items = [], q_size = (if n \<noteq> 0 then n else 50), q_closed = False\<rparr>"

definition queue_push :: "'a \<Rightarrow> 'a queue \<Rightarrow> 'a queue \<times> bool" where
  "queue_push x q =
     (if \<not> q_closed q \<and> q_size q \<noteq> 0 \<and> length (q_items q) < q_size q
      then (q\<lparr>q_items := q_items q @ [x]\<rparr>, True)
      else (q, False))"

text \<open>
  \<open>pop\<close> comes back with an element, comes back with a null pointer (the queue is closed, or
  the timeout passed without a notification), or waits to be notified: with a timeout of
  \<open>-1\<close> it waits for as long as the queue is open and empty.
\<close>

datatype 'a popped = Got 'a | Nothing | Waits

definition queue_pop :: "int \<Rightarrow> 'a queue \<Rightarrow> 'a popped \<times> 'a queue" where
  "queue_pop timeout q =
     (if q_closed q then (Nothing, q)
      else case q_items q of
             x # xs \<Rightarrow> (Got x, q\<lparr>q_items := xs\<rparr>)
           | [] \<Rightarrow> (if timeout = - 1 then Waits else Nothing, q))"

definition queue_count :: "'a queue \<Rightarrow> nat" where
  "queue_count q = length (q_items q)"

definition queue_set_enabled :: "bool \<Rightarrow> 'a queue \<Rightarrow> 'a queue" where
  "queue_set_enabled state q = q\<lparr>q_closed := \<not> state\<rparr>"

definition queue_is_closed :: "'a queue \<Rightarrow> bool" where
  "queue_is_closed q = q_closed q"

definition queue_clear :: "'a queue \<Rightarrow> 'a queue" where
  "queue_clear q =
     (let was_closed = queue_is_closed q;
          q1 = q\<lparr>q_closed := True\<rparr>;
          q2 = q1\<lparr>q_items := []\<rparr>
      in q2\<lparr>q_closed := was_closed\<rparr>)"

definition queue_ok :: "'a queue \<Rightarrow> bool" where
  "queue_ok q \<longleftrightarrow> 0 < q_size q \<and> length (q_items q) \<le> q_size q"

lemma queue_ok_new [simp, nix_inv]: "queue_ok (queue_new n)"
  by (simp add: queue_ok_def queue_new_def)

lemma queue_ok_push [nix_inv]: "queue_ok q \<Longrightarrow> queue_ok (fst (queue_push x q))"
  by (simp add: queue_ok_def queue_push_def)

lemma queue_ok_pop [nix_inv]: "queue_ok q \<Longrightarrow> queue_ok (snd (queue_pop t q))"
  by (auto simp: queue_ok_def queue_pop_def split: list.split)

lemma queue_ok_set_enabled [nix_inv]: "queue_ok q \<Longrightarrow> queue_ok (queue_set_enabled b q)"
  by (simp add: queue_ok_def queue_set_enabled_def)

lemma queue_clear_eq: "queue_clear q = q\<lparr>q_items := []\<rparr>"
  by (simp add: queue_clear_def queue_is_closed_def Let_def)

lemma queue_ok_clear [nix_inv]: "queue_ok q \<Longrightarrow> queue_ok (queue_clear q)"
  by (simp add: queue_ok_def queue_clear_eq)

section \<open>The contract of a bounded queue\<close>

text \<open>
  What the services that own a queue rely on: elements come out in the order they went in,
  an open queue with room accepts, a closed one neither accepts nor gives.
\<close>

locale bounded_fifo =
  fixes push :: "'a \<Rightarrow> 'q \<Rightarrow> 'q \<times> bool"
    and take_one :: "'q \<Rightarrow> 'a option \<times> 'q"
    and contents :: "'q \<Rightarrow> 'a list"
    and room :: "'q \<Rightarrow> nat"
    and is_open :: "'q \<Rightarrow> bool"
  assumes push_open: "is_open q \<Longrightarrow> 0 < room q \<Longrightarrow>
      snd (push x q) \<and> contents (fst (push x q)) = contents q @ [x]
      \<and> room q = Suc (room (fst (push x q))) \<and> is_open (fst (push x q))"
    and push_refused: "\<not> is_open q \<or> room q = 0 \<Longrightarrow> push x q = (q, False)"
    and take_open: "is_open q \<Longrightarrow> contents q = y # ys \<Longrightarrow>
      fst (take_one q) = Some y \<and> contents (snd (take_one q)) = ys
      \<and> is_open (snd (take_one q))"
    and take_refused: "\<not> is_open q \<or> contents q = [] \<Longrightarrow> take_one q = (None, q)"
begin

lemma push_all:
  "is_open q \<Longrightarrow> length xs \<le> room q \<Longrightarrow>
     contents (fold (\<lambda>x q. fst (push x q)) xs q) = contents q @ xs
     \<and> is_open (fold (\<lambda>x q. fst (push x q)) xs q)"
proof (induction xs arbitrary: q)
  case (Cons x xs)
  with push_open [of q x] show ?case by simp
qed simp

primrec take_many :: "nat \<Rightarrow> 'q \<Rightarrow> 'a option list \<times> 'q" where
  "take_many 0 q = ([], q)"
| "take_many (Suc n) q =
     (let (r, q1) = take_one q; (rs, q2) = take_many n q1 in (r # rs, q2))"

lemma take_all:
  "is_open q \<Longrightarrow> contents q = ys @ zs \<Longrightarrow>
     fst (take_many (length ys) q) = map Some ys
     \<and> contents (snd (take_many (length ys) q)) = zs"
proof (induction ys arbitrary: q)
  case (Cons y ys)
  with take_open [of q y "ys @ zs"] Cons.IH [of "snd (take_one q)"] show ?case
    by (simp add: Let_def split: prod.split) (metis fst_conv snd_conv)
qed simp

lemma fifo:
  assumes "is_open q" "contents q = []" "length xs \<le> room q"
  shows "fst (take_many (length xs) (fold (\<lambda>x q. fst (push x q)) xs q)) = map Some xs"
  using push_all [OF assms(1,3)] take_all [of _ xs "[]"] assms(2) by simp

end

text \<open>\<open>pop\<close> as seen by a caller that does not wait.\<close>

definition queue_take :: "'a queue \<Rightarrow> 'a option \<times> 'a queue" where
  "queue_take q = (case queue_pop (- 1) q of (Got x, q') \<Rightarrow> (Some x, q') | (_, q') \<Rightarrow> (None, q'))"

interpretation nq: bounded_fifo queue_push queue_take q_items
    "\<lambda>q. q_size q - length (q_items q)" "\<lambda>q. \<not> q_closed q"
  by unfold_locales
    (auto simp: queue_push_def queue_take_def queue_pop_def split: list.split)

text \<open>
  A queue is first in, first out: pushing up to its size elements into a new queue accepts
  all of them, and popping as many returns them in the same order.
\<close>

theorem queue_fifo:
  assumes "length xs \<le> q_size (queue_new n)"
  shows "fst (nq.take_many (length xs) (fold (\<lambda>x q. fst (queue_push x q)) xs (queue_new n)))
    = map Some xs"
  using assms by (intro nq.fifo) (simp_all add: queue_new_def)

theorem queue_fifo_witness:
  "fst (nq.take_many 3 (fold (\<lambda>x q. fst (queue_push x q)) [4, 5, 6 :: nat] (queue_new 3)))
    = [Some 4, Some 5, Some 6]"
  using queue_fifo [of "[4, 5, 6 :: nat]" 3] by (simp add: queue_new_def numeral_3_eq_3)

datatype 'a queue_op = Push 'a | Pop int | Enable bool | Clear

fun queue_step :: "'a queue_op \<Rightarrow> 'a queue \<Rightarrow> 'a queue" where
  "queue_step (Push x) q = fst (queue_push x q)"
| "queue_step (Pop t) q = snd (queue_pop t q)"
| "queue_step (Enable b) q = queue_set_enabled b q"
| "queue_step Clear q = queue_clear q"

lemma queue_step_ok: "queue_ok q \<Longrightarrow> queue_ok (queue_step e q)"
  by (cases e) (auto intro: nix_inv)

interpretation qs: event_system queue_step queue_ok
  by unfold_locales (rule queue_step_ok)

text \<open>
  C30. A queue never holds more than its size, whatever sequence of operations runs on it; a push
  succeeds exactly while the queue is open and not full, and a refused push changes nothing.
\<close>

theorem queue_bounded:
  "let q = fold queue_step ops (queue_new n)
   in queue_count q \<le> q_size q
      \<and> (snd (queue_push x q) \<longleftrightarrow> \<not> queue_is_closed q \<and> queue_count q < q_size q)
      \<and> (snd (queue_push x q) \<or> fst (queue_push x q) = q)"
proof -
  have "queue_ok (fold queue_step ops (queue_new n))" by (rule qs.fold_inv) simp
  then show ?thesis
    by (simp add: Let_def queue_ok_def queue_count_def queue_push_def queue_is_closed_def)
qed

end
