(* ===== verification/Nix_Job_Queue.thy ===== *)
theory Nix_Job_Queue
  imports Nix_Queue Nix_Route Nix_Runs
begin

text \<open>
  The job queue service (src/src/nix/module/builtin/service/job_queue.hxx, job_queue.cxx): a
  queue of jobs and a queue of parked workers for every name, the jobs that are being worked on
  and the completed ones. \<open>persistent_\<close> is false for good, so its branches are taken. The clock
  and the generator of identifiers are parameters, as in \<open>Nix_Job\<close>.
\<close>

section \<open>State\<close>

text \<open>
  A \<open>get_work\<close> that waits in \<open>pop\<close>: its message, the name of the queue and whether the queue has been
  removed since. A queue that is created again under its name is another object.
\<close>

record work_waiter =
  ww_msg :: imsg
  ww_queue :: string
  ww_removed :: bool

record job_queue =
  jq_queues :: "(string, job queue) umap"
  jq_workers :: "(string, imsg queue) umap"
  jq_in_progress :: "(string, job) umap"
  jq_completed :: "(string, job) umap"
  jq_completed_jobs :: int
  jq_drawn :: nat
  jq_waiting :: "work_waiter list"

definition job_queue_new :: job_queue where
  "job_queue_new = \<lparr>jq_queues = [], jq_workers = [], jq_in_progress = [], jq_completed = [],
     jq_completed_jobs = 0, jq_drawn = 0, jq_waiting = []\<rparr>"

datatype job_queue_handler =
    Job_submit | Work_get | Progress_set | Result_set | Result_get | Queue_manage | Queue_status

definition job_queue_module :: "job_queue_handler nix_module" where
  "job_queue_module = builtin_new ''JobQueue'' 1
     [route_new ''job/submit'' (Own Job_submit) API_PRIVATE FUTURE [],
      route_new ''job/work/get'' (Own Work_get) API_PRIVATE SYNC [],
      route_new ''job/progress/set'' (Own Progress_set) API_PRIVATE VOID [],
      route_new ''job/result/set'' (Own Result_set) API_PRIVATE SYNC [],
      route_new ''job/result/get'' (Own Result_get) API_PRIVATE SYNC [],
      route_new ''manage'' (Own Queue_manage) ADMIN SYNC [],
      route_new ''status'' (Own Queue_status) API_PRIVATE SYNC []]"

section \<open>Queues\<close>

text \<open>
  A size of 0 stands for 50. A queue that is created again after it was removed keeps its
  parked workers, since \<open>emplace\<close> does not overwrite.
\<close>

definition init_queue :: "string \<Rightarrow> nat \<Rightarrow> job_queue \<Rightarrow> bool \<times> job_queue" where
  "init_queue name n s =
     (let sz = (if n \<noteq> 0 then n else 50)
      in if um_count name (jq_queues s) then (False, s)
         else (True, s\<lparr>jq_queues := um_emplace name (queue_new sz) (jq_queues s),
                       jq_workers := um_emplace name (queue_new sz) (jq_workers s)\<rparr>))"

definition clear_all :: "job_queue \<Rightarrow> job_queue" where
  "clear_all s = s\<lparr>jq_queues := map (\<lambda>(n, q). (n, queue_clear q)) (jq_queues s)\<rparr>"

definition switch_all :: "bool \<Rightarrow> job_queue \<Rightarrow> job_queue" where
  "switch_all st s = s\<lparr>jq_queues := map (\<lambda>(n, q). (n, queue_set_enabled st q)) (jq_queues s)\<rparr>"

text \<open>
  Removing a queue closes and empties it first, which wakes the handlers that wait there; they keep the
  queue itself, which is never deleted, and an iterator to its erased entry.
\<close>

definition mark_removed :: "(string \<Rightarrow> bool) \<Rightarrow> job_queue \<Rightarrow> job_queue" where
  "mark_removed gone s = s\<lparr>jq_waiting := map (\<lambda>w. w\<lparr>ww_removed := ww_removed w \<or> gone (ww_queue w)\<rparr>) (jq_waiting s)\<rparr>"

definition remove_all :: "job_queue \<Rightarrow> job_queue" where
  "remove_all s = mark_removed (\<lambda>_. True) ((clear_all (switch_all False s))\<lparr>jq_queues := []\<rparr>)"

definition put_queue :: "string \<Rightarrow> job queue \<Rightarrow> job_queue \<Rightarrow> job_queue" where
  "put_queue name q s = s\<lparr>jq_queues := AList.update name q (jq_queues s)\<rparr>"

definition put_workers :: "string \<Rightarrow> imsg queue \<Rightarrow> job_queue \<Rightarrow> job_queue" where
  "put_workers name w s = s\<lparr>jq_workers := AList.update name w (jq_workers s)\<rparr>"

section \<open>Jobs on their way\<close>

text \<open>The reply that carries a job to a worker: its text is parsed into a message first.\<close>

definition task_reply :: "jlib \<Rightarrow> nat \<Rightarrow> job \<Rightarrow> net res" where
  "task_reply L i j =
     rbind (job_to_string L j) (\<lambda>text.
     rbind (message_parse L text message_new) (\<lambda>task. im_reply_msg L i task Ok))"

text \<open>
  Handing the job to a parked worker. The loop runs while no worker has taken the job; it is
  left by the first reply that was sent and by an exception, which is caught and logged (the
  worker taken off the queue is lost then). The result tells whether the job was passed on.
\<close>

datatype handed = Passed net | Kept | Crashed | Stuck

fun hand_over :: "jlib \<Rightarrow> job \<Rightarrow> nat \<Rightarrow> imsg queue \<Rightarrow> handed \<times> imsg queue" where
  "hand_over L j 0 w = (Kept, w)"
| "hand_over L j (Suc count) w =
     (case queue_pop (- 1) w of
        (Got wm, w') \<Rightarrow> (case task_reply L (im_id wm) j of Inr n \<Rightarrow> (Passed n, w') | Inl e \<Rightarrow> (Kept, w'))
      | (Nothing, w') \<Rightarrow> (Crashed, w')
      | (Waits, w') \<Rightarrow> (Stuck, w'))"

definition submit_to_queue :: "jlib \<Rightarrow> imsg \<Rightarrow> string \<Rightarrow> job queue \<Rightarrow> job \<Rightarrow> job_queue \<Rightarrow> job_queue outcome" where
  "submit_to_queue L msg name q j s =
     (let (q', success) = queue_push j q; s1 = put_queue name q' s
      in if \<not> success then answer (im_fail_code L msg Temp_limit_reached ''Queue full'') s1 s1
         else answer (rbind (message_clear (im_doc msg)) (\<lambda>d.
                rbind (set_meta ''job_id'' (JString (j_id j)) d) (\<lambda>d'.
                im_reply_msg L (im_id msg) d' Ok))) s1 s1)"

definition job_submit :: "jlib \<Rightarrow> (nat \<Rightarrow> string) \<Rightarrow> int \<Rightarrow> imsg \<Rightarrow> job_queue \<Rightarrow> job_queue outcome" where
  "job_submit L rg now msg s =
     (let dest = get_string L ''module'' [] (im_doc msg)
      in case map_of (jq_queues s) dest of
           None \<Rightarrow> answer (im_fail L msg (''No queue for module: '' @ dest)) s s
         | Some q \<Rightarrow>
             if queue_is_closed q then answer (im_fail L msg ''Queue closed'') s s
             else
               let action = get_string L ''action'' [] (im_doc msg);
                   has_parameters = message_exists ''parameters'' (im_doc msg)
               in if \<not> (dest \<noteq> [] \<and> action \<noteq> [] \<and> has_parameters) then
                    answer (im_fail_code L msg Data_invalid_content []) s s
                  else
                    let (j, n) = job_of_message L rg now (im_doc msg) (jq_drawn s);
                        s0 = s\<lparr>jq_drawn := n\<rparr>
                    in case map_of (jq_workers s0) dest of
                         None \<Rightarrow> Raised UndefinedBehaviour s0 []
                       | Some w \<Rightarrow>
                           (case hand_over L j (queue_count w) w of
                              (Passed r, w') \<Rightarrow> Done (put_workers dest w' s0) [r]
                            | (Kept, w') \<Rightarrow> submit_to_queue L msg dest q j (put_workers dest w' s0)
                            | (Crashed, w') \<Rightarrow> Raised UndefinedBehaviour (put_workers dest w' s0) []
                            | (Stuck, w') \<Rightarrow> Blocked (put_workers dest w' s0)))"

text \<open>
  \<open>get_work\<close> in two parts. The first looks the queue up and calls \<open>pop\<close>. When \<open>pop\<close> comes back, at once or
  after it has waited, the second part answers with the job, or without a job parks the worker
  under the name of the queue.
\<close>

definition job_work_got :: "jlib \<Rightarrow> imsg \<Rightarrow> job \<Rightarrow> job_queue \<Rightarrow> job_queue outcome" where
  "job_work_got L msg j s =
     answer (task_reply L (im_id msg) j) s (s\<lparr>jq_in_progress := AList.update (j_id j) j (jq_in_progress s)\<rparr>)"

definition job_work_park :: "imsg \<Rightarrow> string \<Rightarrow> job_queue \<Rightarrow> job_queue outcome" where
  "job_work_park msg name s =
     (case map_of (jq_workers s) name of
        None \<Rightarrow> Raised UndefinedBehaviour s []
      | Some w \<Rightarrow> Done (put_workers name (fst (queue_push msg w)) s) [])"

definition job_get_work :: "jlib \<Rightarrow> imsg \<Rightarrow> job_queue \<Rightarrow> job_queue outcome" where
  "job_get_work L msg s =
     (let name = get_string L ''module'' [] (im_doc msg)
      in case map_of (jq_queues s) name of
           None \<Rightarrow> answer (im_fail L msg (''No queue for module: '' @ name)) s s
         | Some q \<Rightarrow>
             (case queue_pop (- 1) q of
                (Got j, q') \<Rightarrow> job_work_got L msg j (put_queue name q' s)
              | (Waits, q') \<Rightarrow>
                  Blocked (s\<lparr>jq_waiting := jq_waiting s @ [\<lparr>ww_msg = msg, ww_queue = name, ww_removed = False\<rparr>]\<rparr>)
              | (Nothing, q') \<Rightarrow> job_work_park msg name s))"

text \<open>
  A waiting handler wakes up and goes on from \<open>pop\<close>, which waits on when the queue is open and still
  empty. On a queue that was removed it comes back without a job, and the handler follows its
  iterator to the erased entry for the name.
\<close>

definition job_wake_worker :: "jlib \<Rightarrow> nat \<Rightarrow> job_queue \<Rightarrow> job_queue outcome" where
  "job_wake_worker L i s =
     (let w = jq_waiting s ! i;
          s1 = s\<lparr>jq_waiting := take i (jq_waiting s) @ drop (Suc i) (jq_waiting s)\<rparr>
      in if ww_removed w then Raised UndefinedBehaviour s1 []
         else case map_of (jq_queues s) (ww_queue w) of
           None \<Rightarrow> Raised UndefinedBehaviour s1 []
         | Some q \<Rightarrow>
             (case queue_pop (- 1) q of
                (Got j, q') \<Rightarrow> job_work_got L (ww_msg w) j (put_queue (ww_queue w) q' s1)
              | (Waits, q') \<Rightarrow> Blocked s
              | (Nothing, q') \<Rightarrow> job_work_park (ww_msg w) (ww_queue w) s1))"

definition job_set_progress_request :: "jlib \<Rightarrow> imsg \<Rightarrow> job_queue \<Rightarrow> job_queue outcome" where
  "job_set_progress_request L msg s =
     (let job_id = get_meta L ''job_id'' [] (im_doc msg)
      in case map_of (jq_in_progress s) job_id of
           None \<Rightarrow> Done s []
         | Some j \<Rightarrow>
             if get_double L ''progress'' 0 (im_doc msg) \<noteq> 0 then
               Done (s\<lparr>jq_in_progress := AList.update job_id
                 (job_set_progress (get_double L ''progress'' 0 (im_doc msg)) j) (jq_in_progress s)\<rparr>) []
             else Done s [])"

definition job_set_result :: "jlib \<Rightarrow> (nat \<Rightarrow> string) \<Rightarrow> int \<Rightarrow> imsg \<Rightarrow> job_queue \<Rightarrow> job_queue outcome" where
  "job_set_result L rg now msg s =
     (let job_id = get_meta L ''job_id'' [] (im_doc msg)
      in if job_id = [] then answer (im_fail_code L msg Null_value []) s s
         else
           let (j, n) = job_of_message L rg now (im_doc msg) (jq_drawn s);
               s1 = s\<lparr>jq_in_progress := AList.delete job_id (jq_in_progress s),
                      jq_completed := AList.update job_id (job_set_progress 100 j) (jq_completed s),
                      jq_completed_jobs := jq_completed_jobs s + 1, jq_drawn := n\<rparr>
           in answer (rbind (message_clear (im_doc msg)) (\<lambda>d. im_reply L (msg\<lparr>im_doc := d\<rparr>))) s1 s1)"

definition job_get_result :: "jlib \<Rightarrow> imsg \<Rightarrow> job_queue \<Rightarrow> job_queue outcome" where
  "job_get_result L msg s =
     (let api_key = get_meta L ''api_key'' [] (im_doc msg);
          job_id = get_meta L ''job_id'' [] (im_doc msg)
      in case message_clear (im_doc msg) of
           Inl e \<Rightarrow> Raised e s []
         | Inr d \<Rightarrow>
             let m = msg\<lparr>im_doc := d\<rparr>
             in case map_of (jq_completed s) job_id of
                  Some j \<Rightarrow>
                    if j_api_key j = api_key then
                      answer (im_reply_job L (im_id m) j Ok) s
                        (s\<lparr>jq_completed := AList.delete job_id (jq_completed s)\<rparr>)
                    else answer (im_fail_code L m Access_denied []) s s
                | None \<Rightarrow>
                    (case map_of (jq_in_progress s) job_id of
                       Some j \<Rightarrow> answer (im_reply_job L (im_id m) j Not_ready) s s
                     | None \<Rightarrow> answer (im_fail L m ''Job not found or not yet started'') s s))"

section \<open>Management\<close>

definition manage_queue :: "jlib \<Rightarrow> imsg \<Rightarrow> string \<Rightarrow> job queue \<Rightarrow> job_queue \<Rightarrow> job_queue" where
  "manage_queue L msg name q s =
     (let d = im_doc msg;
          q1 = (if \<not> message_is_null ''enable'' d
                then queue_set_enabled (get_bool L ''enable'' True d) q else q);
          q2 = (if \<not> message_is_null ''clear'' d \<and> get_bool L ''clear'' False d
                then queue_clear q1 else q1)
      in if \<not> message_is_null ''remove'' d \<and> get_bool L ''remove'' False d
         then mark_removed (\<lambda>n. n = name) (s\<lparr>jq_queues := AList.delete name (jq_queues s)\<rparr>)
         else put_queue name q2 s)"

definition job_manage :: "jlib \<Rightarrow> imsg \<Rightarrow> job_queue \<Rightarrow> job_queue outcome" where
  "job_manage L msg s =
     (let d = im_doc msg;
          is_clear_all = get_bool L ''clear_all'' False d;
          s1 = (if is_clear_all then clear_all s else s);
          is_remove_all = get_bool L ''remove_all'' False d;
          s2 = (if is_remove_all then remove_all s1 else s1);
          has_switch = \<not> message_is_null ''switch_all'' d;
          s3 = (if has_switch then switch_all (get_bool L ''switch_all'' True d) s2 else s2);
          name = get_string L ''queue'' [] d
      in if name \<noteq> [] \<and> \<not> message_is_null ''create'' d then
           let (created, s4) = init_queue name (size_of_int (get_int L ''create.size'' 0 d)) s3
           in if created then
                answer (rbind (message_clear d) (\<lambda>d'. im_reply L (msg\<lparr>im_doc := d'\<rparr>))) s4 s4
              else answer (im_fail L msg ''Failed to create queue. Already exists?'') s4 s4
         else case map_of (jq_queues s3) name of
             Some q \<Rightarrow> (let s4 = manage_queue L msg name q s3 in answer (im_reply L msg) s4 s4)
           | None \<Rightarrow>
               if is_clear_all \<or> is_remove_all \<or> has_switch then Done s3 []
               else answer (im_fail_code L msg Null_value []) s3 s3)"

definition queue_entries :: "string \<times> job queue \<Rightarrow> (string \<times> json) list" where
  "queue_entries nq =
     (let pre = ''queues.'' @ fst nq
      in [(pre @ ''.closed'', JBool (queue_is_closed (snd nq))),
          (pre @ ''.pending'', JInt (int (queue_count (snd nq))))])"

definition total_pending :: "job_queue \<Rightarrow> nat" where
  "total_pending s = sum_list (map (\<lambda>(n, q). queue_count q) (jq_queues s))"

definition job_status_entries :: "job_queue \<Rightarrow> (string \<times> json) list" where
  "job_status_entries s =
     [(''total_completed'', JInt (jq_completed_jobs s)),
      (''in_progress'', JInt (int (length (jq_in_progress s)))),
      (''results_awaiting'', JInt (int (length (jq_completed s))))]
     @ concat (map queue_entries (jq_queues s))
     @ [(''total_pending'', JInt (int (total_pending s)))]"

definition job_status :: "jlib \<Rightarrow> imsg \<Rightarrow> job_queue \<Rightarrow> job_queue outcome" where
  "job_status L msg s =
     answer (rbind (message_clear (im_doc msg)) (\<lambda>d.
             rbind (set_all (job_status_entries s) d) (\<lambda>d'. im_reply_msg L (im_id msg) d' Ok))) s s"

text \<open>
  The destructor: every queue is emptied and each worker parked there is rejected (an
  exception of the call is swallowed). Workers of queues that were removed are not visited.
\<close>

fun reject_workers :: "nat \<Rightarrow> imsg queue \<Rightarrow> net list res" where
  "reject_workers 0 w = Inr []"
| "reject_workers (Suc n) w =
     (case queue_pop (- 1) w of
        (Got wm, w') \<Rightarrow> rbind (reject_workers n w')
          (\<lambda>ns. Inr (im_reject_code wm Service_unavailable ''Service unavailable.'' # ns))
      | _ \<Rightarrow> Inl UndefinedBehaviour)"

fun destroy_queues :: "(string \<times> job queue) list \<Rightarrow> (string, imsg queue) umap \<Rightarrow> net list res" where
  "destroy_queues [] ws = Inr []"
| "destroy_queues ((name, q) # rest) ws =
     (case map_of ws name of
        None \<Rightarrow> Inl UndefinedBehaviour
      | Some w \<Rightarrow> rbind (reject_workers (queue_count w) w) (\<lambda>ns.
                  rbind (destroy_queues rest ws) (\<lambda>ns'. Inr (ns @ ns'))))"

definition job_queue_destroy :: "job_queue \<Rightarrow> net list res" where
  "job_queue_destroy s = destroy_queues (jq_queues s) (jq_workers s)"

fun job_queue_own :: "jlib \<Rightarrow> (nat \<Rightarrow> string) \<Rightarrow> int \<Rightarrow> job_queue_handler \<Rightarrow> imsg \<Rightarrow> job_queue \<Rightarrow> job_queue outcome" where
  "job_queue_own L rg now Job_submit msg s = job_submit L rg now msg s"
| "job_queue_own L rg now Work_get msg s = job_get_work L msg s"
| "job_queue_own L rg now Progress_set msg s = job_set_progress_request L msg s"
| "job_queue_own L rg now Result_set msg s = job_set_result L rg now msg s"
| "job_queue_own L rg now Result_get msg s = job_get_result L msg s"
| "job_queue_own L rg now Queue_manage msg s = job_manage L msg s"
| "job_queue_own L rg now Queue_status msg s = job_status L msg s"

definition job_queue_run ::
    "jlib \<Rightarrow> (nat \<Rightarrow> string) \<Rightarrow> int \<Rightarrow> job_queue_handler mod_handler \<Rightarrow> imsg \<Rightarrow> job_queue \<Rightarrow> job_queue outcome" where
  "job_queue_run L rg now = run_handler L job_queue_module (job_queue_own L rg now)"

section \<open>Invariant\<close>

text \<open>
  Every queue has its queue of workers, so no null pointer is followed; the queues respect their
  sizes; the queues of workers are never closed; jobs in progress are filed under their own
  identifier; what is filed as completed is completed; a handler waits at a queue that is there,
  unless it was removed.
\<close>

definition jq_inv :: "job_queue \<Rightarrow> bool" where
  "jq_inv s \<longleftrightarrow>
     (\<forall>n q. map_of (jq_queues s) n = Some q \<longrightarrow> queue_ok q \<and> map_of (jq_workers s) n \<noteq> None)
     \<and> (\<forall>n w. map_of (jq_workers s) n = Some w \<longrightarrow> queue_ok w \<and> \<not> q_closed w)
     \<and> (\<forall>i j. map_of (jq_in_progress s) i = Some j \<longrightarrow> j_id j = i)
     \<and> (\<forall>i j. map_of (jq_completed s) i = Some j \<longrightarrow> j_completed j \<and> i \<noteq> [])
     \<and> (\<forall>w \<in> set (jq_waiting s). ww_removed w \<or> map_of (jq_queues s) (ww_queue w) \<noteq> None)"

lemma jq_inv_new [simp]: "jq_inv job_queue_new"
  by (simp add: jq_inv_def job_queue_new_def)

lemma jq_inv_put_queue:
  "jq_inv s \<Longrightarrow> queue_ok q \<Longrightarrow> map_of (jq_workers s) n \<noteq> None \<Longrightarrow> jq_inv (put_queue n q s)"
  by (auto simp: jq_inv_def put_queue_def update_conv' split: if_splits)

lemma jq_inv_put_workers:
  "jq_inv s \<Longrightarrow> queue_ok w \<Longrightarrow> \<not> q_closed w \<Longrightarrow> jq_inv (put_workers n w s)"
  by (auto simp: jq_inv_def put_workers_def update_conv' split: if_splits)

lemma jq_inv_drawn [simp]: "jq_inv (s\<lparr>jq_drawn := n\<rparr>) = jq_inv s"
  by (simp add: jq_inv_def)

lemma jq_inv_jobs:
  "jq_inv s \<Longrightarrow> (\<And>i j. map_of m i = Some j \<Longrightarrow> j_id j = i) \<Longrightarrow> jq_inv (s\<lparr>jq_in_progress := m\<rparr>)"
  by (simp add: jq_inv_def)

lemma jq_inv_waiting:
  "jq_inv s \<Longrightarrow> \<forall>w \<in> set ws. ww_removed w \<or> map_of (jq_queues s) (ww_queue w) \<noteq> None \<Longrightarrow>
     jq_inv (s\<lparr>jq_waiting := ws\<rparr>)"
  by (simp add: jq_inv_def)

lemma jq_inv_fewer: "jq_inv s \<Longrightarrow> set ws \<subseteq> set (jq_waiting s) \<Longrightarrow> jq_inv (s\<lparr>jq_waiting := ws\<rparr>)"
  by (rule jq_inv_waiting) (auto simp: jq_inv_def)

lemma jq_inv_init_queue: "jq_inv s \<Longrightarrow> jq_inv (snd (init_queue name n s))"
  by (auto simp: jq_inv_def init_queue_def Let_def map_of_um_emplace um_count_def queue_new_def queue_ok_def)

lemma jq_inv_clear_all: "jq_inv s \<Longrightarrow> jq_inv (clear_all s)"
  by (auto simp: jq_inv_def clear_all_def map_of_map queue_ok_clear)

lemma jq_inv_switch_all: "jq_inv s \<Longrightarrow> jq_inv (switch_all b s)"
  by (auto simp: jq_inv_def switch_all_def map_of_map queue_ok_set_enabled)

lemma jq_inv_remove_all: "jq_inv s \<Longrightarrow> jq_inv (remove_all s)"
  using jq_inv_clear_all [OF jq_inv_switch_all [of s False]]
  by (simp add: remove_all_def mark_removed_def jq_inv_def)

lemma jq_inv_remove:
  assumes "jq_inv s"
  shows "jq_inv (mark_removed (\<lambda>n. n = name) (s\<lparr>jq_queues := AList.delete name (jq_queues s)\<rparr>))"
  using assms by (auto simp: jq_inv_def mark_removed_def map_of_delete)

lemma jq_inv_manage_queue:
  assumes "jq_inv s" "map_of (jq_queues s) name = Some q"
  shows "jq_inv (manage_queue L msg name q s)"
proof -
  have "queue_ok q" "map_of (jq_workers s) name \<noteq> None" using assms by (auto simp: jq_inv_def)
  then have "jq_inv (put_queue name q' s)" if "queue_ok q'" for q'
    using jq_inv_put_queue assms(1) that by blast
  with jq_inv_remove [OF assms(1)] show ?thesis
    using \<open>queue_ok q\<close>
    by (simp add: manage_queue_def Let_def queue_ok_set_enabled queue_ok_clear)
qed

text \<open>Handing over takes at most one worker off the queue, and never crashes or hangs.\<close>

lemma hand_over_open:
  assumes "\<not> q_closed w"
  shows "hand_over L j (queue_count w) w =
    (case q_items w of
       [] \<Rightarrow> (Kept, w)
     | wm # ws \<Rightarrow> (case task_reply L (im_id wm) j of Inr r \<Rightarrow> Passed r | Inl _ \<Rightarrow> Kept, w\<lparr>q_items := ws\<rparr>))"
  using assms by (cases "q_items w") (auto simp: queue_count_def queue_pop_def split: sum.split)

lemma queue_ok_tail: "queue_ok w \<Longrightarrow> q_items w = x # xs \<Longrightarrow> queue_ok (w\<lparr>q_items := xs\<rparr>)"
  by (simp add: queue_ok_def)

lemma submit_to_queue_state:
  "final_state t (submit_to_queue L msg n q j s) = put_queue n (fst (queue_push j q)) s"
  by (simp add: submit_to_queue_def Let_def case_prod_unfold final_state_answer split: sum.split)

lemma jq_inv_queueE:
  assumes "jq_inv s" "map_of (jq_queues s) n = Some q"
  obtains w where "map_of (jq_workers s) n = Some w" "queue_ok w" "\<not> q_closed w" "queue_ok q"
  using assms unfolding jq_inv_def by (metis not_None_eq)

lemma jq_inv_submit: "jq_inv s \<Longrightarrow> jq_inv (final_state s (job_submit L rg now msg s))"
proof -
  assume inv: "jq_inv s"
  let ?d = "get_string L ''module'' [] (im_doc msg)"
  obtain j n where jn: "job_of_message L rg now (im_doc msg) (jq_drawn s) = (j, n)" by force
  have kept: "jq_inv (put_queue ?d (fst (queue_push j q)) (put_workers ?d w' (s\<lparr>jq_drawn := n\<rparr>)))"
    if "map_of (jq_queues s) ?d = Some q" "queue_ok w'" "\<not> q_closed w'" for q w'
  proof (rule jq_inv_put_queue)
    show "jq_inv (put_workers ?d w' (s\<lparr>jq_drawn := n\<rparr>))" using inv that by (simp add: jq_inv_put_workers)
    show "queue_ok (fst (queue_push j q))" using inv that by (auto simp: jq_inv_def intro: queue_ok_push)
    show "map_of (jq_workers (put_workers ?d w' (s\<lparr>jq_drawn := n\<rparr>))) ?d \<noteq> None"
      by (simp add: put_workers_def update_conv')
  qed
  show ?thesis
  proof (cases "map_of (jq_queues s) ?d")
    case (Some q)
    with inv obtain w where w: "map_of (jq_workers s) ?d = Some w" "queue_ok w" "\<not> q_closed w"
      by (rule jq_inv_queueE)
    with inv Some kept [OF Some] jn show ?thesis
      by (auto simp: job_submit_def Let_def answer_same hand_over_open submit_to_queue_state queue_ok_tail
          jq_inv_put_workers split: list.split sum.split)
  qed (simp add: job_submit_def inv answer_same)
qed

lemma task_reply_job: "task_reply L i j = im_reply_job L i j Ok"
  by (simp add: task_reply_def im_reply_job_def)

lemma task_reply_no_crash: "task_reply L i j \<noteq> Inl UndefinedBehaviour"
  by (simp add: task_reply_job im_reply_job_no_crash)

lemma jq_inv_work_got: "jq_inv s \<Longrightarrow> jq_inv (final_state t (job_work_got L msg j s))"
  by (cases "task_reply L (im_id msg) j")
    (auto simp: job_work_got_def update_conv' jq_inv_def split: if_splits)

lemma jq_inv_work_park:
  assumes "jq_inv s" "map_of (jq_queues s) n = Some q"
  shows "jq_inv (final_state t (job_work_park msg n s))" "no_crash (job_work_park msg n s)"
proof -
  from assms obtain w where w: "map_of (jq_workers s) n = Some w" "queue_ok w" "\<not> q_closed w"
    by (rule jq_inv_queueE)
  have "jq_inv (put_workers n (fst (queue_push msg w)) s)"
    using assms(1) w by (intro jq_inv_put_workers) (auto intro: queue_ok_push simp: queue_push_def queue_ok_def)
  with w show "jq_inv (final_state t (job_work_park msg n s))" "no_crash (job_work_park msg n s)"
    by (simp_all add: job_work_park_def)
qed

lemma jq_inv_popped:
  assumes "jq_inv s" "map_of (jq_queues s) n = Some q" "queue_pop t q = (r, q')"
  shows "jq_inv (put_queue n q' s)"
proof -
  from assms(1,2) obtain w where "map_of (jq_workers s) n = Some w" "queue_ok q" by (rule jq_inv_queueE)
  with assms(1,3) queue_ok_pop [of q t] show ?thesis by (intro jq_inv_put_queue) auto
qed

lemma jq_inv_get_work: "jq_inv s \<Longrightarrow> jq_inv (final_state s (job_get_work L msg s))"
proof -
  assume inv: "jq_inv s"
  let ?n = "get_string L ''module'' [] (im_doc msg)"
  show ?thesis
  proof (cases "map_of (jq_queues s) ?n")
    case (Some q)
    have "jq_inv (s\<lparr>jq_waiting := jq_waiting s @ [\<lparr>ww_msg = msg, ww_queue = ?n, ww_removed = False\<rparr>]\<rparr>)"
      using inv Some by (intro jq_inv_waiting) (auto simp: jq_inv_def)
    with Some inv jq_inv_work_got [OF jq_inv_popped [OF inv Some]] jq_inv_work_park(1) [OF inv Some] show ?thesis
      by (auto simp: job_get_work_def Let_def split: popped.split prod.split)
  qed (simp add: job_get_work_def inv answer_same)
qed

text \<open>A handler that wakes up at a queue that is still there.\<close>

lemma wake_worker:
  assumes "jq_inv s" "i < length (jq_waiting s)" "\<not> ww_removed (jq_waiting s ! i)"
  shows "jq_inv (final_state s (job_wake_worker L i s))" "no_crash (job_wake_worker L i s)"
proof -
  let ?w = "jq_waiting s ! i"
  let ?s1 = "s\<lparr>jq_waiting := take i (jq_waiting s) @ drop (Suc i) (jq_waiting s)\<rparr>"
  have inv: "jq_inv ?s1" using assms(1) by (rule jq_inv_fewer) (auto dest: in_set_takeD in_set_dropD)
  have "?w \<in> set (jq_waiting s)" using assms(2) by simp
  with assms(1,3) obtain q where q: "map_of (jq_queues s) (ww_queue ?w) = Some q"
    unfolding jq_inv_def by blast
  then have q1: "map_of (jq_queues ?s1) (ww_queue ?w) = Some q" by simp
  show "jq_inv (final_state s (job_wake_worker L i s))"
    using assms(1,3) q jq_inv_work_got [OF jq_inv_popped [OF inv q1]] jq_inv_work_park(1) [OF inv q1]
    by (auto simp: job_wake_worker_def Let_def split: popped.split prod.split)
  show "no_crash (job_wake_worker L i s)"
    using assms(3) q jq_inv_work_park(2) [OF inv q1]
    by (auto simp: job_wake_worker_def Let_def job_work_got_def no_crash_answer task_reply_no_crash
        split: popped.split prod.split)
qed

lemma job_set_progress_id [simp]: "j_id (job_set_progress p j) = j_id j"
  by (simp add: job_set_progress_def)

text \<open>What \<open>manage\<close> does before it looks at a single queue.\<close>

definition manage_all :: "jlib \<Rightarrow> json \<Rightarrow> job_queue \<Rightarrow> job_queue" where
  "manage_all L d s =
     (let s1 = (if get_bool L ''clear_all'' False d then clear_all s else s);
          s2 = (if get_bool L ''remove_all'' False d then remove_all s1 else s1)
      in if \<not> message_is_null ''switch_all'' d then switch_all (get_bool L ''switch_all'' True d) s2 else s2)"

definition manages_all :: "jlib \<Rightarrow> json \<Rightarrow> bool" where
  "manages_all L d \<longleftrightarrow> get_bool L ''clear_all'' False d \<or> get_bool L ''remove_all'' False d
     \<or> \<not> message_is_null ''switch_all'' d"

lemma job_manage_eq:
  "job_manage L msg s =
     (let d = im_doc msg; s3 = manage_all L d s; name = get_string L ''queue'' [] d
      in if name \<noteq> [] \<and> \<not> message_is_null ''create'' d then
           let (created, s4) = init_queue name (size_of_int (get_int L ''create.size'' 0 d)) s3
           in if created then
                answer (rbind (message_clear d) (\<lambda>d'. im_reply L (msg\<lparr>im_doc := d'\<rparr>))) s4 s4
              else answer (im_fail L msg ''Failed to create queue. Already exists?'') s4 s4
         else case map_of (jq_queues s3) name of
             Some q \<Rightarrow> (let s4 = manage_queue L msg name q s3 in answer (im_reply L msg) s4 s4)
           | None \<Rightarrow> if manages_all L d then Done s3 [] else answer (im_fail_code L msg Null_value []) s3 s3)"
  by (simp add: job_manage_def manage_all_def manages_all_def Let_def)

lemma jq_inv_manage_all: "jq_inv s \<Longrightarrow> jq_inv (manage_all L d s)"
  by (simp add: manage_all_def Let_def jq_inv_switch_all jq_inv_remove_all jq_inv_clear_all)

lemma jq_inv_manage:
  assumes "jq_inv s"
  shows "jq_inv (final_state s (job_manage L msg s))"
proof -
  let ?s = "manage_all L (im_doc msg) s" and ?n = "get_string L ''queue'' [] (im_doc msg)"
  have inv: "jq_inv ?s" by (rule jq_inv_manage_all [OF assms])
  show ?thesis
  proof (cases "?n \<noteq> [] \<and> \<not> message_is_null ''create'' (im_doc msg)")
    case True
    with jq_inv_init_queue [OF inv] show ?thesis
      by (simp add: job_manage_eq Let_def case_prod_unfold answer_same)
  next
    case False
    show ?thesis
    proof (cases "map_of (jq_queues ?s) ?n")
      case None
      with False inv show ?thesis by (auto simp: job_manage_eq Let_def answer_same)
    next
      case (Some q)
      with False jq_inv_manage_queue [OF inv Some] show ?thesis
        by (auto simp: job_manage_eq Let_def answer_same)
    qed
  qed
qed

lemma jq_inv_handler:
  assumes inv: "jq_inv s"
  shows "jq_inv (final_state s (job_queue_run L rg now h msg s))"
proof (cases h)
  case (Own f)
  have "jq_inv (final_state s (job_queue_own L rg now f msg s))"
  proof (cases f)
    case Progress_set
    with inv show ?thesis
      by (auto simp: job_set_progress_request_def Let_def jq_inv_def update_conv' split: option.split)
  next
    case Result_set
    with inv show ?thesis
      by (auto simp: job_set_result_def Let_def answer_same case_prod_unfold)
        (auto simp: jq_inv_def update_conv' map_of_delete job_set_progress_def split: if_splits)
  next
    case Result_get
    with inv show ?thesis
      by (auto simp: job_get_result_def Let_def answer_same final_state_answer jq_inv_def map_of_delete
          split: sum.split option.split if_splits)
  next
    case Queue_manage
    with jq_inv_manage [OF inv] show ?thesis by simp
  next
    case Queue_status
    with inv show ?thesis by (simp add: job_status_def answer_same)
  qed (use inv jq_inv_submit jq_inv_get_work in simp_all)
  with Own show ?thesis by (simp add: job_queue_run_def run_handler_def)
qed (use inv in \<open>simp_all add: job_queue_run_def run_handler_def answer_same\<close>)

text \<open>
  What happens to the service: a request, handled up to its end or to the point where it waits, or the
  wake-up of a handler that waits (of the \<open>i\<close>-th of them). A run ends at undefined behaviour.
\<close>

datatype job_queue_event = Request int "job_queue_handler mod_handler" imsg | Wake nat

fun job_queue_react :: "jlib \<Rightarrow> (nat \<Rightarrow> string) \<Rightarrow> job_queue_event \<Rightarrow> job_queue \<Rightarrow> job_queue outcome" where
  "job_queue_react L rg (Request now h msg) s = job_queue_run L rg now h msg s"
| "job_queue_react L rg (Wake i) s =
     (if i < length (jq_waiting s) then job_wake_worker L i s else Done s [])"

definition reachable_job_queue :: "jlib \<Rightarrow> (nat \<Rightarrow> string) \<Rightarrow> job_queue_event list \<Rightarrow> job_queue option" where
  "reachable_job_queue L rg es = alive_run (job_queue_react L rg) es job_queue_new"

lemma job_queue_react_inv:
  assumes "jq_inv s" "no_crash (job_queue_react L rg e s)"
  shows "jq_inv (final_state s (job_queue_react L rg e s))"
proof (cases e)
  case (Wake i)
  then show ?thesis
    using assms wake_worker(1) [OF assms(1)]
    by (cases "ww_removed (jq_waiting s ! i)") (auto simp: job_wake_worker_def Let_def)
qed (simp add: assms jq_inv_handler)

interpretation jq: mortal_system "job_queue_react L rg" jq_inv for L rg
  by unfold_locales (rule job_queue_react_inv)

lemma reachable_job_queue_inv: "reachable_job_queue L rg es = Some s \<Longrightarrow> jq_inv s"
  unfolding reachable_job_queue_def by (rule jq.run_inv [OF _ jq_inv_new])

section \<open>Requests that cannot crash the server\<close>

lemma queue_path: "split (''queues.'' @ n) ''.'' = ''queues'' # split n ''.''"
  using split_dotted [of "''queues''" n] by (simp add: plain_key_def)

lemma status_keys_split: "k \<in> set (keys (job_status_entries s)) \<Longrightarrow> split k ''.'' \<noteq> []"
  unfolding split_eq_Nil by (auto simp: job_status_entries_def queue_entries_def Let_def)

lemma job_queue_routes_split:
  "k \<in> set (keys (listing job_queue_module)) \<Longrightarrow> split k ''.'' \<noteq> []"
proof -
  have "plain_routes (md_routes job_queue_module)"
    by (simp add: job_queue_module_def builtin_new_routes module_new_def plain_routes_def plain_key_def)
  from report_listing [OF this] show "k \<in> set (keys (listing job_queue_module)) \<Longrightarrow> split k ''.'' \<noteq> []"
    unfolding report_keys_def by blast
qed

lemma request_no_crash:
  assumes inv: "jq_inv s"
  shows "no_crash (job_queue_run L rg now h msg s)"
proof (cases h)
  case (Own f)
  have "no_crash (job_queue_own L rg now f msg s)"
  proof (cases f)
    case Job_submit
    show ?thesis
    proof (cases "map_of (jq_queues s) (get_string L ''module'' [] (im_doc msg))")
      case (Some q)
      with inv obtain w where w: "map_of (jq_workers s) (get_string L ''module'' [] (im_doc msg)) = Some w"
        "\<not> q_closed w" by (rule jq_inv_queueE)
      have "no_crash (submit_to_queue L msg n q j s)" for n j s
        by (simp add: submit_to_queue_def case_prod_unfold Let_def no_crash_answer answers_no_crash
            rbind_no_crash clear_no_crash set_meta_def put_member_no_crash im_reply_msg_no_crash)
      with Job_submit Some w show ?thesis
        by (auto simp: job_submit_def Let_def case_prod_unfold no_crash_answer answers_no_crash
            hand_over_open split: list.split sum.split)
    qed (simp add: Job_submit job_submit_def no_crash_answer answers_no_crash)
  next
    case Work_get
    show ?thesis
    proof (cases "map_of (jq_queues s) (get_string L ''module'' [] (im_doc msg))")
      case (Some q)
      with Work_get jq_inv_work_park(2) [OF inv Some] show ?thesis
        by (auto simp: job_get_work_def Let_def job_work_got_def no_crash_answer task_reply_no_crash
            split: prod.split popped.split)
    qed (simp add: Work_get job_get_work_def no_crash_answer answers_no_crash)
  next
    case Result_get
    then show ?thesis using clear_no_crash [of "im_doc msg"]
      by (auto simp: job_get_result_def Let_def no_crash_answer answers_no_crash im_reply_job_no_crash
          split: sum.split option.split)
  next
    case Queue_manage
    then show ?thesis
      by (auto simp: job_manage_eq Let_def case_prod_unfold no_crash_answer answers_no_crash rbind_no_crash
          clear_no_crash split: option.split)
  next
    case Queue_status
    then show ?thesis using status_keys_split
      by (simp add: job_status_def no_crash_answer rbind_no_crash clear_no_crash set_all_no_crash
          im_reply_msg_no_crash)
  qed (simp_all add: job_set_progress_request_def job_set_result_def Let_def case_prod_unfold
      no_crash_answer answers_no_crash rbind_no_crash clear_no_crash split: option.split)
  with Own show ?thesis by (simp add: job_queue_run_def run_handler_def)
qed (simp_all add: job_queue_run_def run_handler_def no_crash_answer is_alive_def answers_no_crash
    list_routes_no_crash job_queue_routes_split)

text \<open>
  The requests that add a queue or take one away, and runs in which they come only while no handler
  waits. (A queue that is added may make the map rehash, which invalidates the iterators of the
  waiting handlers as well; the model leaves that out, and the property below excludes it.)
\<close>

fun changes_queues :: "jlib \<Rightarrow> job_queue_event \<Rightarrow> bool" where
  "changes_queues L (Request now (Own Queue_manage) msg) =
     (get_bool L ''remove_all'' False (im_doc msg)
      \<or> \<not> message_is_null ''remove'' (im_doc msg) \<and> get_bool L ''remove'' False (im_doc msg)
      \<or> \<not> message_is_null ''create'' (im_doc msg))"
| "changes_queues L _ = False"

fun undisturbed :: "jlib \<Rightarrow> (nat \<Rightarrow> string) \<Rightarrow> job_queue_event list \<Rightarrow> job_queue \<Rightarrow> bool" where
  "undisturbed L rg [] s = True"
| "undisturbed L rg (e # es) s =
     ((changes_queues L e \<longrightarrow> jq_waiting s = [])
      \<and> (case alive_step (job_queue_react L rg) e s of None \<Rightarrow> True | Some s' \<Rightarrow> undisturbed L rg es s'))"

definition none_removed :: "job_queue \<Rightarrow> bool" where
  "none_removed s \<longleftrightarrow> (\<forall>w \<in> set (jq_waiting s). \<not> ww_removed w)"

lemma put_waiting [simp]:
  "jq_waiting (put_queue n q s) = jq_waiting s" "jq_waiting (put_workers n w s) = jq_waiting s"
  by (simp_all add: put_queue_def put_workers_def)

lemma answer_same_waiting:
  "jq_waiting s = jq_waiting s' \<Longrightarrow> jq_waiting (final_state t (answer r s s')) = jq_waiting s"
  by (simp add: final_state_answer split: sum.split)

lemma work_waiting:
  "jq_waiting (final_state t (job_work_got L msg j s)) = jq_waiting s"
  "no_crash (job_work_park msg n s) \<Longrightarrow> jq_waiting (final_state t (job_work_park msg n s)) = jq_waiting s"
  by (simp_all add: job_work_got_def answer_same_waiting job_work_park_def split: option.split)

lemma submit_waiting: "jq_waiting (final_state s (job_submit L rg now msg s)) = jq_waiting s"
  by (auto simp: job_submit_def Let_def answer_same case_prod_unfold submit_to_queue_state
      split: option.split handed.split)

lemma manage_waiting:
  "jq_waiting (manage_all L d s) = (if get_bool L ''remove_all'' False d then jq_waiting (remove_all s) else jq_waiting s)"
  by (simp add: manage_all_def Let_def clear_all_def switch_all_def remove_all_def mark_removed_def)

lemma manage_none_removed:
  assumes "none_removed s" "changes_queues L (Request now (Own Queue_manage) msg) \<longrightarrow> jq_waiting s = []"
  shows "none_removed (final_state s (job_manage L msg s))"
proof -
  let ?s = "manage_all L (im_doc msg) s"
  have all: "none_removed ?s"
    using assms by (auto simp: none_removed_def manage_waiting remove_all_def mark_removed_def clear_all_def switch_all_def)
  have "none_removed (snd (init_queue n k ?s))" for n k
    using all by (simp add: none_removed_def init_queue_def Let_def)
  moreover have "none_removed (manage_queue L msg n q ?s)" for n q
    using all assms(2)
    by (auto simp: none_removed_def manage_queue_def Let_def mark_removed_def manage_waiting remove_all_def
        clear_all_def switch_all_def)
  ultimately show ?thesis
    using all by (simp add: job_manage_eq Let_def case_prod_unfold answer_same split: option.split)
qed

lemma react_none_removed:
  assumes inv: "jq_inv s" "none_removed s" and e: "changes_queues L e \<longrightarrow> jq_waiting s = []"
  shows "no_crash (job_queue_react L rg e s) \<and> none_removed (final_state s (job_queue_react L rg e s))"
proof (cases e)
  case (Wake i)
  show ?thesis
  proof (cases "i < length (jq_waiting s)")
    case True
    then have "jq_waiting s ! i \<in> set (jq_waiting s)" by simp
    with inv(2) have r: "\<not> ww_removed (jq_waiting s ! i)" unfolding none_removed_def by blast
    have "set (jq_waiting (final_state s (job_wake_worker L i s))) \<subseteq> set (jq_waiting s)"
      using wake_worker(2) [OF inv(1) True r, of L]
      by (auto simp: job_wake_worker_def Let_def work_waiting split: option.splits popped.splits prod.splits
          dest: in_set_takeD in_set_dropD)
    then show ?thesis
      using Wake True inv(2) wake_worker(2) [OF inv(1) True r, of L]
      unfolding none_removed_def by auto
  qed (use Wake inv(2) in simp)
next
  case (Request now h msg)
  have same: "none_removed s'" if "jq_waiting s' = jq_waiting s" for s'
    using that inv(2) by (simp add: none_removed_def)
  have "none_removed (final_state s (job_queue_run L rg now h msg s))"
  proof (cases h)
    case (Own f)
    have "none_removed (final_state s (job_queue_own L rg now f msg s))"
    proof (cases f)
      case Work_get
      have "none_removed (s\<lparr>jq_waiting := jq_waiting s @ [\<lparr>ww_msg = msg, ww_queue = n, ww_removed = False\<rparr>]\<rparr>)" for n
        using inv(2) by (auto simp: none_removed_def)
      moreover have "none_removed (final_state t (job_work_park msg n s))"
        if "map_of (jq_queues s) n = Some q" for t n q
        using jq_inv_work_park(2) [OF inv(1) that] by (intro same work_waiting(2))
      ultimately show ?thesis
        using Work_get inv(2)
        by (auto simp: job_get_work_def Let_def answer_same work_waiting intro: same
            split: option.split popped.split prod.split)
    next
      case Queue_manage
      with manage_none_removed [OF inv(2)] e Request Own show ?thesis by simp
    qed (use inv(2) in \<open>auto intro!: same simp: submit_waiting job_set_progress_request_def job_set_result_def
          job_get_result_def job_status_def Let_def answer_same case_prod_unfold final_state_answer
          split: option.split sum.split\<close>)
    with Own show ?thesis by (simp add: job_queue_run_def run_handler_def)
  qed (use inv(2) in \<open>simp_all add: job_queue_run_def run_handler_def answer_same\<close>)
  with Request request_no_crash [OF inv(1)] show ?thesis by simp
qed

text \<open>
  C9. No request and no wake-up of a waiting worker crashes the job queue service, whatever requests come
  and whatever their documents are, as long as queues are created and removed only while no
  \<open>get_work\<close> waits for a job: the run comes to its end, and no handler on the way follows a null
  pointer or an invalid iterator; at worst an exception of the JSON library leaves it. Requests are
  handled one at a time here, each up to its end or to the point where it waits.
\<close>

theorem job_queue_no_crash:
  assumes "undisturbed L rg es job_queue_new"
  shows "\<exists>s. reachable_job_queue L rg es = Some s
    \<and> (\<forall>w \<in> set (jq_waiting s). map_of (jq_queues s) (ww_queue w) \<noteq> None)"
proof -
  have "\<exists>t. alive_run (job_queue_react L rg) es s = Some t \<and> jq_inv t \<and> none_removed t"
    if "undisturbed L rg es s" "jq_inv s" "none_removed s" for s
    using that
  proof (induction es arbitrary: s)
    case (Cons e es)
    from Cons.prems have e: "changes_queues L e \<longrightarrow> jq_waiting s = []" by simp
    note step = react_none_removed [OF Cons.prems(2,3) e, of rg]
    moreover have "jq_inv (final_state s (job_queue_react L rg e s))"
      using job_queue_react_inv [OF Cons.prems(2)] step by blast
    ultimately show ?case using Cons.IH [of "final_state s (job_queue_react L rg e s)"] Cons.prems(1)
      by (simp add: alive_step_def)
  qed simp
  moreover have "none_removed job_queue_new" by (simp add: none_removed_def job_queue_new_def)
  ultimately obtain t where "reachable_job_queue L rg es = Some t" "jq_inv t" "none_removed t"
    using assms by (force simp: reachable_job_queue_def)
  then show ?thesis unfolding jq_inv_def none_removed_def by blast
qed

section \<open>Submitting and getting work\<close>

definition pending :: "string \<Rightarrow> job_queue \<Rightarrow> job list" where
  "pending n s = (case map_of (jq_queues s) n of Some q \<Rightarrow> q_items q | None \<Rightarrow> [])"

definition open_queue :: "string \<Rightarrow> job_queue \<Rightarrow> bool" where
  "open_queue n s = (case map_of (jq_queues s) n of Some q \<Rightarrow> \<not> queue_is_closed q | None \<Rightarrow> False)"

definition parked :: "string \<Rightarrow> job_queue \<Rightarrow> imsg list" where
  "parked n s = (case map_of (jq_workers s) n of Some w \<Rightarrow> q_items w | None \<Rightarrow> [])"

definition has_room :: "string \<Rightarrow> job_queue \<Rightarrow> bool" where
  "has_room n s = (case map_of (jq_queues s) n of Some q \<Rightarrow> queue_count q < q_size q | None \<Rightarrow> False)"

definition good_submission :: "jlib \<Rightarrow> string \<Rightarrow> imsg \<Rightarrow> bool" where
  "good_submission L n msg \<longleftrightarrow> get_string L ''module'' [] (im_doc msg) = n \<and> n \<noteq> []
     \<and> get_string L ''action'' [] (im_doc msg) \<noteq> [] \<and> message_exists ''parameters'' (im_doc msg)
     \<and> passable (im_doc msg)"

definition submitted_job :: "jlib \<Rightarrow> (nat \<Rightarrow> string) \<Rightarrow> int \<Rightarrow> imsg \<Rightarrow> job_queue \<Rightarrow> job" where
  "submitted_job L rg now msg s = fst (job_of_message L rg now (im_doc msg) (jq_drawn s))"

lemma open_queueE:
  assumes "jq_inv s" "open_queue n s"
  obtains q w where "map_of (jq_queues s) n = Some q" "\<not> q_closed q" "pending n s = q_items q"
    "map_of (jq_workers s) n = Some w" "\<not> q_closed w" "parked n s = q_items w" "queue_ok q"
proof -
  from assms(2) obtain q where q: "map_of (jq_queues s) n = Some q" "\<not> q_closed q"
    by (auto simp: open_queue_def queue_is_closed_def split: option.splits)
  with assms(1) obtain w where "map_of (jq_workers s) n = Some w" "\<not> q_closed w" "queue_ok q"
    using jq_inv_queueE by metis
  with q that show thesis by (simp add: pending_def parked_def)
qed

lemma job_id_reply:
  assumes "passable d"
  shows "\<exists>d'. rbind (message_clear d) (\<lambda>d. rbind (set_meta ''job_id'' (JString i) d)
      (\<lambda>d'. im_reply_msg L k d' Ok)) = Inr (Reply k (jl_write L d'))
    \<and> message_find ''@job_id'' d' = Some (JString i)
    \<and> message_find ''@status_code'' d' = Some (JInt (code_of Ok))"
  using clear_passable [OF assms]
  by (auto simp: message_clear_def set_meta_def meta_key_def im_reply_msg_object message_find_plain
      plain_key_def less_char_def)

lemma submit_kept:
  assumes "jq_inv s" "open_queue n s" "parked n s = []" "good_submission L n msg"
  obtains q w where "map_of (jq_queues s) n = Some q" "\<not> q_closed q" "pending n s = q_items q"
    "map_of (jq_workers s) n = Some w" "q_items w = []"
    "job_submit L rg now msg s = submit_to_queue L msg n q (submitted_job L rg now msg s)
       (put_workers n w (s\<lparr>jq_drawn := snd (job_of_message L rg now (im_doc msg) (jq_drawn s))\<rparr>))"
proof -
  from assms(1,2) obtain q w where qw: "map_of (jq_queues s) n = Some q" "\<not> q_closed q"
    "pending n s = q_items q" "map_of (jq_workers s) n = Some w" "\<not> q_closed w" "parked n s = q_items w"
    by (rule open_queueE)
  then have "hand_over L j (queue_count w) w = (Kept, w)" for j
    using assms(3) by (simp add: hand_over_open)
  with qw assms(4) have "job_submit L rg now msg s = submit_to_queue L msg n q (submitted_job L rg now msg s)
       (put_workers n w (s\<lparr>jq_drawn := snd (job_of_message L rg now (im_doc msg) (jq_drawn s))\<rparr>))"
    by (auto simp: job_submit_def Let_def good_submission_def submitted_job_def queue_is_closed_def case_prod_unfold)
  with qw assms(3) that show thesis by simp
qed

text \<open>What a submission with room leaves.\<close>

lemma submit_room:
  assumes "jq_inv s" "open_queue n s" "parked n s = []" "good_submission L n msg" "has_room n s"
  obtains s' d where "job_submit L rg now msg s = Done s' [Reply (im_id msg) (jl_write L d)]"
    "message_find ''@job_id'' d = Some (JString (j_id (submitted_job L rg now msg s)))"
    "message_find ''@status_code'' d = Some (JInt (code_of Ok))"
    "pending n s' = pending n s @ [submitted_job L rg now msg s]" "open_queue n s'" "parked n s' = []"
    "map_option q_size (map_of (jq_queues s') n) = map_option q_size (map_of (jq_queues s) n)"
    "jq_drawn s' = snd (job_of_message L rg now (im_doc msg) (jq_drawn s))" "jq_waiting s' = jq_waiting s"
    "jq_in_progress s' = jq_in_progress s" "jq_completed s' = jq_completed s"
proof -
  let ?j = "submitted_job L rg now msg s"
  from assms(1-4) obtain q w where q: "map_of (jq_queues s) n = Some q" "\<not> q_closed q" "pending n s = q_items q"
    and w: "map_of (jq_workers s) n = Some w" "q_items w = []"
    and eq: "job_submit L rg now msg s = submit_to_queue L msg n q ?j
      (put_workers n w (s\<lparr>jq_drawn := snd (job_of_message L rg now (im_doc msg) (jq_drawn s))\<rparr>))"
    by (rule submit_kept)
  have "0 < q_size q" using assms(1) q(1) by (auto simp: jq_inv_def queue_ok_def)
  with assms(5) q have "queue_push ?j q = (q\<lparr>q_items := q_items q @ [?j]\<rparr>, True)"
    by (simp add: queue_push_def has_room_def queue_count_def)
  moreover from assms(4) obtain d where
    "rbind (message_clear (im_doc msg)) (\<lambda>d. rbind (set_meta ''job_id'' (JString (j_id ?j)) d)
      (\<lambda>d'. im_reply_msg L (im_id msg) d' Ok)) = Inr (Reply (im_id msg) (jl_write L d))"
    "message_find ''@job_id'' d = Some (JString (j_id ?j))"
    "message_find ''@status_code'' d = Some (JInt (code_of Ok))"
    using job_id_reply [of "im_doc msg" "j_id ?j" L "im_id msg"] by (auto simp: good_submission_def)
  ultimately show thesis
    using q w eq that
    by (simp add: submit_to_queue_def pending_def parked_def open_queue_def queue_is_closed_def put_queue_def
        put_workers_def update_conv')
qed

text \<open>
  Submitting to an open queue with no parked worker: with room the job, built from the
  request, is appended to the queue and the submitter gets its identifier with status ok; a full
  queue answers \<open>temp_limit_reached\<close> and keeps its contents. Exactly one answer is sent.
\<close>

theorem submit_appends:
  assumes "reachable_job_queue L rg es = Some s" and "open_queue n s" and "parked n s = []"
    and "good_submission L n msg"
  shows "\<exists>s' d. job_queue_run L rg now (Own Job_submit) msg s = Done s' [Reply (im_id msg) (jl_write L d)]
    \<and> (if has_room n s
       then pending n s' = pending n s @ [submitted_job L rg now msg s]
          \<and> message_find ''@job_id'' d = Some (JString (j_id (submitted_job L rg now msg s)))
          \<and> message_find ''@status_code'' d = Some (JInt (code_of Ok))
       else pending n s' = pending n s \<and> d = status_doc Temp_limit_reached ''Queue full'')"
proof -
  let ?j = "submitted_job L rg now msg s"
  have inv: "jq_inv s" using assms(1) by (rule reachable_job_queue_inv)
  show ?thesis
  proof (cases "has_room n s")
    case True
    obtain s' d where "job_submit L rg now msg s = Done s' [Reply (im_id msg) (jl_write L d)]"
      "message_find ''@job_id'' d = Some (JString (j_id ?j))"
      "message_find ''@status_code'' d = Some (JInt (code_of Ok))" "pending n s' = pending n s @ [?j]"
      by (rule submit_room [OF inv assms(2-4) True])
    then show ?thesis by (auto simp: True job_queue_run_def run_handler_def)
  next
    case False
    from inv assms(2-4) obtain q w where q: "map_of (jq_queues s) n = Some q" "\<not> q_closed q" "pending n s = q_items q"
      and eq: "job_submit L rg now msg s = submit_to_queue L msg n q ?j
        (put_workers n w (s\<lparr>jq_drawn := snd (job_of_message L rg now (im_doc msg) (jq_drawn s))\<rparr>))"
      by (rule submit_kept)
    have pass: "passable (im_doc msg)" using assms(4) by (simp add: good_submission_def)
    have pend: "pending n (put_queue n q' s') = q_items q'" for q' s'
      by (simp add: pending_def put_queue_def update_conv')
    have "queue_push ?j q = (q, False)"
      using False q by (auto simp: queue_push_def has_room_def queue_count_def)
    with eq False q(3) pass show ?thesis
      by (auto simp: submit_to_queue_def job_queue_run_def run_handler_def pend im_fail_code_eq)
  qed
qed

text \<open>A request that submits to the queue \<open>q\<close>, and a service that has this queue only.\<close>

definition sample_request :: "nat \<Rightarrow> imsg" where
  "sample_request i = \<lparr>im_id = i, im_doc = JObject [(''@api_key'', JString ''key''), (''@job_id'', JString ''job''),
     (''action'', JString ''run''), (''module'', JString ''q''), (''parameters'', JNull)]\<rparr>"

definition sample_create :: imsg where
  "sample_create = \<lparr>im_id = 0, im_doc = JObject [(''create'', JBool True), (''queue'', JString ''q'')]\<rparr>"

lemma sample_finds [simp]:
  "message_find ''@api_key'' (im_doc (sample_request i)) = Some (JString ''key'')"
  "message_find ''@job_id'' (im_doc (sample_request i)) = Some (JString ''job'')"
  "message_find ''action'' (im_doc (sample_request i)) = Some (JString ''run'')"
  "message_find ''module'' (im_doc (sample_request i)) = Some (JString ''q'')"
  "message_find ''parameters'' (im_doc (sample_request i)) = Some JNull"
  "message_find ''progress'' (im_doc (sample_request i)) = None"
  "message_find ''@origin_node'' (im_doc (sample_request i)) = None"
  "message_find ''ctime'' (im_doc (sample_request i)) = None"
  "message_find ''completed'' (im_doc (sample_request i)) = None"
  "im_id (sample_request i) = i" "passable (im_doc (sample_request i))"
  "message_find ''queue'' (im_doc sample_create) = Some (JString ''q'')"
  "message_find ''create'' (im_doc sample_create) = Some (JBool True)"
  "message_find ''clear_all'' (im_doc sample_create) = None"
  "message_find ''remove_all'' (im_doc sample_create) = None"
  "message_find ''switch_all'' (im_doc sample_create) = None"
  "message_find ''create.size'' (im_doc sample_create) = None"
  using split_dotted [of "''create''" "''size''"]
  by (simp_all add: sample_request_def sample_create_def message_find_plain plain_key_def passable_def
      message_find_object split_plain)

definition sample_idle :: job_queue where
  "sample_idle = job_queue_new\<lparr>jq_queues := [(''q'', queue_new 50)], jq_workers := [(''q'', queue_new 50)]\<rparr>"

lemma sample_service: "reachable_job_queue ref_lib rg [Request 0 (Own Queue_manage) sample_create] = Some sample_idle"
  by (simp add: reachable_job_queue_def alive_step_def job_queue_run_def run_handler_def job_manage_def sample_idle_def
      Let_def get_bool_def get_string_def get_int_def get_as_def message_is_null_def answer_same no_crash_answer
      init_queue_def um_count_def um_emplace_def job_queue_new_def size_of_int_def rbind_no_crash clear_no_crash
      answers_no_crash)

lemma sample_idle_facts:
  "open_queue ''q'' sample_idle" "pending ''q'' sample_idle = []" "parked ''q'' sample_idle = []"
  "has_room ''q'' sample_idle" "jq_waiting sample_idle = []"
  "map_of (jq_queues sample_idle) ''q'' = Some (queue_new 50)"
  by (simp_all add: sample_idle_def open_queue_def queue_is_closed_def queue_new_def pending_def parked_def has_room_def
      queue_count_def job_queue_new_def)

lemma sample_submission: "good_submission ref_lib ''q'' (sample_request i)"
  by (simp add: good_submission_def get_string_def get_as_def message_exists_def)

theorem job_queue_no_crash_witness:
  "\<exists>s. reachable_job_queue ref_lib (\<lambda>_. ''id'') [Request 0 (Own Queue_manage) sample_create,
      Request 5 (Own Work_get) (sample_request 3), Request 6 (Own Job_submit) (sample_request 4), Wake 0] = Some s
    \<and> (\<forall>w \<in> set (jq_waiting s). map_of (jq_queues s) (ww_queue w) \<noteq> None)"
  by (rule job_queue_no_crash) (auto simp: job_queue_new_def split: option.split)

theorem submit_appends_witness:
  "\<exists>s' d. job_queue_run ref_lib (\<lambda>_. ''id'') 9 (Own Job_submit) (sample_request 4) sample_idle
      = Done s' [Reply 4 (jl_write ref_lib d)]
    \<and> message_find ''@status_code'' d = Some (JInt 0)"
  using submit_appends [OF sample_service sample_idle_facts(1,3) sample_submission, of "\<lambda>_. ''id''" 9 4]
  by (auto simp: sample_idle_facts)

text \<open>\<open>get_work\<close> on an existing queue, in each of the states the queue can be in.\<close>

definition work_from :: "jlib \<Rightarrow> string \<Rightarrow> imsg \<Rightarrow> bool" where
  "work_from L n msg \<longleftrightarrow> get_string L ''module'' [] (im_doc msg) = n"

lemma get_work_open:
  assumes "jq_inv s" "open_queue n s" "work_from L n msg"
  shows "pending n s = [] \<Longrightarrow> job_get_work L msg s
      = Blocked (s\<lparr>jq_waiting := jq_waiting s @ [\<lparr>ww_msg = msg, ww_queue = n, ww_removed = False\<rparr>]\<rparr>)"
    and "pending n s = j # js \<Longrightarrow> jlib_ok L \<Longrightarrow> reads_as L j v \<Longrightarrow>
      \<exists>s'. job_get_work L msg s = Done s' [Reply (im_id msg) (jl_write L (job_reply_doc_as v j Ok))]
        \<and> pending n s' = js \<and> open_queue n s' \<and> jq_waiting s' = jq_waiting s
        \<and> jq_in_progress s' = AList.update (j_id j) j (jq_in_progress s)"
proof -
  from assms(1,2) obtain q w where q: "map_of (jq_queues s) n = Some q" "\<not> q_closed q"
    "pending n s = q_items q" by (rule open_queueE)
  have n: "get_string L ''module'' [] (im_doc msg) = n" using assms(3) by (simp add: work_from_def)
  show "pending n s = [] \<Longrightarrow> job_get_work L msg s
      = Blocked (s\<lparr>jq_waiting := jq_waiting s @ [\<lparr>ww_msg = msg, ww_queue = n, ww_removed = False\<rparr>]\<rparr>)"
    using q n by (simp add: job_get_work_def queue_pop_def)
  assume a: "pending n s = j # js" "jlib_ok L" "reads_as L j v"
  then have "task_reply L (im_id msg) j = Inr (Reply (im_id msg) (jl_write L (job_reply_doc_as v j Ok)))"
    by (simp add: task_reply_job im_reply_job_as)
  with q n a(1) show "\<exists>s'. job_get_work L msg s = Done s' [Reply (im_id msg) (jl_write L (job_reply_doc_as v j Ok))]
      \<and> pending n s' = js \<and> open_queue n s' \<and> jq_waiting s' = jq_waiting s
      \<and> jq_in_progress s' = AList.update (j_id j) j (jq_in_progress s)"
    by (simp add: job_get_work_def job_work_got_def queue_pop_def Let_def pending_def open_queue_def put_queue_def
        update_conv' queue_is_closed_def)
qed

text \<open>The jobs a list of submissions stands for, with the times of their handling.\<close>

fun submitted_jobs :: "jlib \<Rightarrow> (nat \<Rightarrow> string) \<Rightarrow> (int \<times> imsg) list \<Rightarrow> nat \<Rightarrow> job list" where
  "submitted_jobs L rg [] k = []"
| "submitted_jobs L rg ((now, msg) # ms) k =
     (let (j, k') = job_of_message L rg now (im_doc msg) k in j # submitted_jobs L rg ms k')"

abbreviation submits :: "jlib \<Rightarrow> (nat \<Rightarrow> string) \<Rightarrow> int \<times> imsg \<Rightarrow> job_queue \<Rightarrow> job_queue outcome" where
  "submits L rg tm \<equiv> job_queue_run L rg (fst tm) (Own Job_submit) (snd tm)"

abbreviation works :: "jlib \<Rightarrow> (nat \<Rightarrow> string) \<Rightarrow> int \<times> imsg \<Rightarrow> job_queue \<Rightarrow> job_queue outcome" where
  "works L rg tm \<equiv> job_queue_run L rg (fst tm) (Own Work_get) (snd tm)"

lemma submit_all:
  assumes "jq_inv s" "open_queue n s" "parked n s = []" "\<forall>tm \<in> set ms. good_submission L n (snd tm)"
    and "map_option q_size (map_of (jq_queues s) n) = Some k" "length (pending n s) + length ms \<le> k"
  shows "let (rs, s') = serve (submits L rg) ms s
    in map net_id rs = map (\<lambda>tm. im_id (snd tm)) ms \<and> jq_inv s' \<and> open_queue n s'
       \<and> pending n s' = pending n s @ submitted_jobs L rg ms (jq_drawn s)"
  using assms
proof (induction ms arbitrary: s)
  case (Cons tm ms)
  obtain now msg where tm: "tm = (now, msg)" by force
  have room: "has_room n s"
    using Cons.prems(2,5,6) by (auto simp: has_room_def queue_count_def pending_def open_queue_def split: option.splits)
  have good: "good_submission L n msg" using Cons.prems(4) tm by simp
  obtain s' d where s': "job_submit L rg now msg s = Done s' [Reply (im_id msg) (jl_write L d)]"
    "pending n s' = pending n s @ [submitted_job L rg now msg s]" "open_queue n s'" "parked n s' = []"
    "map_option q_size (map_of (jq_queues s') n) = map_option q_size (map_of (jq_queues s) n)"
    "jq_drawn s' = snd (job_of_message L rg now (im_doc msg) (jq_drawn s))"
    by (rule submit_room [OF Cons.prems(1-3) good room])
  have inv: "jq_inv s'" using jq_inv_submit [OF Cons.prems(1), of L rg now msg] s'(1) by simp
  from Cons.IH [OF inv s'(3,4)] Cons.prems(4-6) s'(2,5) have
    "let (rs, t) = serve (submits L rg) ms s' in map net_id rs = map (\<lambda>tm. im_id (snd tm)) ms \<and> jq_inv t
       \<and> open_queue n t \<and> pending n t = pending n s' @ submitted_jobs L rg ms (jq_drawn s')" by simp
  moreover have "submits L rg tm s = Done s' [Reply (im_id msg) (jl_write L d)]"
    using s'(1) tm by (simp add: job_queue_run_def run_handler_def)
  ultimately show ?case using s'(2,6) tm by (simp add: case_prod_unfold Let_def submitted_job_def)
qed simp

lemma work_all:
  assumes "jlib_ok L" "jq_inv s" "open_queue n s" "pending n s = js" "\<forall>j \<in> set js. reads_as L j (V j)"
    and "length ws = length js" "\<forall>tw \<in> set ws. work_from L n (snd tw)"
  shows "let (ns, s') = serve (works L rg) ws s
    in ns = map2 (\<lambda>tw j. Reply (im_id (snd tw)) (jl_write L (job_reply_doc_as (V j) j Ok))) ws js
       \<and> pending n s' = []
       \<and> dom (map_of (jq_in_progress s')) = dom (map_of (jq_in_progress s)) \<union> j_id ` set js"
  using assms(2-7)
proof (induction js arbitrary: ws s)
  case (Cons j js)
  then obtain now m ws' where ws: "ws = (now, m) # ws'" by (cases ws) auto
  with Cons.prems get_work_open(2) [OF Cons.prems(1,2) _ _ assms(1), of m j js "V j"] obtain s1 where s1:
    "job_get_work L m s = Done s1 [Reply (im_id m) (jl_write L (job_reply_doc_as (V j) j Ok))]"
    "pending n s1 = js" "open_queue n s1" "jq_in_progress s1 = AList.update (j_id j) j (jq_in_progress s)"
    by auto
  have inv: "jq_inv s1" using jq_inv_get_work [OF Cons.prems(1), of L m] s1(1) by simp
  from Cons.IH [OF inv s1(3,2), of ws'] Cons.prems(4-6) ws have
    "let (ns, s') = serve (works L rg) ws' s1
      in ns = map2 (\<lambda>tw j. Reply (im_id (snd tw)) (jl_write L (job_reply_doc_as (V j) j Ok))) ws' js
       \<and> pending n s' = [] \<and> dom (map_of (jq_in_progress s')) = dom (map_of (jq_in_progress s1)) \<union> j_id ` set js"
    by simp
  moreover have "works L rg (now, m) s = Done s1 [Reply (im_id m) (jl_write L (job_reply_doc_as (V j) j Ok))]"
    using s1(1) by (simp add: job_queue_run_def run_handler_def)
  ultimately show ?case using s1(4) ws by (simp add: case_prod_unfold Let_def update_conv')
qed simp

text \<open>
  C10. Jobs are handed out in the order they were submitted: when jobs are submitted to an open queue with
  room for them and no parked worker, and then as many workers ask as there are jobs, each worker is
  answered with one job, first those that were in the queue, then the new ones in the order of their
  submissions, as they were submitted; all are then in progress and off the queue, and every
  submitter was answered once. No handler that waits wakes up in between.
\<close>

theorem work_in_order:
  assumes "jlib_ok L" and "reachable_job_queue L rg es = Some s" and "open_queue n s" and "parked n s = []"
    and "\<forall>tm \<in> set ms. good_submission L n (snd tm)"
    and "map_of (jq_queues s) n = Some q" and "length (pending n s) + length ms \<le> q_size q"
    and "js = pending n s @ submitted_jobs L rg ms (jq_drawn s)" and "\<forall>j \<in> set js. reads_as L j (V j)"
    and "length ws = length js" and "\<forall>tw \<in> set ws. work_from L n (snd tw)"
  shows "let (rs, s1) = serve (submits L rg) ms s; (ns, s2) = serve (works L rg) ws s1
    in map net_id rs = map (\<lambda>tm. im_id (snd tm)) ms
       \<and> ns = map2 (\<lambda>tw j. Reply (im_id (snd tw)) (jl_write L (job_reply_doc_as (V j) j Ok))) ws js
       \<and> pending n s2 = [] \<and> (\<forall>j \<in> set js. \<exists>j'. map_of (jq_in_progress s2) (j_id j) = Some j')"
proof -
  obtain rs s1 where 1: "serve (submits L rg) ms s = (rs, s1)" by force
  obtain ns s2 where 2: "serve (works L rg) ws s1 = (ns, s2)" by force
  have s1: "map net_id rs = map (\<lambda>tm. im_id (snd tm)) ms" "jq_inv s1" "open_queue n s1" "pending n s1 = js"
    using submit_all [OF reachable_job_queue_inv [OF assms(2)] assms(3,4,5), of "q_size q" rg] assms(6-8) 1 by simp_all
  have "ns = map2 (\<lambda>tw j. Reply (im_id (snd tw)) (jl_write L (job_reply_doc_as (V j) j Ok))) ws js"
    "pending n s2 = []" "dom (map_of (jq_in_progress s2)) = dom (map_of (jq_in_progress s1)) \<union> j_id ` set js"
    using work_all [OF assms(1) s1(2-4) assms(9-11), of rg] 2 by simp_all
  with s1(1) show ?thesis by (auto simp: 1 2 Let_def dom_def set_eq_iff)
qed

text \<open>Two requests with identifiers of their own.\<close>

definition sample_named :: "nat \<Rightarrow> string \<Rightarrow> imsg" where
  "sample_named i name = \<lparr>im_id = i, im_doc = JObject [(''@api_key'', JString ''key''), (''@job_id'', JString name),
     (''action'', JString ''run''), (''module'', JString ''q''), (''parameters'', JNull)]\<rparr>"

lemma sample_named_facts:
  "good_submission ref_lib ''q'' (sample_named i name)" "work_from ref_lib ''q'' (sample_named i name)"
  "im_id (sample_named i name) = i"
  "name \<noteq> [] \<Longrightarrow> j_id (fst (job_of_message ref_lib rg now (im_doc (sample_named i name)) k)) = name"
proof -
  have f: "message_find ''action'' (im_doc (sample_named i name)) = Some (JString ''run'')"
    "message_find ''module'' (im_doc (sample_named i name)) = Some (JString ''q'')"
    "message_find ''parameters'' (im_doc (sample_named i name)) = Some JNull"
    "message_find ''@job_id'' (im_doc (sample_named i name)) = Some (JString name)"
    by (simp_all add: sample_named_def message_find_plain plain_key_def)
  show "good_submission ref_lib ''q'' (sample_named i name)" "work_from ref_lib ''q'' (sample_named i name)"
    "im_id (sample_named i name) = i"
    by (simp_all add: good_submission_def work_from_def get_string_def get_as_def message_exists_def f)
      (simp_all add: sample_named_def passable_def)
  show "name \<noteq> [] \<Longrightarrow> j_id (fst (job_of_message ref_lib rg now (im_doc (sample_named i name)) k)) = name"
    by (simp add: job_of_message_fields Let_def job_from_message_def get_meta_def meta_key_def get_string_def get_as_def f)
qed

theorem work_in_order_witness:
  "\<exists>ns j1 j2 s2. (let (rs, s1) = serve (submits ref_lib (\<lambda>_. ''id'')) [(1, sample_named 11 ''first''), (2, sample_named 12 ''second'')] sample_idle
      in serve (works ref_lib (\<lambda>_. ''id'')) [(3, sample_named 3 ''w1''), (4, sample_named 4 ''w2'')] s1) = (ns, s2)
    \<and> ns = [Reply 3 (jl_write ref_lib (job_reply_doc j1 Ok)), Reply 4 (jl_write ref_lib (job_reply_doc j2 Ok))]
    \<and> j_id j1 = ''first'' \<and> j_id j2 = ''second'' \<and> pending ''q'' s2 = []"
proof -
  let ?ms = "[(1, sample_named 11 ''first''), (2, sample_named 12 ''second'')] :: (int \<times> imsg) list"
  let ?ws = "[(3, sample_named 3 ''w1''), (4, sample_named 4 ''w2'')] :: (int \<times> imsg) list"
  obtain j1 k where 1: "job_of_message ref_lib (\<lambda>_. ''id'') 1 (im_doc (sample_named 11 ''first'')) (jq_drawn sample_idle) = (j1, k)" by force
  obtain j2 k' where 2: "job_of_message ref_lib (\<lambda>_. ''id'') 2 (im_doc (sample_named 12 ''second'')) k = (j2, k')" by force
  have j: "j_id j1 = ''first''" "j_id j2 = ''second''"
    using sample_named_facts(4) [of "''first''" "\<lambda>_. ''id''" 1 11] sample_named_facts(4) [of "''second''" "\<lambda>_. ''id''" 2 12] 1 2
    by (metis fst_conv list.distinct(1))+
  have jobs: "submitted_jobs ref_lib (\<lambda>_. ''id'') ?ms (jq_drawn sample_idle) = [j1, j2]" by (simp add: 1 2)
  have "let (rs, s1) = serve (submits ref_lib (\<lambda>_. ''id'')) ?ms sample_idle; (ns, s2) = serve (works ref_lib (\<lambda>_. ''id'')) ?ws s1
    in map net_id rs = map (\<lambda>tm. im_id (snd tm)) ?ms
       \<and> ns = map2 (\<lambda>tw j. Reply (im_id (snd tw)) (jl_write ref_lib (job_reply_doc_as (JReal (j_progress j)) j Ok))) ?ws [j1, j2]
       \<and> pending ''q'' s2 = [] \<and> (\<forall>j \<in> set [j1, j2]. \<exists>j'. map_of (jq_in_progress s2) (j_id j) = Some j')"
    by (rule work_in_order [OF _ sample_service sample_idle_facts(1,3) _ sample_idle_facts(6)])
      (simp_all only: jobs, simp_all add: sample_idle_facts sample_named_facts reads_back_as queue_new_def)
  moreover obtain rs s1 where S: "serve (submits ref_lib (\<lambda>_. ''id'')) ?ms sample_idle = (rs, s1)" by force
  moreover obtain ns s2 where W: "serve (works ref_lib (\<lambda>_. ''id'')) ?ws s1 = (ns, s2)" by force
  ultimately have "ns = [Reply 3 (jl_write ref_lib (job_reply_doc j1 Ok)), Reply 4 (jl_write ref_lib (job_reply_doc j2 Ok))]"
    "pending ''q'' s2 = []"
    by (simp_all add: job_reply_doc_def sample_named_facts del: serve.simps)
  with j show ?thesis
    by (intro exI [of _ ns] exI [of _ j1] exI [of _ j2] exI [of _ s2]) (simp add: S W del: serve.simps)
qed

text \<open>
  What becomes of a worker that asks a queue without jobs: on an open queue the handler waits
  for as long as the queue is open and empty, holding the thread that dispatches requests; on a
  closed queue, jobs or not, the worker is parked without an answer if there is room among
  the parked ones and otherwise dropped without an answer.
\<close>

theorem work_waits_or_parks:
  assumes "reachable_job_queue L rg es = Some s" and "work_from L n msg"
    and "map_of (jq_queues s) n = Some q"
  shows "(open_queue n s \<and> pending n s = []
        \<longrightarrow> job_queue_run L rg now (Own Work_get) msg s
            = Blocked (s\<lparr>jq_waiting := jq_waiting s @ [\<lparr>ww_msg = msg, ww_queue = n, ww_removed = False\<rparr>]\<rparr>))
    \<and> (\<not> open_queue n s \<longrightarrow> (\<exists>s' w. map_of (jq_workers s) n = Some w
        \<and> job_queue_run L rg now (Own Work_get) msg s = Done s' []
        \<and> pending n s' = pending n s
        \<and> parked n s' = parked n s @ (if length (parked n s) < q_size w then [msg] else [])))"
proof -
  have inv: "jq_inv s" using assms(1) by (rule reachable_job_queue_inv)
  from inv assms(3) obtain w where w: "map_of (jq_workers s) n = Some w" "queue_ok w" "\<not> q_closed w"
    by (rule jq_inv_queueE)
  have n: "get_string L ''module'' [] (im_doc msg) = n" using assms(2) by (simp add: work_from_def)
  have "\<exists>s'. job_get_work L msg s = Done s' [] \<and> pending n s' = pending n s
      \<and> parked n s' = parked n s @ (if length (parked n s) < q_size w then [msg] else [])"
    if "\<not> open_queue n s"
    using that assms(3) w n
    by (auto simp: open_queue_def queue_is_closed_def job_get_work_def job_work_park_def queue_pop_def pending_def
        parked_def put_workers_def update_conv' queue_push_def queue_ok_def)
  with w get_work_open(1) [OF inv _ assms(2)] show ?thesis
    by (simp add: job_queue_run_def run_handler_def)
qed

lemma sample_work: "work_from ref_lib ''q'' (sample_request i)"
  by (simp add: work_from_def get_string_def get_as_def)

theorem work_waits_or_parks_witness:
  "job_queue_run ref_lib (\<lambda>_. ''id'') 5 (Own Work_get) (sample_request 1) sample_idle
    = Blocked (sample_idle\<lparr>jq_waiting := [\<lparr>ww_msg = sample_request 1, ww_queue = ''q'', ww_removed = False\<rparr>]\<rparr>)"
  using work_waits_or_parks [OF sample_service sample_work sample_idle_facts(6), of "\<lambda>_. ''id''" 5 1]
  by (simp add: sample_idle_facts)

text \<open>
  C13. A worker that waits is served by the next submission: after a \<open>get_work\<close> on an open and empty queue with
  no parked worker, which waits, a submission to this queue is answered with the job's identifier,
  and when the waiting handler wakes up it answers the worker with this job, which is then in
  progress and off the queue; nobody waits that did not wait before.
\<close>

theorem waiting_worker_served:
  assumes "jlib_ok L" and "reachable_job_queue L rg es = Some s" and "open_queue n s" and "pending n s = []"
    and "parked n s = []" and "work_from L n wm" and "good_submission L n sm"
    and "j = submitted_job L rg u sm s" and "reads_as L j v"
  shows "\<exists>s1 s2 s3 d. job_queue_run L rg t (Own Work_get) wm s = Blocked s1
    \<and> job_queue_run L rg u (Own Job_submit) sm s1 = Done s2 [Reply (im_id sm) (jl_write L d)]
    \<and> message_find ''@job_id'' d = Some (JString (j_id j))
    \<and> job_queue_react L rg (Wake (length (jq_waiting s))) s2
        = Done s3 [Reply (im_id wm) (jl_write L (job_reply_doc_as v j Ok))]
    \<and> map_of (jq_in_progress s3) (j_id j) = Some j \<and> pending n s3 = [] \<and> jq_waiting s3 = jq_waiting s"
proof -
  let ?w = "\<lparr>ww_msg = wm, ww_queue = n, ww_removed = False\<rparr>"
  let ?s1 = "s\<lparr>jq_waiting := jq_waiting s @ [?w]\<rparr>"
  have inv: "jq_inv s" using assms(2) by (rule reachable_job_queue_inv)
  note wait = get_work_open(1) [OF inv assms(3,6,4)]
  then have inv1: "jq_inv ?s1" using jq_inv_get_work [OF inv, of L wm] by simp
  have same: "open_queue n ?s1" "parked n ?s1 = []" "pending n ?s1 = []" "submitted_job L rg u sm ?s1 = j"
    using assms(3-5,8) by (simp_all add: open_queue_def parked_def pending_def submitted_job_def)
  have room: "has_room n ?s1"
    using inv assms(3,4) by (auto simp: has_room_def open_queue_def pending_def queue_count_def jq_inv_def queue_ok_def
        split: option.splits)
  obtain s2 d where s2: "job_submit L rg u sm ?s1 = Done s2 [Reply (im_id sm) (jl_write L d)]"
    "message_find ''@job_id'' d = Some (JString (j_id j))" "pending n s2 = [j]" "open_queue n s2"
    "jq_waiting s2 = jq_waiting s @ [?w]"
    by (rule submit_room [OF inv1 same(1,2) assms(7) room, of rg u]) (use same(3,4) in simp)
  obtain q where q: "map_of (jq_queues s2) n = Some q" "\<not> q_closed q" "q_items q = [j]"
    using s2(3,4) by (auto simp: open_queue_def pending_def queue_is_closed_def split: option.splits)
  let ?s3 = "(put_queue n (q\<lparr>q_items := []\<rparr>) (s2\<lparr>jq_waiting := jq_waiting s\<rparr>))
    \<lparr>jq_in_progress := AList.update (j_id j) j (jq_in_progress s2)\<rparr>"
  have wake: "job_queue_react L rg (Wake (length (jq_waiting s))) s2
      = Done ?s3 [Reply (im_id wm) (jl_write L (job_reply_doc_as v j Ok))]"
    using s2(5) q assms(1,9)
    by (simp add: job_wake_worker_def queue_pop_def job_work_got_def task_reply_job im_reply_job_as Let_def)
      (simp add: put_queue_def)
  show ?thesis
    using wait s2(1,2) wake
    by (intro exI [of _ ?s1] exI [of _ s2] exI [of _ ?s3] exI [of _ d])
      (simp add: job_queue_run_def run_handler_def pending_def put_queue_def update_conv')
qed

theorem waiting_worker_served_witness:
  "\<exists>s1 s2 s3 text j. job_queue_run ref_lib (\<lambda>_. ''id'') 5 (Own Work_get) (sample_request 1) sample_idle = Blocked s1
    \<and> job_queue_run ref_lib (\<lambda>_. ''id'') 6 (Own Job_submit) (sample_request 2) s1 = Done s2 [text]
    \<and> job_queue_react ref_lib (\<lambda>_. ''id'') (Wake 0) s2 = Done s3 [Reply 1 (jl_write ref_lib (job_reply_doc j Ok))]"
proof -
  let ?j = "submitted_job ref_lib (\<lambda>_. ''id'') 6 (sample_request 2) sample_idle"
  from waiting_worker_served [OF _ sample_service sample_idle_facts(1-3) sample_work sample_submission refl
      reads_back_as, where u = 6 and t = 5 and rg = "\<lambda>_. ''id''"]
  show ?thesis unfolding job_reply_doc_def sample_idle_facts(5) list.size(3) by (metis ref_lib_ok ref_lib_reads_back sample_finds(10))
qed

text \<open>A request that removes a queue, by its name or with all others.\<close>

definition removes_queue :: "jlib \<Rightarrow> string \<Rightarrow> imsg \<Rightarrow> bool" where
  "removes_queue L n rm \<longleftrightarrow> message_is_null ''create'' (im_doc rm)
     \<and> (get_bool L ''remove_all'' False (im_doc rm)
        \<or> get_string L ''queue'' [] (im_doc rm) = n \<and> \<not> message_is_null ''remove'' (im_doc rm)
          \<and> get_bool L ''remove'' False (im_doc rm))"

lemma map_waiting_nth:
  "i < length (jq_waiting s) \<Longrightarrow> gone (ww_queue (jq_waiting s ! i)) \<Longrightarrow>
     ww_removed (jq_waiting (mark_removed gone s) ! i)"
  by (simp add: mark_removed_def)

lemma manage_removes:
  assumes "removes_queue L n rm" "open_queue n s" "i < length (jq_waiting s)" "ww_queue (jq_waiting s ! i) = n"
  shows "ww_removed (jq_waiting (final_state s (job_manage L rm s)) ! i)"
    and "length (jq_waiting (final_state s (job_manage L rm s))) = length (jq_waiting s)"
proof -
  let ?d = "im_doc rm" and ?n = "get_string L ''queue'' [] (im_doc rm)"
  let ?s = "manage_all L ?d s"
  have len: "length (jq_waiting ?s) = length (jq_waiting s)" "length (jq_waiting (manage_queue L rm n' q ?s)) = length (jq_waiting s)"
    for n' q
    by (simp_all add: manage_waiting remove_all_def mark_removed_def clear_all_def switch_all_def manage_queue_def Let_def)
  have name: "jq_waiting ?s = (if get_bool L ''remove_all'' False ?d then jq_waiting (remove_all s) else jq_waiting s)"
    by (rule manage_waiting)
  have create: "message_is_null ''create'' ?d" using assms(1) by (simp add: removes_queue_def)
  show "length (jq_waiting (final_state s (job_manage L rm s))) = length (jq_waiting s)"
    using create len by (simp add: job_manage_eq Let_def answer_same split: option.split)
  have there: "map_of (jq_queues ?s) n \<noteq> None" if "\<not> get_bool L ''remove_all'' False ?d"
    using that assms(2) by (auto simp: manage_all_def Let_def clear_all_def switch_all_def open_queue_def map_of_map
        split: option.splits)
  show "ww_removed (jq_waiting (final_state s (job_manage L rm s)) ! i)"
  proof (cases "get_bool L ''remove_all'' False ?d")
    case True
    then have w: "ww_removed (jq_waiting ?s ! i)"
      using assms(3) by (simp add: name remove_all_def map_waiting_nth) (simp add: mark_removed_def clear_all_def switch_all_def)
    have "map_of (jq_queues ?s) ?n = None"
      using True by (simp add: manage_all_def Let_def remove_all_def mark_removed_def switch_all_def)
    with create w show ?thesis by (simp add: job_manage_eq Let_def answer_same)
  next
    case False
    with assms(1) have r: "?n = n" "\<not> message_is_null ''remove'' ?d" "get_bool L ''remove'' False ?d"
      by (simp_all add: removes_queue_def)
    from there [OF False] obtain q where q: "map_of (jq_queues ?s) n = Some q" by auto
    have "ww_queue (jq_waiting ?s ! i) = n" using False assms(4) by (simp add: name)
    then have "ww_removed (jq_waiting (manage_queue L rm n q ?s) ! i)"
      using r assms(3) len(1) by (simp add: manage_queue_def Let_def mark_removed_def)
    with create r(1) q show ?thesis by (simp add: job_manage_eq Let_def answer_same)
  qed
qed

text \<open>
  C14. Removing a queue kills the server when a worker waits there: a \<open>get_work\<close> on an open queue without jobs
  waits, \<open>manage\<close> takes the queue away (by its name or with all others), and when the handler wakes
  up, as the removal makes it do, it follows an iterator to the erased entry. Up to the wake-up nothing
  is wrong.
\<close>

theorem waiting_worker_crash:
  assumes "reachable_job_queue L rg es = Some s" and "open_queue n s" and "pending n s = []" and "work_from L n wm"
    and "removes_queue L n rm"
  shows "\<exists>s1 s2. job_queue_run L rg t (Own Work_get) wm s = Blocked s1
    \<and> alive_run (job_queue_react L rg) [Request t (Own Work_get) wm, Request u (Own Queue_manage) rm] s = Some s2
    \<and> alive_run (job_queue_react L rg)
        [Request t (Own Work_get) wm, Request u (Own Queue_manage) rm, Wake (length (jq_waiting s))] s = None"
proof -
  let ?w = "\<lparr>ww_msg = wm, ww_queue = n, ww_removed = False\<rparr>"
  let ?s1 = "s\<lparr>jq_waiting := jq_waiting s @ [?w]\<rparr>"
  have inv: "jq_inv s" using assms(1) by (rule reachable_job_queue_inv)
  have wait: "job_queue_run L rg t (Own Work_get) wm s = Blocked ?s1"
    using get_work_open(1) [OF inv assms(2,4,3)] by (simp add: job_queue_run_def run_handler_def)
  then have inv1: "jq_inv ?s1" using jq_inv_handler [OF inv, of L rg t "Own Work_get" wm] by simp
  have "open_queue n ?s1" using assms(2) by (simp add: open_queue_def)
  note rem = manage_removes [OF assms(5) this, of "length (jq_waiting s)"]
  let ?r = "job_queue_run L rg u (Own Queue_manage) rm ?s1"
  have "?r = job_manage L rm ?s1" by (simp add: job_queue_run_def run_handler_def)
  then have s2: "no_crash ?r" "length (jq_waiting s) < length (jq_waiting (final_state ?s1 ?r))"
    "ww_removed (jq_waiting (final_state ?s1 ?r) ! length (jq_waiting s))"
    using request_no_crash [OF inv1, of L rg u "Own Queue_manage" rm] rem by simp_all
  then have "\<not> no_crash (job_queue_react L rg (Wake (length (jq_waiting s))) (final_state ?s1 ?r))"
    by (simp add: job_wake_worker_def Let_def)
  with wait s2(1) show ?thesis by (simp add: alive_step_def)
qed

definition sample_remove :: imsg where
  "sample_remove = \<lparr>im_id = 8, im_doc = JObject [(''queue'', JString ''q''), (''remove'', JBool True)]\<rparr>"

theorem waiting_worker_crash_witness:
  "alive_run (job_queue_react ref_lib (\<lambda>_. ''id''))
     [Request 1 (Own Work_get) (sample_request 1), Request 2 (Own Queue_manage) sample_remove, Wake 0] sample_idle = None"
proof -
  have "removes_queue ref_lib ''q'' sample_remove"
    by (simp add: removes_queue_def sample_remove_def message_find_plain plain_key_def get_string_def get_bool_def get_as_def
        message_is_null_def)
  from waiting_worker_crash [OF sample_service sample_idle_facts(1,2) sample_work this, where rg = "\<lambda>_. ''id''" and t = 1 and u = 2]
  show ?thesis unfolding sample_idle_facts(5) list.size(3) by blast
qed

text \<open>
  A job handed directly to a parked worker is lost to its submitter: the worker is answered with
  the job, but the submitter gets no answer at all, and the job is filed neither as pending nor
  as in progress, so nobody can ask for its state.
\<close>

theorem handed_over_job_untracked:
  assumes "jlib_ok L" and "reachable_job_queue L rg es = Some s" and "open_queue n s"
    and "parked n s = w # ws" and "good_submission L n msg"
    and "reads_as L (submitted_job L rg now msg s) v"
  shows "\<exists>s'. job_queue_run L rg now (Own Job_submit) msg s
      = Done s' [Reply (im_id w) (jl_write L (job_reply_doc_as v (submitted_job L rg now msg s) Ok))]
    \<and> pending n s' = pending n s \<and> jq_in_progress s' = jq_in_progress s
    \<and> jq_completed s' = jq_completed s \<and> parked n s' = ws"
proof -
  have inv: "jq_inv s" using assms(2) by (rule reachable_job_queue_inv)
  from inv assms(3) obtain q wq where q: "map_of (jq_queues s) n = Some q" "\<not> q_closed q"
    "pending n s = q_items q" "map_of (jq_workers s) n = Some wq" "\<not> q_closed wq" "parked n s = q_items wq"
    by (rule open_queueE)
  let ?j = "submitted_job L rg now msg s"
  have "hand_over L ?j (queue_count wq) wq
      = (Passed (Reply (im_id w) (jl_write L (job_reply_doc_as v ?j Ok))), wq\<lparr>q_items := ws\<rparr>)"
    using q(5) q(6) [symmetric] assms(1,4,6) by (simp add: hand_over_open task_reply_job im_reply_job_as)
  with q assms(4,5) show ?thesis
    by (auto simp: job_queue_run_def run_handler_def job_submit_def Let_def good_submission_def
        submitted_job_def queue_is_closed_def case_prod_unfold put_workers_def pending_def parked_def update_conv')
qed

definition sample_enable :: "bool \<Rightarrow> imsg" where
  "sample_enable b = \<lparr>im_id = 0, im_doc = JObject [(''enable'', JBool b), (''queue'', JString ''q'')]\<rparr>"

lemma sample_enable_finds [simp]:
  "message_find ''queue'' (im_doc (sample_enable b)) = Some (JString ''q'')"
  "message_find ''enable'' (im_doc (sample_enable b)) = Some (JBool b)"
  "message_find ''create'' (im_doc (sample_enable b)) = None"
  "message_find ''clear'' (im_doc (sample_enable b)) = None"
  "message_find ''remove'' (im_doc (sample_enable b)) = None"
  "message_find ''clear_all'' (im_doc (sample_enable b)) = None"
  "message_find ''remove_all'' (im_doc (sample_enable b)) = None"
  "message_find ''switch_all'' (im_doc (sample_enable b)) = None"
  by (simp_all add: sample_enable_def message_find_plain plain_key_def)

text \<open>The queue is closed, a worker asks and is parked, the queue is opened again.\<close>

definition sample_parking :: "job_queue_event list" where
  "sample_parking = [Request 0 (Own Queue_manage) sample_create, Request 1 (Own Queue_manage) (sample_enable False),
     Request 2 (Own Work_get) (sample_request 7), Request 3 (Own Queue_manage) (sample_enable True)]"

definition sample_parked_service :: job_queue where
  "sample_parked_service = job_queue_new\<lparr>jq_queues := [(''q'', queue_new 50)],
       jq_workers := [(''q'', (queue_new 50)\<lparr>q_items := [sample_request 7]\<rparr>)]\<rparr>"

lemma sample_parked: "reachable_job_queue ref_lib rg sample_parking = Some sample_parked_service"
proof -
  let ?step = "alive_step (job_queue_react ref_lib rg)"
  have enable: "?step (Request t (Own Queue_manage) (sample_enable b)) s = Some (put_queue ''q'' (queue_set_enabled b q) s)"
    if "map_of (jq_queues s) ''q'' = Some q" for t b s q
    using that
    by (simp add: alive_step_def job_queue_run_def run_handler_def job_manage_def manage_queue_def Let_def
        get_bool_def get_string_def get_as_def message_is_null_def answer_same no_crash_answer answers_no_crash)
  have park: "?step (Request t (Own Work_get) (sample_request i)) s
      = Some (put_workers ''q'' (fst (queue_push (sample_request i) w)) s)"
    if "map_of (jq_queues s) ''q'' = Some q" "q_closed q" "map_of (jq_workers s) ''q'' = Some w" for t i s q w
    using that
    by (simp add: alive_step_def job_queue_run_def run_handler_def job_get_work_def job_work_park_def Let_def
        get_string_def get_as_def queue_pop_def)
  let ?c = "\<lambda>b ws. job_queue_new\<lparr>jq_queues := [(''q'', (queue_new 50)\<lparr>q_closed := b\<rparr>)],
    jq_workers := [(''q'', (queue_new 50)\<lparr>q_items := ws\<rparr>)]\<rparr>"
  have 0: "?step (Request 0 (Own Queue_manage) sample_create) job_queue_new = Some (?c False [])"
    using sample_service [of rg] by (auto simp: reachable_job_queue_def sample_idle_def queue_new_def split: bind_splits)
  have 1: "?step (Request 1 (Own Queue_manage) (sample_enable False)) (?c False []) = Some (?c True [])"
    by (subst enable [of _ "(queue_new 50)\<lparr>q_closed := False\<rparr>"])
      (simp_all add: put_queue_def queue_set_enabled_def job_queue_new_def queue_new_def)
  have 2: "?step (Request 2 (Own Work_get) (sample_request 7)) (?c True []) = Some (?c True [sample_request 7])"
    by (subst park [of _ "(queue_new 50)\<lparr>q_closed := True\<rparr>" "(queue_new 50)\<lparr>q_items := []\<rparr>"])
      (auto simp: put_workers_def queue_push_def queue_new_def job_queue_new_def)
  have 3: "?step (Request 3 (Own Queue_manage) (sample_enable True)) (?c True [sample_request 7]) = Some (?c False [sample_request 7])"
    by (subst enable [of _ "(queue_new 50)\<lparr>q_closed := True\<rparr>"])
      (simp_all add: put_queue_def queue_set_enabled_def job_queue_new_def queue_new_def)
  show ?thesis
    unfolding reachable_job_queue_def sample_parking_def alive_run.simps 0 1 2 3 Option.bind.simps
    by (simp add: sample_parked_service_def queue_new_def)
qed

theorem handed_over_job_untracked_witness:
  "\<exists>s'. job_queue_run ref_lib (\<lambda>_. ''id'') 9 (Own Job_submit) (sample_request 4) sample_parked_service
     = Done s' [Reply 7 (jl_write ref_lib (job_reply_doc (submitted_job ref_lib (\<lambda>_. ''id'') 9 (sample_request 4)
         sample_parked_service) Ok))]
    \<and> pending ''q'' s' = []"
proof -
  have "open_queue ''q'' sample_parked_service" "parked ''q'' sample_parked_service = [sample_request 7]"
    "pending ''q'' sample_parked_service = []"
    by (simp_all add: sample_parked_service_def open_queue_def queue_is_closed_def queue_new_def parked_def pending_def)
  with handed_over_job_untracked [OF _ sample_parked _ _ sample_submission [of 4] reads_back_as,
      where w = "sample_request 7" and ws = "[]" and rg = "\<lambda>_. ''id''" and now = 9]
  show ?thesis by (auto simp: job_reply_doc_def)
qed

section \<open>Results\<close>

definition result_request :: "jlib \<Rightarrow> string \<Rightarrow> string \<Rightarrow> imsg \<Rightarrow> bool" where
  "result_request L i key msg \<longleftrightarrow> get_meta L ''job_id'' [] (im_doc msg) = i
     \<and> get_meta L ''api_key'' [] (im_doc msg) = key \<and> passable (im_doc msg)"

lemma get_result_as:
  assumes "result_request L i key msg" "jlib_ok L"
    and "\<forall>j. map_of (jq_completed s) i = Some j \<or> map_of (jq_in_progress s) i = Some j \<longrightarrow> reads_as L j (V j)"
  shows "job_get_result L msg s =
    (case map_of (jq_completed s) i of
       Some j \<Rightarrow>
         if j_api_key j = key
         then Done (s\<lparr>jq_completed := AList.delete i (jq_completed s)\<rparr>)
                [Reply (im_id msg) (jl_write L (job_reply_doc_as (V j) j Ok))]
         else Done s [Reply (im_id msg) (jl_write L (status_doc Access_denied []))]
     | None \<Rightarrow>
         (case map_of (jq_in_progress s) i of
            Some j \<Rightarrow> Done s [Reply (im_id msg) (jl_write L (job_reply_doc_as (V j) j Not_ready))]
          | None \<Rightarrow> Done s [Reply (im_id msg) (jl_write L (status_doc Fail ''Job not found or not yet started''))]))"
proof -
  from assms(1) clear_passable [of "im_doc msg"] obtain d where "message_clear (im_doc msg) = Inr d" "passable d"
    by (auto simp: result_request_def message_clear_def passable_def)
  with assms show ?thesis
    by (auto simp: job_get_result_def result_request_def Let_def im_reply_job_as im_fail_code_eq im_fail_eq
        split: option.split)
qed

definition reported_job :: "jlib \<Rightarrow> (nat \<Rightarrow> string) \<Rightarrow> int \<Rightarrow> imsg \<Rightarrow> job_queue \<Rightarrow> job" where
  "reported_job L rg now msg s = job_set_progress 100 (fst (job_of_message L rg now (im_doc msg) (jq_drawn s)))"

lemma set_result_eq:
  assumes "get_meta L ''job_id'' [] (im_doc msg) = i" "i \<noteq> []" "passable (im_doc msg)"
  shows "\<exists>n. job_set_result L rg now msg s =
    Done (s\<lparr>jq_in_progress := AList.delete i (jq_in_progress s),
            jq_completed := AList.update i (reported_job L rg now msg s) (jq_completed s),
            jq_completed_jobs := jq_completed_jobs s + 1, jq_drawn := n\<rparr>)
      [Reply (im_id msg) (jl_write L (status_doc Ok []))]"
proof -
  from clear_passable [OF assms(3)] obtain d where "message_clear (im_doc msg) = Inr d" "passable d"
    by (auto simp: message_clear_def passable_def)
  with assms show ?thesis
    by (auto simp: job_set_result_def Let_def case_prod_unfold reported_job_def im_reply_eq)
qed

text \<open>The requests that change what is filed as completed under \<open>i\<close>.\<close>

fun result_event :: "jlib \<Rightarrow> string \<Rightarrow> job_queue_event \<Rightarrow> bool" where
  "result_event L i (Request _ (Own Result_set) msg) = (get_meta L ''job_id'' [] (im_doc msg) = i)"
| "result_event L i (Request _ (Own Result_get) msg) = (get_meta L ''job_id'' [] (im_doc msg) = i)"
| "result_event L i _ = False"

lemma answer_same_completed:
  "jq_completed (final_state t (answer r s s')) = (case r of Inl _ \<Rightarrow> jq_completed s | Inr _ \<Rightarrow> jq_completed s')"
  by (simp add: final_state_answer split: sum.split)

lemma put_completed [simp]:
  "jq_completed (put_queue n q s) = jq_completed s" "jq_completed (put_workers n w s) = jq_completed s"
  by (simp_all add: put_queue_def put_workers_def)

lemma manage_completed: "jq_completed (final_state s (job_manage L msg s)) = jq_completed s"
proof -
  have "jq_completed (manage_all L d s) = jq_completed s" for d
    by (simp add: manage_all_def Let_def clear_all_def remove_all_def switch_all_def mark_removed_def)
  moreover have "jq_completed (snd (init_queue n k t)) = jq_completed t" for n k t
    by (simp add: init_queue_def Let_def)
  moreover have "jq_completed (manage_queue L msg n q t) = jq_completed t" for n q t
    by (simp add: manage_queue_def Let_def mark_removed_def)
  ultimately show ?thesis
    by (simp add: job_manage_eq Let_def case_prod_unfold answer_same split: option.split)
qed

lemma submit_completed: "jq_completed (final_state s (job_submit L rg now msg s)) = jq_completed s"
  by (auto simp: job_submit_def Let_def answer_same case_prod_unfold submit_to_queue_state
      split: option.split handed.split)

lemma work_completed:
  "jq_completed (final_state t (job_work_got L msg j s)) = jq_completed s"
  "jq_completed (final_state t (job_work_park msg n s)) = jq_completed s"
  by (simp_all add: job_work_got_def job_work_park_def answer_same_completed split: option.split sum.split)

lemma get_work_completed:
  "jq_completed (final_state s (job_get_work L msg s)) = jq_completed s"
  "jq_completed (final_state s (job_wake_worker L i s)) = jq_completed s"
  by (auto simp: job_get_work_def job_wake_worker_def Let_def answer_same work_completed
      split: option.split popped.split prod.split)

lemma completed_kept:
  "\<not> result_event L i e \<Longrightarrow>
     map_of (jq_completed (final_state s (job_queue_react L rg e s))) i = map_of (jq_completed s) i"
proof (cases "(L, i, e)" rule: result_event.cases)
  case (1 L' i' t msg)
  then show "\<not> result_event L i e \<Longrightarrow> ?thesis"
    by (simp add: job_queue_run_def run_handler_def job_set_result_def Let_def answer_same
        case_prod_unfold update_conv')
next
  case (2 L' i' t msg)
  then show "\<not> result_event L i e \<Longrightarrow> ?thesis"
    by (auto simp: job_queue_run_def run_handler_def job_get_result_def Let_def answer_same
        answer_same_completed map_of_delete split: sum.split option.split)
qed (simp_all add: job_queue_run_def run_handler_def answer_same submit_completed
      get_work_completed manage_completed job_set_progress_request_def job_status_def Let_def split: option.split)

lemma completed_kept_all:
  "\<forall>e \<in> set es. \<not> result_event L i e \<Longrightarrow> alive_run (job_queue_react L rg) es s = Some s' \<Longrightarrow>
     map_of (jq_completed s') i = map_of (jq_completed s) i"
  by (rule alive_run_kept [where P = "\<lambda>e. \<not> result_event L i e" and f = "\<lambda>s. map_of (jq_completed s) i"],
      assumption, assumption, rule completed_kept)

text \<open>
  C11. A result is delivered once, and only to the key that came with it: after \<open>result/set\<close>,
  whatever other requests and wake-ups of waiting workers follow that do not set or get this job's
  result (and do not end the process), a \<open>result/get\<close> with
  another key is denied and leaves the result, one with the key that the reporting worker put in
  its message is answered with the completed job, and a second one no longer finds it.
\<close>

theorem result_delivered_once:
  assumes "jlib_ok L"
    and "result_request L i key rm" and "i \<noteq> []"
    and "\<forall>e \<in> set es. \<not> result_event L i e"
    and "result_request L i key qm" and "result_request L i other om" and "other \<noteq> key"
    and "alive_run (job_queue_react L rg) es (final_state s (job_queue_run L rg ta (Own Result_set) rm s)) = Some sa"
    and "j = reported_job L rg ta rm s" and "reads_as L j v"
    and "map_of (jq_in_progress sa) i = None"
  shows "job_queue_run L rg tb (Own Result_get) om sa
      = Done sa [Reply (im_id om) (jl_write L (status_doc Access_denied []))]
    \<and> (\<exists>s2. job_queue_run L rg tc (Own Result_get) qm sa
        = Done s2 [Reply (im_id qm) (jl_write L (job_reply_doc_as v j Ok))]
      \<and> job_queue_run L rg td (Own Result_get) qm s2
        = Done s2 [Reply (im_id qm) (jl_write L (status_doc Fail ''Job not found or not yet started''))]
      \<and> j_progress j = 100 \<and> j_completed j)"
proof -
  have rm: "get_meta L ''job_id'' [] (im_doc rm) = i" "get_meta L ''api_key'' [] (im_doc rm) = key"
    "passable (im_doc rm)" using assms(2) by (simp_all add: result_request_def)
  have key: "j_api_key j = key"
    unfolding assms(9) reported_job_def job_of_message_def job_init_def job_set_id_def
    by (simp add: job_set_progress_def job_from_message_def rm Let_def case_prod_unfold)
  have "map_of (jq_completed sa) i = Some j"
    using set_result_eq [OF rm(1) assms(3) rm(3), of rg ta s] completed_kept_all [OF assms(4,8)] assms(9)
    by (auto simp: job_queue_run_def run_handler_def update_conv')
  note get = get_result_as [OF _ assms(1), of i _ _ sa "\<lambda>_. v"] this
  from get(1) [OF assms(6)] get(2) assms(7,10,11) key
  have denied: "job_queue_run L rg tb (Own Result_get) om sa
      = Done sa [Reply (im_id om) (jl_write L (status_doc Access_denied []))]"
    by (simp add: job_queue_run_def run_handler_def)
  let ?s2 = "sa\<lparr>jq_completed := AList.delete i (jq_completed sa)\<rparr>"
  have one: "job_queue_run L rg tc (Own Result_get) qm sa
      = Done ?s2 [Reply (im_id qm) (jl_write L (job_reply_doc_as v j Ok))]"
    using get(1) [OF assms(5)] get(2) assms(10,11) key by (simp add: job_queue_run_def run_handler_def)
  have two: "job_queue_run L rg td (Own Result_get) qm ?s2
      = Done ?s2 [Reply (im_id qm) (jl_write L (status_doc Fail ''Job not found or not yet started''))]"
    using get_result_as [OF assms(5,1), of ?s2 "\<lambda>_. v"] assms(11)
    by (simp add: job_queue_run_def run_handler_def map_of_delete)
  have "j_progress j = 100" "j_completed j"
    by (simp_all add: assms(9) reported_job_def job_set_progress_def)
  with denied one two show ?thesis by blast
qed

theorem result_delivered_once_witness:
  "let s1 = final_state job_queue_new (job_queue_run ref_lib (\<lambda>_. ''id'') 5 (Own Result_set) (sample_request 1) job_queue_new);
       om = \<lparr>im_id = 9, im_doc = JObject [(''@api_key'', JString ''stranger''), (''@job_id'', JString ''job'')]\<rparr>
   in job_queue_run ref_lib (\<lambda>_. ''id'') 6 (Own Result_get) om s1
        = Done s1 [Reply 9 (jl_write ref_lib (status_doc Access_denied []))]
    \<and> (\<exists>s2 text. job_queue_run ref_lib (\<lambda>_. ''id'') 7 (Own Result_get) (sample_request 2) s1
        = Done s2 [Reply 2 text])"
proof -
  let ?s1 = "final_state job_queue_new (job_queue_run ref_lib (\<lambda>_. ''id'') 5 (Own Result_set) (sample_request 1) job_queue_new)"
  let ?om = "\<lparr>im_id = 9, im_doc = JObject [(''@api_key'', JString ''stranger''), (''@job_id'', JString ''job'')]\<rparr>"
  have r: "result_request ref_lib ''job'' ''key'' (sample_request i)"
    "result_request ref_lib ''job'' ''stranger'' ?om" for i
    by (simp_all add: result_request_def get_meta_def meta_key_def get_string_def get_as_def,
        simp_all add: message_find_plain plain_key_def passable_def)
  have "map_of (jq_in_progress ?s1) ''job'' = None"
    using set_result_eq [of ref_lib "sample_request 1" "''job''" "\<lambda>_. ''id''" 5 job_queue_new] r(1)
    by (auto simp: job_queue_run_def run_handler_def result_request_def map_of_delete job_queue_new_def)
  from result_delivered_once [where es = "[]" and rg = "\<lambda>_. ''id''" and ta = 5 and tb = 6 and tc = 7 and td = 7
      and s = job_queue_new, OF _ r(1) [of 1] _ _ r(1) [of 2] r(2) _ _ refl reads_back_as this]
  show ?thesis by (auto simp: Let_def)
qed

text \<open>
  The key is not asked for while a job is in progress: any request with the identifier of a
  job that has no result yet is answered \<open>not_ready\<close> together with the whole job, its parameters
  and the submitter's key included.
\<close>

theorem progress_discloses_job:
  assumes "jlib_ok L" and "result_request L i key msg" and "map_of (jq_completed s) i = None"
    and "map_of (jq_in_progress s) i = Some j" and "reads_as L j v"
  shows "\<exists>d. job_queue_run L rg now (Own Result_get) msg s = Done s [Reply (im_id msg) (jl_write L d)]
    \<and> message_find ''@status_code'' d = Some (JInt (code_of Not_ready))
    \<and> message_find ''@api_key'' d = Some (JString (j_api_key j))
    \<and> message_find ''parameters'' d = Some (j_parameters j)"
  using assms get_result_as [OF assms(2,1), of s "\<lambda>_. v"]
  by (intro exI [of _ "job_reply_doc_as v j Not_ready"])
    (simp add: job_queue_run_def run_handler_def job_reply_doc_as_find plain_key_def job_doc_as_find)

theorem progress_discloses_job_witness:
  "\<exists>d. job_queue_run ref_lib (\<lambda>_. ''id'') 5 (Own Result_get)
        \<lparr>im_id = 9, im_doc = JObject [(''@api_key'', JString ''stranger''), (''@job_id'', JString ''job'')]\<rparr>
        (job_queue_new\<lparr>jq_in_progress := [(''job'', job_blank\<lparr>j_id := ''job'', j_api_key := ''secret''\<rparr>)]\<rparr>)
      = Done (job_queue_new\<lparr>jq_in_progress := [(''job'', job_blank\<lparr>j_id := ''job'', j_api_key := ''secret''\<rparr>)]\<rparr>)
          [Reply 9 (jl_write ref_lib d)]
    \<and> message_find ''@api_key'' d = Some (JString ''secret'')"
proof -
  let ?m = "\<lparr>im_id = 9, im_doc = JObject [(''@api_key'', JString ''stranger''), (''@job_id'', JString ''job'')]\<rparr>"
  have "result_request ref_lib ''job'' ''stranger'' ?m"
    by (simp add: result_request_def get_meta_def meta_key_def get_string_def get_as_def message_find_plain
        plain_key_def passable_def)
  with progress_discloses_job [of ref_lib "''job''" "''stranger''" ?m
      "job_queue_new\<lparr>jq_in_progress := [(''job'', job_blank\<lparr>j_id := ''job'', j_api_key := ''secret''\<rparr>)]\<rparr>"
      "job_blank\<lparr>j_id := ''job'', j_api_key := ''secret''\<rparr>" _ "\<lambda>_. ''id''" 5, OF _ _ _ _ reads_back_as]
  show ?thesis by (auto simp: job_queue_new_def)
qed

text \<open>
  Administration without an answer: a \<open>manage\<close> request that clears, removes or switches all
  queues and names no existing queue is carried out, but its sender never gets a reply. All
  others are answered once (or their exception leaves the handler).
\<close>

theorem manage_answers:
  "let r = job_queue_run L rg now (Own Queue_manage) msg s; d = im_doc msg;
       name = get_string L ''queue'' [] d;
       silent = manages_all L d \<and> map_of (jq_queues (manage_all L d s)) name = None
                \<and> (name = [] \<or> message_is_null ''create'' d)
   in if silent then r = Done (manage_all L d s) []
      else (completes r \<and> (\<exists>n. sent r = [n] \<and> net_id n = im_id msg)) \<or> (\<exists>s'. r = Raised JsonLogicError s' [])"
proof -
  have one: "(completes (answer x s1 s2) \<and> (\<exists>n. sent (answer x s1 s2) = [n] \<and> net_id n = im_id msg))
      \<or> (\<exists>s'. answer x s1 s2 = Raised JsonLogicError s' [])"
    if "case x of Inl e \<Rightarrow> e = JsonLogicError | Inr n \<Rightarrow> net_id n = im_id msg" for x and s1 s2 :: job_queue
    using that by (cases x) auto
  have clear: "case rbind (message_clear d) (\<lambda>d'. im_reply L (msg\<lparr>im_doc := d'\<rparr>)) of
      Inl e \<Rightarrow> e = JsonLogicError | Inr n \<Rightarrow> net_id n = im_id msg" for d
    by (cases d) (auto simp: message_clear_def im_reply_eq)
  have fails: "case im_fail L msg x of Inl e \<Rightarrow> e = JsonLogicError | Inr n \<Rightarrow> net_id n = im_id msg"
    "case im_fail_code L msg st x of Inl e \<Rightarrow> e = JsonLogicError | Inr n \<Rightarrow> net_id n = im_id msg"
    "case im_reply L msg of Inl e \<Rightarrow> e = JsonLogicError | Inr n \<Rightarrow> net_id n = im_id msg" for x st
    by (simp_all add: reply_eqs)
  let ?s = "manage_all L (im_doc msg) s" and ?n = "get_string L ''queue'' [] (im_doc msg)"
  show ?thesis
  proof (cases "?n \<noteq> [] \<and> \<not> message_is_null ''create'' (im_doc msg)")
    case True
    then show ?thesis
      using one [OF clear] one [OF fails(1)]
      by (simp add: job_queue_run_def run_handler_def job_manage_eq Let_def case_prod_unfold)
  next
    case False
    then show ?thesis
      using one [OF fails(2)] one [OF fails(3)]
      by (auto simp: job_queue_run_def run_handler_def job_manage_eq Let_def split: option.split)
  qed
qed

theorem manage_answers_witness:
  "job_queue_run ref_lib (\<lambda>_. ''id'') 5 (Own Queue_manage)
      \<lparr>im_id = 3, im_doc = JObject [(''clear_all'', JBool True)]\<rparr> job_queue_new = Done job_queue_new []"
proof -
  have f: "message_find ''clear_all'' (JObject [(''clear_all'', JBool True)]) = Some (JBool True)"
    "message_find ''remove_all'' (JObject [(''clear_all'', JBool True)]) = None"
    "message_find ''switch_all'' (JObject [(''clear_all'', JBool True)]) = None"
    "message_find ''queue'' (JObject [(''clear_all'', JBool True)]) = None"
    by (simp_all add: message_find_plain plain_key_def)
  have "manages_all ref_lib (JObject [(''clear_all'', JBool True)])"
    "manage_all ref_lib (JObject [(''clear_all'', JBool True)]) job_queue_new = job_queue_new"
    "get_string ref_lib ''queue'' [] (JObject [(''clear_all'', JBool True)]) = []"
    by (simp_all add: manages_all_def manage_all_def get_bool_def get_string_def get_as_def f message_is_null_def
        clear_all_def job_queue_new_def)
  with manage_answers [of ref_lib "\<lambda>_. ''id''" 5 "\<lparr>im_id = 3, im_doc = JObject [(''clear_all'', JBool True)]\<rparr>" job_queue_new]
  show ?thesis by (simp add: Let_def job_queue_new_def)
qed

text \<open>
  When the service is destroyed every worker parked at an existing queue is rejected exactly
  once with \<open>service_unavailable\<close>, in the order of the queue; workers parked at a queue that was
  removed get nothing.
\<close>

theorem destroy_rejects_workers:
  assumes "reachable_job_queue L rg es = Some s"
  shows "job_queue_destroy s = Inr (concat (map
    (\<lambda>n. map (\<lambda>w. Reject (im_id w) (to_string_int 3 @ '': Service unavailable.'')) (parked n s))
    (keys (jq_queues s))))"
proof -
  have inv: "jq_inv s" using assms by (rule reachable_job_queue_inv)
  have "reject_workers (length ws) w
      = Inr (map (\<lambda>w. Reject (im_id w) (to_string_int 3 @ '': Service unavailable.'')) ws)"
    if "\<not> q_closed w" "q_items w = ws" for w ws
    using that
    by (induction ws arbitrary: w) (simp_all add: queue_pop_def im_reject_code_def)
  then have reject: "reject_workers (queue_count w) w
      = Inr (map (\<lambda>w. Reject (im_id w) (to_string_int 3 @ '': Service unavailable.'')) (q_items w))"
    if "\<not> q_closed w" for w
    using that by (simp add: queue_count_def)
  have "destroy_queues qs (jq_workers s) = Inr (concat (map
      (\<lambda>n. map (\<lambda>w. Reject (im_id w) (to_string_int 3 @ '': Service unavailable.'')) (parked n s)) (keys qs)))"
    if "\<forall>n \<in> set (keys qs). \<exists>w. map_of (jq_workers s) n = Some w" for qs
    using that
  proof (induction qs)
    case (Cons nq qs)
    then obtain w where w: "map_of (jq_workers s) (fst nq) = Some w" by auto
    with inv have "\<not> q_closed w" by (auto simp: jq_inv_def)
    with Cons w reject show ?case by (cases nq) (simp add: parked_def)
  qed simp
  moreover have "\<forall>n \<in> set (keys (jq_queues s)). \<exists>w. map_of (jq_workers s) n = Some w"
  proof
    fix n assume "n \<in> set (keys (jq_queues s))"
    then obtain q where "map_of (jq_queues s) n = Some q"
      by (metis list.set_map map_of_eq_None_iff not_None_eq)
    with inv show "\<exists>w. map_of (jq_workers s) n = Some w" by (rule jq_inv_queueE) blast
  qed
  ultimately show ?thesis by (simp add: job_queue_destroy_def)
qed

theorem destroy_rejects_workers_witness:
  "job_queue_destroy sample_parked_service = Inr [Reject 7 (to_string_int 3 @ '': Service unavailable.'')]"
  using destroy_rejects_workers [OF sample_parked]
  by (simp add: sample_parked_service_def parked_def)

end
