(* ===== verification/Nix_Host.thy ===== *)
theory Nix_Host
  imports Nix_Strings
begin

text \<open>
  The program and its host: paths (src/src/nix/util/fs.cxx), pid files (util/pid.cxx) and the
  daemon (init/daemon.cxx). The functions of the C library and of the kernel are a parameter,
  over a world \<open>'w\<close>: the file system and the processes.
\<close>

section \<open>The C library and the kernel\<close>

text \<open>
  \<open>os_home\<close> is the variable \<open>HOME\<close>, if it is set; \<open>os_pw_uid\<close> and \<open>os_pw_nam\<close> the home directories
  of the user database, if there is an entry. \<open>os_buffer\<close> is what an array on the stack holds that nobody has
  written to; \<open>os_umask\<close> sets the mask and gives the old one; \<open>os_mkdir\<close> takes a mode and gives the error
  number, zero for success; \<open>os_realpath\<close> and \<open>os_wordexp\<close> give nothing when they fail; \<open>os_read_pid\<close> the number a stream extracts from a file, zero when it is none, or
  nothing when the file cannot be opened; \<open>os_alive\<close> whether \<open>kill(pid, 0)\<close> succeeds; \<open>os_daemon\<close>
  the value of \<open>daemon\<close>.
\<close>

record 'w host =
  os_home :: "string option"
  os_pw_uid :: "string option"
  os_pw_nam :: "string \<Rightarrow> string option"
  os_buffer :: "'w \<Rightarrow> string"
  os_dirname :: "string \<Rightarrow> string"
  os_basename :: "string \<Rightarrow> string"
  os_realpath :: "string \<Rightarrow> 'w \<Rightarrow> string option"
  os_wordexp :: "string \<Rightarrow> 'w \<Rightarrow> string list option \<times> 'w"
  os_umask :: "32 word \<Rightarrow> 'w \<Rightarrow> 32 word \<times> 'w"
  os_access :: "string \<Rightarrow> 'w \<Rightarrow> bool"
  os_mkdir :: "string \<Rightarrow> 32 word \<Rightarrow> 'w \<Rightarrow> int \<times> 'w"
  os_read_pid :: "string \<Rightarrow> 'w \<Rightarrow> int option"
  os_write_pid :: "string \<Rightarrow> int \<Rightarrow> 'w \<Rightarrow> 'w"
  os_unlink :: "string \<Rightarrow> 'w \<Rightarrow> bool \<times> 'w"
  os_alive :: "int \<Rightarrow> 'w \<Rightarrow> bool"
  os_daemon :: "bool \<Rightarrow> bool \<Rightarrow> 'w \<Rightarrow> int \<times> 'w"
  os_getpid :: "'w \<Rightarrow> int"

section \<open>Paths\<close>

definition home_of_path :: "'w host \<Rightarrow> string \<Rightarrow> nat option \<Rightarrow> string res" where
  "home_of_path H path pos =
     (if length path = 1 \<or> pos = Some 1 then
        (case os_home H of
           None \<Rightarrow> Inl UndefinedBehaviour
         | Some h \<Rightarrow> Inr (if h = [] then (case os_pw_uid H of Some d \<Rightarrow> d | None \<Rightarrow> h) else h))
      else
        (let username = substr path 1 pos
         in Inr (case os_pw_nam H username of Some d \<Rightarrow> d | None \<Rightarrow> [])))"

definition expand_user :: "'w host \<Rightarrow> string \<Rightarrow> string res" where
  "expand_user H path =
     (if length path = 0 then Inr path
      else if path ! 0 \<noteq> CHR 0x7E then Inr path
      else
        let pos = find_first_of path ''/'' (Some 0)
        in rbind (home_of_path H path pos) (\<lambda>exp.
             if length exp = 0 then Inr path
             else case pos of
                 None \<Rightarrow> Inr exp
               | Some p \<Rightarrow>
                   Inr ((if exp ! (length exp - 1) \<noteq> CHR ''/'' then exp @ ''/'' else exp)
                     @ substr path (p + 1) None)))"

text \<open>The two tests compute the expanded path and then ask for the path as it was given.\<close>

definition path_exists :: "'w host \<Rightarrow> string \<Rightarrow> (bool, 'w) action" where
  "path_exists H path =
     act_bind (act_lift (expand_user H path)) (\<lambda>resolved w. (Inr (os_access H path w), w))"

definition file_exists :: "'w host \<Rightarrow> string \<Rightarrow> (bool, 'w) action" where
  "file_exists H path =
     act_bind (act_lift (expand_user H path)) (\<lambda>resolved w. (Inr (os_access H path w), w))"

text \<open>
  The names of a directory and of a file are computed on a copy of the path on the stack, which gets no zero
  byte of its own: the functions of the C library read on to the first one they find.
\<close>

definition path_max :: nat where "path_max = 4096"

definition stack_copy :: "'w host \<Rightarrow> string \<Rightarrow> (string, 'w) action" where
  "stack_copy H path w =
     (if length path > path_max then Inl UndefinedBehaviour
      else let cpath = path @ drop (length path) (take path_max (os_buffer H w))
        in if CHR 0x00 \<in> set cpath then Inr (takeWhile (\<lambda>c. c \<noteq> CHR 0x00) cpath) else Inl UndefinedBehaviour, w)"

definition fs_dirname :: "'w host \<Rightarrow> string \<Rightarrow> (string, 'w) action" where
  "fs_dirname H path = act_bind (stack_copy H path) (\<lambda>cpath. act_ret (os_dirname H cpath))"

definition fs_basename :: "'w host \<Rightarrow> string \<Rightarrow> (string, 'w) action" where
  "fs_basename H path = act_bind (stack_copy H path) (\<lambda>cpath. act_ret (os_basename H cpath))"

text \<open>A path that cannot be resolved leaves the buffer of the result as it was.\<close>

definition resolve_path :: "'w host \<Rightarrow> string \<Rightarrow> (string, 'w) action" where
  "resolve_path H path =
     act_bind (act_lift (expand_user H path)) (\<lambda>exp w.
       (case os_realpath H exp w of Some out \<Rightarrow> Inr out | None \<Rightarrow> Inl UndefinedBehaviour, w))"

definition wexpand :: "'w host \<Rightarrow> string \<Rightarrow> (string, 'w) action" where
  "wexpand H path w =
     (case os_wordexp H path w of
        (None, w') \<Rightarrow> (Inl UndefinedBehaviour, w')
      | (Some ws, w') \<Rightarrow> (Inr (case ws of [] \<Rightarrow> [] | v # vs \<Rightarrow> v), w'))"

text \<open>The mask can only be read by setting it.\<close>

definition getumask :: "'w host \<Rightarrow> (32 word, 'w) action" where
  "getumask H w = (let (mask, w1) = os_umask H 0 w; (zero, w2) = os_umask H mask w1 in (Inr mask, w2))"

text \<open>\<open>mkdir\<close> with the mode \<open>0777 - getumask()\<close>, on one name after the other, up to the first that fails.\<close>

definition make_dir :: "'w host \<Rightarrow> string \<Rightarrow> (int, 'w) action" where
  "make_dir H name =
     act_bind (getumask H) (\<lambda>mask w. let (err, w') = os_mkdir H name (0x1FF - mask) w in (Inr err, w'))"

fun mkdir_each :: "'w host \<Rightarrow> string list \<Rightarrow> (int, 'w) action" where
  "mkdir_each H [] = act_ret 0"
| "mkdir_each H (part # parts) =
     act_bind (make_dir H part) (\<lambda>err. if err \<noteq> 0 then act_ret err else mkdir_each H parts)"

definition create_dir :: "'w host \<Rightarrow> string \<Rightarrow> bool \<Rightarrow> (int, 'w) action" where
  "create_dir H path recurse =
     act_bind (act_lift (expand_user H path)) (\<lambda>exp.
     if recurse then mkdir_each H (split exp ''/'') else mkdir_each H [path])"

section \<open>Pid files\<close>

definition pidfile_exists :: "'w host \<Rightarrow> string \<Rightarrow> (bool, 'w) action" where
  "pidfile_exists H path = file_exists H path"

definition pidfile_write :: "'w host \<Rightarrow> string \<Rightarrow> int \<Rightarrow> (bool, 'w) action" where
  "pidfile_write H path pid =
     act_bind (act_lift (expand_user H path)) (\<lambda>pidpath w. (Inr True, os_write_pid H pidpath pid w))"

definition pidfile_read :: "'w host \<Rightarrow> string \<Rightarrow> (int, 'w) action" where
  "pidfile_read H path =
     act_bind (act_lift (expand_user H path)) (\<lambda>pidpath.
     act_bind (pidfile_exists H pidpath) (\<lambda>there w.
       (Inr (if there then (case os_read_pid H path w of Some pid \<Rightarrow> pid | None \<Rightarrow> 0) else 0), w)))"

definition pidfile_remove :: "'w host \<Rightarrow> string \<Rightarrow> (bool, 'w) action" where
  "pidfile_remove H path =
     act_bind (act_lift (expand_user H path)) (\<lambda>pidpath w.
       let (ok, w') = os_unlink H pidpath w in (Inr ok, w'))"

definition is_pid_alive :: "'w host \<Rightarrow> int \<Rightarrow> (bool, 'w) action" where
  "is_pid_alive H pid w = (Inr (os_alive H pid w), w)"

section \<open>The daemon\<close>

definition act_when :: "bool \<Rightarrow> (unit, 'w) action \<Rightarrow> (unit, 'w) action" where
  "act_when b m = (if b then m else act_ret ())"

definition act_throw :: "exc \<Rightarrow> ('a, 'w) action" where
  "act_throw e w = (Inl e, w)"

definition daemonize :: "'w host \<Rightarrow> bool \<Rightarrow> (unit, 'w) action" where
  "daemonize H no_close_fds w =
     (let (d, w1) = os_daemon H True no_close_fds w
      in if d = - 1 then (Inl (FatalError ''daemon() failed''), w1)
         else if d = 0 then
           (let (d2, w2) = os_daemon H False no_close_fds w1
            in if d2 = - 1 then (Inl (FatalError ''second daemon() call failed''), w2) else (Inr (), w2))
         else (Inr (), w1))"

definition start_daemon :: "'w host \<Rightarrow> bool \<Rightarrow> string \<Rightarrow> (int, 'w) action" where
  "start_daemon H no_close_fds pidfile =
     act_bind (fs_dirname H pidfile) (\<lambda>dirname.
     act_bind (path_exists H dirname) (\<lambda>dir_exists.
     act_bind (act_when (\<not> dir_exists)
       (act_bind (create_dir H dirname False) (\<lambda>error.
          act_when (error \<noteq> 0) (act_throw (FatalError ''start_daemon() failed''))))) (\<lambda>_.
     act_bind (file_exists H pidfile) (\<lambda>there.
     act_bind (act_when there
       (act_bind (pidfile_read H pidfile) (\<lambda>other_pid.
        act_bind (is_pid_alive H other_pid) (\<lambda>alive.
          act_when alive (act_throw (FatalError ''Another instance running.'')))))) (\<lambda>_.
     act_bind (daemonize H no_close_fds) (\<lambda>_ w.
       act_bind (pidfile_write H pidfile (os_getpid H w)) (\<lambda>_. act_ret (os_getpid H w)) w))))))"

text \<open>\<open>stop_daemon\<close> removes the pid file of a daemon and leaves the program with status zero.\<close>

definition stop_daemon :: "'w host \<Rightarrow> int \<Rightarrow> string \<Rightarrow> (int option, 'w) action" where
  "stop_daemon H server_pid pidfile =
     (if server_pid \<noteq> 0 then act_bind (pidfile_remove H pidfile) (\<lambda>_. act_ret (Some 0))
      else act_ret None)"

section \<open>Properties\<close>

lemma expand_plain: "path = [] \<or> hd path \<noteq> CHR 0x7E \<Longrightarrow> expand_user H path = Inr path"
  by (cases path) (auto simp: expand_user_def)

text \<open>The home directory a path with a tilde refers to; empty when there is none.\<close>

definition home_dir :: "'w host \<Rightarrow> string \<Rightarrow> string" where
  "home_dir H user =
     (let pw = (if user = [] then os_pw_uid H else os_pw_nam H user);
          d = (case pw of None \<Rightarrow> [] | Some d \<Rightarrow> d)
      in if user = [] then (case os_home H of None \<Rightarrow> [] | Some [] \<Rightarrow> d | Some h \<Rightarrow> h) else d)"

lemma slash_after:
  assumes "CHR ''/'' \<notin> set user"
  shows "find_first_of (CHR 0x7E # user) ''/'' (Some 0) = None"
    and "find_first_of (CHR 0x7E # user @ CHR ''/'' # rest) ''/'' (Some 0) = Some (Suc (length user))"
proof -
  have u: "user ! k \<noteq> CHR ''/''" if "k < length user" for k
    using assms that nth_mem by metis
  then have p: "(CHR 0x7E # user @ xs) ! k \<noteq> CHR ''/''" if "k < Suc (length user)" for k xs
    using that by (cases k) (auto simp: nth_append)
  show "find_first_of (CHR 0x7E # user) ''/'' (Some 0) = None"
    using p [of _ "[]"] by (auto simp: find_first_of_def find_from_None_iff)
  show "find_first_of (CHR 0x7E # user @ CHR ''/'' # rest) ''/'' (Some 0) = Some (Suc (length user))"
    using p by (auto simp: find_first_of_def find_from_Some_iff)
qed

lemma home_of_path_dir:
  assumes "user \<noteq> [] \<or> os_home H \<noteq> None" and "CHR ''/'' \<notin> set user"
  shows "home_of_path H (CHR 0x7E # user) None = Inr (home_dir H user)"
    and "home_of_path H (CHR 0x7E # user @ CHR ''/'' # rest) (Some (Suc (length user))) = Inr (home_dir H user)"
  using assms
  by (auto simp: home_of_path_def home_dir_def substr_def Let_def split: option.split list.split)

text \<open>
  What \<open>expand_user\<close> makes of a path that begins with a tilde and perhaps a user: the user's home
  directory, with the rest of the path behind exactly one slash; the path itself when there is
  no such directory. It needs \<open>HOME\<close> to be set for a path that names no user.
\<close>

theorem expand_user_tilde:
  assumes "CHR ''/'' \<notin> set user" and "user \<noteq> [] \<or> os_home H \<noteq> None"
  shows "expand_user H (CHR 0x7E # user) =
      Inr (if home_dir H user = [] then CHR 0x7E # user else home_dir H user)
    \<and> expand_user H (CHR 0x7E # user @ CHR ''/'' # rest) =
      Inr (if home_dir H user = [] then CHR 0x7E # user @ CHR ''/'' # rest
           else if last (home_dir H user) = CHR ''/'' then home_dir H user @ rest
           else home_dir H user @ CHR ''/'' # rest)"
  using slash_after [OF assms(1)] home_of_path_dir [OF assms(2,1)]
  by (auto simp: expand_user_def Let_def substr_def last_conv_nth)

text \<open>A host with one user, whose files are the paths in a list and whose pid files hold a number.\<close>

definition sample_host :: "string list host" where
  "sample_host = \<lparr>os_home = Some ''/home/u'', os_pw_uid = None, os_pw_nam = (\<lambda>n. None),
     os_buffer = (\<lambda>w. replicate path_max (CHR 0x00)), os_dirname = (\<lambda>p. ''.''), os_basename = (\<lambda>p. p),
     os_realpath = (\<lambda>p w. if p \<in> set w then Some p else None), os_wordexp = (\<lambda>p w. (Some [p], w)),
     os_umask = (\<lambda>m w. (0x12, w)), os_access = (\<lambda>p w. p \<in> set w), os_mkdir = (\<lambda>p m w. (0, w @ [p])), os_read_pid = (\<lambda>p w. None), os_write_pid = (\<lambda>p n w. w @ [p]),
     os_unlink = (\<lambda>p w. (True, removeAll p w)), os_alive = (\<lambda>n w. n = 0),
     os_daemon = (\<lambda>a b w. (0, w)), os_getpid = (\<lambda>w. 7)\<rparr>"

theorem expand_user_tilde_witness:
  "expand_user sample_host ''~/x'' = Inr ''/home/u/x''"
  using expand_user_tilde [of "[]" sample_host "''x''"]
  by (simp add: sample_host_def home_dir_def)

text \<open>
  What the name of a directory is computed from: the path with whatever the array on the stack happens to
  hold behind it, up to the first zero byte. The name is right exactly when a zero byte is there.
\<close>

theorem dirname_reads_on:
  assumes "length path < path_max" and "CHR 0x00 \<notin> set path" and "length (os_buffer H w) = path_max"
  shows "fs_dirname H path w =
      (let rest = drop (length path) (os_buffer H w)
       in if CHR 0x00 \<in> set rest then Inr (os_dirname H (path @ takeWhile (\<lambda>c. c \<noteq> CHR 0x00) rest))
          else Inl UndefinedBehaviour, w)"
proof -
  have "takeWhile (\<lambda>c. c \<noteq> CHR 0x00) (path @ rest) = path @ takeWhile (\<lambda>c. c \<noteq> CHR 0x00) rest" for rest
    using assms(2) by (intro takeWhile_append2) auto
  with assms show ?thesis by (simp add: fs_dirname_def stack_copy_def act_bind_def act_ret_def Let_def)
qed

theorem dirname_reads_on_witness:
  "fs_dirname (sample_host\<lparr>os_buffer := (\<lambda>w. replicate 4 CHR ''x'' @ replicate 4092 CHR 0x00), os_dirname := (\<lambda>p. p)\<rparr>) ''/v'' []
     = (Inr ''/vxx'', [])"
proof -
  have "drop 2 (replicate 4 CHR ''x'' @ replicate 4092 CHR 0x00) = CHR ''x'' # CHR ''x'' # CHR 0x00 # replicate 4091 CHR 0x00"
    by (simp add: drop_append eval_nat_numeral(3) [of Num.One] numeral_eq_Suc)
  then show ?thesis
    by (subst dirname_reads_on) (simp_all add: path_max_def)
qed

lemma dirname_clean:
  assumes "length path < path_max" and "CHR 0x00 \<notin> set path" and "os_buffer H w = replicate path_max (CHR 0x00)"
  shows "fs_dirname H path w = (Inr (os_dirname H path), w)"
proof -
  obtain n where n: "path_max - length path = Suc n"
    using assms(1) by (cases "path_max - length path") auto
  show ?thesis
    using assms by (simp add: dirname_reads_on Let_def n)
qed

text \<open>Reading the mask leaves it as it was; in between it is zero, for every thread.\<close>

lemma getumask_keeps:
  assumes "\<And>m w. os_umask H m w = (mask w, with_mask m w)"
    and "\<And>m m' w. with_mask m' (with_mask m w) = with_mask m' w" and "\<And>w. with_mask (mask w) w = w"
  shows "getumask H w = (Inr (mask w), w)"
  using assms by (simp add: getumask_def)

text \<open>
  \<open>create_dir\<close> with \<open>recurse\<close> does not make a path: it calls \<open>mkdir\<close> on the bare names between the
  slashes, so the directories are made beside each other in the working directory, and an
  absolute path gives the same calls as a relative one.
\<close>

theorem create_dir_makes_siblings:
  assumes "path = [] \<or> hd path \<noteq> CHR 0x7E"
  shows "create_dir H (''/'' @ path) True w = mkdir_each H (split path ''/'') w
    \<and> create_dir H path True w = mkdir_each H (split path ''/'') w
    \<and> (\<forall>part \<in> set (split path ''/''). CHR ''/'' \<notin> set part)"
  using assms tokens_shape [of _ "\<lambda>c. c \<in> set ''/''" path]
  by (auto simp: create_dir_def expand_plain split_tokens)

theorem create_dir_makes_siblings_witness:
  "create_dir sample_host ''/var/nix'' True [] = (Inr 0, [''var'', ''nix''])"
proof -
  have "split ''var/nix'' ''/'' = [''var'', ''nix'']"
    using tokens_append_delim [of "\<lambda>c. c \<in> set ''/''" "CHR ''/''" "''var''" "''nix''"]
      tokens_single [of "''var''" "\<lambda>c. c \<in> set ''/''"] tokens_single [of "''nix''" "\<lambda>c. c \<in> set ''/''"]
    by (simp add: split_tokens)
  then show ?thesis
    using create_dir_makes_siblings [of "''var/nix''" sample_host "[]"]
    by (simp add: sample_host_def make_dir_def getumask_def act_bind_def act_ret_def)
qed

text \<open>
  A daemon does not start while the pid file names a live process, and leaves everything as it
  was. A pid file without a number, or one that cannot be read, counts as naming process 0, which
  \<open>kill\<close> reports alive: it stops every start until it is removed by hand.
\<close>

theorem start_daemon_refuses:
  assumes "hd pidfile \<noteq> CHR 0x7E" and "fs_dirname H pidfile w = (Inr dir, w)" and "hd dir \<noteq> CHR 0x7E"
    and "os_access H dir w" and "os_access H pidfile w"
    and "os_alive H (case os_read_pid H pidfile w of None \<Rightarrow> 0 | Some pid \<Rightarrow> pid) w"
  shows "start_daemon H b pidfile w = (Inl (FatalError ''Another instance running.''), w)"
  using assms
  by (simp add: start_daemon_def path_exists_def file_exists_def pidfile_read_def pidfile_exists_def
      is_pid_alive_def expand_plain act_when_def act_throw_def act_bind_def)

theorem start_daemon_refuses_witness:
  "start_daemon sample_host False ''nix.pid'' [''.'', ''nix.pid'']
     = (Inl (FatalError ''Another instance running.''), [''.'', ''nix.pid''])"
  by (rule start_daemon_refuses [where dir = "''.''"]) (simp_all add: dirname_clean sample_host_def path_max_def)

text \<open>
  A daemon that starts leaves its own number in the pid file: it is what \<open>start_daemon\<close> returns
  and what is written last.
\<close>

theorem start_daemon_records:
  assumes "start_daemon H b pidfile w = (Inr pid, w')" and "hd pidfile \<noteq> CHR 0x7E"
  shows "\<exists>v. pid = os_getpid H v \<and> w' = os_write_pid H pidfile (os_getpid H v) v"
proof -
  obtain v x where "pidfile_write H pidfile (os_getpid H v) v = (Inr x, w')" "pid = os_getpid H v"
    using assms(1) unfolding start_daemon_def act_bind_def by (auto split: prod.splits sum.splits)
  with assms(2) show ?thesis
    by (auto simp: pidfile_write_def expand_plain act_bind_def)
qed

theorem start_daemon_records_witness:
  "\<exists>v. (7 :: int) = os_getpid sample_host v \<and> [''.'', ''nix.pid''] = os_write_pid sample_host ''nix.pid'' 7 v"
proof -
  have "start_daemon sample_host False ''nix.pid'' [''.''] = (Inr 7, [''.'', ''nix.pid''])"
    by (simp add: start_daemon_def dirname_clean path_max_def path_exists_def file_exists_def expand_plain act_when_def act_bind_def
        daemonize_def pidfile_write_def sample_host_def act_ret_def act_lift_def)
  from start_daemon_records [OF this] show ?thesis by (simp add: sample_host_def)
qed

end
