(* ===== verification/Nix_Options.thy ===== *)
theory Nix_Options
  imports Nix_Prelude
begin

text \<open>
  The options of the server and of its clients (src/src/nix/server/options.hxx,
  core/client_config.hxx) and how the program fills them in from its parsed command line and
  configuration (init/common.cxx). \<open>boost::program_options\<close> is not in the repository: its result
  is the parameter \<open>po\<close>, giving the typed value of every option.
\<close>

section \<open>Server options\<close>

record server_options =
  so_start_time :: int
  so_nodename :: string
  so_address :: string
  so_tcp_nonblocking :: bool
  so_tcp_listen_backlog :: int
  so_dispatcher_threads :: int
  so_development_mode :: bool
  so_enable_random_sleep :: bool
  so_manager_thread_enabled :: bool
  so_manager_thread_run_interval :: int
  so_manager_thread_sleep_interval_ms :: int
  so_cache_cleaner_enabled :: bool
  so_cache_cleaner_run_interval :: int
  so_cache_cleaner_sleep_interval_ms :: int
  so_resolver_monitor_enabled :: bool
  so_resolver_monitor_run_interval :: int
  so_resolver_monitor_sleep_interval_ms :: int
  so_resolver_monitor_response_timeout_ms :: int
  so_resolver_monitor_max_failures :: int

definition server_options_default :: server_options where
  "server_options_default =
     \<lparr>so_start_time = 0, so_nodename = [], so_address = ''tcp://*:*'',
      so_tcp_nonblocking = True, so_tcp_listen_backlog = 10, so_dispatcher_threads = 1,
      so_development_mode = False, so_enable_random_sleep = False,
      so_manager_thread_enabled = False, so_manager_thread_run_interval = 120,
      so_manager_thread_sleep_interval_ms = 120,
      so_cache_cleaner_enabled = False, so_cache_cleaner_run_interval = 60,
      so_cache_cleaner_sleep_interval_ms = 1000,
      so_resolver_monitor_enabled = False, so_resolver_monitor_run_interval = 60,
      so_resolver_monitor_sleep_interval_ms = 1000,
      so_resolver_monitor_response_timeout_ms = 2000,
      so_resolver_monitor_max_failures = 3\<rparr>"

text \<open>The values of the program's options, by type.\<close>

record program_options =
  po_string :: "string \<Rightarrow> string"
  po_int :: "string \<Rightarrow> int"
  po_bool :: "string \<Rightarrow> bool"

definition setup_server_options :: "program_options \<Rightarrow> int \<Rightarrow> server_options \<Rightarrow> server_options" where
  "setup_server_options po now o0 =
     o0\<lparr>so_start_time := narrow32 now,
        so_nodename := po_string po ''nodename'',
        so_address := po_string po ''address'',
        so_tcp_nonblocking := po_bool po ''server.tcp_nonblocking'',
        so_tcp_listen_backlog := po_int po ''server.tcp_listen_backlog'',
        so_dispatcher_threads :=
          (if po_int po ''threads'' \<noteq> 0 then po_int po ''threads'' else po_int po ''server.dispatcher_threads''),
        so_development_mode := po_bool po ''development-mode'',
        so_enable_random_sleep := po_bool po ''enable-random-sleep'',
        so_manager_thread_enabled := po_bool po ''module-manager.manager_thread_enabled'',
        so_manager_thread_run_interval := po_int po ''module-manager.manager_thread_run_interval'',
        so_manager_thread_sleep_interval_ms := po_int po ''module-manager.manager_thread_sleep_interval_ms'',
        so_cache_cleaner_enabled := po_bool po ''builtins.cache.cleaner_enabled'',
        so_cache_cleaner_run_interval := po_int po ''builtins.cache.cleaner_run_interval'',
        so_cache_cleaner_sleep_interval_ms := po_int po ''builtins.cache.cleaner_sleep_interval_ms'',
        so_resolver_monitor_enabled := po_bool po ''builtins.resolver.monitor_enabled'',
        so_resolver_monitor_run_interval := po_int po ''builtins.resolver.monitor_run_interval'',
        so_resolver_monitor_sleep_interval_ms := po_int po ''builtins.resolver.monitor_sleep_interval_ms'',
        so_resolver_monitor_max_failures := po_int po ''builtins.resolver.monitor_max_failures'',
        so_resolver_monitor_response_timeout_ms :=
          po_int po ''builtins.resolver.monitor_response_timeout_ms''\<rparr>"

section \<open>Client options\<close>

record client_config =
  cc_local_nodename :: string
  cc_local_address :: string
  cc_api_key_private :: string
  cc_api_key_public :: string
  cc_srv_resolver_address :: string
  cc_srv_cache_address :: string
  cc_srv_job_queue_address :: string
  cc_srv_broker_address :: string
  cc_is_local_resolver :: bool
  cc_is_local_cache :: bool
  cc_is_local_job_queue :: bool
  cc_is_local_broker :: bool
  cc_generic_client_pool_size :: nat
  cc_resolver_client_pool_size :: nat
  cc_cache_client_pool_size :: nat
  cc_job_queue_client_pool_size :: nat
  cc_broker_client_pool_size :: nat

definition client_config_default :: client_config where
  "client_config_default =
     \<lparr>cc_local_nodename = [], cc_local_address = [], cc_api_key_private = [], cc_api_key_public = [],
      cc_srv_resolver_address = [], cc_srv_cache_address = [], cc_srv_job_queue_address = [],
      cc_srv_broker_address = [], cc_is_local_resolver = False, cc_is_local_cache = False,
      cc_is_local_job_queue = False, cc_is_local_broker = False, cc_generic_client_pool_size = 5,
      cc_resolver_client_pool_size = 5, cc_cache_client_pool_size = 5, cc_job_queue_client_pool_size = 5,
      cc_broker_client_pool_size = 5\<rparr>"

text \<open>
  The configuration of the clients. The function returns a null pointer whatever it has read
  (the construction of the pool is commented out), so the modules get no clients.
\<close>

text \<open>An address that is configured, or the local one for a local service, or as it was.\<close>

definition srv_address :: "string \<Rightarrow> bool \<Rightarrow> string \<Rightarrow> string \<Rightarrow> string" where
  "srv_address given is_local local_address old =
     (if given \<noteq> [] then given else if is_local then local_address else old)"

definition client_config_base :: "program_options \<Rightarrow> client_config" where
  "client_config_base po = client_config_default
        \<lparr>cc_local_nodename := po_string po ''nodename'',
         cc_local_address := po_string po ''address'',
         cc_api_key_private := po_string po ''auth.api_key_private'',
         cc_api_key_public := po_string po ''auth.api_key_public'',
         cc_generic_client_pool_size := size_of_int (po_int po ''resources.generic_client_pool_size''),
         cc_resolver_client_pool_size := size_of_int (po_int po ''resources.resolver_client_pool_size''),
         cc_cache_client_pool_size := size_of_int (po_int po ''resources.cache_client_pool_size''),
         cc_job_queue_client_pool_size := size_of_int (po_int po ''resources.job_queue_client_pool_size''),
         cc_broker_client_pool_size := size_of_int (po_int po ''resources.broker_client_pool_size''),
         cc_is_local_resolver := po_bool po ''enable-resolver'',
         cc_is_local_cache := po_bool po ''enable-cache'',
         cc_is_local_job_queue := po_bool po ''enable-job-queue'',
         cc_is_local_broker := False\<rparr>"

definition client_config_of :: "program_options \<Rightarrow> client_config" where
  "client_config_of po =
     (let c = client_config_base po;
          c3 = c\<lparr>cc_srv_resolver_address :=
                   srv_address (po_string po ''infrastructure.srv_resolver_address'')
                     (cc_is_local_resolver c) (cc_local_address c) (cc_srv_resolver_address c),
                 cc_srv_cache_address :=
                   srv_address (po_string po ''infrastructure.srv_cache_address'')
                     (cc_is_local_cache c) (cc_local_address c) (cc_srv_cache_address c),
                 cc_srv_job_queue_address :=
                   srv_address (po_string po ''infrastructure.srv_job_queue_address'')
                     (cc_is_local_job_queue c) (cc_local_address c) (cc_srv_job_queue_address c)\<rparr>
      in if po_string po ''infrastructure.srv_broker_address'' \<noteq> []
         then c3\<lparr>cc_srv_broker_address := po_string po ''infrastructure.srv_broker_address''\<rparr>
         else if cc_is_local_broker c3 then c3\<lparr>cc_srv_resolver_address := cc_local_address c3\<rparr> else c3)"

definition setup_client_pool :: "program_options \<Rightarrow> 'pool option" where
  "setup_client_pool po = (let config = client_config_of po in None)"

text \<open>A service without an address of its own is reached at the local one when it runs here.\<close>

lemma client_config_base_simps [simp]:
  "cc_is_local_resolver (client_config_base po) = po_bool po ''enable-resolver''"
  "cc_is_local_cache (client_config_base po) = po_bool po ''enable-cache''"
  "cc_is_local_job_queue (client_config_base po) = po_bool po ''enable-job-queue''"
  "cc_is_local_broker (client_config_base po) = False"
  "cc_local_address (client_config_base po) = po_string po ''address''"
  "cc_srv_resolver_address (client_config_base po) = []"
  "cc_srv_cache_address (client_config_base po) = []"
  "cc_srv_job_queue_address (client_config_base po) = []"
  by (simp_all only: client_config_base_def client_config_default_def client_config.simps)

lemma client_addresses:
  "cc_srv_cache_address (client_config_of po) =
     srv_address (po_string po ''infrastructure.srv_cache_address'') (po_bool po ''enable-cache'')
       (po_string po ''address'') []"
  "cc_srv_resolver_address (client_config_of po) =
     srv_address (po_string po ''infrastructure.srv_resolver_address'') (po_bool po ''enable-resolver'')
       (po_string po ''address'') []"
  "cc_srv_job_queue_address (client_config_of po) =
     srv_address (po_string po ''infrastructure.srv_job_queue_address'') (po_bool po ''enable-job-queue'')
       (po_string po ''address'') []"
  by (simp_all add: client_config_of_def Let_def)

end
