(* ===== verification/Nix_Program_Options.thy ===== *)
theory Nix_Program_Options
  imports Nix_Host Nix_Options
begin

text \<open>
  The program's options (src/src/nix/program_options.cxx, program_options.hxx, options.hxx): the
  tables of what can be given on the command line and in the configuration file, the order in
  which both are read, and which of them each part of the start-up reads at which type.
  \<open>boost::program_options\<close> is not in the repository: its two parsers with \<open>store\<close> are a
  parameter, and \<open>po_lib_ok\<close> is what its documentation says of them.
\<close>

section \<open>Values and descriptions\<close>

datatype opt_value = V_string string | V_int int | V_bool bool

datatype opt_type = T_string | T_int | T_bool

fun opt_type_of :: "opt_value \<Rightarrow> opt_type" where
  "opt_type_of (V_string s) = T_string"
| "opt_type_of (V_int i) = T_int"
| "opt_type_of (V_bool b) = T_bool"

record option_desc =
  od_name :: string
  od_default :: "opt_value option"

definition option_flag :: "string \<Rightarrow> option_desc" where
  "option_flag name = \<lparr>od_name = name, od_default = None\<rparr>"

definition option_string :: "string \<Rightarrow> string \<Rightarrow> option_desc" where
  "option_string name d = \<lparr>od_name = name, od_default = Some (V_string d)\<rparr>"

definition option_int :: "string \<Rightarrow> int \<Rightarrow> option_desc" where
  "option_int name d = \<lparr>od_name = name, od_default = Some (V_int d)\<rparr>"

definition option_bool :: "string \<Rightarrow> bool \<Rightarrow> option_desc" where
  "option_bool name d = \<lparr>od_name = name, od_default = Some (V_bool d)\<rparr>"

type_synonym vmap = "(string, opt_value) umap"

text \<open>
  \<open>vm[k].as<T>()\<close> throws when there is no value or it has another type: an element that is not in
  the map reads as an empty one.
\<close>

definition opt_get_string :: "vmap \<Rightarrow> string \<Rightarrow> string res" where
  "opt_get_string vm k = (case map_of vm k of Some (V_string s) \<Rightarrow> Inr s | _ \<Rightarrow> Inl BadAnyCast)"

definition opt_get_int :: "vmap \<Rightarrow> string \<Rightarrow> int res" where
  "opt_get_int vm k = (case map_of vm k of Some (V_int i) \<Rightarrow> Inr i | _ \<Rightarrow> Inl BadAnyCast)"

definition opt_get_bool :: "vmap \<Rightarrow> string \<Rightarrow> bool res" where
  "opt_get_bool vm k = (case map_of vm k of Some (V_bool b) \<Rightarrow> Inr b | _ \<Rightarrow> Inl BadAnyCast)"

definition has_help :: "vmap \<Rightarrow> bool" where
  "has_help vm = um_count ''help'' vm"

definition is_verbose :: "vmap \<Rightarrow> bool res" where
  "is_verbose vm = rbind (opt_get_bool vm ''debug'') (\<lambda>d. if d then Inr True else opt_get_bool vm ''verbose'')"

section \<open>The library\<close>

text \<open>
  Parsing a command line, or the text of a configuration file whose unknown entries are ignored,
  against descriptions, and storing the result in a map.
\<close>

record po_lib =
  pl_cmdline :: "option_desc list \<Rightarrow> string list \<Rightarrow> vmap \<Rightarrow> vmap res"
  pl_config :: "option_desc list \<Rightarrow> string \<Rightarrow> vmap \<Rightarrow> vmap res"

definition opt_typed :: "vmap \<Rightarrow> string \<times> opt_type \<Rightarrow> bool" where
  "opt_typed vm kt = (case map_of vm (fst kt) of None \<Rightarrow> False | Some v \<Rightarrow> opt_type_of v = snd kt)"

definition opt_sig :: "option_desc \<Rightarrow> string \<times> opt_type option" where
  "opt_sig d = (od_name d, map_option opt_type_of (od_default d))"

definition consistent :: "option_desc list \<Rightarrow> vmap \<Rightarrow> bool" where
  "consistent ds vm \<longleftrightarrow>
     (\<forall>k t v. (k, Some t) \<in> set (map opt_sig ds) \<longrightarrow> map_of vm k = Some v \<longrightarrow> opt_type_of v = t)"

text \<open>
  Documented: after \<open>store\<close> every described option with a default has a value of its type, given or
  default, and what is not described is as before.
\<close>

definition store_ok :: "(option_desc list \<Rightarrow> 'x \<Rightarrow> vmap \<Rightarrow> vmap res) \<Rightarrow> bool" where
  "store_ok f \<longleftrightarrow> (\<forall>ds x vm vm'. f ds x vm = Inr vm' \<longrightarrow> consistent ds vm \<longrightarrow>
     (\<forall>k t. (k, Some t) \<in> set (map opt_sig ds) \<longrightarrow> opt_typed vm' (k, t))
     \<and> (\<forall>k. k \<notin> od_name ` set ds \<longrightarrow> map_of vm' k = map_of vm k))"

definition po_lib_ok :: "po_lib \<Rightarrow> bool" where
  "po_lib_ok P \<longleftrightarrow> store_ok (pl_cmdline P) \<and> store_ok (pl_config P)"

section \<open>The tables\<close>

definition flags_options :: "option_desc list" where
  "flags_options =
     [option_flag ''help'']"

definition generic_options :: "string \<Rightarrow> string \<Rightarrow> option_desc list" where
  "generic_options base_dir nodename =
     [option_string ''config'' (base_dir @ ''/etc/config.ini''),
      option_bool ''no_config'' False,
      option_string ''nodename'' nodename,
      option_string ''dbconfig'' (base_dir @ ''/etc/db.ini''),
      option_string ''basedir'' base_dir,
      option_string ''modulesdir'' (base_dir @ ''/lib''),
      option_string ''logdir'' (base_dir @ ''/logs''),
      option_string ''pidfile'' (base_dir @ ''/nix.pid''),
      option_bool ''verbose'' False,
      option_bool ''fatal'' False,
      option_bool ''foreground'' False,
      option_bool ''debug'' False,
      option_bool ''no-close-fds'' False]"

definition server_start_options :: "option_desc list" where
  "server_start_options =
     [option_string ''address'' ''tcp://*:*'',
      option_int ''threads'' 0]"

definition builtins_options :: "option_desc list" where
  "builtins_options =
     [option_bool ''enable-debug'' False,
      option_bool ''enable-cache'' False,
      option_bool ''enable-resolver'' False,
      option_bool ''enable-job-queue'' False]"

definition builtins_hidden_options :: "option_desc list" where
  "builtins_hidden_options =
     [option_bool ''module-manager.manager_thread_enabled'' False,
      option_int ''module-manager.manager_thread_run_interval'' 60,
      option_int ''module-manager.manager_thread_sleep_interval_ms'' 1000,
      option_bool ''builtins.cache.cleaner_enabled'' False,
      option_int ''builtins.cache.cleaner_run_interval'' 60,
      option_int ''builtins.cache.cleaner_sleep_interval_ms'' 1000,
      option_bool ''builtins.resolver.monitor_enabled'' False,
      option_int ''builtins.resolver.monitor_run_interval'' 20,
      option_int ''builtins.resolver.monitor_sleep_interval_ms'' 1000,
      option_int ''builtins.resolver.monitor_response_timeout_ms'' 2000,
      option_int ''builtins.resolver.monitor_max_failures'' 3]"

definition infrastructure_options :: "option_desc list" where
  "infrastructure_options =
     [option_string ''infrastructure.srv_resolver_address'' [],
      option_string ''infrastructure.srv_cache_address'' [],
      option_string ''infrastructure.srv_broker_address'' [],
      option_string ''infrastructure.srv_job_queue_address'' []]"

definition resources_options :: "option_desc list" where
  "resources_options =
     [option_int ''resources.generic_client_pool_size'' 1,
      option_int ''resources.resolver_client_pool_size'' 1,
      option_int ''resources.cache_client_pool_size'' 1,
      option_int ''resources.job_queue_client_pool_size'' 1,
      option_int ''resources.broker_client_pool_size'' 1]"

definition auth_options :: "option_desc list" where
  "auth_options =
     [option_string ''auth.api_key_private'' [],
      option_string ''auth.api_key_public'' []]"

definition devel_options :: "option_desc list" where
  "devel_options =
     [option_bool ''development-mode'' False,
      option_bool ''enable-random-sleep'' False]"

definition config_own_options :: "option_desc list" where
  "config_own_options =
     [option_int ''server.tcp_listen_backlog'' 10,
      option_bool ''server.tcp_nonblocking'' True,
      option_int ''server.dispatcher_threads'' 10]"


text \<open>What the command line takes, and what the configuration file takes.\<close>

definition command_line_options :: "string \<Rightarrow> string \<Rightarrow> option_desc list" where
  "command_line_options base_dir nodename =
     flags_options @ generic_options base_dir nodename @ server_start_options @ builtins_options
     @ devel_options"

definition config_file_options :: "string \<Rightarrow> string \<Rightarrow> option_desc list" where
  "config_file_options base_dir nodename =
     config_own_options @ generic_options base_dir nodename @ server_start_options @ builtins_options
     @ infrastructure_options @ resources_options @ builtins_hidden_options @ auth_options"

section \<open>Parsing\<close>

text \<open>An exception in \<open>parse\<close> becomes an \<open>InitializationError\<close> with the same text.\<close>

definition init_error :: "'a res \<Rightarrow> 'a res" where
  "init_error r = (case r of
     Inl (RuntimeError m) \<Rightarrow> Inl (FatalError m)
   | Inl BadAnyCast \<Rightarrow> Inl (FatalError ''boost::bad_any_cast: failed conversion using boost::any_cast'')
   | _ \<Rightarrow> r)"

text \<open>
  The two stages of \<open>parse\<close>. \<open>uname\<close> is the host's name, if it can be read, \<open>has_pw\<close> tells whether
  the user has an entry in the user database, \<open>files\<close> gives the text of a file that opens. The
  buffers the path goes through are taken to end where it ends.
\<close>

definition parse_command_line :: "po_lib \<Rightarrow> 'w host \<Rightarrow> string option \<Rightarrow> bool \<Rightarrow> string \<Rightarrow> string list
    \<Rightarrow> (string \<times> string \<times> vmap) res" where
  "parse_command_line P H uname has_pw progname args =
     rbind (expand_user H (os_dirname H (os_dirname H progname))) (\<lambda>base_dir.
     case uname of
       None \<Rightarrow> Inl (RuntimeError ''Unable to read host name'')
     | Some nodename \<Rightarrow>
         if \<not> has_pw then Inl UndefinedBehaviour
         else rbind (pl_cmdline P (command_line_options base_dir nodename) args [])
                (\<lambda>vm. Inr (base_dir, nodename, vm)))"

definition parse_config_file :: "po_lib \<Rightarrow> (string \<Rightarrow> string option) \<Rightarrow> string \<Rightarrow> string \<Rightarrow> vmap \<Rightarrow> vmap res" where
  "parse_config_file P files base_dir nodename vm =
     (if has_help vm then Inr vm
      else
        rbind (opt_get_bool vm ''debug'') (\<lambda>_.
        rbind (opt_get_string vm ''config'') (\<lambda>config_path.
        case files config_path of
          Some text \<Rightarrow> pl_config P (config_file_options base_dir nodename) text vm
        | None \<Rightarrow> rbind (opt_get_bool vm ''no_config'') (\<lambda>no_config.
            if \<not> no_config then Inl (FatalError (''Configuration file not found: '' @ config_path))
            else Inr vm))))"

definition parse_program_options :: "po_lib \<Rightarrow> 'w host \<Rightarrow> string option \<Rightarrow> bool \<Rightarrow> (string \<Rightarrow> string option)
    \<Rightarrow> string \<Rightarrow> string list \<Rightarrow> vmap res" where
  "parse_program_options P H uname has_pw files progname args =
     init_error (rbind (parse_command_line P H uname has_pw progname args)
       (\<lambda>(base_dir, nodename, vm). parse_config_file P files base_dir nodename vm))"

section \<open>Reading the options\<close>

text \<open>
  The options a part of the start-up reads, in its order, each at a type. The first that is missing
  or has another type ends the part with an exception; otherwise \<open>po_of\<close> gives what was read.
\<close>

definition po_of :: "vmap \<Rightarrow> program_options" where
  "po_of vm =
     \<lparr>po_string = (\<lambda>k. case opt_get_string vm k of Inr s \<Rightarrow> s | _ \<Rightarrow> []),
      po_int = (\<lambda>k. case opt_get_int vm k of Inr i \<Rightarrow> i | _ \<Rightarrow> 0),
      po_bool = (\<lambda>k. case opt_get_bool vm k of Inr b \<Rightarrow> b | _ \<Rightarrow> False)\<rparr>"

definition reading :: "(string \<times> opt_type) list \<Rightarrow> (program_options \<Rightarrow> 'a) \<Rightarrow> vmap \<Rightarrow> 'a res" where
  "reading reads f vm = (if list_all (opt_typed vm) reads then Inr (f (po_of vm)) else Inl BadAnyCast)"

definition server_option_reads :: "(string \<times> opt_type) list" where
  "server_option_reads =
     [(''nodename'', T_string), (''address'', T_string),
      (''server.tcp_nonblocking'', T_bool), (''server.tcp_listen_backlog'', T_int),
      (''server.dispatcher_threads'', T_int), (''threads'', T_int),
      (''development-mode'', T_bool), (''enable-random-sleep'', T_bool),
      (''module-manager.manager_thread_enabled'', T_bool),
      (''module-manager.manager_thread_run_interval'', T_int),
      (''module-manager.manager_thread_sleep_interval_ms'', T_int),
      (''builtins.cache.cleaner_enabled'', T_bool), (''builtins.cache.cleaner_run_interval'', T_int),
      (''builtins.cache.cleaner_sleep_interval_ms'', T_int),
      (''builtins.resolver.monitor_enabled'', T_bool), (''builtins.resolver.monitor_run_interval'', T_int),
      (''builtins.resolver.monitor_sleep_interval_ms'', T_int),
      (''builtins.resolver.monitor_max_failures'', T_int),
      (''builtins.resolver.monitor_response_timeout_ms'', T_int)]"

definition client_option_reads :: "(string \<times> opt_type) list" where
  "client_option_reads =
     [(''nodename'', T_string), (''address'', T_string),
      (''auth.api_key_private'', T_string), (''auth.api_key_public'', T_string),
      (''resources.generic_client_pool_size'', T_int), (''resources.resolver_client_pool_size'', T_int),
      (''resources.cache_client_pool_size'', T_int), (''resources.job_queue_client_pool_size'', T_int),
      (''resources.broker_client_pool_size'', T_int),
      (''enable-resolver'', T_bool), (''enable-cache'', T_bool), (''enable-job-queue'', T_bool),
      (''infrastructure.srv_resolver_address'', T_string), (''infrastructure.srv_cache_address'', T_string),
      (''infrastructure.srv_job_queue_address'', T_string), (''infrastructure.srv_broker_address'', T_string)]"

text \<open>What \<open>main\<close>, the set-up of modules, databases and logging and the daemon read.\<close>

definition main_option_reads :: "(string \<times> opt_type) list" where
  "main_option_reads =
     [(''debug'', T_bool), (''foreground'', T_bool), (''basedir'', T_string), (''logdir'', T_string),
      (''modulesdir'', T_string), (''dbconfig'', T_string), (''verbose'', T_bool), (''pidfile'', T_string),
      (''no-close-fds'', T_bool), (''fatal'', T_bool), (''enable-debug'', T_bool), (''enable-resolver'', T_bool),
      (''enable-job-queue'', T_bool), (''config'', T_string), (''enable-cache'', T_bool),
      (''development-mode'', T_bool)]"

definition load_server_options :: "int \<Rightarrow> vmap \<Rightarrow> server_options res" where
  "load_server_options now = reading server_option_reads (\<lambda>po. setup_server_options po now server_options_default)"

definition load_client_pool :: "vmap \<Rightarrow> 'pool option res" where
  "load_client_pool = reading client_option_reads setup_client_pool"

section \<open>The types of the options\<close>

definition all_options :: "string \<Rightarrow> string \<Rightarrow> option_desc list" where
  "all_options base_dir nodename =
     command_line_options base_dir nodename @ config_own_options @ infrastructure_options
     @ resources_options @ builtins_hidden_options @ auth_options"

lemmas option_makers = option_flag_def option_string_def option_int_def option_bool_def opt_sig_def

lemmas option_tables = flags_options_def generic_options_def server_start_options_def
  builtins_options_def devel_options_def config_own_options_def infrastructure_options_def
  resources_options_def builtins_hidden_options_def auth_options_def

lemma option_names_distinct: "distinct (map od_name (all_options base_dir nodename))"
  by (simp add: all_options_def command_line_options_def option_tables option_makers)

lemma option_subsets:
  "set (command_line_options b n) \<subseteq> set (all_options b n)"
  "set (config_file_options b n) \<subseteq> set (all_options b n)"
  by (auto simp: all_options_def command_line_options_def config_file_options_def)

lemma sigs_agree:
  assumes "(k, Some t) \<in> set (map opt_sig (all_options b n))" "(k, Some t') \<in> set (map opt_sig (all_options b n))"
  shows "t = t'"
  using assms option_names_distinct [of b n]
  by (auto simp: opt_sig_def distinct_map inj_on_def) (metis option.inject)

lemma stored_typed:
  "store_ok f \<Longrightarrow> f ds x vm = Inr vm' \<Longrightarrow> consistent ds vm \<Longrightarrow> (k, Some t) \<in> set (map opt_sig ds)
     \<Longrightarrow> opt_typed vm' (k, t)"
  unfolding store_ok_def by blast

lemma stored_other:
  "store_ok f \<Longrightarrow> f ds x vm = Inr vm' \<Longrightarrow> consistent ds vm \<Longrightarrow> k \<notin> od_name ` set ds
     \<Longrightarrow> map_of vm' k = map_of vm k"
  unfolding store_ok_def by blast

lemma command_line_stored:
  assumes "po_lib_ok P" "parse_command_line P H uname has_pw progname args = Inr (b, n, vm)"
  shows "(k, Some t) \<in> set (map opt_sig (command_line_options b n)) \<Longrightarrow> opt_typed vm (k, t)"
    and "k \<notin> od_name ` set (command_line_options b n) \<Longrightarrow> map_of vm k = None"
proof -
  have s: "pl_cmdline P (command_line_options b n) args [] = Inr vm"
    using assms(2) by (auto simp: parse_command_line_def rbind_Inr_iff split: option.splits if_splits)
  have "consistent (command_line_options b n) []" by (simp add: consistent_def)
  moreover have "store_ok (pl_cmdline P)" using assms(1) by (simp add: po_lib_ok_def)
  ultimately show "(k, Some t) \<in> set (map opt_sig (command_line_options b n)) \<Longrightarrow> opt_typed vm (k, t)"
    "k \<notin> od_name ` set (command_line_options b n) \<Longrightarrow> map_of vm k = None"
    using stored_typed [where f = "pl_cmdline P" and k = k and t = t] stored_other [where f = "pl_cmdline P" and k = k] s
    by (blast, simp)
qed

text \<open>Names and types do not depend on the two strings; on closed tables they are computed.\<close>

lemma sigs_closed:
  "map opt_sig (command_line_options b n) = map opt_sig (command_line_options [] [])"
  "map opt_sig (config_file_options b n) = map opt_sig (config_file_options [] [])"
  by (simp_all add: command_line_options_def config_file_options_def option_tables option_makers)

lemma names_of_sigs: "od_name ` set ds = fst ` set (map opt_sig ds)"
  by (force simp: opt_sig_def)

lemma command_line_sigs:
  "list_all (\<lambda>(k, t). k = ''help'' \<or> t \<noteq> None) (map opt_sig (command_line_options [] []))"
  by code_simp

lemma command_line_sig:
  "k \<in> od_name ` set (command_line_options b n) \<Longrightarrow> k \<noteq> ''help'' \<Longrightarrow>
     \<exists>t. (k, Some t) \<in> set (map opt_sig (command_line_options b n))"
  using command_line_sigs unfolding names_of_sigs sigs_closed [of b n] list_all_iff by fastforce

lemma config_no_help: "(''help'', t) \<notin> set (map opt_sig (config_file_options b n))"
proof -
  have "''help'' \<notin> fst ` set (map opt_sig (config_file_options [] []))" by code_simp
  then show ?thesis unfolding sigs_closed [of b n] by (metis fst_conv imageI)
qed

lemma config_consistent:
  assumes "po_lib_ok P" "parse_command_line P H uname has_pw progname args = Inr (b, n, vm)"
  shows "consistent (config_file_options b n) vm"
  unfolding consistent_def
proof (intro allI impI)
  fix k t v assume k: "(k, Some t) \<in> set (map opt_sig (config_file_options b n))" and v: "map_of vm k = Some v"
  then have "k \<in> od_name ` set (command_line_options b n)"
    using command_line_stored(2) [OF assms, of k] by force
  moreover have "k \<noteq> ''help''" using k config_no_help by metis
  ultimately obtain t' where t': "(k, Some t') \<in> set (map opt_sig (command_line_options b n))"
    using command_line_sig by blast
  have "t' = t"
    by (rule sigs_agree [of k _ b n]) (use t' k option_subsets [where b = b and n = n] in auto)
  with command_line_stored(1) [OF assms t'] v show "opt_type_of v = t" by (simp add: opt_typed_def)
qed

lemma config_reads_closed:
  "list_all (\<lambda>(k, t). (k, Some t) \<in> set (map opt_sig (config_file_options [] []))
     \<or> ((k, Some t) \<in> set (map opt_sig (command_line_options [] []))
        \<and> k \<notin> fst ` set (map opt_sig (config_file_options [] []))))
   (server_option_reads @ client_option_reads @ main_option_reads)"
  by code_simp

lemma config_reads:
  "(k, t) \<in> set (server_option_reads @ client_option_reads @ main_option_reads) \<Longrightarrow>
     (k, Some t) \<in> set (map opt_sig (config_file_options b n))
     \<or> ((k, Some t) \<in> set (map opt_sig (command_line_options b n))
        \<and> k \<notin> od_name ` set (config_file_options b n))"
  using config_reads_closed unfolding names_of_sigs sigs_closed [of b n] list_all_iff by blast

text \<open>What is read after the configuration file has been.\<close>

lemma config_read_typed:
  assumes "po_lib_ok P" and "parse_command_line P H uname has_pw progname args = Inr (b, n, vm)"
    and "\<not> has_help vm" and "opt_get_string vm ''config'' = Inr path" and "files path = Some text"
    and "parse_config_file P files b n vm = Inr vm'"
  shows "list_all (opt_typed vm') (server_option_reads @ client_option_reads @ main_option_reads)"
proof -
  have s: "pl_config P (config_file_options b n) text vm = Inr vm'"
    using assms(3-6) by (auto simp: parse_config_file_def rbind_Inr_iff)
  have ok: "store_ok (pl_config P)" using assms(1) by (simp add: po_lib_ok_def)
  note typed = stored_typed [where f = "pl_config P", OF ok s config_consistent [OF assms(1,2)]]
  note other = stored_other [where f = "pl_config P", OF ok s config_consistent [OF assms(1,2)]]
  have "opt_typed vm' (k, t)"
    if "(k, t) \<in> set (server_option_reads @ client_option_reads @ main_option_reads)" for k t
  proof (cases "(k, Some t) \<in> set (map opt_sig (config_file_options b n))")
    case True
    then show ?thesis by (rule typed)
  next
    case False
    with config_reads [OF that, of b n] have c: "(k, Some t) \<in> set (map opt_sig (command_line_options b n))"
      "k \<notin> od_name ` set (config_file_options b n)" by blast+
    with command_line_stored(1) [OF assms(1,2) c(1)] other [OF c(2)] show ?thesis
      by (simp add: opt_typed_def)
  qed
  then show ?thesis by (auto simp: list_all_iff)
qed

section \<open>An instance of the library\<close>

text \<open>
  A library that takes the names of the switches that are given, and gives every other option its
  default; its configuration files set nothing.
\<close>

definition ref_store :: "option_desc list \<Rightarrow> string list \<Rightarrow> vmap \<Rightarrow> vmap res" where
  "ref_store ds args vm =
     (if distinct (map od_name ds) then
        Inr (map (\<lambda>a. (a, V_bool True)) (filter (\<lambda>a. (a, Some T_bool) \<in> set (map opt_sig ds)) args)
          @ vm @ concat (map (\<lambda>d. case od_default d of None \<Rightarrow> [] | Some v \<Rightarrow> [(od_name d, v)]) ds))
      else Inl (RuntimeError ''ambiguous option''))"

definition ref_po_lib :: po_lib where
  "ref_po_lib = \<lparr>pl_cmdline = ref_store, pl_config = (\<lambda>ds text. ref_store ds [])\<rparr>"

text \<open>What it stores.\<close>

definition stored_with :: "option_desc list \<Rightarrow> string list \<Rightarrow> vmap \<Rightarrow> vmap" where
  "stored_with ds args vm =
     map (\<lambda>a. (a, V_bool True)) (filter (\<lambda>a. (a, Some T_bool) \<in> set (map opt_sig ds)) args)
     @ vm @ concat (map (\<lambda>d. case od_default d of None \<Rightarrow> [] | Some v \<Rightarrow> [(od_name d, v)]) ds)"

lemma ref_store_distinct: "distinct (map od_name ds) \<Longrightarrow> ref_store ds args vm = Inr (stored_with ds args vm)"
  by (simp add: ref_store_def stored_with_def)

lemma map_of_defaults:
  "distinct (map od_name ds) \<Longrightarrow>
     map_of (concat (map (\<lambda>d. case od_default d of None \<Rightarrow> [] | Some v \<Rightarrow> [(od_name d, v)]) ds)) k
       = (case find (\<lambda>d. od_name d = k) ds of None \<Rightarrow> None | Some d \<Rightarrow> od_default d)"
proof (induction ds)
  case (Cons d ds)
  moreover have "find (\<lambda>d'. od_name d' = od_name d) ds = None"
    using Cons.prems by (auto simp: find_None_iff image_iff)
  ultimately show ?case by (auto split: option.split)
qed simp

lemma map_of_switches: "map_of (map (\<lambda>a. (a, V_bool True)) as) k = (if k \<in> set as then Some (V_bool True) else None)"
  by (induction as) auto

lemma find_unique:
  assumes "x \<in> set ds" "P x" "\<And>y. y \<in> set ds \<Longrightarrow> P y \<Longrightarrow> y = x"
  shows "find P ds = Some x"
proof (cases "find P ds")
  case None
  with assms(1,2) show ?thesis by (metis find_None_iff)
next
  case (Some y)
  then have "y \<in> set ds" "P y" by (metis find_Some_iff nth_mem)+
  with assms(3) Some show ?thesis by blast
qed

lemma ref_store_ok: "store_ok ref_store"
  unfolding store_ok_def
proof (intro allI impI conjI)
  fix ds args vm vm' k t
  assume f: "ref_store ds args vm = Inr vm'" and c: "consistent ds vm" and k: "(k, Some t) \<in> set (map opt_sig ds)"
  from f have d: "distinct (map od_name ds)" by (auto simp: ref_store_def split: if_splits)
  from k obtain x v where x: "x \<in> set ds" "od_name x = k" "od_default x = Some v" "opt_type_of v = t"
    by (auto simp: opt_sig_def eq_commute [of "Some t"])
  have u: "y = x" if "y \<in> set ds" "od_name y = k" for y
    using that x d by (auto simp: distinct_map inj_on_def)
  have "find (\<lambda>d. od_name d = k) ds = Some x"
    using x(2) u by (intro find_unique [OF x(1)]) blast+
  with map_of_defaults [OF d, of k] x
  have "map_of (concat (map (\<lambda>d. case od_default d of None \<Rightarrow> [] | Some v \<Rightarrow> [(od_name d, v)]) ds)) k = Some v"
    by simp
  moreover have "t = T_bool" if b: "(k, Some T_bool) \<in> set (map opt_sig ds)"
  proof -
    from b obtain y where "y \<in> set ds" "od_name y = k" "map_option opt_type_of (od_default y) = Some T_bool"
      by (auto simp: opt_sig_def eq_commute [of "Some T_bool"])
    moreover from this(1,2) have "y = x" by (rule u)
    ultimately show "t = T_bool" using x(3,4) by simp
  qed
  moreover have "opt_type_of w = t" if "map_of vm k = Some w" for w
    using c k that unfolding consistent_def by blast
  moreover have "map_of vm' k = (if k \<in> set args \<and> (k, Some T_bool) \<in> set (map opt_sig ds) then Some (V_bool True)
      else case map_of vm k of Some w \<Rightarrow> Some w | None \<Rightarrow>
        map_of (concat (map (\<lambda>d. case od_default d of None \<Rightarrow> [] | Some v \<Rightarrow> [(od_name d, v)]) ds)) k)"
    using f ref_store_distinct [OF d, of args vm]
    by (auto simp: stored_with_def map_add_def map_of_switches split: option.split)
  ultimately show "opt_typed vm' (k, t)"
    using x(4) by (simp add: opt_typed_def split: option.split)
next
  fix ds args vm vm' k
  assume f: "ref_store ds args vm = Inr vm'" and "k \<notin> od_name ` set ds"
  then have "distinct (map od_name ds)" "find (\<lambda>d. od_name d = k) ds = None"
    "(k, Some T_bool) \<notin> set (map opt_sig ds)"
    by (auto simp: ref_store_def find_None_iff opt_sig_def split: if_splits)
  with f show "map_of vm' k = map_of vm k"
    by (auto simp: ref_store_def map_add_def map_of_switches map_of_defaults split: option.split)
qed

lemma ref_po_lib_ok: "po_lib_ok ref_po_lib"
  using ref_store_ok unfolding po_lib_ok_def ref_po_lib_def store_ok_def by simp

lemma distinct_command_line: "distinct (map od_name (command_line_options b n))"
  using option_names_distinct [of b n] by (simp add: all_options_def)

lemma distinct_config_file: "distinct (map od_name (config_file_options b n))"
  by (simp add: config_file_options_def option_tables option_makers)

text \<open>The map after a command line with one switch.\<close>

lemma ref_command_line:
  "parse_command_line ref_po_lib sample_host (Some ''node'') True ''bin/nix'' args
     = Inr (''.'', ''node'', stored_with (command_line_options ''.'' ''node'') args [])"
proof -
  have "expand_user sample_host (os_dirname sample_host (os_dirname sample_host ''bin/nix'')) = Inr ''.''"
    by (simp add: sample_host_def expand_plain)
  then show ?thesis
    by (simp add: parse_command_line_def ref_po_lib_def ref_store_distinct [OF distinct_command_line])
qed

definition sample_vm :: vmap where
  "sample_vm = stored_with (command_line_options ''.'' ''node'') [''no_config''] []"

lemma sample_vm_parse:
  "parse_command_line ref_po_lib sample_host (Some ''node'') True ''bin/nix'' [''no_config'']
     = Inr (''.'', ''node'', sample_vm)"
  unfolding sample_vm_def by (rule ref_command_line)

lemma sample_vm_facts:
  "\<not> has_help sample_vm"
  "opt_get_string sample_vm ''config'' = Inr ''./etc/config.ini''"
  "opt_get_bool sample_vm ''no_config'' = Inr True"
  "opt_get_bool sample_vm ''debug'' = Inr False"
  by (simp_all add: sample_vm_def stored_with_def command_line_options_def option_tables option_makers
      has_help_def um_count_def opt_get_string_def opt_get_bool_def)

section \<open>Properties\<close>

text \<open>
  C29. The options are well typed: when the configuration file is read, every option that the start-up
  reads is there with a value of the type it is read at, so none of its many \<open>get\<close> calls throws
  and the options of the server are set.
\<close>

theorem options_well_typed:
  assumes "po_lib_ok P" and "parse_command_line P H uname has_pw progname args = Inr (b, n, vm)"
    and "\<not> has_help vm" and "opt_get_string vm ''config'' = Inr path" and "files path = Some text"
    and "parse_config_file P files b n vm = Inr vm'"
  shows "list_all (opt_typed vm') (server_option_reads @ client_option_reads @ main_option_reads)
    \<and> load_server_options now vm' = Inr (setup_server_options (po_of vm') now server_options_default)
    \<and> load_client_pool vm' = Inr (setup_client_pool (po_of vm'))"
  using config_read_typed [OF assms]
  by (simp add: load_server_options_def load_client_pool_def reading_def)

theorem options_well_typed_witness:
  "\<exists>vm'. parse_config_file ref_po_lib (\<lambda>p. Some []) ''.'' ''node'' sample_vm = Inr vm'
     \<and> load_server_options 5 vm' = Inr (setup_server_options (po_of vm') 5 server_options_default)"
proof -
  let ?vm' = "stored_with (config_file_options ''.'' ''node'') [] sample_vm"
  have p: "parse_config_file ref_po_lib (\<lambda>p. Some []) ''.'' ''node'' sample_vm = Inr ?vm'"
    using sample_vm_facts
    by (simp add: parse_config_file_def ref_po_lib_def ref_store_distinct [OF distinct_config_file])
  with options_well_typed [OF ref_po_lib_ok sample_vm_parse sample_vm_facts(1,2) _ p, of "[]" 5]
  show ?thesis by blast
qed

text \<open>
  The switch \<open>no_config\<close>, "do not read configuration file", does not do that. When the file is
  there it is read all the same. When it is not, the switch lets the parsing pass, but the options
  of the file have no values then, not even their defaults, and setting up the server throws: the
  program cannot be started without a configuration file.
\<close>

theorem no_config_cannot_start:
  assumes "po_lib_ok P" and "parse_command_line P H uname has_pw progname args = Inr (b, n, vm)"
    and "\<not> has_help vm" and "opt_get_string vm ''config'' = Inr path"
    and "opt_get_bool vm ''no_config'' = Inr True"
  shows "(\<forall>text. files path = Some text \<longrightarrow>
        parse_config_file P files b n vm = pl_config P (config_file_options b n) text vm)
    \<and> (files path = None \<longrightarrow> parse_config_file P files b n vm = Inr vm
        \<and> load_server_options now vm = Inl BadAnyCast \<and> load_client_pool vm = Inl BadAnyCast)"
proof -
  have "(''debug'', Some T_bool) \<in> set (map opt_sig (command_line_options b n))"
    by (simp add: command_line_options_def option_tables option_makers)
  from command_line_stored(1) [OF assms(1,2) this] obtain d where d: "opt_get_bool vm ''debug'' = Inr d"
    by (auto simp: opt_typed_def opt_get_bool_def split: option.splits elim: opt_type_of.elims)
  have "''server.tcp_nonblocking'' \<notin> od_name ` set (command_line_options b n)"
    "''auth.api_key_private'' \<notin> od_name ` set (command_line_options b n)"
    by (simp_all add: command_line_options_def option_tables option_makers)
  from this [THEN command_line_stored(2) [OF assms(1,2)]]
  have "\<not> list_all (opt_typed vm) server_option_reads" "\<not> list_all (opt_typed vm) client_option_reads"
    by (auto simp: list_all_iff server_option_reads_def client_option_reads_def opt_typed_def)
  with assms(3-5) d show ?thesis
    by (auto simp: parse_config_file_def load_server_options_def load_client_pool_def reading_def)
qed

theorem no_config_cannot_start_witness:
  "parse_config_file ref_po_lib (\<lambda>p. None) ''.'' ''node'' sample_vm = Inr sample_vm
   \<and> load_server_options 5 sample_vm = Inl BadAnyCast"
  using no_config_cannot_start [OF ref_po_lib_ok sample_vm_parse sample_vm_facts(1-3), of "\<lambda>p. None" 5]
  by blast

end
