(* ===== verification/Nix_Config.thy ===== *)
theory Nix_Config
  imports Nix_Program_Options
begin

text \<open>
  The two configuration files read at the start: the job queues to create (src/src/nix/queue/options.cxx)
  and the databases (db/options.cxx, db/instance_config.cxx). Both are parsed twice, once for the list
  of names and once with options named after them.
\<close>

section \<open>Lists of names\<close>

text \<open>\<open>istream_iterator<string>\<close>: the words between white space.\<close>

definition is_space :: "char \<Rightarrow> bool" where
  "is_space c \<longleftrightarrow> c \<in> {CHR '' '', CHR 0x09, CHR 0x0A, CHR 0x0B, CHR 0x0C, CHR 0x0D}"

definition stream_words :: "string \<Rightarrow> string list" where
  "stream_words s = tokens is_space s"

section \<open>Queues\<close>

record queue_instance =
  qi_name :: string
  qi_size :: nat

definition default_queue_size :: int where
  "default_queue_size = 100"

definition queue_size_entry :: "string \<Rightarrow> string" where
  "queue_size_entry entry = ''builtins.queue.'' @ entry @ ''.size''"

definition queue_list_options :: "option_desc list" where
  "queue_list_options = [option_string ''builtins.queues.queues'' []]"

definition queue_options :: "string list \<Rightarrow> option_desc list" where
  "queue_options entries =
     queue_list_options @ map (\<lambda>entry. option_int (queue_size_entry entry) default_queue_size) entries"

fun queue_instances :: "vmap \<Rightarrow> string list \<Rightarrow> queue_instance list res" where
  "queue_instances vm [] = Inr []"
| "queue_instances vm (entry # entries) =
     rbind (opt_get_int vm (queue_size_entry entry)) (\<lambda>size_entry.
     rbind (queue_instances vm entries) (\<lambda>insts.
     Inr (\<lparr>qi_name = entry,
           qi_size = size_of_int (if size_entry \<noteq> 0 then size_entry else default_queue_size)\<rparr> # insts)))"

definition parse_queue_options :: "po_lib \<Rightarrow> (string \<Rightarrow> string option) \<Rightarrow> string \<Rightarrow> queue_instance list res" where
  "parse_queue_options P files config_path =
     (case files config_path of
        None \<Rightarrow> Inl (FatalError (''No builtin queue config file found ('' @ config_path @ '')''))
      | Some text \<Rightarrow>
          rbind (pl_config P queue_list_options text []) (\<lambda>vm.
          rbind (opt_get_string vm ''builtins.queues.queues'') (\<lambda>queues.
          let entries = stream_words queues
          in rbind (pl_config P (queue_options entries) text vm) (\<lambda>vm'. queue_instances vm' entries))))"

section \<open>Databases\<close>

record db_instance =
  di_alias :: string
  di_type :: string
  di_user :: string
  di_password :: string
  di_host :: string
  di_name :: string
  di_port :: nat
  di_pool_size :: nat

definition mask_password :: "string \<Rightarrow> string" where
  "mask_password s = map (\<lambda>_. CHR ''*'') s"

definition dsn :: "bool \<Rightarrow> db_instance \<Rightarrow> string" where
  "dsn mask_passwd d =
     (let passwd = (if mask_passwd then mask_password (di_password d) else di_password d)
      in di_type d @ ''://'' @ ''user='' @ di_user d @ '' '' @ ''password='' @ passwd @ '' ''
         @ ''host='' @ di_host d @ '' '' @ ''port='' @ decimal (di_port d) @ '' '' @ ''dbname='' @ di_name d)"

definition db_list_options :: "option_desc list" where
  "db_list_options = [option_string ''global.databases'' []]"

definition db_entry_options :: "string \<Rightarrow> option_desc list" where
  "db_entry_options entry =
     [option_string (entry @ ''.type'') [], option_string (entry @ ''.user'') [],
      option_string (entry @ ''.name'') [], option_string (entry @ ''.password'') [],
      option_string (entry @ ''.host'') [], option_int (entry @ ''.port'') 0,
      option_int (entry @ ''.pool_size'') 1]"

definition db_options :: "string list \<Rightarrow> option_desc list" where
  "db_options dblist = db_list_options @ concat (map db_entry_options dblist)"

text \<open>An \<open>int\<close> assigned to an \<open>unsigned\<close>, 32 bits wide.\<close>

definition unsigned_of_int :: "int \<Rightarrow> nat" where
  "unsigned_of_int x = nat (x mod 2 ^ 32)"

definition db_instance_of :: "vmap \<Rightarrow> string \<Rightarrow> db_instance res" where
  "db_instance_of vm entry =
     rbind (opt_get_string vm (entry @ ''.type'')) (\<lambda>type.
     rbind (opt_get_string vm (entry @ ''.name'')) (\<lambda>name.
     rbind (opt_get_string vm (entry @ ''.user'')) (\<lambda>user.
     rbind (opt_get_string vm (entry @ ''.password'')) (\<lambda>password.
     rbind (opt_get_string vm (entry @ ''.host'')) (\<lambda>host.
     rbind (opt_get_int vm (entry @ ''.port'')) (\<lambda>port.
     rbind (opt_get_int vm (entry @ ''.pool_size'')) (\<lambda>pool_size.
     Inr \<lparr>di_alias = entry, di_type = type, di_user = user, di_password = password, di_host = host,
          di_name = name, di_port = unsigned_of_int port,
          di_pool_size = size_of_int (if pool_size \<noteq> 0 then pool_size else 1)\<rparr>)))))))"

fun db_instances :: "vmap \<Rightarrow> string list \<Rightarrow> db_instance list res" where
  "db_instances vm [] = Inr []"
| "db_instances vm (entry # entries) =
     rbind (db_instance_of vm entry) (\<lambda>inst. rbind (db_instances vm entries) (\<lambda>insts. Inr (inst # insts)))"

definition parse_db_options :: "po_lib \<Rightarrow> (string \<Rightarrow> string option) \<Rightarrow> string \<Rightarrow> db_instance list res" where
  "parse_db_options P files config_path =
     (case files config_path of
        None \<Rightarrow> Inl (FatalError (''No db config found ('' @ config_path @ '')''))
      | Some text \<Rightarrow>
          rbind (pl_config P db_list_options text []) (\<lambda>vm.
          rbind (opt_get_string vm ''global.databases'') (\<lambda>databases.
          let dblist = stream_words databases
          in rbind (pl_config P (db_options dblist) text vm) (\<lambda>vm'. db_instances vm' dblist))))"

section \<open>The second pass finds what it reads\<close>

lemma consistent_empty [simp]: "consistent ds []"
  by (simp add: consistent_def)

lemma opt_typed_get:
  "opt_typed vm (k, T_string) \<longleftrightarrow> (\<exists>s. opt_get_string vm k = Inr s)"
  "opt_typed vm (k, T_int) \<longleftrightarrow> (\<exists>i. opt_get_int vm k = Inr i)"
  by (auto simp: opt_typed_def opt_get_string_def opt_get_int_def split: option.splits opt_value.splits)

text \<open>
  After the first pass there is one value, a string, so the second pass is consistent with it as long
  as it describes that name as a string.
\<close>

lemma second_pass:
  assumes P: "po_lib_ok P" and first: "pl_config P [option_string l []] text [] = Inr vm"
    and second: "pl_config P (option_string l [] # ds) text vm = Inr vm'"
    and l: "\<And>t. (l, Some t) \<in> set (map opt_sig ds) \<Longrightarrow> t = T_string"
    and k: "(k, Some t) \<in> set (map opt_sig ds)"
  shows "opt_typed vm' (k, t)"
proof -
  have ok: "store_ok (pl_config P)" using P by (simp add: po_lib_ok_def)
  have sig: "map opt_sig [option_string l []] = [(l, Some T_string)]"
    by (simp add: option_makers)
  have "opt_typed vm (l, T_string)"
    by (rule stored_typed [where f = "pl_config P", OF ok first consistent_empty]) (simp add: option_makers)
  moreover have "map_of vm k' = None" if "k' \<noteq> l" for k'
    using stored_other [where f = "pl_config P", OF ok first consistent_empty, of k'] that
    by (simp add: option_makers)
  ultimately have "consistent (option_string l [] # ds) vm"
    unfolding consistent_def
  proof (intro allI impI)
    fix k' t' v assume a: "opt_typed vm (l, T_string)" "\<And>k'. k' \<noteq> l \<Longrightarrow> map_of vm k' = None"
      "(k', Some t') \<in> set (map opt_sig (option_string l [] # ds))" "map_of vm k' = Some v"
    then have "k' = l" by force
    moreover from this a(3) l have "t' = T_string" by (auto simp: option_makers)
    ultimately show "opt_type_of v = t'" using a(1,4) by (simp add: opt_typed_def)
  qed
  from stored_typed [where f = "pl_config P", OF ok second this] k show ?thesis by simp
qed

lemma queue_instances_total:
  "\<forall>e \<in> set es. opt_typed vm (queue_size_entry e, T_int) \<Longrightarrow>
     \<exists>insts. queue_instances vm es = Inr insts \<and> map qi_name insts = es
       \<and> (\<forall>i \<in> set insts. \<exists>n. opt_get_int vm (queue_size_entry (qi_name i)) = Inr n
            \<and> qi_size i = size_of_int (if n \<noteq> 0 then n else default_queue_size))"
  by (induction es) (fastforce simp: opt_typed_get)+

section \<open>Properties\<close>

text \<open>
  Reading the queues: with the list of names in the file, and whatever else the library finds
  there, \<open>parse\<close> throws nothing of its own; it gives one instance per name, in the order of the
  list, each with the size configured for it, or 100 when that is zero or not given.
\<close>

theorem queue_options_complete:
  assumes "po_lib_ok P" and "files path = Some text"
    and "pl_config P queue_list_options text [] = Inr vm"
    and "opt_get_string vm ''builtins.queues.queues'' = Inr names"
    and "pl_config P (queue_options (stream_words names)) text vm = Inr vm'"
  shows "\<exists>insts. parse_queue_options P files path = Inr insts \<and> map qi_name insts = stream_words names
    \<and> (\<forall>i \<in> set insts. \<exists>n. opt_get_int vm' (queue_size_entry (qi_name i)) = Inr n
         \<and> qi_size i = size_of_int (if n \<noteq> 0 then n else 100))"
proof -
  have "opt_typed vm' (queue_size_entry e, T_int)" if "e \<in> set (stream_words names)" for e
  proof (rule second_pass [OF assms(1)])
    show "pl_config P [option_string ''builtins.queues.queues'' []] text [] = Inr vm"
      using assms(3) by (simp add: queue_list_options_def)
    show "pl_config P (option_string ''builtins.queues.queues'' []
        # map (\<lambda>entry. option_int (queue_size_entry entry) default_queue_size) (stream_words names)) text vm = Inr vm'"
      using assms(5) by (simp add: queue_options_def queue_list_options_def)
  qed (use that in \<open>auto simp: option_makers queue_size_entry_def\<close>)
  then obtain insts where i: "queue_instances vm' (stream_words names) = Inr insts"
    "map qi_name insts = stream_words names"
    "\<forall>i \<in> set insts. \<exists>n. opt_get_int vm' (queue_size_entry (qi_name i)) = Inr n
       \<and> qi_size i = size_of_int (if n \<noteq> 0 then n else default_queue_size)"
    using queue_instances_total [of "stream_words names" vm'] by blast
  from i(1) assms(2-5) have "parse_queue_options P files path = Inr insts"
    by (simp add: parse_queue_options_def)
  with i(2,3) show ?thesis unfolding default_queue_size_def by blast
qed

theorem queue_options_complete_witness:
  "\<exists>insts. parse_queue_options ref_po_lib (\<lambda>p. Some []) ''etc/config.ini'' = Inr insts \<and> map qi_name insts = []"
proof -
  have w: "stream_words [] = []" by (simp add: stream_words_def)
  let ?vm = "stored_with queue_list_options [] []"
  let ?vm' = "stored_with (queue_options []) [] ?vm"
  have "pl_config ref_po_lib queue_list_options [] [] = Inr ?vm"
    by (simp add: ref_po_lib_def ref_store_distinct queue_list_options_def)
  moreover have "opt_get_string ?vm ''builtins.queues.queues'' = Inr []"
    by (simp add: stored_with_def queue_list_options_def option_makers opt_get_string_def)
  moreover have "pl_config ref_po_lib (queue_options (stream_words [])) [] ?vm = Inr ?vm'"
    by (simp add: ref_po_lib_def ref_store_distinct queue_options_def queue_list_options_def w)
  ultimately show ?thesis
    using queue_options_complete [OF ref_po_lib_ok, of "\<lambda>p. Some []" "''etc/config.ini''" "[]" ?vm "[]" ?vm'] w
    by auto
qed

text \<open>
  A data source name that is masked shows of the password only how long it is.
\<close>

theorem dsn_masks_password:
  "dsn True (d\<lparr>di_password := p\<rparr>) = dsn True (d\<lparr>di_password := q\<rparr>) \<longleftrightarrow> length p = length q"
proof -
  have "mask_password p = mask_password q \<longleftrightarrow> length p = length q"
    by (auto simp: mask_password_def map_replicate_const)
  moreover have "xs @ ys = zs @ ys \<longleftrightarrow> xs = zs" for xs ys zs :: string by simp
  ultimately show ?thesis by (simp add: dsn_def Let_def)
qed

end
