(* ===== verification/Nix_Debug.thy ===== *)
theory Nix_Debug
  imports Nix_Queue Nix_Route "HOL-Library.Multiset"
begin

text \<open>
  The debug module (src/src/nix/module/builtin/debug.cxx, debug/worker.cxx): one route that answers at
  once and one that leaves the answer to two worker threads, through a queue of five requests.
\<close>

section \<open>State and handlers\<close>

text \<open>
  \<open>dg_queue\<close> is a null pointer before \<open>start\<close> and after \<open>stop\<close>; \<open>dg_threads\<close> counts the worker
  threads that have been started and not joined.
\<close>

record debug =
  dg_replies :: "64 word"
  dg_queue :: "imsg queue option"
  dg_threads :: nat

definition debug_new :: debug where
  "debug_new = \<lparr>dg_replies = 0, dg_queue = None, dg_threads = 0\<rparr>"

datatype debug_handler = Debug_sync | Debug_async

definition debug_module :: "debug_handler nix_module" where
  "debug_module = builtin_new ''Debug'' 1
     [route_new ''debug_sync'' (Own Debug_sync) ANY SYNC [],
      route_new ''debug_async'' (Own Debug_async) ANY FUTURE []]"

definition debug_start :: "debug \<Rightarrow> debug outcome" where
  "debug_start s = Done (s\<lparr>dg_queue := Some (queue_new 5), dg_threads := dg_threads s + 2\<rparr>) []"

text \<open>
  \<open>stop\<close> closes the queue, joins the workers, which come back when the queue is closed, and drops
  it with the requests that are still in it.
\<close>

definition debug_stop :: "debug \<Rightarrow> debug outcome" where
  "debug_stop s = (case dg_queue s of
     None \<Rightarrow> Raised UndefinedBehaviour s []
   | Some q \<Rightarrow> Done (s\<lparr>dg_queue := None, dg_threads := 0\<rparr>) [])"

definition debug_sync :: "jlib \<Rightarrow> imsg \<Rightarrow> debug \<Rightarrow> debug outcome" where
  "debug_sync L msg s =
     (let s1 = s\<lparr>dg_replies := dg_replies s + 1\<rparr> in answer (im_reply L msg) s1 s1)"

definition debug_async :: "imsg \<Rightarrow> debug \<Rightarrow> debug outcome" where
  "debug_async msg s = (case dg_queue s of
     None \<Rightarrow> Raised UndefinedBehaviour s []
   | Some q \<Rightarrow>
       (let (q', success) = queue_push msg q; s1 = s\<lparr>dg_queue := Some q'\<rparr>
        in if success then Done s1 []
           else Done s1 [im_reject_code msg Temp_limit_reached ''Temporary failure: request queue full'']))"

fun debug_own :: "jlib \<Rightarrow> debug_handler \<Rightarrow> imsg \<Rightarrow> debug \<Rightarrow> debug outcome" where
  "debug_own L Debug_sync msg s = debug_sync L msg s"
| "debug_own L Debug_async msg s = debug_async msg s"

definition debug_run :: "jlib \<Rightarrow> debug_handler mod_handler \<Rightarrow> imsg \<Rightarrow> debug \<Rightarrow> debug outcome" where
  "debug_run L = run_handler L debug_module (debug_own L)"

section \<open>Workers\<close>

text \<open>
  \<open>process\<close> sleeps for the time the request names and replies. One round of \<open>run\<close>: the queue is
  closed and the thread ends, the worker waits for a request, or it answers one. An exception
  that leaves \<open>run\<close> leaves the thread's function and so ends the process.
\<close>

datatype turn = Ends | Sleeping | Answers "net res"

definition worker_process :: "jlib \<Rightarrow> imsg \<Rightarrow> net res" where
  "worker_process L msg =
     (let intval = get_int L ''interval_ms'' 0 (im_doc msg) in im_reply L msg)"

definition worker_turn :: "jlib \<Rightarrow> imsg queue \<Rightarrow> turn \<times> imsg queue" where
  "worker_turn L q =
     (if queue_is_closed q then (Ends, q)
      else case queue_pop (- 1) q of
             (Got msg, q') \<Rightarrow> (Answers (worker_process L msg), q')
           | (Nothing, q') \<Rightarrow> (Ends, q')
           | (Waits, q') \<Rightarrow> (Sleeping, q'))"

definition debug_work :: "jlib \<Rightarrow> debug \<Rightarrow> debug outcome" where
  "debug_work L s = (case dg_queue s of
     None \<Rightarrow> Done s []
   | Some q \<Rightarrow>
       (case worker_turn L q of
          (Answers r, q') \<Rightarrow> answer r (s\<lparr>dg_queue := Some q'\<rparr>) (s\<lparr>dg_queue := Some q'\<rparr>)
        | (_, q') \<Rightarrow> Done (s\<lparr>dg_queue := Some q'\<rparr>) []))"

section \<open>Requests and turns of the workers\<close>

datatype debug_event = Request "debug_handler mod_handler" imsg | Turn

fun debug_react :: "jlib \<Rightarrow> debug_event \<Rightarrow> debug \<Rightarrow> debug outcome" where
  "debug_react L (Request h msg) s = debug_run L h msg s"
| "debug_react L Turn s = debug_work L s"

text \<open>The requests that wait to be answered.\<close>

definition debug_pending :: "debug \<Rightarrow> nat list" where
  "debug_pending s = (case dg_queue s of None \<Rightarrow> [] | Some q \<Rightarrow> map im_id (q_items q))"

fun asked :: "debug_event \<Rightarrow> nat list" where
  "asked (Request h msg) = [im_id msg]"
| "asked Turn = []"

fun good_event :: "debug_event \<Rightarrow> bool" where
  "good_event (Request h msg) = passable (im_doc msg)"
| "good_event Turn = True"

definition debug_ok :: "debug \<Rightarrow> bool" where
  "debug_ok s = (case dg_queue s of None \<Rightarrow> False
     | Some q \<Rightarrow> q_size q = 5 \<and> \<not> q_closed q \<and> length (q_items q) \<le> 5 \<and> (\<forall>m \<in> set (q_items q). passable (im_doc m)))"

lemma debug_okE:
  assumes "debug_ok s"
  obtains q where "dg_queue s = Some q" "q_size q = 5" "\<not> q_closed q" "length (q_items q) \<le> 5"
    "\<forall>m \<in> set (q_items q). passable (im_doc m)"
  using assms by (auto simp: debug_ok_def split: option.splits)

lemma debug_plain: "plain_routes (md_routes debug_module)"
  by (simp add: debug_module_def builtin_new_routes module_new_def plain_routes_def plain_key_def)

lemma list_routes_answers:
  assumes "plain_routes (md_routes m)" "passable (im_doc msg)"
  shows "\<exists>t. list_routes L m msg = Inr (Reply (im_id msg) t)"
proof -
  from clear_passable [OF assms(2)] obtain d where d: "message_clear (im_doc msg) = Inr d"
    "d = JObject [] \<or> d = JNull" by (auto simp: message_clear_def)
  from report_reply [OF report_listing [OF assms(1)] d(2), of L "im_id msg" Ok] show ?thesis
    by (auto simp: list_routes_def d(1))
qed

text \<open>What one event does: it answers or keeps each request, and keeps the state in order.\<close>

lemma debug_event_step:
  assumes "debug_ok s" "good_event e"
  shows "\<exists>s' ns. debug_react L e s = Done s' ns \<and> debug_ok s'
    \<and> mset (map net_id ns) + mset (debug_pending s') = mset (debug_pending s) + mset (asked e)"
proof -
  from assms(1) obtain q where q: "dg_queue s = Some q" "q_size q = 5" "\<not> q_closed q" "length (q_items q) \<le> 5"
    "\<forall>m \<in> set (q_items q). passable (im_doc m)" by (rule debug_okE)
  show ?thesis
  proof (cases e)
    case (Request h msg)
    then have p: "passable (im_doc msg)" using assms(2) by simp
    show ?thesis
    proof (cases h)
      case List_routes
      with list_routes_answers [OF debug_plain p, of L] Request q show ?thesis
        by (auto simp: debug_run_def run_handler_def debug_ok_def debug_pending_def)
    next
      case Is_alive
      with Request q p show ?thesis
        by (auto simp: debug_run_def run_handler_def is_alive_def im_reply_eq debug_ok_def debug_pending_def)
    next
      case (Own f)
      with Request q p show ?thesis
        by (cases f) (auto simp: debug_run_def run_handler_def debug_sync_def im_reply_eq debug_ok_def
            debug_pending_def debug_async_def queue_push_def im_reject_code_def)
    qed
  next
    case Turn
    with q show ?thesis
      by (cases "q_items q") (auto simp: debug_work_def worker_turn_def queue_is_closed_def queue_pop_def
          worker_process_def im_reply_eq debug_ok_def debug_pending_def)
  qed
qed

section \<open>Properties\<close>

text \<open>
  C12. No request to a started debug module is lost or answered twice: after any requests whose root is
  an object or null, and any turns of the workers, those answered and those in the queue are
  together the requests there were; at most five wait, and no handler fails.
\<close>

theorem debug_conserves_requests:
  assumes "debug_ok s" and "\<forall>e \<in> set es. good_event e"
  shows "case serve (debug_react L) es s of (ns, s') \<Rightarrow> debug_ok s' \<and> length (debug_pending s') \<le> 5
    \<and> mset (map net_id ns) + mset (debug_pending s')
      = mset (debug_pending s) + mset (concat (map asked es))"
  using assms
proof (induction es arbitrary: s)
  case Nil
  then show ?case by (auto simp: debug_ok_def debug_pending_def split: option.splits)
next
  case (Cons e es)
  from debug_event_step [of s e L] Cons.prems obtain s1 ns1 where s1: "debug_react L e s = Done s1 ns1"
    "debug_ok s1" "mset (map net_id ns1) + mset (debug_pending s1) = mset (debug_pending s) + mset (asked e)"
    by auto
  obtain ns s' where rest: "serve (debug_react L) es s1 = (ns, s')" by force
  with Cons.IH [OF s1(2)] Cons.prems have "debug_ok s'" "length (debug_pending s') \<le> 5"
    "mset (map net_id ns) + mset (debug_pending s') = mset (debug_pending s1) + mset (concat (map asked es))"
    by auto
  moreover have "mset (map net_id (ns1 @ ns)) + mset (debug_pending s')
      = mset (debug_pending s) + mset (asked e) + mset (concat (map asked es))"
    using s1(3) calculation(3) by (simp add: add.assoc)
  ultimately show ?case by (simp add: s1(1) rest add.assoc)
qed

definition sample_debug :: debug where
  "sample_debug = final_state debug_new (debug_start debug_new)"

theorem debug_conserves_requests_witness:
  "case serve (debug_react ref_lib)
      [Request (Own Debug_async) \<lparr>im_id = 1, im_doc = JNull\<rparr>, Request Is_alive \<lparr>im_id = 2, im_doc = JNull\<rparr>, Turn]
      sample_debug of (ns, s') \<Rightarrow>
    mset (map net_id ns) + mset (debug_pending s') = {#1, 2#}"
  using debug_conserves_requests [of sample_debug "[Request (Own Debug_async) \<lparr>im_id = 1, im_doc = JNull\<rparr>,
      Request Is_alive \<lparr>im_id = 2, im_doc = JNull\<rparr>, Turn]" ref_lib]
  by (simp add: sample_debug_def debug_start_def debug_new_def queue_new_def debug_ok_def debug_pending_def
      passable_def split: prod.splits)

text \<open>
  One message ends the server: \<open>debug_async\<close>, open to everybody, queues a request whose root is an
  array like any other, and the worker that takes it throws in \<open>reply\<close>, out of its thread.
\<close>

theorem debug_async_ends_process:
  assumes "dg_queue s = Some q" and "q_items q = []" and "\<not> q_closed q" and "0 < q_size q"
  shows "\<exists>s' s''. debug_run L (Own Debug_async) \<lparr>im_id = i, im_doc = JArray xs\<rparr> s = Done s' []
    \<and> debug_work L s' = Raised JsonLogicError s'' []"
  using assms
  by (auto simp: debug_run_def run_handler_def debug_async_def queue_push_def debug_work_def
      worker_turn_def queue_is_closed_def queue_pop_def worker_process_def im_reply_eq passable_def)

theorem debug_async_ends_process_witness:
  "\<exists>s' s''. debug_run ref_lib (Own Debug_async) \<lparr>im_id = 1, im_doc = JArray []\<rparr> sample_debug = Done s' []
    \<and> debug_work ref_lib s' = Raised JsonLogicError s'' []"
  using debug_async_ends_process [of sample_debug "queue_new 5" ref_lib 1 "[]"]
  by (simp add: sample_debug_def debug_start_def debug_new_def queue_new_def)

end
