(* ===== verification/Nix_Client.thy ===== *)
theory Nix_Client
  imports Nix_Documents Nix_Options
begin

text \<open>
  The clients of the services (src/src/nix/core/client.cxx, service_client.cxx, cache_client.cxx,
  resolver_client.cxx, job_queue_client.cxx). The agent of YAMI they send with is a parameter, and
  so is the world \<open>'w\<close> behind it. An operation of a client is a function of that world: it returns
  a value or the exception that leaves it.
\<close>

section \<open>The agent\<close>

text \<open>
  \<open>ta_send address object name text t\<close> sends a message and waits \<open>t\<close> milliseconds for its
  completion: nothing if the sending throws, or else the outgoing message as it is then.
  \<open>ta_one_way\<close> tells whether the sending went without an exception.
\<close>

record 'w agent =
  ta_send :: "string \<Rightarrow> string \<Rightarrow> string \<Rightarrow> string \<Rightarrow> nat \<Rightarrow> 'w \<Rightarrow> omsg option \<times> 'w"
  ta_one_way :: "string \<Rightarrow> string \<Rightarrow> string \<Rightarrow> string \<Rightarrow> 'w \<Rightarrow> bool \<times> 'w"

section \<open>The plain client\<close>

record client =
  cl_config :: client_config
  cl_max_timeout :: nat

definition client_new :: "client_config \<Rightarrow> nat \<Rightarrow> client" where
  "client_new config max_timeout = \<lparr>cl_config = config, cl_max_timeout = max_timeout\<rparr>"

definition wait_ms :: "nat \<Rightarrow> nat \<Rightarrow> nat" where
  "wait_ms max_timeout t =
     (if t \<noteq> 0 then (if t > max_timeout then max_timeout else t) else max_timeout)"

definition client_call :: "jlib \<Rightarrow> 'w agent \<Rightarrow> 'z client_scheme \<Rightarrow> string \<Rightarrow> string \<Rightarrow> string
    \<Rightarrow> string \<Rightarrow> nat \<Rightarrow> (response option, 'w) action" where
  "client_call L A c address service name text t w =
     (case ta_send A address service name text (wait_ms (cl_max_timeout c) t) w of
        (None, w') \<Rightarrow> (Inr None, w')
      | (Some om, w') \<Rightarrow> (rbind (response_new L om) (\<lambda>r. Inr (Some r)), w'))"

definition client_ping :: "jlib \<Rightarrow> 'w agent \<Rightarrow> 'z client_scheme \<Rightarrow> string \<Rightarrow> nat \<Rightarrow> (bool, 'w) action" where
  "client_ping L A c address t =
     act_bind (client_call L A c address ''ping'' [] [] t) (\<lambda>p.
     act_bind (deref p) (\<lambda>r. act_ret (is_replied r)))"

definition client_send_one_way :: "'w agent \<Rightarrow> string \<Rightarrow> string \<Rightarrow> string \<Rightarrow> string \<Rightarrow> (bool, 'w) action" where
  "client_send_one_way A address service name text w =
     (let (ok, w') = ta_one_way A address service name text w in (Inr ok, w'))"

section \<open>The client of a service\<close>

record service_client = client +
  sc_service :: string
  sc_address :: string

definition service_client_new :: "string \<Rightarrow> string \<Rightarrow> client_config \<Rightarrow> nat \<Rightarrow> service_client" where
  "service_client_new service address config max_timeout =
     \<lparr>cl_config = config, cl_max_timeout = (if max_timeout \<noteq> 0 then max_timeout else 2000),
      sc_service = service, sc_address = address\<rparr>"

definition ping_service :: "jlib \<Rightarrow> 'w agent \<Rightarrow> 'z service_client_scheme \<Rightarrow> nat \<Rightarrow> (bool, 'w) action" where
  "ping_service L A c t =
     act_bind (client_call L A c (sc_address c) (sc_service c) ''ping'' [] t) (\<lambda>p.
     act_bind (deref p) (\<lambda>r. act_ret (is_replied r)))"

definition call_service :: "jlib \<Rightarrow> 'w agent \<Rightarrow> 'z service_client_scheme \<Rightarrow> string \<Rightarrow> string \<Rightarrow> nat
    \<Rightarrow> (response option, 'w) action" where
  "call_service L A c name text t =
     client_call L A c (sc_address c) (sc_service c) name text
       (if t > cl_max_timeout c then cl_max_timeout c else t)"

definition service_send :: "'w agent \<Rightarrow> 'z service_client_scheme \<Rightarrow> string \<Rightarrow> string \<Rightarrow> (bool, 'w) action" where
  "service_send A c name text = client_send_one_way A (sc_address c) (sc_service c) name text"

text \<open>A message with the private key in its meta data and some entries, set one by one.\<close>

definition keyed_message :: "'z client_scheme \<Rightarrow> (string \<times> json) list \<Rightarrow> json res" where
  "keyed_message c kvs =
     rbind (set_meta ''api_key'' (JString (cc_api_key_private (cl_config c))) message_new) (set_all kvs)"

text \<open>\<open>call_service(name, m)\<close>, then a use of the response behind the pointer.\<close>

definition call_with :: "jlib \<Rightarrow> 'w agent \<Rightarrow> 'z service_client_scheme \<Rightarrow> string \<Rightarrow> (string \<times> json) list
    \<Rightarrow> (response \<Rightarrow> ('a, 'w) action) \<Rightarrow> ('a, 'w) action" where
  "call_with L A c name kvs use =
     act_bind (act_lift (keyed_message c kvs)) (\<lambda>m.
     act_bind (call_service L A c name (message_to_string L [] False m) 0) (\<lambda>p.
     act_bind (deref p) use))"

section \<open>The cache client\<close>

definition cache_client_new :: "client_config \<Rightarrow> nat \<Rightarrow> service_client" where
  "cache_client_new config t = service_client_new ''Cache'' (cc_srv_cache_address config) config t"

definition cc_store :: "jlib \<Rightarrow> 'w agent \<Rightarrow> service_client \<Rightarrow> string \<Rightarrow> string \<Rightarrow> (bool, 'w) action" where
  "cc_store L A c key val =
     call_with L A c ''store'' [(''key'', JString key), (''value'', JString val)]
       (\<lambda>r. act_ret (is_status_ok L r))"

definition cc_store_message :: "jlib \<Rightarrow> 'w agent \<Rightarrow> service_client \<Rightarrow> string \<Rightarrow> json \<Rightarrow> (bool, 'w) action" where
  "cc_store_message L A c key m = cc_store L A c key (message_to_string L [] False m)"

text \<open>\<open>retrieve\<close> changes its argument \<open>result\<close>: the value is what it returned and that message.\<close>

definition cc_retrieve :: "jlib \<Rightarrow> 'w agent \<Rightarrow> service_client \<Rightarrow> string \<Rightarrow> json \<Rightarrow> (bool \<times> json, 'w) action" where
  "cc_retrieve L A c key result =
     call_with L A c ''retrieve'' [(''key'', JString key)]
       (\<lambda>r. if is_status_ok L r
            then act_bind (act_lift (message_parse L (get_string L key [] (rs_doc r)) result))
                   (\<lambda>d. act_ret (True, d))
            else act_ret (False, result))"

definition cc_remove :: "jlib \<Rightarrow> 'w agent \<Rightarrow> service_client \<Rightarrow> string \<Rightarrow> (bool, 'w) action" where
  "cc_remove L A c key =
     act_bind (act_lift (keyed_message c [(''key'', JString key)])) (\<lambda>m.
     service_send A c ''remove'' (message_to_string L [] False m))"

definition cc_status :: "jlib \<Rightarrow> 'w agent \<Rightarrow> service_client \<Rightarrow> json \<Rightarrow> (bool \<times> json, 'w) action" where
  "cc_status L A c result =
     call_with L A c ''status'' []
       (\<lambda>r. act_ret (if is_status_ok L r then (True, rs_doc r) else (False, result)))"

section \<open>The resolver client\<close>

definition resolver_client_new :: "client_config \<Rightarrow> nat \<Rightarrow> service_client" where
  "resolver_client_new config t =
     service_client_new ''Resolver'' (cc_srv_resolver_address config) config t"

definition local_name :: "service_client \<Rightarrow> json" where
  "local_name c = JString (cc_local_nodename (cl_config c))"

definition rc_bind_node :: "jlib \<Rightarrow> 'w agent \<Rightarrow> service_client \<Rightarrow> (bool, 'w) action" where
  "rc_bind_node L A c =
     call_with L A c ''node/bind''
       [(''nodename'', local_name c), (''address'', JString (cc_local_address (cl_config c)))]
       (\<lambda>r. act_ret (is_status_ok L r))"

definition rc_bind_service :: "jlib \<Rightarrow> 'w agent \<Rightarrow> service_client \<Rightarrow> string \<Rightarrow> (bool, 'w) action" where
  "rc_bind_service L A c service =
     call_with L A c ''service/bind'' [(''service'', JString service), (''nodename'', local_name c)]
       (\<lambda>r. act_ret (is_status_ok L r))"

definition rc_resolve_node :: "jlib \<Rightarrow> 'w agent \<Rightarrow> service_client \<Rightarrow> string \<Rightarrow> (string, 'w) action" where
  "rc_resolve_node L A c nodename =
     call_with L A c ''node/resolve'' [(''nodename'', JString nodename)]
       (\<lambda>r. act_ret (get_string L nodename [] (rs_doc r)))"

definition rc_resolve_service :: "jlib \<Rightarrow> 'w agent \<Rightarrow> service_client \<Rightarrow> string \<Rightarrow> (json, 'w) action" where
  "rc_resolve_service L A c service =
     call_with L A c ''service/resolve'' [(''service'', JString service)]
       (\<lambda>r. act_ret (get_array ''addresses'' (array_value (JArray [])) (rs_doc r)))"

definition rc_unbind_node :: "jlib \<Rightarrow> 'w agent \<Rightarrow> service_client \<Rightarrow> (bool, 'w) action" where
  "rc_unbind_node L A c =
     call_with L A c ''node/unbind'' [(''nodename'', local_name c)] (\<lambda>r. act_ret (is_status_ok L r))"

definition rc_unbind_service :: "jlib \<Rightarrow> 'w agent \<Rightarrow> service_client \<Rightarrow> string \<Rightarrow> (bool, 'w) action" where
  "rc_unbind_service L A c service =
     call_with L A c ''service/unbind'' [(''service'', JString service), (''nodename'', local_name c)]
       (\<lambda>r. act_ret (is_status_ok L r))"

section \<open>The job queue client\<close>

text \<open>\<open>rg\<close>, \<open>now\<close> and \<open>n\<close> are those of the constructor of a job: see Nix_Job.\<close>

record job_queue_client = service_client +
  jc_resolver :: service_client

definition job_queue_client_new :: "client_config \<Rightarrow> nat \<Rightarrow> job_queue_client" where
  "job_queue_client_new config t =
     \<lparr>cl_config = config, cl_max_timeout = (if t \<noteq> 0 then t else 2000), sc_service = ''JobQueue'',
      sc_address = cc_srv_job_queue_address config, jc_resolver = resolver_client_new config 2000\<rparr>"

definition jc_submit :: "jlib \<Rightarrow> 'w agent \<Rightarrow> job_queue_client \<Rightarrow> job \<Rightarrow> (response option \<times> job, 'w) action" where
  "jc_submit L A c j =
     (let j' = job_set_origin_node (cc_local_nodename (cl_config c))
                 (job_set_api_key (cc_api_key_private (cl_config c)) j)
      in act_bind (act_lift (job_to_string L j')) (\<lambda>text.
         act_bind (call_service L A c ''job/submit'' text 0) (\<lambda>p. act_ret (p, j'))))"

definition jc_get_work :: "jlib \<Rightarrow> (nat \<Rightarrow> string) \<Rightarrow> int \<Rightarrow> nat \<Rightarrow> 'w agent \<Rightarrow> job_queue_client \<Rightarrow> string
    \<Rightarrow> (job option \<times> nat, 'w) action" where
  "jc_get_work L rg now n A c mdl =
     call_with L A c ''job/work/get'' [(''module'', JString mdl)]
       (\<lambda>r. if is_status_ok L r
            then (let (j, n') = job_of_message L rg now (rs_doc r) n in act_ret (Some j, n'))
            else act_ret (None, n))"

text \<open>The reports about a job go to the node it came from.\<close>

definition at_origin :: "jlib \<Rightarrow> 'w agent \<Rightarrow> job_queue_client \<Rightarrow> job \<Rightarrow> 'a
    \<Rightarrow> (string \<Rightarrow> string \<Rightarrow> ('a, 'w) action) \<Rightarrow> ('a, 'w) action" where
  "at_origin L A c j none use =
     act_bind (rc_resolve_node L A (jc_resolver c) (j_origin_node j)) (\<lambda>address.
     if address \<noteq> [] then act_bind (act_lift (job_to_string L j)) (use address) else act_ret none)"

definition jc_set_progress :: "jlib \<Rightarrow> 'w agent \<Rightarrow> job_queue_client \<Rightarrow> job \<Rightarrow> (bool, 'w) action" where
  "jc_set_progress L A c j =
     at_origin L A c j False (\<lambda>address text.
       act_bind (client_send_one_way A address ''JobQueue'' ''job/progress/set'' text) (\<lambda>_. act_ret True))"

definition jc_set_result :: "jlib \<Rightarrow> 'w agent \<Rightarrow> job_queue_client \<Rightarrow> job \<Rightarrow> (bool, 'w) action" where
  "jc_set_result L A c j =
     at_origin L A c j False (\<lambda>address text.
       act_bind (client_call L A c address ''JobQueue'' ''job/result/set'' text 0) (\<lambda>_. act_ret True))"

definition jc_get_result :: "jlib \<Rightarrow> (nat \<Rightarrow> string) \<Rightarrow> int \<Rightarrow> nat \<Rightarrow> 'w agent \<Rightarrow> job_queue_client \<Rightarrow> job
    \<Rightarrow> (job option \<times> nat, 'w) action" where
  "jc_get_result L rg now n A c j =
     at_origin L A c j (None, n) (\<lambda>address text.
       act_bind (client_call L A c address ''JobQueue'' ''job/result/get'' text 0) (\<lambda>p.
       act_bind (deref p) (\<lambda>r.
       if is_replied r
       then (let (j', n') = job_of_message L rg now (rs_doc r) n in act_ret (Some j', n'))
       else act_ret (None, n))))"

definition jc_status :: "jlib \<Rightarrow> 'w agent \<Rightarrow> job_queue_client \<Rightarrow> string \<Rightarrow> (response option, 'w) action" where
  "jc_status L A c queue_node =
     act_bind (if queue_node \<noteq> [] then rc_resolve_node L A (jc_resolver c) queue_node
               else act_ret (sc_address c)) (\<lambda>address.
     if address \<noteq> []
     then client_call L A c address ''JobQueue'' ''status'' (message_to_string L [] False message_new) 0
     else act_ret None)"

section \<open>The messages of the clients\<close>

lemma keyed_message_docs:
  "keyed_message c [] = Inr (JObject [(''@api_key'', JString (cc_api_key_private (cl_config c)))])"
  "keyed_message c [(''key'', v)] =
     Inr (JObject [(''@api_key'', JString (cc_api_key_private (cl_config c))), (''key'', v)])"
  "keyed_message c [(''key'', v), (''value'', u)] =
     Inr (JObject [(''@api_key'', JString (cc_api_key_private (cl_config c))), (''key'', v), (''value'', u)])"
  "keyed_message c [(''nodename'', v)] =
     Inr (JObject [(''@api_key'', JString (cc_api_key_private (cl_config c))), (''nodename'', v)])"
  "keyed_message c [(''nodename'', v), (''address'', u)] =
     Inr (JObject [(''@api_key'', JString (cc_api_key_private (cl_config c))), (''address'', u), (''nodename'', v)])"
  "keyed_message c [(''service'', v)] =
     Inr (JObject [(''@api_key'', JString (cc_api_key_private (cl_config c))), (''service'', v)])"
  "keyed_message c [(''service'', v), (''nodename'', u)] =
     Inr (JObject [(''@api_key'', JString (cc_api_key_private (cl_config c))), (''nodename'', u), (''service'', v)])"
  "keyed_message c [(''module'', v)] =
     Inr (JObject [(''@api_key'', JString (cc_api_key_private (cl_config c))), (''module'', v)])"
  by (simp_all add: keyed_message_def message_new_def set_meta_def meta_key_def message_set_plain
      plain_key_def obj_sorted_def less_char_def)

text \<open>The two outcomes of a call on which a client of a service builds everything else.\<close>

lemma call_with_unsent:
  assumes "keyed_message c kvs = Inr m"
    and "\<And>t. ta_send A (sc_address c) (sc_service c) name (message_to_string L [] False m) t w = (None, w')"
  shows "call_with L A c name kvs use w = (Inl UndefinedBehaviour, w')"
  using assms by (simp add: call_with_def call_service_def client_call_def)

lemma call_with_replied:
  assumes "keyed_message c kvs = Inr m"
    and "\<And>t. ta_send A (sc_address c) (sc_service c) name (jl_write L m) t w
      = (Some (replied_with (jl_write L d)), w')"
    and "jlib_ok L" and "reads_back L d"
  shows "call_with L A c name kvs use w
    = use \<lparr>rs_om = replied_with (jl_write L d), rs_doc = d, rs_exception_msg = []\<rparr> w'"
  using assms
  by (simp add: call_with_def call_service_def client_call_def message_to_string_def response_of_reply)

section \<open>Properties\<close>

text \<open>
  How long a client of a service waits: for a call it hands its agent a time between one
  millisecond and the maximum it was made with (two seconds for none), the caller's own time when
  that is in between; it never waits without a limit.
\<close>

theorem service_wait_bounds:
  "\<exists>t. 0 < t \<and> t \<le> (if m \<noteq> 0 then m else 2000)
    \<and> (0 < tm \<and> tm \<le> (if m \<noteq> 0 then m else 2000) \<longrightarrow> t = tm)
    \<and> call_service L A (service_client_new s a cfg m) name text tm w =
      (case ta_send A a s name text t w of
         (None, w') \<Rightarrow> (Inr None, w')
       | (Some om, w') \<Rightarrow> (rbind (response_new L om) (\<lambda>r. Inr (Some r)), w'))"
  by (rule exI [of _ "wait_ms (if m \<noteq> 0 then m else 2000) tm"])
    (auto simp: wait_ms_def call_service_def client_call_def service_client_new_def)

theorem service_wait_bounds_witness:
  "\<exists>t :: nat. 0 < t \<and> t \<le> 2000 \<and> (0 < (1500 :: nat) \<and> 1500 \<le> (2000 :: nat) \<longrightarrow> t = 1500)"
  using service_wait_bounds [of 0 1500 ref_lib "\<lparr>ta_send = \<lambda>a s n x t w. (None, w), ta_one_way = \<lambda>a s n x w. (False, w)\<rparr>"
      "''Cache''" "''tcp://x:1''" client_config_default "''store''" "[]" "()"]
  by auto

text \<open>
  When YAMI cannot send (an address nobody listens on, or none configured) the operations of
  the clients that look at the response run into undefined behaviour: \<open>call\<close> returns a null
  pointer and they dereference it. Only \<open>remove\<close>, a message without answer, reports the failure.
\<close>

theorem unreachable_service_crashes:
  assumes "\<And>name text t. ta_send A (sc_address c) (sc_service c) name text t w = (None, w)"
    and "\<And>name text. ta_one_way A (sc_address c) (sc_service c) name text w = (False, w)"
  shows "cc_store L A c key val w = (Inl UndefinedBehaviour, w)
    \<and> cc_retrieve L A c key result w = (Inl UndefinedBehaviour, w)
    \<and> rc_bind_node L A c w = (Inl UndefinedBehaviour, w)
    \<and> rc_resolve_node L A c nodename w = (Inl UndefinedBehaviour, w)
    \<and> ping_service L A c t w = (Inl UndefinedBehaviour, w)
    \<and> cc_remove L A c key w = (Inr False, w)"
  using assms
  by (simp_all add: cc_store_def cc_retrieve_def rc_bind_node_def rc_resolve_node_def
      call_with_unsent [OF keyed_message_docs(2)] call_with_unsent [OF keyed_message_docs(3)]
      call_with_unsent [OF keyed_message_docs(4)] call_with_unsent [OF keyed_message_docs(5)]
      ping_service_def client_call_def cc_remove_def keyed_message_docs service_send_def
      client_send_one_way_def)

text \<open>An agent that reaches nobody.\<close>

definition dead_agent :: "'w agent" where
  "dead_agent = \<lparr>ta_send = \<lambda>a s n x t w. (None, w), ta_one_way = \<lambda>a s n x w. (False, w)\<rparr>"

theorem unreachable_service_crashes_witness:
  "cc_store ref_lib dead_agent (cache_client_new client_config_default 0) ''k'' ''v'' ()
     = (Inl UndefinedBehaviour, ())"
  using unreachable_service_crashes [of dead_agent "cache_client_new client_config_default 0" "()"
      ref_lib "''k''" "''v''" JNull "''n''" 1]
  by (simp add: dead_agent_def)

text \<open>
  Asking for the result of a job the queue answers with a failure does not give a null
  pointer: \<open>get_result\<close> looks only at whether there was a reply, and returns a job made of the
  reply's document, with a new identifier, no module, no action, not completed.
\<close>

theorem get_result_of_failure:
  assumes "jlib_ok L" and "reads_back L (status_doc st reason)"
    and resolve: "rc_resolve_node L A (jc_resolver c) (j_origin_node j) w = (Inr address, v)" "address \<noteq> []"
    and reply: "\<And>t. ta_send A address ''JobQueue'' ''job/result/get'' (jl_write L (job_doc j)) t v
      = (Some (replied_with (jl_write L (status_doc st reason))), v')"
  shows "\<exists>j'. jc_get_result L rg now n A c j w = (Inr (Some j', Suc (Suc n)), v')
    \<and> j_id j' = rg (Suc n) \<and> j_module j' = [] \<and> j_action j' = [] \<and> \<not> j_completed j'"
proof -
  have none: "message_find k (status_doc st reason) = None"
    if "k \<in> {''@job_id'', ''module'', ''action'', ''completed'', ''ctime''}" for k
    using that by (auto simp: status_doc_def message_find_plain plain_key_def)
  let ?j = "job_from_message L (status_doc st reason) job_blank"
  have "job_of_message L rg now (status_doc st reason) n
      = (?j\<lparr>j_id := rg (Suc n), j_ctime := narrow32 now\<rparr>, Suc (Suc n))"
    using job_from_message_overwrites [of L "status_doc st reason" "job_blank\<lparr>j_id := rg n, j_ctime := narrow32 now\<rparr>"]
    by (simp add: job_of_message_def job_default_eq prod_eq_iff job_init_id)
      (simp add: job_from_message_def getter_defs meta_key_def get_as_def none)
  with assms response_of_reply [OF assms(1,2)] show ?thesis
    by (auto simp: jc_get_result_def at_origin_def job_to_string_doc client_call_def is_replied_def
        replied_with_def)
      (simp_all add: job_from_message_def getter_defs meta_key_def get_as_def none)
qed

text \<open>An agent that resolves every node and answers everything else with a failure.\<close>

definition failing_agent :: "'w agent" where
  "failing_agent = \<lparr>ta_send = \<lambda>a s n x t w.
       (Some (replied_with (jl_write ref_lib
          (if s = ''Resolver'' then JObject [(''@status_code'', JInt 0), (''n1'', JString ''tcp://q:1'')]
           else status_doc Fail ''No such job''))), w),
     ta_one_way = \<lambda>a s n x w. (True, w)\<rparr>"

theorem get_result_of_failure_witness:
  "\<exists>j'. jc_get_result ref_lib (\<lambda>n. ''new'') 5 0 failing_agent (job_queue_client_new client_config_default 0)
        sample_job () = (Inr (Some j', Suc (Suc 0)), ())
    \<and> j_id j' = ''new'' \<and> j_module j' = [] \<and> j_action j' = [] \<and> \<not> j_completed j'"
proof -
  have "rc_resolve_node ref_lib failing_agent (jc_resolver (job_queue_client_new client_config_default 0))
      ''n1'' () = (Inr ''tcp://q:1'', ())"
    unfolding rc_resolve_node_def
    by (subst call_with_replied [OF keyed_message_docs(4),
          where d = "JObject [(''@status_code'', JInt 0), (''n1'', JString ''tcp://q:1'')]"])
      (simp_all add: failing_agent_def job_queue_client_new_def resolver_client_new_def service_client_new_def
        get_string_def get_as_def message_find_plain plain_key_def)
  then show ?thesis
    by (intro get_result_of_failure [where reason = "''No such job''" and st = Fail and address = "''tcp://q:1''"])
      (simp_all add: sample_job_def failing_agent_def)
qed

end
