(* ===== verification/Nix_Pool.thy ===== *)
theory Nix_Pool
  imports Nix_Client
begin

text \<open>
  \<open>nix::ObjectPool\<close> (src/src/nix/object_pool.hxx), the pool of clients the modules share
  (core/client_pool.cxx) and the worker loop that takes its client from it (queue/worker.cxx).
\<close>

section \<open>Object pools\<close>

text \<open>
  \<open>po_objects\<close> holds the objects with the use count of the \<open>shared_ptr\<close> in the vector. What
  \<open>acquire\<close> hands out is a new \<open>shared_ptr\<close> made from the raw pointer, with a counter of its own
  and the notifier as its deleter: the counts in the vector never change. \<open>po_out\<close> records the
  positions of the objects handed out and not yet given back, in the order they were; the code
  keeps no such record. \<open>apply\<close> holds the mutex without a guard object: an exception in the
  function leaves it locked.
\<close>

record 'a object_pool =
  po_objects :: "('a \<times> nat) list"
  po_locked :: bool
  po_out :: "nat list"

definition pool_empty :: "'a object_pool" where
  "pool_empty = \<lparr>po_objects = [], po_locked = False, po_out = []\<rparr>"

definition pool_insert :: "'a \<Rightarrow> 'a object_pool \<Rightarrow> 'a object_pool" where
  "pool_insert x p = p\<lparr>po_objects := po_objects p @ [(x, 1)]\<rparr>"

text \<open>The constructors: \<open>size\<close> objects, the \<open>i\<close>-th one from the \<open>i\<close>-th call of the initialiser.\<close>

definition pool_new :: "(nat \<Rightarrow> 'a) \<Rightarrow> nat \<Rightarrow> 'a object_pool" where
  "pool_new initializer n = fold (\<lambda>i. pool_insert (initializer i)) [0..<n] pool_empty"

definition pool_clear :: "'a object_pool \<Rightarrow> 'a object_pool" where
  "pool_clear p = p\<lparr>po_objects := []\<rparr>"

definition pool_size :: "'a object_pool \<Rightarrow> nat" where
  "pool_size p = length (po_objects p)"

fun apply_all :: "('a \<Rightarrow> 'a res) \<Rightarrow> ('a \<times> nat) list \<Rightarrow> exc option \<times> ('a \<times> nat) list" where
  "apply_all f [] = (None, [])"
| "apply_all f ((x, n) # xs) = (case f x of
     Inl e \<Rightarrow> (Some e, (x, n) # xs)
   | Inr x' \<Rightarrow> (let (r, xs') = apply_all f xs in (r, (x', n) # xs')))"

definition pool_apply :: "('a \<Rightarrow> 'a res) \<Rightarrow> int \<Rightarrow> 'a object_pool \<Rightarrow> 'a object_pool outcome" where
  "pool_apply f pos p =
     (if po_locked p then Blocked p
      else if pos > - 1 then
        (if nat pos < length (po_objects p) then
           (let (x, n) = po_objects p ! nat pos
            in case f x of
                 Inl e \<Rightarrow> Raised e (p\<lparr>po_locked := True\<rparr>) []
               | Inr x' \<Rightarrow> Done (p\<lparr>po_objects := (po_objects p)[nat pos := (x', n)]\<rparr>) [])
         else Raised UndefinedBehaviour p [])
      else (case apply_all f (po_objects p) of
          (Some e, xs) \<Rightarrow> Raised e (p\<lparr>po_objects := xs, po_locked := True\<rparr>) []
        | (None, xs) \<Rightarrow> Done (p\<lparr>po_objects := xs\<rparr>) []))"

datatype 'a acquired = Acquired 'a | Timed_out | Sleeps

fun first_unique :: "nat \<Rightarrow> ('a \<times> nat) list \<Rightarrow> (nat \<times> 'a) option" where
  "first_unique i [] = None"
| "first_unique i ((x, n) # xs) = (if n = 1 then Some (i, x) else first_unique (Suc i) xs)"

text \<open>
  No object is free: the caller waits for a notification, for ever when the timeout is
  \<open>WAIT_FOREVER = -1\<close> and nobody notifies, or until the timeout.
\<close>

definition pool_acquire :: "int \<Rightarrow> 'a object_pool \<Rightarrow> 'a acquired \<times> 'a object_pool" where
  "pool_acquire timeout p =
     (if po_locked p then (Sleeps, p)
      else case first_unique 0 (po_objects p) of
             Some (i, x) \<Rightarrow> (Acquired x, p\<lparr>po_out := po_out p @ [i]\<rparr>)
           | None \<Rightarrow> if timeout = - 1 then (Sleeps, p) else (Timed_out, p))"

text \<open>The end of what \<open>acquire\<close> handed out: the deleter only notifies.\<close>

definition pool_notify :: "nat \<Rightarrow> 'a object_pool \<Rightarrow> 'a object_pool" where
  "pool_notify i p = p\<lparr>po_out := remove1 i (po_out p)\<rparr>"

section \<open>Uses of a pool\<close>

inductive pool_step :: "'a object_pool \<Rightarrow> 'a object_pool \<Rightarrow> bool" where
  inserted: "pool_step p (pool_insert x p)"
| acquired: "pool_step p (snd (pool_acquire t p))"
| released: "pool_step p (pool_notify i p)"
| applied: "pool_step p (final_state p (pool_apply f pos p))"
| cleared: "pool_step p (pool_clear p)"

inductive pool_reachable :: "'a object_pool \<Rightarrow> bool" where
  created: "pool_reachable (pool_new f n)"
| used: "pool_reachable p \<Longrightarrow> pool_step p p' \<Longrightarrow> pool_reachable p'"

inductive_cases pool_stepE: "pool_step p p'"

definition pool_ok :: "'a object_pool \<Rightarrow> bool" where
  "pool_ok p \<longleftrightarrow> (\<forall>(x, n) \<in> set (po_objects p). n = 1)"

lemma pool_ok_insert: "pool_ok p \<Longrightarrow> pool_ok (pool_insert x p)"
  by (simp add: pool_ok_def pool_insert_def)

lemma pool_new_objects:
  "po_objects (pool_new f n) = map (\<lambda>i. (f i, 1)) [0..<n]" "\<not> po_locked (pool_new f n)"
  "po_out (pool_new f n) = []"
  by (induction n) (simp_all add: pool_new_def pool_empty_def pool_insert_def)

lemma pool_ok_new: "pool_ok (pool_new f n)"
  by (simp add: pool_ok_def pool_new_objects)

lemma apply_all_counts: "apply_all f xs = (r, ys) \<Longrightarrow> map snd ys = map snd xs"
  by (induction f xs arbitrary: r ys rule: apply_all.induct)
    (auto split: sum.splits prod.splits)

lemma pool_ok_counts: "pool_ok p \<longleftrightarrow> (\<forall>n \<in> set (map snd (po_objects p)). n = 1)"
  by (auto simp: pool_ok_def)

lemma counts_update: "xs ! i = (x, n) \<Longrightarrow> i < length xs \<Longrightarrow> (map snd xs)[i := n] = map snd xs"
  by (metis list_update_id nth_map snd_conv)

lemma pool_ok_apply:
  assumes "pool_ok p"
  shows "pool_ok (final_state p (pool_apply f pos p))"
proof -
  have "map snd (po_objects (final_state p (pool_apply f pos p))) = map snd (po_objects p)"
    by (auto simp: pool_apply_def map_update counts_update split: sum.split prod.split option.split
        dest: apply_all_counts)
  with assms show ?thesis by (simp add: pool_ok_counts)
qed

lemma pool_ok_acquire: "pool_ok p \<Longrightarrow> pool_ok (snd (pool_acquire t p))"
  by (auto simp: pool_ok_def pool_acquire_def split: option.split)

lemma pool_ok_step: "pool_step p p' \<Longrightarrow> pool_ok p \<Longrightarrow> pool_ok p'"
  by (erule pool_stepE)
    (auto simp: pool_ok_insert pool_ok_apply pool_ok_acquire,
     auto simp: pool_ok_def pool_notify_def pool_clear_def)

lemma reachable_pool_ok: "pool_reachable p \<Longrightarrow> pool_ok p"
  by (induction rule: pool_reachable.induct) (auto simp: pool_ok_new intro: pool_ok_step)

lemma first_unique_ok:
  "\<forall>(x, n) \<in> set xs. n = 1 \<Longrightarrow> first_unique i xs = (if xs = [] then None else Some (i, fst (hd xs)))"
  by (cases "(i, xs)" rule: first_unique.cases) auto

lemma acquire_ok:
  "pool_ok p \<Longrightarrow> pool_acquire t p =
     (if po_locked p \<or> (po_objects p = [] \<and> t = - 1) then (Sleeps, p)
      else if po_objects p = [] then (Timed_out, p)
      else (Acquired (fst (hd (po_objects p))), p\<lparr>po_out := po_out p @ [0]\<rparr>))"
  by (simp add: pool_acquire_def first_unique_ok pool_ok_def)

section \<open>The pool of clients\<close>

record client_pool =
  cp_config :: client_config
  cp_generic :: "client object_pool"
  cp_resolver :: "service_client object_pool"
  cp_cache :: "service_client object_pool"
  cp_job_queue :: "job_queue_client object_pool"

text \<open>The default maximal waiting times are those of the classes' constructors.\<close>

definition initialize_clients :: "client_pool \<Rightarrow> client_pool" where
  "initialize_clients p =
     (let config = cp_config p
      in p\<lparr>cp_generic := (pool_insert (client_new config 3000) ^^ cc_generic_client_pool_size config) (cp_generic p),
           cp_resolver := (pool_insert (resolver_client_new config 2000) ^^ cc_resolver_client_pool_size config)
             (cp_resolver p),
           cp_cache := (pool_insert (cache_client_new config 2000) ^^ cc_cache_client_pool_size config) (cp_cache p),
           cp_job_queue := (pool_insert (job_queue_client_new config 2000) ^^ cc_job_queue_client_pool_size config)
             (cp_job_queue p)\<rparr>)"

definition client_pool_new :: "client_config \<Rightarrow> client_pool" where
  "client_pool_new config = initialize_clients
     \<lparr>cp_config = config, cp_generic = pool_empty, cp_resolver = pool_empty, cp_cache = pool_empty,
      cp_job_queue = pool_empty\<rparr>"

text \<open>A client of the pool, or a null pointer when the waiting ends without one.\<close>

definition pool_client :: "'a object_pool \<Rightarrow> 'a acquired \<times> 'a object_pool" where
  "pool_client p = pool_acquire (- 1) p"

definition cp_take_generic :: "client_pool \<Rightarrow> client acquired \<times> client_pool" where
  "cp_take_generic p = (let (c, q) = pool_client (cp_generic p) in (c, p\<lparr>cp_generic := q\<rparr>))"

definition cp_take_resolver :: "client_pool \<Rightarrow> service_client acquired \<times> client_pool" where
  "cp_take_resolver p = (let (c, q) = pool_client (cp_resolver p) in (c, p\<lparr>cp_resolver := q\<rparr>))"

definition cp_take_cache :: "client_pool \<Rightarrow> service_client acquired \<times> client_pool" where
  "cp_take_cache p = (let (c, q) = pool_client (cp_cache p) in (c, p\<lparr>cp_cache := q\<rparr>))"

definition cp_take_job_queue :: "client_pool \<Rightarrow> job_queue_client acquired \<times> client_pool" where
  "cp_take_job_queue p = (let (c, q) = pool_client (cp_job_queue p) in (c, p\<lparr>cp_job_queue := q\<rparr>))"

lemma pool_insert_power:
  "po_objects ((pool_insert x ^^ n) p) = po_objects p @ replicate n (x, 1)"
  "po_locked ((pool_insert x ^^ n) p) = po_locked p"
  "po_out ((pool_insert x ^^ n) p) = po_out p"
  by (induction n) (simp_all add: pool_insert_def replicate_append_same)

lemma client_pool_ok:
  "pool_ok (cp_generic (client_pool_new config))" "pool_ok (cp_resolver (client_pool_new config))"
  "pool_ok (cp_cache (client_pool_new config))" "pool_ok (cp_job_queue (client_pool_new config))"
  by (simp_all add: client_pool_new_def initialize_clients_def Let_def pool_ok_def pool_insert_power
      pool_empty_def)

section \<open>Workers\<close>

text \<open>
  The loop of a worker: it takes a client from the pool of the module's interface, asks the queue for work,
  and processes the job it gets. The pool is a null pointer where there is none. A value is how
  the loop was left; no value is a loop that goes on, or sleeps, for ever. \<open>clock\<close> reads the time.
\<close>

partial_function (option) worker_loop :: "jlib \<Rightarrow> (nat \<Rightarrow> string) \<Rightarrow> ('w \<Rightarrow> int) \<Rightarrow> 'w agent
    \<Rightarrow> (job \<Rightarrow> (unit, 'w) action) \<Rightarrow> string \<Rightarrow> client_pool option \<Rightarrow> nat \<Rightarrow> 'w \<Rightarrow> (unit res \<times> 'w) option" where
  "worker_loop L rg clock A process mdl pool n w =
     (case pool of
        None \<Rightarrow> Some (Inl UndefinedBehaviour, w)
      | Some p \<Rightarrow>
          (case fst (cp_take_job_queue p) of
             Sleeps \<Rightarrow> None
           | Timed_out \<Rightarrow> Some (Inr (), w)
           | Acquired c \<Rightarrow>
               (case jc_get_work L rg (clock w) n A c mdl w of
                  (Inl e, w') \<Rightarrow> Some (Inl e, w')
                | (Inr (None, n'), w') \<Rightarrow> worker_loop L rg clock A process mdl pool n' w'
                | (Inr (Some j, n'), w') \<Rightarrow>
                    (case process j w' of
                       (Inl e, w'') \<Rightarrow> Some (Inl e, w'')
                     | (Inr u, w'') \<Rightarrow> worker_loop L rg clock A process mdl pool n' w''))))"

text \<open>\<open>set_result\<close>: whatever the client returns is dropped.\<close>

definition worker_set_result :: "jlib \<Rightarrow> 'w agent \<Rightarrow> client_pool option \<Rightarrow> job \<Rightarrow> 'w \<Rightarrow> (unit res \<times> 'w) option" where
  "worker_set_result L A pool j w =
     (case pool of
        None \<Rightarrow> Some (Inl UndefinedBehaviour, w)
      | Some p \<Rightarrow>
          (case fst (cp_take_job_queue p) of
             Sleeps \<Rightarrow> None
           | Timed_out \<Rightarrow> Some (Inr (), w)
           | Acquired c \<Rightarrow> Some (act_bind (jc_set_result L A c j) (\<lambda>_. act_ret ()) w)))"

section \<open>Properties\<close>

text \<open>
  A pool excludes nobody: whatever has been done with it and whoever holds what, two threads that
  acquire an object one after the other, before either gives it back, get the same object, the
  first one of the pool.
\<close>

theorem pool_no_exclusion:
  assumes "pool_reachable p" and "\<not> po_locked p" and "po_objects p \<noteq> []"
  shows "(case pool_acquire t p of (a, p1) \<Rightarrow> case pool_acquire t' p1 of (b, p2) \<Rightarrow>
      a = Acquired (fst (hd (po_objects p))) \<and> b = a \<and> po_out p2 = po_out p @ [0, 0])"
proof -
  have ok: "pool_ok p" by (rule reachable_pool_ok [OF assms(1)])
  then have ok': "pool_ok (p\<lparr>po_out := xs\<rparr>)" for xs by (simp add: pool_ok_def)
  from assms(2,3) show ?thesis by (simp add: acquire_ok [OF ok] acquire_ok [OF ok'])
qed

theorem pool_no_exclusion_witness:
  "(case pool_acquire 10 (pool_new (\<lambda>i. i) 3) of (a, p1) \<Rightarrow> case pool_acquire (- 1) p1 of (b, p2) \<Rightarrow>
      a = Acquired 0 \<and> b = Acquired 0 \<and> po_out p2 = [0, 0])"
  using pool_no_exclusion [where t = 10 and t' = "- 1", OF pool_reachable.created [of "\<lambda>i. i" 3]]
  by (simp add: pool_new_objects numeral_3_eq_3 split: prod.splits)

lemma apply_all_raise:
  "apply_all f xs = (Some e, ys) \<Longrightarrow> \<exists>i < length xs. f (fst (xs ! i)) = Inl e \<and> drop i ys = drop i xs"
proof (induction f xs arbitrary: ys rule: apply_all.induct)
  case (2 f x n xs)
  show ?case
  proof (cases "f x")
    case (Inl e')
    with "2.prems" show ?thesis by (intro exI [of _ 0]) auto
  next
    case (Inr x')
    with "2.prems" obtain ys' where ys: "apply_all f xs = (Some e, ys')" "ys = (x', n) # ys'"
      by (auto split: prod.splits)
    from "2.IH" [OF Inr ys(1)] obtain i where "i < length xs" "f (fst (xs ! i)) = Inl e"
      "drop i ys' = drop i xs" by blast
    with ys(2) show ?thesis by (intro exI [of _ "Suc i"]) auto
  qed
qed simp

text \<open>
  An exception in a function applied to all objects leaves the mutex of the pool locked: the
  objects before it have been changed, and from then on every \<open>acquire\<close>, whatever its timeout, and
  every \<open>apply\<close> waits for ever.
\<close>

theorem apply_exception_locks_pool:
  assumes "pool_apply f (- 1) p = Raised e p' ns"
  shows "pool_acquire t p' = (Sleeps, p') \<and> pool_apply g pos p' = Blocked p'
    \<and> (\<exists>i < length (po_objects p). f (fst (po_objects p ! i)) = Inl e
        \<and> drop i (po_objects p') = drop i (po_objects p))"
proof -
  obtain ys where ys: "apply_all f (po_objects p) = (Some e, ys)"
    "p' = p\<lparr>po_objects := ys, po_locked := True\<rparr>"
    using assms by (auto simp: pool_apply_def split: if_splits option.splits prod.splits)
  from apply_all_raise [OF ys(1)] ys(2) show ?thesis
    by (simp add: pool_apply_def pool_acquire_def)
qed

theorem apply_exception_locks_pool_witness:
  "pool_acquire 5 \<lparr>po_objects = [(1, 1), (0, 1)], po_locked = True, po_out = []\<rparr>
     = (Sleeps, \<lparr>po_objects = [(1 :: nat, 1), (0, 1)], po_locked = True, po_out = []\<rparr>)"
  using apply_exception_locks_pool [of "\<lambda>x. if x = 0 then Inl JsonLogicError else Inr (x :: nat)"
      "\<lparr>po_objects = [(1, 1), (0, 1)], po_locked = False, po_out = []\<rparr>" JsonLogicError
      "\<lparr>po_objects = [(1, 1), (0, 1)], po_locked = True, po_out = []\<rparr>" "[]" 5]
  by (simp add: pool_apply_def)

lemma worker_loop_end:
  assumes "worker_loop L rg clock A process mdl pool n w = Some r"
  shows "\<exists>e. fst r = Inl e"
proof (rule worker_loop.raw_induct [OF _ assms, where P = "\<lambda>_ _ _ _ _ _ _ _ _ r. \<exists>e. fst r = Inl e"], goal_cases)
  case (1 f L rg clock A process mdl pool n w r)
  have "t \<noteq> Timed_out" if "fst (cp_take_job_queue p) = t" for p t
    using that by (auto simp: cp_take_job_queue_def pool_client_def pool_acquire_def
        split: if_splits option.splits)
  with 1 show ?case
    by (auto split: option.splits acquired.splits prod.splits sum.splits) (metis fst_conv)
qed

text \<open>
  The loop of a worker never ends in order, whatever the agent, the queue and the module's
  function do: when it is left, it is by an exception. With no pool of clients (the program never
  makes one) that is at once, by a null pointer; with a pool of no clients the loop never gets to
  ask for work.
\<close>

theorem worker_never_finishes:
  "(\<forall>r w'. worker_loop L rg clock A process mdl pool n w = Some (r, w') \<longrightarrow> (\<exists>e. r = Inl e))
   \<and> worker_loop L rg clock A process mdl None n w = Some (Inl UndefinedBehaviour, w)
   \<and> (cc_job_queue_client_pool_size config = 0 \<longrightarrow>
        worker_loop L rg clock A process mdl (Some (client_pool_new config)) n w = None)"
proof (intro conjI impI)
  show "worker_loop L rg clock A process mdl None n w = Some (Inl UndefinedBehaviour, w)"
    by (simp add: worker_loop.simps)
  assume "cc_job_queue_client_pool_size config = 0"
  then have "fst (cp_take_job_queue (client_pool_new config)) = Sleeps"
    by (simp add: cp_take_job_queue_def pool_client_def client_pool_new_def initialize_clients_def
        Let_def pool_acquire_def pool_empty_def)
  then show "worker_loop L rg clock A process mdl (Some (client_pool_new config)) n w = None"
    by (simp add: worker_loop.simps)
qed (auto dest: worker_loop_end)

theorem worker_never_finishes_witness:
  "worker_loop ref_lib (\<lambda>n. ''id'') (\<lambda>w. 0) dead_agent (\<lambda>j. act_ret ()) ''m''
     (Some (client_pool_new (client_config_default\<lparr>cc_job_queue_client_pool_size := 0\<rparr>))) 0 () = None"
  using worker_never_finishes [of ref_lib "\<lambda>n. ''id''" "\<lambda>w. 0" dead_agent "\<lambda>j. act_ret ()" "''m''" None 0 "()"
      "client_config_default\<lparr>cc_job_queue_client_pool_size := 0\<rparr>"]
  by simp

end
