(* ===== verification/Nix_Background.thy ===== *)
theory Nix_Background
  imports Nix_Prelude
begin

text \<open>
  The background threads: the cleaner of the cache, the monitor of the resolver and the thread of the
  module manager (src/src/nix/module/builtin/service/cache.cxx, resolver.cxx, module/manager.cxx).
  All three follow one protocol: \<open>start\<close> locks a mutex and starts the thread; the thread works, then
  tries to lock the mutex a number of times with a sleep after each, and starts over; \<open>stop\<close>
  sets a flag, unlocks the mutex, which wakes the thread, and joins it. The cleaner and the monitor
  unlock the mutex at the end of their function.
\<close>

section \<open>The protocol\<close>

datatype owner = Starter | Thread

text \<open>Where the thread is: at the test of the flag, at its work, with \<open>n\<close> tries left, behind the loop.\<close>

datatype thread_at = Testing | Working | Trying nat | Leaving | Finished

text \<open>Where \<open>start\<close> and \<open>stop\<close> are.\<close>

datatype starter_at = Idle | Running | Flagged | Joining | Joined

text \<open>
  \<open>bg_bad\<close>: a thread has unlocked a mutex it does not own, which is undefined. The program goes on
  nowhere from there.
\<close>

record background =
  bg_flag :: bool
  bg_owner :: "owner option"
  bg_thread :: thread_at
  bg_starter :: starter_at
  bg_bad :: bool

definition bg_idle :: background where
  "bg_idle = \<lparr>bg_flag = False, bg_owner = None, bg_thread = Finished, bg_starter = Idle, bg_bad = False\<rparr>"

definition bg_unlock :: "owner \<Rightarrow> background \<Rightarrow> background" where
  "bg_unlock who b = (if bg_owner b = Some who then b\<lparr>bg_owner := None\<rparr> else b\<lparr>bg_bad := True\<rparr>)"

text \<open>\<open>start\<close>, and \<open>stop\<close> in three steps.\<close>

definition bg_start :: "background \<Rightarrow> background" where
  "bg_start b = b\<lparr>bg_flag := False, bg_owner := Some Starter, bg_thread := Testing, bg_starter := Running\<rparr>"

definition bg_raise_flag :: "background \<Rightarrow> background" where
  "bg_raise_flag b = b\<lparr>bg_flag := True, bg_starter := Flagged\<rparr>"

definition bg_release :: "background \<Rightarrow> background" where
  "bg_release b = (bg_unlock Starter b)\<lparr>bg_starter := Joining\<rparr>"

definition bg_join :: "background \<Rightarrow> background" where
  "bg_join b = b\<lparr>bg_starter := Joined\<rparr>"

text \<open>
  The next step of the thread. \<open>interval\<close> is the number of tries; \<open>unlocks\<close> tells whether it unlocks
  the mutex in the end.
\<close>

fun bg_thread_step :: "nat \<Rightarrow> bool \<Rightarrow> background \<Rightarrow> background" where
  "bg_thread_step interval unlocks b = (case bg_thread b of
     Testing \<Rightarrow> b\<lparr>bg_thread := (if bg_flag b then Leaving else Working)\<rparr>
   | Working \<Rightarrow> b\<lparr>bg_thread := Trying interval\<rparr>
   | Trying n \<Rightarrow>
       (if bg_owner b = None then b\<lparr>bg_owner := Some Thread, bg_thread := Testing\<rparr>
        else case n of 0 \<Rightarrow> b\<lparr>bg_thread := Testing\<rparr> | Suc m \<Rightarrow> b\<lparr>bg_thread := Trying m\<rparr>)
   | Leaving \<Rightarrow> (if unlocks then bg_unlock Thread b else b)\<lparr>bg_thread := Finished\<rparr>
   | Finished \<Rightarrow> b)"

declare bg_thread_step.simps [simp del]

lemmas bg_thread_simps = bg_thread_step.simps

inductive bg_step :: "nat \<Rightarrow> bool \<Rightarrow> background \<Rightarrow> background \<Rightarrow> bool" for interval unlocks where
  started: "bg_starter b = Idle \<Longrightarrow> bg_step interval unlocks b (bg_start b)"
| flagged: "\<not> bg_bad b \<Longrightarrow> bg_starter b = Running \<Longrightarrow> bg_step interval unlocks b (bg_raise_flag b)"
| released: "\<not> bg_bad b \<Longrightarrow> bg_starter b = Flagged \<Longrightarrow> bg_step interval unlocks b (bg_release b)"
| joined: "\<not> bg_bad b \<Longrightarrow> bg_starter b = Joining \<Longrightarrow> bg_thread b = Finished \<Longrightarrow>
     bg_step interval unlocks b (bg_join b)"
| thread: "\<not> bg_bad b \<Longrightarrow> bg_starter b \<noteq> Idle \<Longrightarrow> bg_thread b \<noteq> Finished \<Longrightarrow>
     bg_step interval unlocks b (bg_thread_step interval unlocks b)"

inductive bg_reachable :: "nat \<Rightarrow> bool \<Rightarrow> background \<Rightarrow> bool" for interval unlocks where
  idle: "bg_reachable interval unlocks bg_idle"
| steps: "bg_reachable interval unlocks b \<Longrightarrow> bg_step interval unlocks b b' \<Longrightarrow> bg_reachable interval unlocks b'"

inductive_cases bg_stepE: "bg_step interval unlocks b b'"

section \<open>The invariant\<close>

text \<open>
  Without an unlock gone wrong, the starter owns the mutex as long as it has not released it; the
  thread owns it only on its way out, behind the flag; and after the release it is free unless
  the thread has it.
\<close>

definition bg_inv :: "background \<Rightarrow> bool" where
  "bg_inv b \<longleftrightarrow> bg_bad b \<or> (case bg_starter b of
     Idle \<Rightarrow> b = bg_idle
   | Running \<Rightarrow> \<not> bg_flag b \<and> bg_owner b = Some Starter \<and> bg_thread b \<notin> {Leaving, Finished}
   | Flagged \<Rightarrow> bg_flag b \<and> bg_owner b = Some Starter
   | _ \<Rightarrow> bg_flag b \<and> bg_owner b \<noteq> Some Starter
       \<and> (bg_owner b = Some Thread \<longrightarrow> bg_thread b \<in> {Testing, Leaving, Finished}))"

lemma bg_inv_step: "bg_step interval unlocks b b' \<Longrightarrow> bg_inv b \<Longrightarrow> bg_inv b'"
proof (erule bg_stepE)
  assume "b' = bg_thread_step interval unlocks b" "bg_inv b" "\<not> bg_bad b" "bg_starter b \<noteq> Idle"
  then show "bg_inv b'"
    by (cases "bg_thread b"; cases "bg_starter b"; cases "bg_owner b")
      (auto simp: bg_inv_def bg_thread_simps bg_unlock_def split: nat.split owner.split)
qed (auto simp: bg_inv_def bg_start_def bg_raise_flag_def bg_release_def bg_join_def bg_unlock_def)

lemma bg_reachable_inv: "bg_reachable interval unlocks b \<Longrightarrow> bg_inv b"
proof (induction rule: bg_reachable.induct)
  case idle
  show ?case by (simp add: bg_inv_def bg_idle_def)
next
  case (steps b b')
  then show ?case using bg_inv_step by blast
qed

lemma bg_reachable_thread:
  "bg_reachable interval unlocks b \<Longrightarrow> \<not> bg_bad b \<Longrightarrow> bg_starter b \<noteq> Idle \<Longrightarrow> bg_thread b \<noteq> Finished \<Longrightarrow>
     bg_reachable interval unlocks (bg_thread_step interval unlocks b)"
  by (blast intro: bg_reachable.steps bg_step.thread)

section \<open>Properties\<close>

text \<open>
  C33. \<open>stop\<close> does not wait for long: from the release of the mutex on, wherever the thread is then and
  however long its interval, four steps of its own bring it to its end, at most one of them its
  work.
\<close>

theorem stop_ends_thread:
  assumes "bg_reachable interval unlocks b" and "\<not> bg_bad b" and "bg_starter b = Joining"
  shows "\<exists>n \<le> 4. bg_thread ((bg_thread_step interval unlocks ^^ n) b) = Finished
    \<and> length (filter (\<lambda>i. bg_thread ((bg_thread_step interval unlocks ^^ i) b) = Working) [0..<n]) \<le> 1"
proof -
  have inv: "bg_flag b" "bg_owner b \<noteq> Some Starter"
    "bg_owner b = Some Thread \<longrightarrow> bg_thread b \<in> {Testing, Leaving, Finished}"
    using bg_reachable_inv [OF assms(1)] assms(2,3) by (auto simp: bg_inv_def)
  let ?s = "bg_thread_step interval unlocks"
  show ?thesis
  proof (cases "bg_thread b")
    case Testing
    with inv have "bg_thread (?s b) = Leaving" by (simp add: bg_thread_simps)
    then have "bg_thread (?s (?s b)) = Finished" by (simp add: bg_thread_simps)
    then show ?thesis by (intro exI [of _ 2]) (simp add: numeral_2_eq_2 Testing \<open>bg_thread (?s b) = Leaving\<close>)
  next
    case Leaving
    then have "bg_thread (?s b) = Finished" by (simp add: bg_thread_simps)
    then show ?thesis by (intro exI [of _ 1]) (simp add: Leaving)
  next
    case Finished
    then show ?thesis by (intro exI [of _ 0]) simp
  next
    case (Trying n)
    with inv have "bg_owner b = None" by (cases "bg_owner b") (auto split: owner.splits, metis owner.exhaust)
    with inv Trying have s1: "bg_thread (?s b) = Testing" "bg_flag (?s b)" by (simp_all add: bg_thread_simps)
    then have s2: "bg_thread (?s (?s b)) = Leaving" by (simp add: bg_thread_simps)
    then have "bg_thread (?s (?s (?s b))) = Finished" by (simp add: bg_thread_simps)
    with s1 s2 Trying show ?thesis by (intro exI [of _ 3]) (simp add: numeral_3_eq_3)
  next
    case Working
    with inv have "bg_owner b = None" by (cases "bg_owner b") (auto, metis owner.exhaust)
    with inv Working have s1: "bg_thread (?s b) = Trying interval" "bg_flag (?s b)" "bg_owner (?s b) = None"
      by (simp_all add: bg_thread_simps)
    then have s2: "bg_thread (?s (?s b)) = Testing" "bg_flag (?s (?s b))" by (simp_all add: bg_thread_simps)
    then have s3: "bg_thread (?s (?s (?s b))) = Leaving" by (simp add: bg_thread_simps)
    then have "bg_thread (?s (?s (?s (?s b)))) = Finished" by (simp add: bg_thread_simps)
    with s1 s2 s3 Working show ?thesis by (intro exI [of _ 4]) (simp add: eval_nat_numeral)
  qed
qed

theorem stop_ends_thread_witness:
  "\<exists>n \<le> 4. bg_thread ((bg_thread_step 60 True ^^ n) (bg_release (bg_raise_flag (bg_thread_step 60 True (bg_start bg_idle)))))
     = Finished"
proof -
  let ?b = "bg_thread_step 60 True (bg_start bg_idle)"
  have "bg_reachable 60 True (bg_start bg_idle)"
    by (intro bg_reachable.steps [OF bg_reachable.idle] bg_step.started) (simp add: bg_idle_def)
  then have "bg_reachable 60 True ?b"
    by (rule bg_reachable_thread) (simp_all add: bg_start_def bg_idle_def)
  then have "bg_reachable 60 True (bg_raise_flag ?b)"
    by (rule bg_reachable.steps) (rule bg_step.flagged, simp_all add: bg_start_def bg_idle_def bg_thread_simps)
  then have "bg_reachable 60 True (bg_release (bg_raise_flag ?b))"
    by (rule bg_reachable.steps)
      (rule bg_step.released, simp_all add: bg_start_def bg_idle_def bg_thread_simps bg_raise_flag_def)
  from stop_ends_thread [OF this] show ?thesis
    by (auto simp: bg_start_def bg_idle_def bg_thread_simps bg_raise_flag_def bg_release_def bg_unlock_def)
qed

text \<open>
  C39. A race in \<open>stop\<close> of the cleaner and of the monitor: whenever the thread is about to test the flag
  while the service runs (once per interval, and right after \<open>start\<close>), a \<open>stop\<close> that has set the flag
  and not yet released the mutex lets the thread leave its loop and unlock a mutex it does not own.
  The thread of the module manager, which does not unlock in the end, never does that.
\<close>

theorem stop_race:
  assumes "bg_reachable interval True b" and "\<not> bg_bad b" and "bg_starter b = Running"
    and "bg_thread b = Testing"
  shows "bg_reachable interval True (bg_thread_step interval True (bg_thread_step interval True (bg_raise_flag b)))
    \<and> bg_bad (bg_thread_step interval True (bg_thread_step interval True (bg_raise_flag b)))
    \<and> (\<forall>b'. bg_reachable interval False b' \<longrightarrow> \<not> bg_bad b')"
proof -
  let ?s = "bg_thread_step interval True"
  have own: "bg_owner b = Some Starter"
    using bg_reachable_inv [OF assms(1)] assms(2,3) by (simp add: bg_inv_def)
  have r1: "bg_reachable interval True (bg_raise_flag b)"
    using assms(1-3) by (blast intro: bg_reachable.steps bg_step.flagged)
  then have r2: "bg_reachable interval True (?s (bg_raise_flag b))"
    by (rule bg_reachable_thread) (simp_all add: bg_raise_flag_def assms)
  then have "bg_reachable interval True (?s (?s (bg_raise_flag b)))"
    by (rule bg_reachable_thread) (simp_all add: bg_raise_flag_def bg_thread_simps assms)
  moreover have "bg_bad (?s (?s (bg_raise_flag b)))"
    by (simp add: bg_raise_flag_def bg_thread_simps bg_unlock_def assms own)
  moreover have "\<not> bg_bad b'" if "bg_reachable interval False b'" for b'
    using that
  proof (induction rule: bg_reachable.induct)
    case (steps x y)
    from steps(2) show ?case
    proof (cases rule: bg_step.cases)
      case released
      with bg_reachable_inv [OF steps(1)] show ?thesis
        by (simp add: bg_inv_def bg_release_def bg_unlock_def)
    next
      case thread
      then show ?thesis by (cases "bg_thread x") (auto simp: bg_thread_simps split: nat.split)
    qed (auto simp: bg_start_def bg_raise_flag_def bg_join_def steps)
  qed (simp add: bg_idle_def)
  ultimately show ?thesis by blast
qed

theorem stop_race_witness:
  "bg_bad (bg_thread_step 60 True (bg_thread_step 60 True (bg_raise_flag (bg_start bg_idle))))"
proof -
  have "bg_reachable 60 True (bg_start bg_idle)"
    by (intro bg_reachable.steps [OF bg_reachable.idle] bg_step.started) (simp add: bg_idle_def)
  from stop_race [OF this] show ?thesis by (simp add: bg_start_def bg_idle_def)
qed

end
