(* ===== verification/Nix_Auth.thy ===== *)
theory Nix_Auth
  imports Nix_Route
begin

text \<open>
  \<open>nix::core::Auth\<close> (src/src/nix/core/auth.hxx, auth.cxx): which requests may use a route.
  The table of keys is part of the state, since \<open>auth_keys_[api_key]\<close> on an unknown key
  inserts it with the value-initialised key type (here \<open>KEY_ZERO\<close>; the enumerators start at 1).
\<close>

datatype key_type = KEY_ZERO | KEY_PUBLIC | KEY_PRIVATE | KEY_ADMIN | KEY_TEST

fun key_code :: "key_type \<Rightarrow> nat" where
  "key_code KEY_ZERO = 0"
| "key_code KEY_PUBLIC = 1"
| "key_code KEY_PRIVATE = 2"
| "key_code KEY_ADMIN = 3"
| "key_code KEY_TEST = 4"

lemma key_code_inj [simp]: "key_code a = key_code b \<longleftrightarrow> a = b"
  by (cases a; cases b) simp_all

instantiation key_type :: linorder
begin

definition less_eq_key_type :: "key_type \<Rightarrow> key_type \<Rightarrow> bool" where
  "less_eq_key_type a b \<longleftrightarrow> key_code a \<le> key_code b"

definition less_key_type :: "key_type \<Rightarrow> key_type \<Rightarrow> bool" where
  "less_key_type a b \<longleftrightarrow> key_code a < key_code b"

instance
  by standard (auto simp: less_eq_key_type_def less_key_type_def simp flip: key_code_inj)

end

record auth =
  au_keys :: "(string, key_type) umap"
  au_development :: bool

definition auth_new :: "bool \<Rightarrow> auth" where
  "auth_new development_mode =
     \<lparr>au_keys = (if development_mode then
        AList.update ''_development_key_admin_'' KEY_ADMIN
         (AList.update ''_development_key_private_'' KEY_PRIVATE
          (AList.update ''_development_key_public_'' KEY_PUBLIC
           (AList.update ''_development_key_'' KEY_TEST [])))
        else []),
      au_development = development_mode\<rparr>"

text \<open>\<open>auth_keys_[api_key]\<close>: the value, and the table it leaves.\<close>

definition auth_lookup :: "string \<Rightarrow> auth \<Rightarrow> key_type \<times> auth" where
  "auth_lookup key a =
     (let (v, ks) = index_or_insert KEY_ZERO key (au_keys a) in (v, a\<lparr>au_keys := ks\<rparr>))"

text \<open>The result is whether access is granted, the error text and the state.\<close>

definition check_access :: "jlib \<Rightarrow> json \<Rightarrow> access_modifier \<Rightarrow> auth \<Rightarrow> (bool \<times> string) \<times> auth" where
  "check_access L doc am a =
     (if am = ANY then ((True, []), a)
      else
        let api_key = get_string L ''@api_key'' [] doc;
            (is_test, a1) = (if au_development a
               then (let (v, a') = auth_lookup api_key a in (v = KEY_TEST, a')) else (False, a))
        in if is_test then ((True, []), a1)
           else if api_key = [] then ((False, ''No api_key found''), a1)
           else if \<not> um_count api_key (au_keys a1) then ((False, ''Invalid api_key '' @ api_key), a1)
           else case am of
               PUBLIC \<Rightarrow> ((True, []), a1)
             | API_PRIVATE \<Rightarrow>
                 (let (v, a2) = auth_lookup api_key a1
                  in if v = KEY_PRIVATE then ((True, []), a2)
                     else let (v', a3) = auth_lookup api_key a2 in ((v' = KEY_ADMIN, []), a3))
             | ADMIN \<Rightarrow> (let (v, a2) = auth_lookup api_key a1 in ((v = KEY_ADMIN, []), a2))
             | _ \<Rightarrow> ((False, ''Unauthorized''), a1))"

definition granted :: "jlib \<Rightarrow> json \<Rightarrow> access_modifier \<Rightarrow> auth \<Rightarrow> bool" where
  "granted L doc am a = fst (fst (check_access L doc am a))"

section \<open>What the table holds after any number of checks\<close>

definition dev_key :: "string \<Rightarrow> key_type" where
  "dev_key k =
     (if k = ''_development_key_'' then KEY_TEST
      else if k = ''_development_key_public_'' then KEY_PUBLIC
      else if k = ''_development_key_private_'' then KEY_PRIVATE
      else if k = ''_development_key_admin_'' then KEY_ADMIN
      else KEY_ZERO)"

text \<open>
  In development mode a key is worth what the constructor gave it and every other key in the
  table is worth nothing; otherwise the table is empty.
\<close>

definition auth_inv :: "bool \<Rightarrow> auth \<Rightarrow> bool" where
  "auth_inv dev a \<longleftrightarrow> au_development a = dev \<and>
     (if dev then \<forall>k. case map_of (au_keys a) k of Some v \<Rightarrow> v = dev_key k | None \<Rightarrow> dev_key k = KEY_ZERO
      else au_keys a = [])"

lemma auth_inv_new: "auth_inv dev (auth_new dev)"
  by (auto simp: auth_inv_def auth_new_def update_conv' dev_key_def)

lemma auth_lookup_dev:
  assumes "auth_inv True a"
  shows "fst (auth_lookup k a) = dev_key k"
    and "auth_inv True (snd (auth_lookup k a))"
    and "um_count k (au_keys (snd (auth_lookup k a)))"
  using assms
  by (auto simp: auth_lookup_def index_or_insert_def auth_inv_def update_conv' um_count_def
      split: option.split dest: spec [of _ k])

lemma auth_lookup_devE:
  assumes "auth_inv True a"
  obtains a' where "auth_lookup k a = (dev_key k, a')" "auth_inv True a'" "um_count k (au_keys a')"
  using auth_lookup_dev [OF assms, of k] by (metis prod.collapse)

text \<open>What a key of the development table opens.\<close>

definition opens :: "key_type \<Rightarrow> access_modifier \<Rightarrow> bool" where
  "opens v am = (case am of
     ANY \<Rightarrow> True
   | PUBLIC \<Rightarrow> True
   | API_PRIVATE \<Rightarrow> KEY_PRIVATE \<le> v
   | ADMIN \<Rightarrow> KEY_ADMIN \<le> v)"

lemma check_dev:
  assumes "auth_inv True a"
  shows "(fst (fst (check_access L doc am a)) \<longleftrightarrow>
           am = ANY \<or> (get_string L ''@api_key'' [] doc \<noteq> []
             \<and> opens (dev_key (get_string L ''@api_key'' [] doc)) am))
    \<and> auth_inv True (snd (check_access L doc am a))"
proof (cases "am = ANY")
  case False
  let ?k = "get_string L ''@api_key'' [] doc"
  have dev: "au_development a" using assms by (simp add: auth_inv_def)
  obtain a1 where a1: "auth_lookup ?k a = (dev_key ?k, a1)" "auth_inv True a1" "um_count ?k (au_keys a1)"
    using auth_lookup_devE [OF assms] .
  obtain a2 where a2: "auth_lookup ?k a1 = (dev_key ?k, a2)" "auth_inv True a2"
    using auth_lookup_devE [OF a1(2)] by metis
  obtain a3 where a3: "auth_lookup ?k a2 = (dev_key ?k, a3)" "auth_inv True a3"
    using auth_lookup_devE [OF a2(2)] by metis
  have nil: "dev_key [] = KEY_ZERO" by (simp add: dev_key_def)
  show ?thesis
    using False dev a1 a2 a3 nil
    by (cases am; cases "dev_key ?k")
      (auto simp: check_access_def Let_def opens_def less_eq_key_type_def)
qed (use assms in \<open>simp add: check_access_def\<close>)

lemma check_strict:
  assumes "auth_inv False a" "am \<noteq> ANY"
  shows "check_access L doc am a =
    ((False, if get_string L ''@api_key'' [] doc = [] then ''No api_key found''
             else ''Invalid api_key '' @ get_string L ''@api_key'' [] doc), a)"
  using assms by (simp add: check_access_def auth_inv_def um_count_def)

type_synonym access_request = "json \<times> access_modifier"

definition auth_step :: "jlib \<Rightarrow> access_request \<Rightarrow> auth \<Rightarrow> auth" where
  "auth_step L r a = snd (check_access L (fst r) (snd r) a)"

lemma auth_step_inv: "auth_inv dev a \<Longrightarrow> auth_inv dev (auth_step L r a)"
  using check_dev check_strict
  by (cases dev; cases "snd r = ANY") (auto simp: auth_step_def, simp_all add: check_access_def)

interpretation au: event_system "auth_step L" "auth_inv dev" for L dev
  by unfold_locales (rule auth_step_inv)

section \<open>Properties\<close>

text \<open>
  Outside development mode no key opens anything: after any number of checks a request for
  a route that is not \<open>ANY\<close> is refused, with the reason that it has no key or an invalid one,
  and the table of keys stays empty.
\<close>

theorem access_needs_development_mode:
  assumes "am \<noteq> ANY"
  shows "let a = fold (auth_step L) rs (auth_new False)
    in check_access L doc am a =
         ((False, if get_string L ''@api_key'' [] doc = [] then ''No api_key found''
                  else ''Invalid api_key '' @ get_string L ''@api_key'' [] doc), a)
       \<and> au_keys a = []"
proof -
  have "auth_inv False (fold (auth_step L) rs (auth_new False))"
    by (rule au.fold_inv) (rule auth_inv_new)
  with check_strict [OF this assms] show ?thesis by (simp add: Let_def auth_inv_def)
qed

theorem access_needs_development_mode_witness:
  "check_access ref_lib (JObject [(''@api_key'', JString ''k'')]) ADMIN
      (fold (auth_step ref_lib) [(JNull, PUBLIC)] (auth_new False))
    = ((False, ''Invalid api_key k''), fold (auth_step ref_lib) [(JNull, PUBLIC)] (auth_new False))"
  using access_needs_development_mode [of ADMIN ref_lib "[(JNull, PUBLIC)]"
      "JObject [(''@api_key'', JString ''k'')]"]
  by (simp add: Let_def get_string_def get_as_def message_find_plain plain_key_def)

text \<open>
  Access in development mode does not depend on the checks made before and is given
  exactly as follows: an \<open>ANY\<close> route to everyone, a \<open>PUBLIC\<close> route to any request with a
  non-empty key (even one the server never heard of, since the lookup has just inserted it), an
  \<open>API_PRIVATE\<close> route to the private, admin and test keys, an \<open>ADMIN\<close> route to the admin and
  test keys.
\<close>

theorem access_in_development_mode:
  "granted L doc am (fold (auth_step L) rs (auth_new True)) \<longleftrightarrow>
     (let key = get_string L ''@api_key'' [] doc
      in case am of
           ANY \<Rightarrow> True
         | PUBLIC \<Rightarrow> key \<noteq> []
         | API_PRIVATE \<Rightarrow> key \<in> {''_development_key_private_'', ''_development_key_admin_'', ''_development_key_''}
         | ADMIN \<Rightarrow> key \<in> {''_development_key_admin_'', ''_development_key_''})"
proof -
  have "auth_inv True (fold (auth_step L) rs (auth_new True))"
    by (rule au.fold_inv) (rule auth_inv_new)
  from check_dev [OF this, of L doc am] show ?thesis
    by (cases am) (auto simp: granted_def opens_def dev_key_def less_eq_key_type_def)
qed

text \<open>
  The modifiers are ordered: in either mode and after any checks, a request that may use a
  route may use every route with a more open modifier.
\<close>

theorem access_monotone:
  assumes "am' \<le> am" and "granted L doc am (fold (auth_step L) rs (auth_new dev))"
  shows "granted L doc am' (fold (auth_step L) rs (auth_new dev))"
proof -
  have inv: "auth_inv dev (fold (auth_step L) rs (auth_new dev))"
    by (rule au.fold_inv) (rule auth_inv_new)
  show ?thesis
  proof (cases dev)
    case True
    with check_dev inv assms show ?thesis
      by (cases am; cases am')
        (auto simp: granted_def opens_def less_eq_key_type_def less_eq_access_modifier_def)
  next
    case False
    with inv have strict: "\<not> granted L doc m (fold (auth_step L) rs (auth_new dev))" if "m \<noteq> ANY" for m
      using check_strict [of _ m L doc] that by (simp add: granted_def)
    with assms(2) have "am = ANY" by blast
    with assms(1) have "am' = ANY"
      by (cases am') (simp_all add: less_eq_access_modifier_def)
    then show ?thesis by (simp add: granted_def check_access_def)
  qed
qed

theorem access_monotone_witness:
  "granted ref_lib (JObject [(''@api_key'', JString ''_development_key_admin_'')]) PUBLIC
     (fold (auth_step ref_lib) [] (auth_new True))"
proof (rule access_monotone [of PUBLIC ADMIN])
  show "PUBLIC \<le> ADMIN" by (simp add: less_eq_access_modifier_def)
  show "granted ref_lib (JObject [(''@api_key'', JString ''_development_key_admin_'')]) ADMIN
     (fold (auth_step ref_lib) [] (auth_new True))"
    by (simp add: granted_def check_access_def get_string_def get_as_def message_find_plain
        plain_key_def auth_new_def auth_lookup_def index_or_insert_def um_count_def Let_def)
qed

end
