(* ===== verification/Nix_Dispatcher.thy ===== *)
theory Nix_Dispatcher
  imports Nix_Auth Nix_Options
begin

text \<open>
  \<open>nix::server::Dispatcher\<close> (src/src/nix/server/dispatcher.hxx, dispatcher.cxx): from a message
  of YAMI to the handler of a module. The state of the modules is the type variable \<open>'w\<close>, and
  \<open>run\<close> what their handlers do to it; the dispatcher's own handler works on its own state.
\<close>

section \<open>State\<close>

record server_stats =
  st_requests :: "64 word"
  st_auth_errors :: "64 word"
  st_unroutable :: "64 word"
  st_rejected :: "64 word"

definition stats_zero :: server_stats where
  "stats_zero = \<lparr>st_requests = 0, st_auth_errors = 0, st_unroutable = 0, st_rejected = 0\<rparr>"

datatype 'h bound = Server_status | Bound 'h

record 'h dispatcher =
  dp_routing :: "(string, 'h bound route) umap"
  dp_auth :: auth
  dp_options :: server_options
  dp_stats :: server_stats
  dp_module_stats :: "(string, server_stats) umap"

text \<open>What the program reads of an incoming message; \<open>rm_message\<close> is its \<open>message\<close> parameter.\<close>

record raw_msg =
  rm_id :: nat
  rm_object :: string
  rm_name :: string
  rm_message :: "string option"

definition full_route :: "string \<Rightarrow> string \<Rightarrow> string" where
  "full_route mdl name = mdl @ ''::'' @ name"

section \<open>Registration\<close>

definition add_route :: "string \<Rightarrow> 'h bound route \<Rightarrow> 'h dispatcher \<Rightarrow> 'h dispatcher" where
  "add_route mdl r d =
     d\<lparr>dp_routing := um_emplace (full_route mdl (rt_name r)) r (dp_routing d),
       dp_module_stats :=
         (if \<not> um_count mdl (dp_module_stats d) then um_emplace mdl stats_zero (dp_module_stats d)
          else dp_module_stats d)\<rparr>"

definition add_routes :: "string \<Rightarrow> 'h bound route list \<Rightarrow> 'h dispatcher \<Rightarrow> 'h dispatcher" where
  "add_routes mdl rs d = fold (add_route mdl) rs d"

definition dispatcher_new :: "server_options \<Rightarrow> 'h dispatcher" where
  "dispatcher_new opts =
     add_route ''Status'' (route_new ''status'' Server_status API_PRIVATE SYNC [])
       \<lparr>dp_routing = [], dp_auth = auth_new (so_development_mode opts), dp_options = opts,
        dp_stats = stats_zero, dp_module_stats = []\<rparr>"

section \<open>Counting\<close>

definition count_server :: "(server_stats \<Rightarrow> server_stats) \<Rightarrow> 'h dispatcher \<Rightarrow> 'h dispatcher" where
  "count_server f d = d\<lparr>dp_stats := f (dp_stats d)\<rparr>"

definition count_module :: "(server_stats \<Rightarrow> server_stats) \<Rightarrow> string \<Rightarrow> 'h dispatcher \<Rightarrow> 'h dispatcher" where
  "count_module f mdl d = (case map_of (dp_module_stats d) mdl of
     None \<Rightarrow> d
   | Some st \<Rightarrow> d\<lparr>dp_module_stats := AList.update mdl (f st) (dp_module_stats d)\<rparr>)"

definition one_request :: "server_stats \<Rightarrow> server_stats" where
  "one_request st = st\<lparr>st_requests := st_requests st + 1\<rparr>"

definition one_auth_error :: "server_stats \<Rightarrow> server_stats" where
  "one_auth_error st = st\<lparr>st_auth_errors := st_auth_errors st + 1\<rparr>"

definition one_unroutable :: "server_stats \<Rightarrow> server_stats" where
  "one_unroutable st = st\<lparr>st_unroutable := st_unroutable st + 1\<rparr>"

section \<open>The status of the server\<close>

definition stats_entries :: "string \<Rightarrow> server_stats \<Rightarrow> (string \<times> json) list" where
  "stats_entries pre st =
     [(pre @ ''.requests'', JInt (sint (st_requests st))),
      (pre @ ''.auth_errors'', JInt (sint (st_auth_errors st))),
      (pre @ ''.unroutable'', JInt (sint (st_unroutable st))),
      (pre @ ''.rejected'', JInt (sint (st_rejected st)))]"

definition routing_entries :: "string \<times> 'h bound route \<Rightarrow> (string \<times> json) list" where
  "routing_entries kr =
     (let pre = ''server.routing.'' @ fst kr
      in [(pre @ ''.access_modifier'', JInt (access_code (rt_access (snd kr)))),
          (pre @ ''.processing_type'', JInt (processing_code (rt_processing (snd kr)))),
          (pre @ ''.description'', JString (rt_description (snd kr)))])"

text \<open>\<open>routing_\<close> is a \<open>std::map\<close>, visited in the order of its keys.\<close>

definition status_entries :: "jlib \<Rightarrow> int \<Rightarrow> json \<Rightarrow> 'h dispatcher \<Rightarrow> (string \<times> json) list" where
  "status_entries L now doc d =
     (let full = get_bool L ''full'' False doc
      in [(''nodename'', JString (so_nodename (dp_options d)))]
       @ (if full \<or> get_bool L ''server'' False doc
          then [(''server.uptime'', JInt (narrow32 (now - so_start_time (dp_options d))))] else [])
       @ (if full \<or> get_bool L ''stats'' False doc then stats_entries ''stats'' (dp_stats d) else [])
       @ (if full \<or> get_bool L ''module_stats'' False doc
          then concat (map (\<lambda>(m, st). stats_entries (''stats.'' @ m) st) (dp_module_stats d)) else [])
       @ (if full \<or> get_bool L ''routing'' False doc
          then concat (map routing_entries (sort_key fst (dp_routing d))) else []))"

definition reset_stats :: "'h dispatcher \<Rightarrow> 'h dispatcher" where
  "reset_stats d = d\<lparr>dp_stats := stats_zero,
     dp_module_stats := map (\<lambda>(m, st). (m, stats_zero)) (dp_module_stats d)\<rparr>"

definition server_status :: "jlib \<Rightarrow> int \<Rightarrow> imsg \<Rightarrow> 'h dispatcher \<Rightarrow> 'h dispatcher outcome" where
  "server_status L now msg d =
     (case set_all (status_entries L now (im_doc msg) d) message_new of
        Inl e \<Rightarrow> Raised e d []
      | Inr om \<Rightarrow>
          let d' = (if get_bool L ''reset'' False (im_doc msg) then reset_stats d else d)
          in answer (im_reply_msg L (im_id msg) om Ok) d' d')"

section \<open>Dispatching\<close>

definition dispatch :: "jlib \<Rightarrow> int \<Rightarrow> ('h \<Rightarrow> imsg \<Rightarrow> 'w \<Rightarrow> 'w outcome) \<Rightarrow> raw_msg
    \<Rightarrow> 'h dispatcher \<times> 'w \<Rightarrow> ('h dispatcher \<times> 'w) outcome" where
  "dispatch L now run rm s =
     (let (d, w) = s; mdl = rm_object rm; d1 = count_server one_request d
      in case map_of (dp_routing d) (full_route mdl (rm_name rm)) of
           None \<Rightarrow> Done (count_module one_unroutable mdl (count_server one_unroutable d1), w) [Reject (rm_id rm) []]
         | Some r \<Rightarrow>
             if \<not> um_count mdl (dp_module_stats d1) then Raised UndefinedBehaviour (d1, w) []
             else
               let d2 = count_module one_request mdl d1
               in case (case rm_message rm of None \<Rightarrow> Inr message_new | Some t \<Rightarrow> message_parse L t message_new) of
                    Inl e \<Rightarrow> Raised e (d2, w) []
                  | Inr doc \<Rightarrow>
                      let im = \<lparr>im_id = rm_id rm, im_doc = doc\<rparr>;
                          ((ok, err), au) = check_access L doc (rt_access r) (dp_auth d2);
                          d3 = d2\<lparr>dp_auth := au\<rparr>
                      in if \<not> ok then
                           answer (im_fail_code L im Auth_unauthorized err) (d3, w)
                             (count_module one_auth_error mdl (count_server one_auth_error d3), w)
                         else if rt_processing r = PUBLISH then Done (d3, w) [EmptyReply (rm_id rm)]
                         else (case rt_handler r of
                             Server_status \<Rightarrow> map_outcome_state (\<lambda>d'. (d', w)) (server_status L now im d3)
                           | Bound h \<Rightarrow> map_outcome_state (\<lambda>w'. (d3, w')) (run h im w)))"

text \<open>The handler for the object \<open>*\<close> (not registered by the server).\<close>

definition default_route_handler :: "raw_msg \<Rightarrow> 'h dispatcher \<Rightarrow> 'h dispatcher outcome" where
  "default_route_handler rm d = Done (count_server one_unroutable d) [Reject (rm_id rm) ''Unroutable'']"

text \<open>The direct handlers for the objects \<open>ping\<close> and \<open>echo\<close>.\<close>

definition is_node_alive_handler :: "raw_msg \<Rightarrow> 's \<Rightarrow> 's outcome" where
  "is_node_alive_handler rm s = Done s [EmptyReply (rm_id rm)]"

definition echo :: "raw_msg \<Rightarrow> 's \<Rightarrow> 's outcome" where
  "echo rm s = Done s [EmptyReply (rm_id rm)]"

section \<open>Names of routes\<close>

text \<open>
  The statistics of a module are found by the object a message was sent to, the route by object
  and name together. They agree when neither modules nor routes have a colon in their names.
\<close>

definition no_colon :: "string \<Rightarrow> bool" where
  "no_colon s \<longleftrightarrow> CHR '':'' \<notin> set s"

lemma takeWhile_colon: "no_colon xs \<Longrightarrow> takeWhile (\<lambda>c. c \<noteq> CHR '':'') (xs @ CHR '':'' # ys) = xs"
  by (induction xs) (auto simp: no_colon_def)

lemma full_route_split:
  assumes "no_colon m" "no_colon n" "full_route obj name = full_route m n"
  shows "obj = m \<and> name = n"
proof -
  have eq: "obj @ ''::'' @ name = m @ ''::'' @ n" using assms(3) by (simp add: full_route_def)
  have "takeWhile (\<lambda>c. c \<noteq> CHR '':'') (m @ ''::'' @ n) = m"
    using assms(1) by (simp add: takeWhile_colon)
  then have tw: "takeWhile (\<lambda>c. c \<noteq> CHR '':'') (obj @ ''::'' @ name) = m" using eq by simp
  show ?thesis
  proof (cases "no_colon obj")
    case True
    then have "takeWhile (\<lambda>c. c \<noteq> CHR '':'') (obj @ ''::'' @ name) = obj"
      by (simp add: takeWhile_colon)
    with tw eq show ?thesis by simp
  next
    case False
    then obtain xs ys where obj: "obj = xs @ CHR '':'' # ys" "CHR '':'' \<notin> set xs"
      by (auto simp: no_colon_def dest: split_list_first)
    then have "takeWhile (\<lambda>c. c \<noteq> CHR '':'') (obj @ ''::'' @ name) = xs"
      by (simp add: takeWhile_colon no_colon_def)
    with tw obj eq have "ys @ ''::'' @ name = CHR '':'' # n" by simp
    with assms(2) show ?thesis by (cases ys) (auto simp: no_colon_def)
  qed
qed

definition dispatcher_inv :: "'h dispatcher \<Rightarrow> bool" where
  "dispatcher_inv d \<longleftrightarrow>
     (\<forall>k r. map_of (dp_routing d) k = Some r \<longrightarrow>
        (\<exists>m. k = full_route m (rt_name r) \<and> no_colon m \<and> no_colon (rt_name r) \<and> um_count m (dp_module_stats d)))
     \<and> auth_inv (so_development_mode (dp_options d)) (dp_auth d)"

lemma dispatcher_inv_add_route:
  assumes "dispatcher_inv d" "no_colon m" "no_colon (rt_name r)"
  shows "dispatcher_inv (add_route m r d)"
proof -
  have "um_count k (dp_module_stats (add_route m r d)) \<longleftrightarrow> k = m \<or> um_count k (dp_module_stats d)" for k
    by (simp add: add_route_def um_count_def map_of_um_emplace)
  moreover have "map_of (dp_routing (add_route m r d)) k = Some r' \<Longrightarrow>
      map_of (dp_routing d) k = Some r' \<or> (k = full_route m (rt_name r) \<and> r' = r)" for k r'
    by (auto simp: add_route_def map_of_um_emplace split: if_splits)
  moreover have "dp_auth (add_route m r d) = dp_auth d" "dp_options (add_route m r d) = dp_options d"
    by (simp_all add: add_route_def)
  ultimately show ?thesis using assms unfolding dispatcher_inv_def by metis
qed

lemma dispatcher_inv_add_routes:
  "dispatcher_inv d \<Longrightarrow> no_colon m \<Longrightarrow> \<forall>r \<in> set rs. no_colon (rt_name r) \<Longrightarrow> dispatcher_inv (add_routes m rs d)"
  unfolding add_routes_def by (induction rs arbitrary: d) (simp_all add: dispatcher_inv_add_route)

lemma dispatcher_inv_new: "dispatcher_inv (dispatcher_new opts)"
  unfolding dispatcher_new_def
  by (rule dispatcher_inv_add_route) (simp_all add: dispatcher_inv_def auth_inv_new no_colon_def)

text \<open>What the counters and the checks leave alone.\<close>

lemma count_simps [simp]:
  "dp_routing (count_server f d) = dp_routing d" "dp_auth (count_server f d) = dp_auth d"
  "dp_options (count_server f d) = dp_options d" "dp_module_stats (count_server f d) = dp_module_stats d"
  "dp_routing (count_module f m d) = dp_routing d" "dp_auth (count_module f m d) = dp_auth d"
  "dp_options (count_module f m d) = dp_options d" "dp_stats (count_module f m d) = dp_stats d"
  "um_count k (dp_module_stats (count_module f m d)) = um_count k (dp_module_stats d)"
  by (simp_all add: count_server_def count_module_def um_count_def update_conv' split: option.split)

lemma dispatcher_inv_cong:
  assumes "dispatcher_inv d" "dp_routing d' = dp_routing d" "dp_options d' = dp_options d"
    "\<And>m. um_count m (dp_module_stats d') = um_count m (dp_module_stats d)"
    "auth_inv (so_development_mode (dp_options d)) (dp_auth d')"
  shows "dispatcher_inv d'"
  using assms by (simp add: dispatcher_inv_def)

lemma dispatcher_auth: "dispatcher_inv d \<Longrightarrow> auth_inv (so_development_mode (dp_options d)) (dp_auth d)"
  by (simp add: dispatcher_inv_def)

lemma dispatcher_inv_counts [simp]:
  "dispatcher_inv d \<Longrightarrow> dispatcher_inv (count_server f d)"
  "dispatcher_inv d \<Longrightarrow> dispatcher_inv (count_module f m d)"
  by (simp_all add: dispatcher_inv_cong dispatcher_auth)

lemma check_access_inv:
  "auth_inv dev a \<Longrightarrow> auth_inv dev (snd (check_access L doc am a))"
  using auth_step_inv [of dev a L "(doc, am)"] by (simp add: auth_step_def)

lemma dispatcher_inv_reset: "dispatcher_inv d \<Longrightarrow> dispatcher_inv (reset_stats d)"
  by (rule dispatcher_inv_cong [of d])
    (simp_all add: reset_stats_def um_count_def dispatcher_auth map_of_map)

lemma server_status_states:
  "final_state d (server_status L now msg d) = d \<or> final_state d (server_status L now msg d) = reset_stats d"
  by (simp add: server_status_def Let_def answer_same split: sum.split)

text \<open>The three stages of a message: no route, no access, the handler.\<close>

definition parsed :: "jlib \<Rightarrow> raw_msg \<Rightarrow> json res" where
  "parsed L rm = (case rm_message rm of None \<Rightarrow> Inr message_new | Some t \<Rightarrow> message_parse L t message_new)"

definition checked :: "jlib \<Rightarrow> json \<Rightarrow> 'h bound route \<Rightarrow> string \<Rightarrow> 'h dispatcher \<Rightarrow> 'h dispatcher" where
  "checked L doc r mdl d =
     (let d2 = count_module one_request mdl (count_server one_request d)
      in d2\<lparr>dp_auth := snd (check_access L doc (rt_access r) (dp_auth d2))\<rparr>)"

lemma dispatch_unroutable:
  "map_of (dp_routing d) (full_route (rm_object rm) (rm_name rm)) = None \<Longrightarrow>
     dispatch L now run rm (d, w) =
       Done (count_module one_unroutable (rm_object rm) (count_server one_unroutable (count_server one_request d)), w)
         [Reject (rm_id rm) []]"
  by (simp add: dispatch_def Let_def)

lemma dispatch_routed:
  assumes "map_of (dp_routing d) (full_route (rm_object rm) (rm_name rm)) = Some r"
    and "um_count (rm_object rm) (dp_module_stats d)"
  shows "dispatch L now run rm (d, w) =
    (case parsed L rm of
       Inl e \<Rightarrow> Raised e (count_module one_request (rm_object rm) (count_server one_request d), w) []
     | Inr doc \<Rightarrow>
         let im = \<lparr>im_id = rm_id rm, im_doc = doc\<rparr>; d3 = checked L doc r (rm_object rm) d
         in if \<not> granted L doc (rt_access r) (dp_auth d) then
              answer (im_fail_code L im Auth_unauthorized (snd (fst (check_access L doc (rt_access r) (dp_auth d)))))
                (d3, w) (count_module one_auth_error (rm_object rm) (count_server one_auth_error d3), w)
            else if rt_processing r = PUBLISH then Done (d3, w) [EmptyReply (rm_id rm)]
            else (case rt_handler r of
                Server_status \<Rightarrow> map_outcome_state (\<lambda>d'. (d', w)) (server_status L now im d3)
              | Bound h \<Rightarrow> map_outcome_state (\<lambda>w'. (d3, w')) (run h im w)))"
  using assms
  by (auto simp: dispatch_def parsed_def checked_def granted_def Let_def case_prod_unfold
      split: sum.split bound.split)

lemma routed_counted:
  assumes "dispatcher_inv d" "map_of (dp_routing d) (full_route obj name) = Some r"
  shows "um_count obj (dp_module_stats d)"
proof -
  from assms obtain m where m: "full_route obj name = full_route m (rt_name r)" "no_colon m"
    "no_colon (rt_name r)" "um_count m (dp_module_stats d)" unfolding dispatcher_inv_def by blast
  with full_route_split [OF m(2,3,1)] show ?thesis by simp
qed

lemma checked_inv: "dispatcher_inv d \<Longrightarrow> dispatcher_inv (checked L doc r m d)"
  by (rule dispatcher_inv_cong [of d]) (simp_all add: checked_def Let_def check_access_inv dispatcher_auth)

lemma final_map_outcome:
  "final_state (f s) (map_outcome_state f r) = f (final_state s r)"
  by (cases r) simp_all

lemma final_map_outcome_any:
  "final_state t (map_outcome_state f r) = f (final_state s r)"
  by (cases r) simp_all

lemma dispatch_inv:
  assumes "dispatcher_inv d"
  shows "dispatcher_inv (fst (final_state (d, w) (dispatch L now run rm (d, w))))"
proof (cases "map_of (dp_routing d) (full_route (rm_object rm) (rm_name rm))")
  case None
  with assms show ?thesis by (simp add: dispatch_unroutable)
next
  case (Some r)
  note eq = dispatch_routed [OF Some routed_counted [OF assms Some]]
  have st: "dispatcher_inv (final_state d' (server_status L now im d'))" if "dispatcher_inv d'" for im d'
    using server_status_states [of d' L now im] that dispatcher_inv_reset by metis
  show ?thesis
  proof (cases "parsed L rm")
    case (Inl e)
    with assms show ?thesis by (simp add: eq)
  next
    case (Inr doc)
    let ?d3 = "checked L doc r (rm_object rm) d"
    have inv3: "dispatcher_inv ?d3" by (rule checked_inv [OF assms])
    have own: "fst (final_state (d, w) (map_outcome_state (\<lambda>d'. (d', w)) (server_status L now im ?d3)))
        = final_state ?d3 (server_status L now im ?d3)" for im
      by (subst final_map_outcome_any [where s = ?d3]) simp
    have other: "fst (final_state (d, w) (map_outcome_state (\<lambda>w'. (?d3, w')) (run h im w))) = ?d3" for h im
      by (subst final_map_outcome_any [where s = w]) simp
    from Inr inv3 st [OF inv3] own other show ?thesis
      by (simp add: eq Let_def final_state_answer split: sum.split bound.split)
  qed
qed

text \<open>No message changes the routes or the options.\<close>

lemma count_fixed: "dp_routing (reset_stats d) = dp_routing d" "dp_options (reset_stats d) = dp_options d"
  "dp_routing (checked L doc r m d) = dp_routing d" "dp_options (checked L doc r m d) = dp_options d"
  by (simp_all add: reset_stats_def checked_def Let_def)

lemma dispatch_fixed:
  assumes "dispatcher_inv d"
  shows "dp_routing (fst (final_state (d, w) (dispatch L now run rm (d, w)))) = dp_routing d
    \<and> dp_options (fst (final_state (d, w) (dispatch L now run rm (d, w)))) = dp_options d"
proof (cases "map_of (dp_routing d) (full_route (rm_object rm) (rm_name rm))")
  case None
  then show ?thesis by (simp add: dispatch_unroutable)
next
  case (Some r)
  note eq = dispatch_routed [OF Some routed_counted [OF assms Some]]
  show ?thesis
  proof (cases "parsed L rm")
    case (Inl e)
    then show ?thesis by (simp add: eq)
  next
    case (Inr doc)
    let ?d3 = "checked L doc r (rm_object rm) d"
    have own: "fst (final_state (d, w) (map_outcome_state (\<lambda>d'. (d', w)) (server_status L now im ?d3)))
        = final_state ?d3 (server_status L now im ?d3)" for im
      by (subst final_map_outcome_any [where s = ?d3]) simp
    have st: "dp_routing (final_state ?d3 (server_status L now im ?d3)) = dp_routing d
        \<and> dp_options (final_state ?d3 (server_status L now im ?d3)) = dp_options d" for im
      using server_status_states [of ?d3 L now im] by (auto simp: count_fixed)
    have other: "fst (final_state (d, w) (map_outcome_state (\<lambda>w'. (?d3, w')) (run h im w))) = ?d3" for h im
      by (subst final_map_outcome_any [where s = w]) simp
    from Inr own st other show ?thesis
      by (simp add: eq Let_def final_state_answer count_fixed split: sum.split bound.split)
  qed
qed

section \<open>Properties\<close>

definition registered :: "server_options \<Rightarrow> (string \<times> 'h bound route list) list \<Rightarrow> 'h dispatcher" where
  "registered opts mods = fold (\<lambda>(m, rs). add_routes m rs) mods (dispatcher_new opts)"

definition names_ok :: "(string \<times> 'h bound route list) list \<Rightarrow> bool" where
  "names_ok mods \<longleftrightarrow> (\<forall>(m, rs) \<in> set mods. no_colon m \<and> (\<forall>r \<in> set rs. no_colon (rt_name r)))"

definition dispatcher_step :: "jlib \<Rightarrow> ('h \<Rightarrow> imsg \<Rightarrow> 'w \<Rightarrow> 'w outcome) \<Rightarrow> int \<times> raw_msg
    \<Rightarrow> 'h dispatcher \<times> 'w \<Rightarrow> 'h dispatcher \<times> 'w" where
  "dispatcher_step L run e s = final_state s (dispatch L (fst e) run (snd e) s)"

lemma dispatcher_step_inv: "dispatcher_inv (fst s) \<Longrightarrow> dispatcher_inv (fst (dispatcher_step L run e s))"
  using dispatch_inv [of "fst s" "snd s" L "fst e" run "snd e"] by (simp add: dispatcher_step_def)

interpretation ds: event_system "dispatcher_step L run" "\<lambda>s. dispatcher_inv (fst s)" for L run
  by unfold_locales (rule dispatcher_step_inv)

lemma registered_inv: "names_ok mods \<Longrightarrow> dispatcher_inv (registered opts mods)"
proof -
  have "names_ok mods \<Longrightarrow> dispatcher_inv d \<Longrightarrow> dispatcher_inv (fold (\<lambda>(m, rs). add_routes m rs) mods d)" for d
    by (induction mods arbitrary: d) (auto simp: names_ok_def dispatcher_inv_add_routes)
  then show "names_ok mods \<Longrightarrow> dispatcher_inv (registered opts mods)"
    by (simp add: registered_def dispatcher_inv_new)
qed

lemma map_of_snoc: "map_of (um_emplace k v m) = map_of (m @ [(k, v)])"
  by (auto simp: map_of_um_emplace um_count_def fun_eq_iff map_add_def split: option.split)

text \<open>
  The first registration of a route wins: whatever modules are registered, in the order they
  are, a full route leads to the first handler that was registered under it, starting with the
  dispatcher's own \<open>Status::status\<close>.
\<close>

theorem first_registration_wins:
  "map_of (dp_routing (registered opts mods)) = map_of
     ((''Status::status'', route_new ''status'' Server_status API_PRIVATE SYNC [])
      # concat (map (\<lambda>(m, rs). map (\<lambda>r. (full_route m (rt_name r), r)) rs) mods))"
proof -
  have one: "map_of (dp_routing (add_routes m rs d))
      = map_of (dp_routing d @ map (\<lambda>r. (full_route m (rt_name r), r)) rs)" for m rs and d :: "'a dispatcher"
    unfolding add_routes_def
  proof (induction rs arbitrary: d)
    case (Cons r rs)
    have "map_of (dp_routing (add_route m r d)) = map_of (dp_routing d @ [(full_route m (rt_name r), r)])"
      by (simp add: add_route_def map_of_snoc)
    with Cons show ?case by (simp add: map_add_def fun_eq_iff split: option.split)
  qed simp
  have "map_of (dp_routing (fold (\<lambda>(m, rs). add_routes m rs) mods d)) = map_of (dp_routing d
      @ concat (map (\<lambda>(m, rs). map (\<lambda>r. (full_route m (rt_name r), r)) rs) mods))" for d :: "'a dispatcher"
  proof (induction mods arbitrary: d)
    case (Cons mr mods)
    then show ?case using one [of "fst mr" "snd mr" d]
      by (simp add: case_prod_unfold)
  qed simp
  moreover have "dp_routing (dispatcher_new opts :: 'a dispatcher)
      = [(''Status::status'', route_new ''status'' Server_status API_PRIVATE SYNC [])]"
    by (simp add: dispatcher_new_def add_route_def um_emplace_def um_count_def full_route_def)
  ultimately show ?thesis by (simp add: registered_def)
qed

text \<open>The answers of the dispatcher's own handler.\<close>

lemma stats_keys_split: "k \<in> set (keys (status_entries L now doc d)) \<Longrightarrow> split k ''.'' \<noteq> []"
  unfolding split_eq_Nil
  by (auto simp: status_entries_def stats_entries_def routing_entries_def Let_def split: if_splits)

lemma server_status_no_crash: "no_crash (server_status L now msg d)"
proof -
  have "set_all (status_entries L now (im_doc msg) d) message_new \<noteq> Inl UndefinedBehaviour"
    by (rule set_all_no_crash) (use stats_keys_split in blast)
  then show ?thesis
    by (auto simp: server_status_def Let_def no_crash_answer im_reply_msg_no_crash split: sum.split)
qed

lemma no_crash_map_outcome [simp]: "no_crash (map_outcome_state f r) = no_crash r"
  by (cases r) simp_all

text \<open>
  C19. Messages handled one after the other do not crash the dispatcher itself, when no name of a module or a
  route has a colon and no handler of a module runs into undefined behaviour: after any messages and
  whatever the next one is, the statistics of the addressed module exist when its route does, and what the dispatcher
  and its own handler do is defined. (Several threads at once are another matter: in development
  mode \<open>Auth::check_access\<close> looks a key up with \<open>operator[]\<close>, which inserts an unknown one into the map without a lock.)
\<close>

theorem dispatcher_no_crash:
  assumes "names_ok mods" and "\<And>h msg w. no_crash (run h msg w)"
  shows "no_crash (dispatch L now run rm (fold (dispatcher_step L run) es (registered opts mods, w0)))"
proof -
  obtain d w where s: "fold (dispatcher_step L run) es (registered opts mods, w0) = (d, w)" by force
  have "dispatcher_inv (fst (fold (dispatcher_step L run) es (registered opts mods, w0)))"
    by (rule ds.fold_inv) (simp add: registered_inv assms(1))
  then have inv: "dispatcher_inv d" using s by simp
  show ?thesis
  proof (cases "map_of (dp_routing d) (full_route (rm_object rm) (rm_name rm))")
    case None
    then show ?thesis by (simp add: s dispatch_unroutable)
  next
    case (Some r)
    have "parsed L rm \<noteq> Inl UndefinedBehaviour"
      by (simp add: parsed_def message_parse_no_crash split: option.split)
    then show ?thesis
      using dispatch_routed [OF Some routed_counted [OF inv Some], of L now run w] assms(2)
      by (auto simp: s Let_def no_crash_answer answers_no_crash server_status_no_crash
          split: sum.split bound.split)
  qed
qed

theorem dispatcher_no_crash_witness:
  "no_crash (dispatch ref_lib 9 (\<lambda>h msg w. Done (w + 1) [])
     \<lparr>rm_id = 1, rm_object = ''M'', rm_name = ''r'', rm_message = None\<rparr>
     (fold (dispatcher_step ref_lib (\<lambda>h msg w. Done (w + 1) [])) []
       (registered server_options_default [(''M'', [route_new ''r'' (Bound (0 :: nat)) ANY SYNC []])], 0 :: nat)))"
  by (rule dispatcher_no_crash) (simp_all add: names_ok_def no_colon_def)

text \<open>What a message can do to the modules.\<close>

lemma dispatch_guarded:
  assumes "dispatcher_inv d" and "snd (final_state (d, w) (dispatch L now run rm (d, w))) \<noteq> w"
  shows "\<exists>r doc h. map_of (dp_routing d) (full_route (rm_object rm) (rm_name rm)) = Some r
    \<and> rt_handler r = Bound h \<and> rt_processing r \<noteq> PUBLISH \<and> parsed L rm = Inr doc
    \<and> granted L doc (rt_access r) (dp_auth d)
    \<and> snd (final_state (d, w) (dispatch L now run rm (d, w)))
      = final_state w (run h \<lparr>im_id = rm_id rm, im_doc = doc\<rparr> w)"
proof (cases "map_of (dp_routing d) (full_route (rm_object rm) (rm_name rm))")
  case None
  with assms(2) show ?thesis by (simp add: dispatch_unroutable)
next
  case (Some r)
  note eq = dispatch_routed [OF Some routed_counted [OF assms(1) Some], of L now run w]
  obtain doc where doc: "parsed L rm = Inr doc" using assms(2) eq by (cases "parsed L rm") auto
  let ?im = "\<lparr>im_id = rm_id rm, im_doc = doc\<rparr>" and ?d3 = "checked L doc r (rm_object rm) d"
  have g: "granted L doc (rt_access r) (dp_auth d)" "rt_processing r \<noteq> PUBLISH"
    using assms(2) eq doc by (auto simp: Let_def final_state_answer split: if_splits sum.splits)
  have own: "snd (final_state (d, w) (map_outcome_state (\<lambda>d'. (d', w)) (server_status L now ?im ?d3))) = w"
    by (subst final_map_outcome_any [where s = ?d3]) simp
  obtain h where h: "rt_handler r = Bound h"
    using assms(2) eq doc g own by (cases "rt_handler r") (auto simp: Let_def)
  have "snd (final_state (d, w) (map_outcome_state (\<lambda>w'. (?d3, w')) (run h ?im w))) = final_state w (run h ?im w)"
    by (subst final_map_outcome_any [where s = w]) simp
  with Some doc g h eq show ?thesis by (simp add: Let_def)
qed

text \<open>
  C6. Nothing reaches a module past the dispatcher's checks: a message changes the state of the
  modules only if its object and name lead to a route bound to a module's handler, its text
  parses, the access check grants the route's modifier and the route is not published; the
  change is then exactly that of the handler run on this document.
\<close>

theorem dispatch_guards_modules:
  assumes "dispatcher_inv d" and "snd (final_state (d, w) (dispatch L now run rm (d, w))) \<noteq> w"
  shows "\<exists>r doc h. map_of (dp_routing d) (full_route (rm_object rm) (rm_name rm)) = Some r
    \<and> rt_handler r = Bound h \<and> rt_processing r \<noteq> PUBLISH \<and> parsed L rm = Inr doc
    \<and> granted L doc (rt_access r) (dp_auth d)
    \<and> snd (final_state (d, w) (dispatch L now run rm (d, w)))
      = final_state w (run h \<lparr>im_id = rm_id rm, im_doc = doc\<rparr> w)"
  using assms by (rule dispatch_guarded)

text \<open>A dispatcher with one module and one route that is open to all, counting its calls.\<close>

definition sample_dispatcher :: "nat dispatcher" where
  "sample_dispatcher = registered server_options_default [(''M'', [route_new ''r'' (Bound 0) ANY SYNC []])]"

definition sample_msg :: raw_msg where
  "sample_msg = \<lparr>rm_id = 1, rm_object = ''M'', rm_name = ''r'', rm_message = None\<rparr>"

lemma sample_dispatcher_facts:
  "dispatcher_inv sample_dispatcher"
  "map_of (dp_routing sample_dispatcher) (full_route ''M'' ''r'') = Some (route_new ''r'' (Bound 0) ANY SYNC [])"
  "um_count ''M'' (dp_module_stats sample_dispatcher)"
proof -
  show "dispatcher_inv sample_dispatcher"
    unfolding sample_dispatcher_def by (rule registered_inv) (simp add: names_ok_def no_colon_def)
  show "map_of (dp_routing sample_dispatcher) (full_route ''M'' ''r'') = Some (route_new ''r'' (Bound 0) ANY SYNC [])"
    "um_count ''M'' (dp_module_stats sample_dispatcher)"
    by (simp_all add: sample_dispatcher_def registered_def add_routes_def add_route_def full_route_def
        dispatcher_new_def um_emplace_def um_count_def)
qed

lemma sample_dispatch:
  "snd (final_state (sample_dispatcher, w) (dispatch L now (\<lambda>h msg w. Done (w + 1 :: nat) []) sample_msg
     (sample_dispatcher, w))) = w + 1"
proof -
  have r: "map_of (dp_routing sample_dispatcher) (full_route (rm_object sample_msg) (rm_name sample_msg))
      = Some (route_new ''r'' (Bound 0) ANY SYNC [])"
    by (simp add: sample_msg_def sample_dispatcher_facts(2))
  have c: "um_count (rm_object sample_msg) (dp_module_stats sample_dispatcher)"
    by (simp add: sample_msg_def sample_dispatcher_facts(3))
  show ?thesis
    unfolding dispatch_routed [OF r c]
    by (simp add: parsed_def granted_def check_access_def Let_def sample_msg_def)
qed

theorem dispatch_guards_modules_witness:
  "\<exists>r doc h. map_of (dp_routing sample_dispatcher) (full_route ''M'' ''r'') = Some r
    \<and> rt_handler r = Bound h \<and> parsed ref_lib sample_msg = Inr doc
    \<and> granted ref_lib doc (rt_access r) (dp_auth sample_dispatcher)"
  using dispatch_guards_modules [OF sample_dispatcher_facts(1), of 0 ref_lib 5 "\<lambda>h msg w. Done (w + 1 :: nat) []"
      sample_msg] sample_dispatch [of 0 ref_lib 5]
  by (auto simp: sample_msg_def)

text \<open>
  C32. A message for a known route that is not granted is answered once, with
  \<open>auth_unauthorized\<close> and the reason of the check, runs no handler, and counts as one request and one
  authorisation error of the server.
\<close>

theorem dispatch_denied:
  assumes "dispatcher_inv d" and "map_of (dp_routing d) (full_route (rm_object rm) (rm_name rm)) = Some r"
    and "parsed L rm = Inr doc" and "passable doc" and "\<not> granted L doc (rt_access r) (dp_auth d)"
  shows "\<exists>d'. dispatch L now run rm (d, w) = Done (d', w)
      [Reply (rm_id rm) (jl_write L (status_doc Auth_unauthorized
        (snd (fst (check_access L doc (rt_access r) (dp_auth d))))))]
    \<and> dp_stats d' = one_auth_error (one_request (dp_stats d)) \<and> dp_routing d' = dp_routing d"
proof -
  let ?d3 = "checked L doc r (rm_object rm) d"
  have "dp_stats ?d3 = one_request (dp_stats d)" "dp_routing ?d3 = dp_routing d"
    by (simp_all add: checked_def Let_def) (simp add: count_server_def)
  then show ?thesis
    using dispatch_routed [OF assms(2) routed_counted [OF assms(1,2)], of L now run w] assms(3-5)
    by (simp add: Let_def im_fail_code_eq) (simp add: count_server_def)
qed

theorem dispatch_denied_witness:
  "\<exists>d'. dispatch ref_lib 5 (\<lambda>h msg w. Done w []) \<lparr>rm_id = 4, rm_object = ''Status'', rm_name = ''status'', rm_message = None\<rparr>
        (sample_dispatcher, ()) = Done (d', ())
      [Reply 4 (jl_write ref_lib (status_doc Auth_unauthorized ''No api_key found''))]"
proof -
  let ?rm = "\<lparr>rm_id = 4, rm_object = ''Status'', rm_name = ''status'', rm_message = None\<rparr>"
  have r: "map_of (dp_routing sample_dispatcher) (full_route (rm_object ?rm) (rm_name ?rm))
      = Some (route_new ''status'' Server_status API_PRIVATE SYNC [])"
    by (simp add: sample_dispatcher_def registered_def add_routes_def add_route_def full_route_def
        dispatcher_new_def um_emplace_def um_count_def)
  have a: "check_access ref_lib message_new API_PRIVATE (dp_auth sample_dispatcher)
      = ((False, ''No api_key found''), dp_auth sample_dispatcher)"
    by (simp add: sample_dispatcher_def registered_def add_routes_def add_route_def dispatcher_new_def
        auth_new_def server_options_default_def check_access_def get_string_def get_as_def message_new_def
        message_find_plain plain_key_def)
  from dispatch_denied [OF sample_dispatcher_facts(1) r, of ref_lib message_new 5 "\<lambda>h msg w. Done w []" "()"]
  show ?thesis
    by (auto simp: a parsed_def granted_def, auto simp: passable_def message_new_def)
qed

end
