(* ===== verification/Nix_Server.thy ===== *)
theory Nix_Server
  imports Nix_Dispatcher
begin

text \<open>
  \<open>nix::Server\<close> (src/src/nix/server.hxx, server.cxx, direct_handlers.cxx): the dispatcher, and the
  objects the program registers with the agent of YAMI. The agent delivers a message to the
  object it names, or to the object \<open>*\<close> where there is none of that name; registering a name again
  replaces its object. Its listener is a parameter: the address it resolves to, or its error.
\<close>

section \<open>State\<close>

datatype direct = Alive | Echo

datatype target = To_dispatcher | To_direct direct

record 'h server =
  sr_address :: string
  sr_objects :: "(string, target) umap"
  sr_resolved :: string
  sr_dispatcher :: "'h dispatcher"
  sr_listening :: bool
  sr_running :: bool

definition server_new :: "server_options \<Rightarrow> 'h server" where
  "server_new options =
     \<lparr>sr_address = so_address options, sr_objects = [], sr_resolved = [],
      sr_dispatcher = dispatcher_new options, sr_listening = False, sr_running = False\<rparr>"

definition server_register_object :: "string \<Rightarrow> target \<Rightarrow> 'h server \<Rightarrow> 'h server" where
  "server_register_object name tg s = s\<lparr>sr_objects := AList.update name tg (sr_objects s)\<rparr>"

definition server_register_module :: "string \<Rightarrow> 'h bound route list \<Rightarrow> 'h server \<Rightarrow> 'h server" where
  "server_register_module ident rs s =
     server_register_object ident To_dispatcher (s\<lparr>sr_dispatcher := add_routes ident rs (sr_dispatcher s)\<rparr>)"

definition server_start :: "(string \<Rightarrow> string res) \<Rightarrow> 'h server \<Rightarrow> 'h server res \<times> 'h server" where
  "server_start listen s =
     (let s1 = server_register_object ''*'' To_dispatcher
                 (server_register_object ''ping'' (To_direct Alive)
                   (server_register_object ''Status'' To_dispatcher s))
      in case listen (sr_address s1) of
           Inl e \<Rightarrow> (Inl e, s1)
         | Inr address \<Rightarrow>
             (let s2 = s1\<lparr>sr_resolved := address, sr_listening := True, sr_running := True\<rparr> in (Inr s2, s2)))"

definition server_stop :: "'h server \<Rightarrow> 'h server" where
  "server_stop s = s\<lparr>sr_listening := False, sr_running := False\<rparr>"

definition server_destroy :: "'h server \<Rightarrow> 'h server" where
  "server_destroy s = (if sr_running s then server_stop s else s)"

section \<open>Delivery\<close>

definition server_target :: "'h server \<Rightarrow> string \<Rightarrow> target option" where
  "server_target s obj = (case map_of (sr_objects s) obj of
     Some tg \<Rightarrow> Some tg | None \<Rightarrow> map_of (sr_objects s) ''*'')"

text \<open>Nothing is delivered while the server does not listen.\<close>

definition server_deliver :: "jlib \<Rightarrow> int \<Rightarrow> ('h \<Rightarrow> imsg \<Rightarrow> 'w \<Rightarrow> 'w outcome) \<Rightarrow> raw_msg
    \<Rightarrow> 'h server \<times> 'w \<Rightarrow> ('h server \<times> 'w) outcome" where
  "server_deliver L now run rm sw =
     (let (s, w) = sw
      in if \<not> sr_listening s then Done (s, w) []
         else case server_target s (rm_object rm) of
             None \<Rightarrow> Done (s, w) []
           | Some (To_direct Alive) \<Rightarrow> is_node_alive_handler rm (s, w)
           | Some (To_direct Echo) \<Rightarrow> echo rm (s, w)
           | Some To_dispatcher \<Rightarrow>
               map_outcome_state (\<lambda>(d, w'). (s\<lparr>sr_dispatcher := d\<rparr>, w'))
                 (dispatch L now run rm (sr_dispatcher s, w)))"

lemma deliver_dispatched:
  "sr_listening s \<Longrightarrow> server_target s (rm_object rm) = Some To_dispatcher \<Longrightarrow>
     server_deliver L now run rm (s, w) =
       map_outcome_state (\<lambda>(d, w'). (s\<lparr>sr_dispatcher := d\<rparr>, w')) (dispatch L now run rm (sr_dispatcher s, w))"
  by (simp add: server_deliver_def)

lemma deliver_world:
  "snd (final_state sw (server_deliver L now run rm sw)) \<noteq> snd sw \<Longrightarrow>
     snd (final_state sw (server_deliver L now run rm sw))
       = snd (final_state (sr_dispatcher (fst sw), snd sw) (dispatch L now run rm (sr_dispatcher (fst sw), snd sw)))"
  by (cases sw; cases "dispatch L now run rm (sr_dispatcher (fst sw), snd sw)")
    (auto simp: server_deliver_def is_node_alive_handler_def echo_def Let_def
      split: if_splits option.splits target.splits direct.splits)

text \<open>The dispatcher goes through the same states as when it is alone, or stays as it is.\<close>

lemma deliver_dispatcher:
  "sr_dispatcher (fst (final_state sw (server_deliver L now run rm sw))) = sr_dispatcher (fst sw)
   \<or> sr_dispatcher (fst (final_state sw (server_deliver L now run rm sw)))
       = fst (final_state (sr_dispatcher (fst sw), snd sw) (dispatch L now run rm (sr_dispatcher (fst sw), snd sw)))"
  by (cases sw; cases "dispatch L now run rm (sr_dispatcher (fst sw), snd sw)")
    (auto simp: server_deliver_def is_node_alive_handler_def echo_def Let_def
      split: if_splits option.splits target.splits direct.splits)

definition server_step :: "jlib \<Rightarrow> ('h \<Rightarrow> imsg \<Rightarrow> 'w \<Rightarrow> 'w outcome) \<Rightarrow> int \<times> raw_msg
    \<Rightarrow> 'h server \<times> 'w \<Rightarrow> 'h server \<times> 'w" where
  "server_step L run e sw = final_state sw (server_deliver L (fst e) run (snd e) sw)"

definition server_inv :: "'h server \<Rightarrow> bool" where
  "server_inv s \<longleftrightarrow> dispatcher_inv (sr_dispatcher s)"

lemma server_step_inv: "server_inv (fst sw) \<Longrightarrow> server_inv (fst (server_step L run e sw))"
  using deliver_dispatcher [of sw L "fst e" run "snd e"] dispatch_inv [of "sr_dispatcher (fst sw)" "snd sw"]
  unfolding server_inv_def server_step_def by metis

interpretation sv: event_system "server_step L run" "\<lambda>sw. server_inv (fst sw)" for L run
  by unfold_locales (rule server_step_inv)

text \<open>Where messages go after \<open>start\<close>.\<close>

lemma start_objects:
  "server_start listen s = (Inr s', s'') \<Longrightarrow>
     sr_dispatcher s' = sr_dispatcher s \<and> sr_listening s'
     \<and> server_target s' ''ping'' = Some (To_direct Alive)
     \<and> (\<forall>obj. obj \<notin> {''ping''} \<longrightarrow> map_of (sr_objects s) obj \<in> {None, Some To_dispatcher} \<longrightarrow>
          server_target s' obj = Some To_dispatcher)"
  by (auto simp: server_start_def Let_def server_register_object_def server_target_def update_conv'
      split: sum.splits option.splits if_splits)

end
