(* ===== verification/Nix_Modules.thy ===== *)
theory Nix_Modules
  imports Nix_Pool Nix_Background Nix_Server Nix_Program_Options
begin

text \<open>
  Modules from outside and the module manager (src/src/nix/module/instance.cxx, module/manager.cxx,
  module/api.cxx) and the list of modules to load (init/common.cxx). The dynamic linker is a
  parameter, and so is what starting and stopping a module does to the world \<open>'w\<close>.
\<close>

section \<open>The list of modules\<close>

text \<open>The lines of a file as \<open>getline\<close> gives them: the text between newlines, the last one if it is not empty.\<close>

function file_lines :: "string \<Rightarrow> string list" where
  "file_lines [] = []"
| "file_lines (c # cs) =
     takeWhile (\<lambda>c. c \<noteq> CHR 0x0A) (c # cs) # file_lines (tl (dropWhile (\<lambda>c. c \<noteq> CHR 0x0A) (c # cs)))"
  by pat_completeness auto
termination
proof (relation "measure length")
  fix c :: char and cs :: string
  have "length (dropWhile (\<lambda>c. c \<noteq> CHR 0x0A) (c # cs)) \<le> length (c # cs)" by (rule length_dropWhile_le)
  then have "length (tl (dropWhile (\<lambda>c. c \<noteq> CHR 0x0A) (c # cs))) < length (c # cs)"
    by (cases "dropWhile (\<lambda>c. c \<noteq> CHR 0x0A) (c # cs)") auto
  then show "(tl (dropWhile (\<lambda>c. c \<noteq> CHR 0x0A) (c # cs)), c # cs) \<in> measure length"
    unfolding in_measure .
qed simp

declare file_lines.simps(2) [simp del]

text \<open>
  \<open>getline(line, 255)\<close> stores at most 254 characters; with a longer line it fails, and so does the
  condition of the loop: the rest of the file is not read. \<open>trim\<close> is that of boost.
\<close>

fun read_modules :: "(string \<Rightarrow> string) \<Rightarrow> string list \<Rightarrow> string list" where
  "read_modules trim [] = []"
| "read_modules trim (line # lines) =
     (if length line > 254 then []
      else let module_name = trim line
           in if module_name \<noteq> [] \<and> module_name ! 0 \<noteq> CHR ''#''
              then module_name # read_modules trim lines else read_modules trim lines)"

text \<open>A file that does not open has no lines; the directory of the modules is expanded and not used.\<close>

definition setup_modules :: "'w host \<Rightarrow> (string \<Rightarrow> string) \<Rightarrow> (string \<Rightarrow> string option) \<Rightarrow> vmap \<Rightarrow> string list res" where
  "setup_modules H trim files vm =
     rbind (opt_get_string vm ''basedir'') (\<lambda>basedir.
     rbind (expand_user H basedir) (\<lambda>base_dir.
     rbind (opt_get_string vm ''modulesdir'') (\<lambda>modulesdir.
     rbind (expand_user H modulesdir) (\<lambda>modules_dir.
     Inr (case files (base_dir @ ''/etc/modules.load'') of
            None \<Rightarrow> []
          | Some text \<Rightarrow> read_modules trim (file_lines text))))))"

section \<open>Loading\<close>

text \<open>
  \<open>dl_open path\<close>: the handle, if there is one, and what \<open>dlerror\<close> returns next; \<open>dl_create h\<close>: the
  function \<open>create\<close> of the library, if it has one, and what \<open>dlerror\<close> returns next. The function gives a
  module or a null pointer. \<open>dl_close h\<close> tells whether \<open>dlclose\<close> succeeds.
\<close>

record 'm linker =
  dl_open :: "string \<Rightarrow> nat option \<times> string option"
  dl_create :: "nat \<Rightarrow> (client_pool option \<Rightarrow> 'm option) option \<times> string option"
  dl_close :: "nat \<Rightarrow> bool"

text \<open>Documented: \<open>dlerror\<close> returns null when no error has occurred since it was called last.\<close>

definition linker_ok :: "'m linker \<Rightarrow> bool" where
  "linker_ok D \<longleftrightarrow> (\<forall>path. fst (dl_open D path) \<noteq> None \<longleftrightarrow> snd (dl_open D path) = None)
     \<and> (\<forall>h. fst (dl_create D h) \<noteq> None \<longleftrightarrow> snd (dl_create D h) = None)"

text \<open>\<open>err_msg.assign(dlerror())\<close>: a null pointer is no argument for \<open>assign\<close>.\<close>

definition assign_cstr :: "string option \<Rightarrow> string res" where
  "assign_cstr p = (case p of None \<Rightarrow> Inl UndefinedBehaviour | Some s \<Rightarrow> Inr s)"

record 'm module_instance =
  mi_api :: "client_pool option"
  mi_lib_path :: string
  mi_fatal :: bool
  mi_module :: "'m option"
  mi_lib_handle :: "nat option"

definition instance_new :: "client_pool option \<Rightarrow> string \<Rightarrow> bool \<Rightarrow> 'm module_instance" where
  "instance_new api lib_path fatal =
     \<lparr>mi_api = api, mi_lib_path = lib_path, mi_fatal = fatal, mi_module = None, mi_lib_handle = None\<rparr>"

definition instance_load :: "'m linker \<Rightarrow> 'm module_instance \<Rightarrow> (bool \<times> 'm module_instance) res" where
  "instance_load D i =
     (let (h, error) = dl_open D (mi_lib_path i)
      in rbind (assign_cstr error) (\<lambda>err_msg.
         case h of
           None \<Rightarrow>
             if mi_fatal i then Inl (FatalError (''ModuleInstance::load(): Failed to load module: '' @ err_msg))
             else Inr (False, i)
         | Some handle \<Rightarrow>
             (let (creator, error) = dl_create D handle
              in rbind (assign_cstr error) (\<lambda>err_msg.
                 case creator of
                   None \<Rightarrow> Inr (False, i)
                 | Some create \<Rightarrow>
                     (let module_ptr = create (mi_api i)
                      in Inr (module_ptr \<noteq> None, i\<lparr>mi_module := module_ptr, mi_lib_handle := Some handle\<rparr>))))))"

text \<open>
  The handle is kept in a \<open>unique_ptr\<close>, which deletes what it points to when it is reset and when it is
  destroyed. What the linker gave is nothing to delete.
\<close>

definition instance_unload :: "'m linker \<Rightarrow> 'm module_instance \<Rightarrow> (bool \<times> 'm module_instance) res" where
  "instance_unload D i =
     (let i1 = i\<lparr>mi_module := None\<rparr>
      in case mi_lib_handle i1 of
           None \<Rightarrow> Inr (True, i1)
         | Some h \<Rightarrow> if \<not> dl_close D h then Inr (False, i1) else Inl UndefinedBehaviour)"

definition instance_destroy :: "'m linker \<Rightarrow> 'm module_instance \<Rightarrow> unit res" where
  "instance_destroy D i =
     rbind (instance_unload D i) (\<lambda>(unloaded, i1).
       case mi_lib_handle i1 of None \<Rightarrow> Inr () | Some h \<Rightarrow> Inl UndefinedBehaviour)"

fun instances_destroy :: "'m linker \<Rightarrow> 'm module_instance list \<Rightarrow> unit res" where
  "instances_destroy D [] = Inr ()"
| "instances_destroy D (i # is) = rbind (instance_destroy D i) (\<lambda>_. instances_destroy D is)"

section \<open>The manager\<close>

record 'm manager =
  mm_fatal :: bool
  mm_api :: "client_pool option"
  mm_builtins :: "'m list"
  mm_pool :: "'m module_instance object_pool"
  mm_running :: bool
  mm_thread_enabled :: bool
  mm_thread :: background

definition manager_new :: "server_options \<Rightarrow> client_pool option \<Rightarrow> bool \<Rightarrow> 'm manager" where
  "manager_new options api fatal =
     \<lparr>mm_fatal = fatal, mm_api = api, mm_builtins = [], mm_pool = pool_empty, mm_running = False,
      mm_thread_enabled = so_manager_thread_enabled options, mm_thread = bg_idle\<rparr>"

definition manager_load :: "'m linker \<Rightarrow> string \<Rightarrow> 'm manager \<Rightarrow> 'm manager res" where
  "manager_load D module_path mm =
     rbind (instance_load D (instance_new (mm_api mm) module_path (mm_fatal mm))) (\<lambda>(loaded, i).
     if loaded then Inr (mm\<lparr>mm_pool := pool_insert i (mm_pool mm)\<rparr>)
     else rbind (instance_destroy D i) (\<lambda>_. Inr mm))"

fun manager_load_all :: "'m linker \<Rightarrow> string list \<Rightarrow> 'm manager \<Rightarrow> 'm manager res" where
  "manager_load_all D [] mm = Inr mm"
| "manager_load_all D (path # paths) mm = rbind (manager_load D path mm) (manager_load_all D paths)"

definition manager_unload :: "'m linker \<Rightarrow> 'm manager \<Rightarrow> 'm manager res" where
  "manager_unload D mm =
     rbind (instances_destroy D (map fst (po_objects (mm_pool mm)))) (\<lambda>_. Inr (mm\<lparr>mm_pool := pool_clear (mm_pool mm)\<rparr>))"

definition manager_add_builtin :: "'m \<Rightarrow> 'm manager \<Rightarrow> 'm manager" where
  "manager_add_builtin m mm = mm\<lparr>mm_builtins := mm_builtins mm @ [m]\<rparr>"

text \<open>
  All modules, the program's own first; \<open>f\<close> on one after the other, up to the first exception. An instance in
  the pool has a module, since only one that has loaded is put there (lemma \<open>pool_has_modules\<close>).
\<close>

definition manager_modules :: "'m manager \<Rightarrow> 'm list" where
  "manager_modules mm = mm_builtins mm @ List.map_filter mi_module (map fst (po_objects (mm_pool mm)))"

fun each_module :: "('m \<Rightarrow> 'w \<Rightarrow> 'w res) \<Rightarrow> 'm list \<Rightarrow> 'w \<Rightarrow> 'w res" where
  "each_module f [] w = Inr w"
| "each_module f (m # ms) w = rbind (f m w) (each_module f ms)"

definition manager_start_all :: "('m \<Rightarrow> 'w \<Rightarrow> 'w res) \<Rightarrow> 'm manager \<Rightarrow> 'w \<Rightarrow> ('m manager \<times> 'w) res" where
  "manager_start_all start mm w =
     rbind (each_module start (manager_modules mm) w) (\<lambda>w'. Inr (mm\<lparr>mm_running := True\<rparr>, w'))"

definition manager_stop_all :: "('m \<Rightarrow> 'w \<Rightarrow> 'w res) \<Rightarrow> 'm manager \<Rightarrow> 'w \<Rightarrow> ('m manager \<times> 'w) res" where
  "manager_stop_all stop mm w =
     (if \<not> mm_running mm then Inr (mm, w)
      else rbind (each_module stop (manager_modules mm) w) (\<lambda>w'. Inr (mm\<lparr>mm_running := False\<rparr>, w')))"

text \<open>\<open>ident\<close> and \<open>routes\<close> are what a module tells the server.\<close>

definition manager_register_routing ::
    "('m \<Rightarrow> string) \<Rightarrow> ('m \<Rightarrow> 'h bound route list) \<Rightarrow> 'm manager \<Rightarrow> 'h server \<Rightarrow> 'h server" where
  "manager_register_routing ident routes mm s =
     fold (\<lambda>m. server_register_module (ident m) (routes m)) (manager_modules mm) s"

definition manager_start_thread :: "'m manager \<Rightarrow> 'm manager" where
  "manager_start_thread mm =
     (if mm_thread_enabled mm then mm\<lparr>mm_thread := bg_start (mm_thread mm)\<rparr> else mm)"

text \<open>
  The manager keeps a reference to the options of the server and reads through it whenever it needs them:
  what it finds there then.
\<close>

definition manager_finds :: "bool \<Rightarrow> 'm manager \<Rightarrow> 'm manager" where
  "manager_finds enabled mm = mm\<lparr>mm_thread_enabled := enabled\<rparr>"

text \<open>
  The destructor up to the join: it stops the modules, drops them, and tells its thread to end. The
  notification of the resolver is empty.
\<close>

definition manager_destroy :: "'m linker \<Rightarrow> ('m \<Rightarrow> 'w \<Rightarrow> 'w res) \<Rightarrow> 'm manager \<Rightarrow> 'w \<Rightarrow> ('m manager \<times> 'w) res" where
  "manager_destroy D stop mm w =
     rbind (manager_stop_all stop mm w) (\<lambda>(mm1, w1).
     rbind (manager_unload D (mm1\<lparr>mm_builtins := []\<rparr>)) (\<lambda>mm2.
     if mm_thread_enabled mm2 then
       (let b = bg_release (bg_raise_flag (mm_thread mm2))
        in if bg_bad b then Inl UndefinedBehaviour else Inr (mm2\<lparr>mm_thread := b\<rparr>, w1))
     else Inr (mm2, w1)))"

section \<open>Properties\<close>

lemma file_lines_join:
  "concat (map (\<lambda>l. l @ [CHR 0x0A]) (file_lines s)) \<in> {s, s @ [CHR 0x0A]}"
proof (induction s rule: file_lines.induct)
  case (2 c cs)
  let ?l = "takeWhile (\<lambda>c. c \<noteq> CHR 0x0A) (c # cs)" and ?r = "dropWhile (\<lambda>c. c \<noteq> CHR 0x0A) (c # cs)"
  have split: "?l @ ?r = c # cs" by (rule takeWhile_dropWhile_id)
  have lines: "file_lines (c # cs) = ?l # file_lines (tl ?r)" by (rule file_lines.simps)
  show ?case
  proof (cases ?r)
    case Nil
    with split have "?l = c # cs" by simp
    with lines Nil show ?thesis by simp
  next
    case (Cons n r)
    then have "n = CHR 0x0A" using hd_dropWhile [of "\<lambda>c. c \<noteq> CHR 0x0A" "c # cs"] by auto
    with Cons split have all: "c # cs = ?l @ CHR 0x0A # r" by simp
    from "2.IH" Cons have "concat (map (\<lambda>l. l @ [CHR 0x0A]) (file_lines r)) \<in> {r, r @ [CHR 0x0A]}" by simp
    moreover have "concat (map (\<lambda>l. l @ [CHR 0x0A]) (file_lines (c # cs)))
        = ?l @ CHR 0x0A # concat (map (\<lambda>l. l @ [CHR 0x0A]) (file_lines r))"
      unfolding lines Cons by simp
    ultimately show ?thesis using all by (metis Un_insert_left append.assoc append_Cons insert_iff singletonD)
  qed
qed simp

lemma read_modules_filter:
  "read_modules trim lines =
     filter (\<lambda>n. n \<noteq> [] \<and> hd n \<noteq> CHR ''#'') (map trim (takeWhile (\<lambda>l. length l \<le> 254) lines))"
  by (induction trim lines rule: read_modules.induct) (auto simp: hd_conv_nth Let_def)

text \<open>
  Which modules are loaded: the names on the lines of \<open>modules.load\<close>, trimmed, without the empty
  ones and those that begin with a hash, in order, up to the first line of more than 254
  characters: from there on the file is ignored without a word, the lines being those of the
  file.
\<close>

theorem modules_of_file:
  assumes "opt_get_string vm ''basedir'' = Inr b" and "expand_user H b = Inr base_dir"
    and "opt_get_string vm ''modulesdir'' = Inr d" and "expand_user H d = Inr modules_dir"
    and "files (base_dir @ ''/etc/modules.load'') = Some content"
  shows "\<exists>lines. concat (map (\<lambda>l. l @ [CHR 0x0A]) lines) \<in> {content, content @ [CHR 0x0A]}
    \<and> setup_modules H trim files vm = Inr (filter (\<lambda>n. n \<noteq> [] \<and> hd n \<noteq> CHR ''#'')
        (map trim (takeWhile (\<lambda>l. length l \<le> 254) lines)))"
  using assms file_lines_join [of content]
  by (intro exI [of _ "file_lines content"]) (simp add: setup_modules_def read_modules_filter)

theorem modules_of_file_witness:
  "\<exists>lines. concat (map (\<lambda>l. l @ [CHR 0x0A]) lines) \<in> {''x.so'', ''x.so'' @ [CHR 0x0A]}
    \<and> setup_modules sample_host (\<lambda>s. s) (\<lambda>p. Some ''x.so'')
        [(''basedir'', V_string ''d''), (''modulesdir'', V_string ''l'')]
      = Inr (filter (\<lambda>n. n \<noteq> [] \<and> hd n \<noteq> CHR ''#'') (map (\<lambda>s. s) (takeWhile (\<lambda>l. length l \<le> 254) lines)))"
  by (rule modules_of_file [where b = "''d''" and d = "''l''" and base_dir = "''d''" and modules_dir = "''l''"])
    (simp_all add: opt_get_string_def expand_plain)

lemma instance_loaded:
  assumes "instance_load D i = Inr (True, i')"
  shows "mi_module i' \<noteq> None \<and> mi_lib_handle i' \<noteq> None"
  using assms
  by (cases "dl_open D (mi_lib_path i)"; cases "dl_create D (the (fst (dl_open D (mi_lib_path i))))")
    (auto simp: instance_load_def rbind_Inr_iff Let_def split: option.splits if_splits)

lemma pool_has_modules:
  assumes load: "manager_load D path mm = Inr mm'"
    and old: "\<forall>i \<in> set (map fst (po_objects (mm_pool mm))). mi_module i \<noteq> None"
  shows "\<forall>i \<in> set (map fst (po_objects (mm_pool mm'))). mi_module i \<noteq> None"
proof -
  from load obtain loaded j where j: "instance_load D (instance_new (mm_api mm) path (mm_fatal mm)) = Inr (loaded, j)"
    by (auto simp: manager_load_def rbind_Inr_iff)
  show ?thesis
  proof (cases loaded)
    case True
    with j have "mi_module j \<noteq> None" by (auto dest: instance_loaded)
    with True j load old show ?thesis by (auto simp: manager_load_def pool_insert_def)
  next
    case False
    with j load old show ?thesis by (auto simp: manager_load_def rbind_Inr_iff)
  qed
qed

lemma load_cases:
  assumes "linker_ok D"
  shows "instance_load D (instance_new api path fatal) = (case fst (dl_open D path) of
      Some h \<Rightarrow> Inl UndefinedBehaviour
    | None \<Rightarrow> if fatal then Inl (FatalError (''ModuleInstance::load(): Failed to load module: '' @ the (snd (dl_open D path))))
              else Inr (False, instance_new api path fatal))"
  using assms unfolding linker_ok_def instance_load_def instance_new_def assign_cstr_def
  by (cases "dl_open D path") (auto split: option.split dest: spec [of _ path])

lemma fresh_destroyed: "instance_destroy D (instance_new api path fatal) = Inr ()"
  by (simp add: instance_destroy_def instance_unload_def instance_new_def)

lemma load_all_nothing:
  "linker_ok D \<Longrightarrow> manager_load_all D paths mm = Inr mm' \<Longrightarrow>
     mm' = mm \<and> (\<forall>p \<in> set paths. fst (dl_open D p) = None)"
  by (induction paths)
    (auto simp: manager_load_def load_cases fresh_destroyed rbind_Inr_iff split: option.splits if_splits)

text \<open>
  No module from outside can be loaded. A library that does not open is reported or skipped; one that
  opens leaves no error, so \<open>dlerror\<close> returns null, and the program copies a string from the
  null pointer before it looks at the handle. \<open>load\<close> never gives a module.
\<close>

theorem loading_never_succeeds:
  assumes "linker_ok D"
  shows "(fst (dl_open D path) \<noteq> None \<longrightarrow> instance_load D (instance_new api path fatal) = Inl UndefinedBehaviour)
    \<and> (\<forall>mm'. manager_load_all D paths mm = Inr mm' \<longrightarrow> mm' = mm \<and> (\<forall>p \<in> set paths. fst (dl_open D p) = None))"
  using assms load_all_nothing [OF assms, of paths mm] by (auto simp: load_cases split: option.split)

text \<open>A linker with one library that opens.\<close>

definition sample_linker :: "nat linker" where
  "sample_linker = \<lparr>dl_open = (\<lambda>p. if p = ''libm.so'' then (Some 1, None) else (None, Some ''no such file'')),
     dl_create = (\<lambda>h. (Some (\<lambda>api. Some 7), None)), dl_close = (\<lambda>h. True)\<rparr>"

theorem loading_never_succeeds_witness:
  "instance_load sample_linker (instance_new None ''libm.so'' False) = Inl UndefinedBehaviour"
  using loading_never_succeeds [of sample_linker "''libm.so''" None False "[]"]
  by (simp add: sample_linker_def linker_ok_def)

text \<open>
  And an instance that had loaded could not be destroyed, whether its library closes or not: the handle of
  the linker is deleted in the end.
\<close>

theorem loaded_instance_stays:
  assumes "instance_load D i = Inr (True, i')"
  shows "instance_destroy D i' = Inl UndefinedBehaviour"
  using instance_loaded [OF assms] by (auto simp: instance_destroy_def instance_unload_def)

lemma manager_destroyed:
  assumes "each_module stop (manager_modules mm) w = Inr w'" "mm_thread mm = bg_idle" "po_objects (mm_pool mm) = []"
  shows "mm_thread_enabled mm \<Longrightarrow> manager_destroy D stop mm w = Inl UndefinedBehaviour"
    and "\<exists>mm'. manager_destroy D stop (manager_start_thread mm) w = Inr (mm', if mm_running mm then w' else w)
      \<and> manager_modules mm' = [] \<and> \<not> mm_running mm'"
  using assms
  by (auto simp: manager_destroy_def manager_stop_all_def manager_unload_def manager_modules_def
      manager_start_thread_def bg_idle_def bg_start_def bg_raise_flag_def bg_release_def bg_unlock_def
      pool_clear_def map_filter_simps)

text \<open>
  A manager whose thread is enabled and was never started, as when the server cannot listen on its
  address, cannot be destroyed in order: the destructor unlocks a mutex nobody has locked. A
  manager that has started its thread, or is not to have one, is destroyed whenever its modules
  stop without an exception.
\<close>

theorem manager_destruction:
  assumes "each_module stop (manager_modules mm) w = Inr w'" and "po_objects (mm_pool mm) = []"
  shows "(mm_thread_enabled mm \<longrightarrow> mm_thread mm = bg_idle \<longrightarrow> manager_destroy D stop mm w = Inl UndefinedBehaviour)
    \<and> (mm_thread mm = bg_idle \<longrightarrow> (\<exists>mm'. manager_destroy D stop (manager_start_thread mm) w
          = Inr (mm', if mm_running mm then w' else w)
        \<and> manager_modules mm' = [] \<and> \<not> mm_running mm'))"
  using manager_destroyed [OF assms(1) _ assms(2)] by simp

theorem manager_destruction_witness:
  "manager_destroy sample_linker (\<lambda>m w. Inr w)
     (manager_new (server_options_default\<lparr>so_manager_thread_enabled := True\<rparr>) None False :: nat manager) ()
   = Inl UndefinedBehaviour"
  using manager_destruction [of "\<lambda>m w. Inr w"
      "manager_new (server_options_default\<lparr>so_manager_thread_enabled := True\<rparr>) None False :: nat manager" "()" "()"]
  by (simp add: manager_new_def manager_modules_def pool_empty_def map_filter_simps)

end
