(* ===== verification/Nix_System.thy ===== *)
theory Nix_System
  imports Nix_Cache Nix_Resolver Nix_Job_Queue Nix_Config Nix_Debug Nix_Modules
begin

text \<open>
  The program: its four services behind one server, the set-up from the options (src/src/nix/init/common.cxx)
  and \<open>main\<close> (src/src/main.cxx).
\<close>

section \<open>The services\<close>

text \<open>
  Beside the four services: the copy of the server's options every one of them keeps, the threads of the cache and the
  resolver, and the counts of failures the thread of the resolver has among its variables.
\<close>

record services =
  sv_options :: server_options
  sv_debug :: debug
  sv_resolver :: resolver
  sv_job_queue :: job_queue
  sv_cache :: cache
  sv_cleaner :: background
  sv_monitor :: background
  sv_failures :: monitor

definition services_new :: services where
  "services_new = \<lparr>sv_options = server_options_default, sv_debug = debug_new, sv_resolver = resolver_new,
     sv_job_queue = job_queue_new, sv_cache = cache_new, sv_cleaner = bg_idle, sv_monitor = bg_idle,
     sv_failures = monitor_new\<rparr>"

text \<open>A reference to a service, and a handler of one.\<close>

datatype service = S_debug | S_resolver | S_job_queue | S_cache

datatype sys_handler =
    H_debug "debug_handler mod_handler"
  | H_resolver "resolver_handler mod_handler"
  | H_job_queue "job_queue_handler mod_handler"
  | H_cache "cache_handler mod_handler"

fun sys_run :: "jlib \<Rightarrow> (nat \<Rightarrow> string) \<Rightarrow> int \<Rightarrow> sys_handler \<Rightarrow> imsg \<Rightarrow> services \<Rightarrow> services outcome" where
  "sys_run L rg now (H_debug h) msg w =
     map_outcome_state (\<lambda>s. w\<lparr>sv_debug := s\<rparr>) (debug_run L h msg (sv_debug w))"
| "sys_run L rg now (H_resolver h) msg w =
     map_outcome_state (\<lambda>s. w\<lparr>sv_resolver := s\<rparr>) (resolver_run L h msg (sv_resolver w))"
| "sys_run L rg now (H_job_queue h) msg w =
     map_outcome_state (\<lambda>s. w\<lparr>sv_job_queue := s\<rparr>) (job_queue_run L rg now h msg (sv_job_queue w))"
| "sys_run L rg now (H_cache h) msg w =
     map_outcome_state (\<lambda>s. w\<lparr>sv_cache := s\<rparr>) (cache_run L now h msg (sv_cache w))"

definition bind_route :: "('h \<Rightarrow> sys_handler) \<Rightarrow> 'h route \<Rightarrow> sys_handler bound route" where
  "bind_route f r =
     route_new (rt_name r) (Bound (f (rt_handler r))) (rt_access r) (rt_processing r) (rt_description r)"

fun service_ident :: "service \<Rightarrow> string" where
  "service_ident S_debug = md_ident debug_module"
| "service_ident S_resolver = md_ident resolver_module"
| "service_ident S_job_queue = md_ident job_queue_module"
| "service_ident S_cache = md_ident cache_module"

fun service_routes :: "service \<Rightarrow> sys_handler bound route list" where
  "service_routes S_debug = map (bind_route H_debug) (md_routes debug_module)"
| "service_routes S_resolver = map (bind_route H_resolver) (md_routes resolver_module)"
| "service_routes S_job_queue = map (bind_route H_job_queue) (md_routes job_queue_module)"
| "service_routes S_cache = map (bind_route H_cache) (md_routes cache_module)"

section \<open>The threads of the services\<close>

definition res_of :: "'s outcome \<Rightarrow> 's res" where
  "res_of r = (case r of Done s _ \<Rightarrow> Inr s | Raised e s _ \<Rightarrow> Inl e | Blocked s \<Rightarrow> Inr s)"

text \<open>
  The number of tries is an \<open>int\<close> that is counted down to zero; a negative one goes round (the C++ standard
  leaves its overflow undefined).
\<close>

definition tries :: "int \<Rightarrow> nat" where
  "tries n = nat (n mod 2 ^ 32)"

text \<open>
  The next turn of the thread of the cache and of that of the resolver: a pass over the cache or a round of the
  monitor, where the thread is at its work, and a step of the protocol. The pass holds the mutex of the
  cache from its begin to its end; the round is one turn here, though it lets go of that of the resolver while it waits
  for answers. An exception that comes out of a turn leaves the function of the thread and ends the process.
\<close>

definition cleaner_turn :: "int \<Rightarrow> services \<Rightarrow> services res" where
  "cleaner_turn now w =
     rbind (if bg_thread (sv_cleaner w) = Working then res_of (cache_clean now (sv_cache w)) else Inr (sv_cache w)) (\<lambda>c.
     let b = bg_thread_step (tries (so_cache_cleaner_run_interval (sv_options w))) True (sv_cleaner w)
     in if bg_bad b then Inl UndefinedBehaviour else Inr (w\<lparr>sv_cache := c, sv_cleaner := b\<rparr>))"

definition monitor_turn :: "pinger \<Rightarrow> services \<Rightarrow> services res" where
  "monitor_turn ping w =
     rbind (if bg_thread (sv_monitor w) = Working
            then monitor_round ping (so_resolver_monitor_max_failures (sv_options w)) (sv_failures w, sv_resolver w)
            else Inr (sv_failures w, sv_resolver w)) (\<lambda>(mo, r).
     let b = bg_thread_step (tries (so_resolver_monitor_run_interval (sv_options w))) True (sv_monitor w)
     in if bg_bad b then Inl UndefinedBehaviour
        else Inr (w\<lparr>sv_failures := mo, sv_resolver := r, sv_monitor := b\<rparr>))"

fun turns :: "nat \<Rightarrow> ('w \<Rightarrow> 'w res) \<Rightarrow> 'w \<Rightarrow> 'w res" where
  "turns 0 f w = Inr w"
| "turns (Suc n) f w = rbind (f w) (turns n f)"

fun service_start :: "service \<Rightarrow> services \<Rightarrow> services res" where
  "service_start S_debug w = rbind (res_of (debug_start (sv_debug w))) (\<lambda>s. Inr (w\<lparr>sv_debug := s\<rparr>))"
| "service_start S_resolver w = Inr (if so_resolver_monitor_enabled (sv_options w)
     then w\<lparr>sv_monitor := bg_start (sv_monitor w), sv_failures := monitor_new\<rparr> else w)"
| "service_start S_job_queue w = Inr (module_start w)"
| "service_start S_cache w = Inr (if so_cache_cleaner_enabled (sv_options w)
     then w\<lparr>sv_cleaner := bg_start (sv_cleaner w)\<rparr> else w)"

text \<open>
  What decides how the services end: the time, what becomes of the messages of the monitor, and the turns the two threads
  take between the moment \<open>stop\<close> sets their flag and the moment it unlocks their mutex.
\<close>

record ending =
  en_now :: int
  en_ping :: pinger
  en_cleaner :: nat
  en_monitor :: nat

text \<open>
  \<open>stop\<close> sets the flag, unlocks the mutex and joins the thread; four turns bring the thread to its end, as
  Nix_Background shows.
\<close>

fun service_stop :: "ending \<Rightarrow> service \<Rightarrow> services \<Rightarrow> services res" where
  "service_stop E S_debug w = rbind (res_of (debug_stop (sv_debug w))) (\<lambda>s. Inr (w\<lparr>sv_debug := s\<rparr>))"
| "service_stop E S_resolver w =
     (if so_resolver_monitor_enabled (sv_options w)
      then rbind (turns (en_monitor E) (monitor_turn (en_ping E)) (w\<lparr>sv_monitor := bg_raise_flag (sv_monitor w)\<rparr>)) (\<lambda>w1.
           let b = bg_release (sv_monitor w1)
           in if bg_bad b then Inl UndefinedBehaviour
              else rbind (turns 4 (monitor_turn (en_ping E)) (w1\<lparr>sv_monitor := b\<rparr>)) (\<lambda>w2.
                   Inr (w2\<lparr>sv_monitor := bg_join (sv_monitor w2)\<rparr>)))
      else Inr w)"
| "service_stop E S_job_queue w = Inr (module_stop w)"
| "service_stop E S_cache w =
     (if so_cache_cleaner_enabled (sv_options w)
      then rbind (turns (en_cleaner E) (cleaner_turn (en_now E)) (w\<lparr>sv_cleaner := bg_raise_flag (sv_cleaner w)\<rparr>)) (\<lambda>w1.
           let b = bg_release (sv_cleaner w1)
           in if bg_bad b then Inl UndefinedBehaviour
              else rbind (turns 4 (cleaner_turn (en_now E)) (w1\<lparr>sv_cleaner := b\<rparr>)) (\<lambda>w2.
                   Inr (w2\<lparr>sv_cleaner := bg_join (sv_cleaner w2)\<rparr>)))
      else Inr w)"

section \<open>Setting up\<close>

definition setup_builtin_job_queue :: "po_lib \<Rightarrow> (string \<Rightarrow> string option) \<Rightarrow> vmap \<Rightarrow> job_queue \<Rightarrow> job_queue res" where
  "setup_builtin_job_queue P files vm jq =
     rbind (opt_get_string vm ''config'') (\<lambda>config_path.
     rbind (is_verbose vm) (\<lambda>_.
     rbind (parse_queue_options P files config_path) (\<lambda>insts.
     Inr (fold (\<lambda>inst q. snd (init_queue (qi_name inst) (qi_size inst) q)) insts jq))))"

text \<open>One service, when its option is set.\<close>

definition add_when :: "string \<Rightarrow> service \<Rightarrow> (services \<Rightarrow> services res) \<Rightarrow> vmap
    \<Rightarrow> service manager \<times> services \<Rightarrow> (service manager \<times> services) res" where
  "add_when opt sv init vm mw =
     rbind (opt_get_bool vm opt) (\<lambda>enabled.
       if enabled then rbind (init (snd mw)) (\<lambda>w. Inr (manager_add_builtin sv (fst mw), w)) else Inr mw)"

definition setup_builtin_modules :: "po_lib \<Rightarrow> (string \<Rightarrow> string option) \<Rightarrow> vmap
    \<Rightarrow> service manager \<times> services \<Rightarrow> (service manager \<times> services) res" where
  "setup_builtin_modules P files vm mw =
     rbind (add_when ''enable-debug'' S_debug Inr vm mw) (\<lambda>mw.
     rbind (add_when ''enable-resolver'' S_resolver Inr vm mw) (\<lambda>mw.
     rbind (add_when ''enable-job-queue'' S_job_queue
              (\<lambda>w. rbind (setup_builtin_job_queue P files vm (sv_job_queue w)) (\<lambda>jq. Inr (w\<lparr>sv_job_queue := jq\<rparr>)))
              vm mw) (\<lambda>mw.
     add_when ''enable-cache'' S_cache Inr vm mw)))"

text \<open>The databases are read and no connection is made.\<close>

definition setup_db_pool :: "'w host \<Rightarrow> po_lib \<Rightarrow> (string \<Rightarrow> string option) \<Rightarrow> vmap \<Rightarrow> unit res" where
  "setup_db_pool H P files vm =
     rbind (opt_get_string vm ''basedir'') (\<lambda>basedir.
     rbind (expand_user H basedir) (\<lambda>base_dir.
     rbind (opt_get_string vm ''dbconfig'') (\<lambda>config_path.
     rbind (is_verbose vm) (\<lambda>_.
     rbind (parse_db_options P files config_path) (\<lambda>insts. Inr ())))))"

text \<open>\<open>appends path\<close> tells whether the file opens for appending; the logger's own set-up is not modelled.\<close>

definition setup_logging :: "'w host \<Rightarrow> (string \<Rightarrow> 'w \<Rightarrow> bool) \<Rightarrow> vmap \<Rightarrow> (unit, 'w) action" where
  "setup_logging H appends vm =
     act_bind (act_lift (rbind (opt_get_string vm ''basedir'') (expand_user H))) (\<lambda>base_dir.
     act_bind (act_lift (rbind (opt_get_string vm ''logdir'') (expand_user H))) (\<lambda>log_dir.
     act_bind (path_exists H log_dir) (\<lambda>there.
     act_bind (act_when (\<not> there)
       (act_bind (\<lambda>w. let (err, w') = os_mkdir H log_dir 0x1FD w in (Inr err, w')) (\<lambda>err.
        if err \<noteq> 0 then act_throw (FatalError (''Cannot create log directory: '' @ log_dir))
        else act_bind (act_lift (opt_get_bool vm ''foreground'')) (\<lambda>_. act_ret ())))) (\<lambda>_.
     act_bind (\<lambda>w. if appends (log_dir @ ''/error.log'') w then (Inr (), w)
                    else (Inl (FatalError (''Cannot open log file: '' @ log_dir @ ''/error.log'')), w)) (\<lambda>_.
     act_bind (act_lift (opt_get_bool vm ''foreground'')) (\<lambda>_. act_ret ()))))))"

section \<open>The program\<close>

text \<open>
  Everything \<open>main\<close> gets from outside of the repository. \<open>ou_stale\<close>: the module manager refers to options
  that are a variable of a block \<open>main\<close> has left when the thread of the manager is to be started and
  when the manager is destroyed; the two values are what the memory holds then for \<open>manager_thread_enabled\<close>.
\<close>

record 'w outside =
  ou_options :: po_lib
  ou_host :: "'w host"
  ou_uname :: "string option"
  ou_has_pw :: bool
  ou_files :: "string \<Rightarrow> string option"
  ou_appends :: "string \<Rightarrow> 'w \<Rightarrow> bool"
  ou_trim :: "string \<Rightarrow> string"
  ou_linker :: "service linker"
  ou_listen :: "string \<Rightarrow> string res"
  ou_stale :: "bool \<times> bool"

record running =
  rn_manager :: "service manager"
  rn_server :: "sys_handler server"
  rn_services :: services
  rn_pid :: int
  rn_pidfile :: string

text \<open>
  How \<open>main\<close> ends: with a status, or by an exception nobody catches (or undefined behaviour), which
  terminates the process.
\<close>

datatype program_end = Exit int | Terminates exc

definition catch_all :: "int \<Rightarrow> exc \<Rightarrow> program_end" where
  "catch_all status e = (if e = UndefinedBehaviour then Terminates e else Exit status)"

text \<open>The first part: the options. Both failures and the help end the program.\<close>

definition main_options :: "'w outside \<Rightarrow> string \<Rightarrow> string list \<Rightarrow> program_end + vmap" where
  "main_options X progname args =
     (case parse_program_options (ou_options X) (ou_host X) (ou_uname X) (ou_has_pw X) (ou_files X) progname args of
        Inl e \<Rightarrow> Inl (catch_all 1 e)
      | Inr vm \<Rightarrow>
          if has_help vm then Inl (Exit 0)
          else case opt_get_bool vm ''debug'' of Inl e \<Rightarrow> Inl (catch_all 1 e) | Inr _ \<Rightarrow> Inr vm)"

text \<open>The second part: everything in the block whose exceptions are caught.\<close>

definition main_setup :: "'w outside \<Rightarrow> int \<Rightarrow> vmap \<Rightarrow> bool \<Rightarrow> (running, 'w) action" where
  "main_setup X now vm foreground =
     act_bind (act_lift (setup_modules (ou_host X) (ou_trim X) (ou_files X) vm)) (\<lambda>modules.
     act_bind (act_lift (setup_db_pool (ou_host X) (ou_options X) (ou_files X) vm)) (\<lambda>_.
     act_bind (act_lift (load_client_pool vm)) (\<lambda>client_pool.
     act_bind (act_lift (load_server_options now vm)) (\<lambda>options.
     act_bind (if foreground then act_ret (0, [])
               else act_bind (act_lift (rbind (opt_get_string vm ''pidfile'') (expand_user (ou_host X)))) (\<lambda>pidfile.
                    act_bind (act_lift (opt_get_bool vm ''no-close-fds'')) (\<lambda>no_close.
                    act_bind (start_daemon (ou_host X) no_close pidfile) (\<lambda>pid. act_ret (pid, pidfile))))) (\<lambda>(pid, pidfile).
     act_bind (act_lift (opt_get_bool vm ''fatal'')) (\<lambda>fatal.
     act_bind (act_lift (manager_load_all (ou_linker X) modules (manager_new options client_pool fatal))) (\<lambda>mm.
     act_bind (act_lift (setup_builtin_modules (ou_options X) (ou_files X) vm (mm, services_new\<lparr>sv_options := options\<rparr>))) (\<lambda>(mm, w).
     let server = manager_register_routing service_ident service_routes mm (server_new options)
     in act_bind (act_lift (manager_start_all service_start mm w)) (\<lambda>(mm, w).
        act_ret \<lparr>rn_manager = mm, rn_server = server, rn_services = w, rn_pid = pid, rn_pidfile = pidfile\<rparr>)))))))))"

text \<open>The third part: the server listens, and the manager starts its thread.\<close>

definition main_listen :: "'w outside \<Rightarrow> vmap \<Rightarrow> running \<Rightarrow> program_end + running" where
  "main_listen X vm r =
     (case opt_get_bool vm ''debug'' of
        Inl e \<Rightarrow> Inl (Terminates e)
      | Inr debug \<Rightarrow>
          let server = (if debug then server_register_object ''echo'' (To_direct Echo) (rn_server r) else rn_server r)
          in case opt_get_bool vm ''development-mode'' of
               Inl e \<Rightarrow> Inl (Terminates e)
             | Inr _ \<Rightarrow>
                 (case fst (server_start (ou_listen X) server) of
                    Inl e \<Rightarrow> Inl (catch_all 1 e)
                  | Inr server' \<Rightarrow>
                      Inr (r\<lparr>rn_server := server',
                             rn_manager := manager_start_thread (manager_finds (fst (ou_stale X)) (rn_manager r))\<rparr>)))"

definition main_start :: "'w outside \<Rightarrow> int \<Rightarrow> string \<Rightarrow> string list \<Rightarrow> 'w \<Rightarrow> (program_end + running) \<times> 'w" where
  "main_start X now progname args w =
     (case main_options X progname args of
        Inl e \<Rightarrow> (Inl e, w)
      | Inr vm \<Rightarrow>
          (case act_bind (act_lift (rbind (opt_get_bool vm ''foreground'') (\<lambda>f.
                   rbind (opt_get_string vm ''basedir'') (\<lambda>b. rbind (expand_user (ou_host X) b) (\<lambda>_. Inr f)))))
                 (\<lambda>f. act_bind (setup_logging (ou_host X) (ou_appends X) vm) (\<lambda>_. act_ret f)) w of
             (Inl e, w1) \<Rightarrow> (Inl (Terminates e), w1)
           | (Inr foreground, w1) \<Rightarrow>
               (case main_setup X now vm foreground w1 of
                  (Inl e, w2) \<Rightarrow> (Inl (catch_all 1 e), w2)
                | (Inr r, w2) \<Rightarrow>
                    (main_listen X vm r, w2))))"

text \<open>
  After a signal: the server stops, the manager is destroyed with the modules, and the pid file is removed. A handler
  that still waits for work then waits at a queue that is no more. (No other message is under way in this
  model: the threads of the agent live on, and one that arrives while the modules go reaches freed memory.)
\<close>

definition main_stop :: "'w outside \<Rightarrow> ending \<Rightarrow> running \<Rightarrow> 'w \<Rightarrow> program_end \<times> 'w" where
  "main_stop X E r w =
     (let server = server_stop (rn_server r)
      in case manager_destroy (ou_linker X) (service_stop E) (manager_finds (snd (ou_stale X)) (rn_manager r)) (rn_services r) of
           Inl e \<Rightarrow> (Terminates e, w)
         | Inr (mm, services) \<Rightarrow>
             if jq_waiting (sv_job_queue services) \<noteq> [] then (Terminates UndefinedBehaviour, w)
             else (case stop_daemon (ou_host X) (rn_pid r) (rn_pidfile r) w of
                (Inl e, w') \<Rightarrow> (Terminates e, w')
              | (Inr _, w') \<Rightarrow> (Exit 0, w')))"

section \<open>What is registered\<close>

text \<open>A handler that leaves the resolver, the job queue and the cache as they are.\<close>

fun harmless :: "sys_handler \<Rightarrow> bool" where
  "harmless (H_debug h) = True"
| "harmless (H_resolver h) = (case h of Own _ \<Rightarrow> False | _ \<Rightarrow> True)"
| "harmless (H_job_queue h) = (case h of Own _ \<Rightarrow> False | _ \<Rightarrow> True)"
| "harmless (H_cache h) = (case h of Own _ \<Rightarrow> False | _ \<Rightarrow> True)"

definition kept :: "services \<Rightarrow> resolver \<times> job_queue \<times> cache" where
  "kept w = (sv_resolver w, sv_job_queue w, sv_cache w)"

lemma run_common:
  "final_state s (run_handler L m own List_routes msg s) = s"
  "final_state s (run_handler L m own Is_alive msg s) = s"
  by (simp_all add: run_handler_def answer_same)

lemma harmless_run: "harmless h \<Longrightarrow> kept (final_state w (sys_run L rg now h msg w)) = kept w"
proof (cases h)
  case (H_debug x)
  then show ?thesis
    by (simp add: final_map_outcome_any [where s = "sv_debug w"] kept_def)
next
  case (H_resolver x)
  assume "harmless h"
  with H_resolver show ?thesis
    by (cases x) (simp_all add: final_map_outcome_any [where s = "sv_resolver w"] kept_def resolver_run_def run_common)
next
  case (H_job_queue x)
  assume "harmless h"
  with H_job_queue show ?thesis
    by (cases x) (simp_all add: final_map_outcome_any [where s = "sv_job_queue w"] kept_def job_queue_run_def run_common)
next
  case (H_cache x)
  assume "harmless h"
  with H_cache show ?thesis
    by (cases x) (simp_all add: final_map_outcome_any [where s = "sv_cache w"] kept_def cache_run_def run_common)
qed

lemma module_idents:
  "service_ident S_debug = ''Debug''" "service_ident S_resolver = ''Resolver''"
  "service_ident S_job_queue = ''JobQueue''" "service_ident S_cache = ''Cache''"
  by (simp_all add: debug_module_def resolver_module_def job_queue_module_def cache_module_def builtin_new_routes)

lemma bind_route_simps [simp]:
  "rt_name (bind_route f r) = rt_name r" "rt_access (bind_route f r) = rt_access r"
  "rt_handler (bind_route f r) = Bound (f (rt_handler r))" "rt_processing (bind_route f r) = rt_processing r"
  by (simp_all add: bind_route_def)

lemma service_routes_names: "no_colon (service_ident m) \<and> (\<forall>r \<in> set (service_routes m). no_colon (rt_name r))"
  by (cases m)
    (simp_all add: debug_module_def resolver_module_def job_queue_module_def cache_module_def
      builtin_new_routes module_new_def no_colon_def)

lemma service_routes_access:
  "r \<in> set (service_routes m) \<Longrightarrow> rt_handler r = Bound h \<Longrightarrow> rt_access r = ANY \<Longrightarrow> harmless h"
  by (cases m)
    (auto simp: debug_module_def resolver_module_def job_queue_module_def cache_module_def
      builtin_new_routes module_new_def)

definition routes_closed :: "sys_handler dispatcher \<Rightarrow> bool" where
  "routes_closed d \<longleftrightarrow> (\<forall>k r h. map_of (dp_routing d) k = Some r \<longrightarrow> rt_handler r = Bound h \<longrightarrow>
     rt_access r = ANY \<longrightarrow> harmless h)"

lemma closed_add_routes:
  "routes_closed d \<Longrightarrow> (\<And>r h. r \<in> set rs \<Longrightarrow> rt_handler r = Bound h \<Longrightarrow> rt_access r = ANY \<Longrightarrow> harmless h) \<Longrightarrow>
     routes_closed (add_routes m rs d)"
  unfolding add_routes_def
proof (induction rs arbitrary: d)
  case (Cons r rs)
  have "routes_closed (add_route m r d)"
    using Cons.prems by (auto simp: routes_closed_def add_route_def map_of_um_emplace split: if_splits)
  from Cons.IH [OF this] Cons.prems(2) have "routes_closed (fold (add_route m) rs (add_route m r d))"
    by (meson list.set_intros(2))
  then show ?case by simp
qed simp

text \<open>What the server of a started program is.\<close>

definition serving :: "service list \<Rightarrow> sys_handler server \<Rightarrow> bool" where
  "serving ms s \<longleftrightarrow> server_inv s \<and> routes_closed (sr_dispatcher s) \<and> sr_listening s
     \<and> (\<forall>m \<in> set ms. server_target s (service_ident m) = Some To_dispatcher
         \<and> (\<forall>r \<in> set (service_routes m).
              map_of (dp_routing (sr_dispatcher s)) (full_route (service_ident m) (rt_name r)) = Some r))"

lemma register_routing_dispatcher:
  "sr_dispatcher (fold (\<lambda>m. server_register_module (service_ident m) (service_routes m)) ms s)
     = fold (\<lambda>m. add_routes (service_ident m) (service_routes m)) ms (sr_dispatcher s)"
  by (induction ms arbitrary: s) (simp_all add: server_register_module_def server_register_object_def)

lemma register_routing_objects:
  "map_of (sr_objects (fold (\<lambda>m. server_register_module (service_ident m) (service_routes m)) ms s)) obj
     = (if obj \<in> service_ident ` set ms then Some To_dispatcher else map_of (sr_objects s) obj)"
  by (induction ms arbitrary: s)
    (auto simp: server_register_module_def server_register_object_def update_conv')

lemma routing_grows:
  "map_of (dp_routing d) k \<noteq> None \<Longrightarrow> map_of (dp_routing (add_routes m rs d)) k \<noteq> None"
  unfolding add_routes_def
  by (induction rs arbitrary: d) (simp_all add: add_route_def map_of_um_emplace)

lemma routing_has:
  "r \<in> set rs \<Longrightarrow> map_of (dp_routing (add_routes m rs d)) (full_route m (rt_name r)) \<noteq> None"
  unfolding add_routes_def
proof (induction rs arbitrary: d)
  case (Cons x rs)
  show ?case
  proof (cases "r = x")
    case True
    have "map_of (dp_routing (add_route m x d)) (full_route m (rt_name x)) \<noteq> None"
      by (auto simp: add_route_def map_of_um_emplace um_count_def)
    with True routing_grows [of "add_route m x d" _ m rs] show ?thesis by (simp add: add_routes_def)
  next
    case False
    with Cons show ?thesis by simp
  qed
qed simp

lemma services_registered:
  fixes d :: "sys_handler dispatcher"
  defines "reg \<equiv> fold (\<lambda>m. add_routes (service_ident m) (service_routes m))"
  assumes "dispatcher_inv d" "routes_closed d"
  shows "dispatcher_inv (reg ms d)" and "routes_closed (reg ms d)"
    and "\<forall>m \<in> set ms. \<forall>r \<in> set (service_routes m).
      map_of (dp_routing (reg ms d)) (full_route (service_ident m) (rt_name r)) \<noteq> None"
proof -
  have grow: "map_of (dp_routing d) k \<noteq> None \<Longrightarrow> map_of (dp_routing (reg ms d)) k \<noteq> None" for k and d :: "sys_handler dispatcher" and ms
    unfolding reg_def
  proof (induction ms arbitrary: d)
    case (Cons x ms)
    from Cons.IH [OF routing_grows [OF Cons.prems]] show ?case by simp
  qed simp
  show "dispatcher_inv (reg ms d)"
    using assms(2) unfolding reg_def
    by (induction ms arbitrary: d) (simp_all add: dispatcher_inv_add_routes service_routes_names)
  show "routes_closed (reg ms d)"
    using assms(3) unfolding reg_def
    by (induction ms arbitrary: d) (auto intro: closed_add_routes service_routes_access)
  show "\<forall>m \<in> set ms. \<forall>r \<in> set (service_routes m).
      map_of (dp_routing (reg ms d)) (full_route (service_ident m) (rt_name r)) \<noteq> None"
  proof (induction ms arbitrary: d)
    case (Cons x ms)
    have "map_of (dp_routing (reg ms (add_routes (service_ident x) (service_routes x) d)))
        (full_route (service_ident x) (rt_name r)) \<noteq> None" if "r \<in> set (service_routes x)" for r
      by (rule grow) (rule routing_has [OF that])
    with Cons show ?case by (auto simp: reg_def)
  qed simp
qed

text \<open>No route of a service is taken by another.\<close>

definition routes_own :: "sys_handler dispatcher \<Rightarrow> bool" where
  "routes_own d \<longleftrightarrow> (\<forall>m. \<forall>r \<in> set (service_routes m).
     map_of (dp_routing d) (full_route (service_ident m) (rt_name r)) \<in> {None, Some r})"

lemma service_route_unique:
  assumes "r \<in> set (service_routes m)" "r' \<in> set (service_routes m')"
    "full_route (service_ident m) (rt_name r) = full_route (service_ident m') (rt_name r')"
  shows "m = m' \<and> r = r'"
proof -
  have e: "service_ident m = service_ident m' \<and> rt_name r = rt_name r'"
    using full_route_split [OF _ _ assms(3)] service_routes_names [of m'] assms(2) by blast
  have m: "m = m'" using e by (cases m; cases m') (simp_all add: module_idents del: service_ident.simps)
  have "distinct (map rt_name (service_routes m))"
    by (cases m)
      (simp_all add: debug_module_def resolver_module_def job_queue_module_def cache_module_def
        builtin_new_routes module_new_def)
  with m e assms(1,2) show ?thesis by (simp add: distinct_map inj_on_def)
qed

lemma routes_own_add:
  assumes "routes_own d" "set rs \<subseteq> set (service_routes m)"
  shows "routes_own (add_routes (service_ident m) rs d)"
  using assms unfolding add_routes_def
proof (induction rs arbitrary: d)
  case (Cons r rs)
  have "routes_own (add_route (service_ident m) r d)"
    unfolding routes_own_def
  proof (intro allI ballI)
    fix m' r' assume r': "r' \<in> set (service_routes m')"
    show "map_of (dp_routing (add_route (service_ident m) r d)) (full_route (service_ident m') (rt_name r')) \<in> {None, Some r'}"
      using Cons.prems r' service_route_unique [OF r', of r m]
      unfolding routes_own_def by (auto simp: add_route_def map_of_um_emplace)
  qed
  from Cons.IH [OF this] Cons.prems(2) show ?case by simp
qed simp

lemma routes_own_registered:
  "routes_own d \<Longrightarrow> routes_own (fold (\<lambda>m. add_routes (service_ident m) (service_routes m)) ms d)"
proof (induction ms arbitrary: d)
  case (Cons m ms)
  from Cons.IH [OF routes_own_add [OF Cons.prems subset_refl]] show ?case by simp
qed simp

lemma dispatcher_new_routing:
  "dp_routing (dispatcher_new options) = [(''Status::status'', route_new ''status'' Server_status API_PRIVATE SYNC [])]"
  "dp_options (dispatcher_new options) = options"
  by (simp_all add: dispatcher_new_def add_route_def um_emplace_def um_count_def full_route_def)

lemma dispatcher_new_own: "routes_own (dispatcher_new options)"
proof -
  have "full_route (service_ident m) (rt_name r) \<noteq> ''Status::status''" for m and r :: "sys_handler bound route"
  proof
    assume "full_route (service_ident m) (rt_name r) = ''Status::status''"
    then have "full_route (service_ident m) (rt_name r) = full_route ''Status'' ''status''"
      by (simp add: full_route_def)
    with full_route_split [of "''Status''" "''status''"] have "service_ident m = ''Status''"
      by (simp add: no_colon_def)
    then show False by (cases m) (simp_all add: module_idents del: service_ident.simps)
  qed
  then show ?thesis by (simp add: routes_own_def dispatcher_new_routing)
qed

lemma dispatcher_new_closed: "routes_closed (dispatcher_new options)"
  by (simp add: routes_closed_def dispatcher_new_routing)

lemma routing_options: "dp_options (fold (\<lambda>m. add_routes (service_ident m) (service_routes m)) ms d) = dp_options d"
proof -
  have "dp_options (add_routes m rs d) = dp_options d" for m rs and d :: "sys_handler dispatcher"
    unfolding add_routes_def by (induction rs arbitrary: d) (simp_all add: add_route_def)
  then show ?thesis by (induction ms arbitrary: d) simp_all
qed

text \<open>A server with some services that listens, and perhaps has the echo object.\<close>

lemma started_serving:
  assumes "fst (server_start listen (if debug then server_register_object ''echo'' (To_direct Echo) s else s)) = Inr s'"
    and "s = fold (\<lambda>m. server_register_module (service_ident m) (service_routes m)) ms (server_new options)"
  shows "serving ms s' \<and> dp_options (sr_dispatcher s') = options"
proof -
  let ?s = "if debug then server_register_object ''echo'' (To_direct Echo) s else s"
  let ?d = "fold (\<lambda>m. add_routes (service_ident m) (service_routes m)) ms (dispatcher_new options)"
  have d: "sr_dispatcher ?s = ?d"
    by (simp add: assms(2) register_routing_dispatcher server_register_object_def server_new_def)
  obtain s'' where "server_start listen ?s = (Inr s', s'')" using assms(1) by (metis prod.collapse)
  note start = start_objects [OF this]
  have t: "server_target s' (service_ident m) = Some To_dispatcher" if m: "m \<in> set ms" for m
  proof -
    have ne: "service_ident m \<noteq> ''ping'' \<and> service_ident m \<noteq> ''echo''"
      by (cases m) (simp_all add: module_idents del: service_ident.simps)
    have "map_of (sr_objects s) (service_ident m) = Some To_dispatcher"
      using m unfolding assms(2) register_routing_objects by simp
    with ne have "map_of (sr_objects ?s) (service_ident m) = Some To_dispatcher"
      by (simp add: server_register_object_def update_conv' del: service_ident.simps)
    with ne start show ?thesis by (auto simp del: service_ident.simps)
  qed
  note reg = services_registered [OF dispatcher_inv_new dispatcher_new_closed, of ms options]
  have "map_of (dp_routing ?d) (full_route (service_ident m) (rt_name r)) = Some r"
    if "m \<in> set ms" "r \<in> set (service_routes m)" for m r
    using routes_own_registered [OF dispatcher_new_own, of ms options] reg(3) that
    unfolding routes_own_def by fastforce
  with t start d reg show ?thesis
    by (simp add: serving_def server_inv_def routing_options dispatcher_new_routing)
qed

end
