(* ===== verification/Nix_Signals.thy ===== *)
theory Nix_Signals
  imports Nix_Prelude
begin

text \<open>
  How \<open>main\<close> waits for its end (\<open>block_and_wait\<close> and \<open>termination_signal_handler\<close> in src/src/main.cxx): one
  thread tests a flag and sleeps on a condition variable, the handler of the signals sets the flag
  and notifies. The handler does not lock the mutex of the condition variable.
\<close>

section \<open>The protocol\<close>

text \<open>The waiting thread is about to test the flag, has found it unset, sleeps, or has returned.\<close>

datatype waiter_at = Testing_flag | About_to_sleep | Asleep | Returned

text \<open>The handler is not running, or is between setting the flag and \<open>notify_one\<close>.\<close>

datatype sighandler_at = Quiet | Notifying

record signals =
  sg_signaled :: bool
  sg_waiter :: waiter_at
  sg_handler :: sighandler_at

definition signals_new :: signals where
  "signals_new = \<lparr>sg_signaled = False, sg_waiter = Testing_flag, sg_handler = Quiet\<rparr>"

datatype sig_act = Test | Sleep | Spurious | Arrive | Notify

text \<open>\<open>while(!signaled) main_cv.wait(lock)\<close>, one turn of it; a sleeping thread may wake for no reason.\<close>

definition wait_test :: "signals \<Rightarrow> signals" where
  "wait_test s = s\<lparr>sg_waiter := (if sg_signaled s then Returned else About_to_sleep)\<rparr>"

definition signal_arrives :: "signals \<Rightarrow> signals" where
  "signal_arrives s = s\<lparr>sg_signaled := True, sg_handler := Notifying\<rparr>"

definition signal_notifies :: "signals \<Rightarrow> signals" where
  "signal_notifies s = s\<lparr>sg_handler := Quiet, sg_waiter := (if sg_waiter s = Asleep then Testing_flag else sg_waiter s)\<rparr>"

inductive sig_step :: "sig_act \<Rightarrow> signals \<Rightarrow> signals \<Rightarrow> bool" where
  tests: "sg_waiter s = Testing_flag \<Longrightarrow> sig_step Test s (wait_test s)"
| sleeps: "sg_waiter s = About_to_sleep \<Longrightarrow> sig_step Sleep s (s\<lparr>sg_waiter := Asleep\<rparr>)"
| wakes: "sg_waiter s = Asleep \<Longrightarrow> sig_step Spurious s (s\<lparr>sg_waiter := Testing_flag\<rparr>)"
| arrives: "sg_handler s = Quiet \<Longrightarrow> sig_step Arrive s (signal_arrives s)"
| notifies: "sg_handler s = Notifying \<Longrightarrow> sig_step Notify s (signal_notifies s)"

inductive sig_run :: "sig_act list \<Rightarrow> signals \<Rightarrow> signals \<Rightarrow> bool" where
  stays: "sig_run [] s s"
| acts: "sig_step a s s' \<Longrightarrow> sig_run as s' s'' \<Longrightarrow> sig_run (a # as) s s''"

inductive_cases sig_stepE: "sig_step a s s'"
inductive_simps sig_run_simps: "sig_run [] s s'" "sig_run (a # as) s s'"
inductive_simps sig_step_simps:
  "sig_step Test s s'" "sig_step Sleep s s'" "sig_step Arrive s s'" "sig_step Notify s s'"

lemmas sig_simps = sig_run_simps sig_step_simps wait_test_def signal_arrives_def signal_notifies_def

section \<open>The invariant\<close>

definition sig_inv :: "signals \<Rightarrow> bool" where
  "sig_inv s \<longleftrightarrow> (sg_handler s = Notifying \<or> sg_waiter s = Returned \<longrightarrow> sg_signaled s)"

lemma sig_inv_step: "sig_step a s s' \<Longrightarrow> sig_inv s \<Longrightarrow> sig_inv s'"
  by (erule sig_stepE) (auto simp: sig_inv_def wait_test_def signal_arrives_def signal_notifies_def split: if_splits)

lemma sig_inv_run: "sig_run as s s' \<Longrightarrow> sig_inv s \<Longrightarrow> sig_inv s'"
  by (induction rule: sig_run.induct) (auto dest: sig_inv_step)

lemma signals_new_inv: "sig_inv signals_new"
  by (simp add: sig_inv_def signals_new_def)

section \<open>Properties\<close>

text \<open>
  C36. A signal can be lost: whenever the thread has found the flag unset and is not asleep yet, a signal
  whose handler runs to its end before the thread sleeps leaves it asleep with the flag set, and
  nothing but another signal or a wake-up for no reason brings it back. The program does not end.
\<close>

theorem signal_lost:
  assumes "sig_run as signals_new s" and "sg_waiter s = About_to_sleep" and "sg_handler s = Quiet"
  shows "\<exists>s'. sig_run [Arrive, Notify, Sleep] s s' \<and> sg_signaled s' \<and> sg_waiter s' = Asleep
    \<and> (\<forall>a s''. sig_step a s' s'' \<longrightarrow> a \<in> {Spurious, Arrive})"
proof -
  let ?s' = "signal_notifies (signal_arrives s)\<lparr>sg_waiter := Asleep\<rparr>"
  have "sig_run [Arrive, Notify, Sleep] s ?s'"
    using assms(2,3) by (simp add: sig_simps)
  moreover have "a \<in> {Spurious, Arrive}" if "sig_step a ?s' s''" for a s''
    using that by (cases rule: sig_step.cases) (simp_all add: signal_notifies_def)
  ultimately show ?thesis
    by (intro exI [of _ ?s']) (auto simp: signal_arrives_def signal_notifies_def)
qed

theorem signal_lost_witness:
  "\<exists>s'. sig_run [Arrive, Notify, Sleep] (wait_test signals_new) s' \<and> sg_waiter s' = Asleep"
proof -
  have "sig_run [Test] signals_new (wait_test signals_new)"
    by (simp add: sig_simps signals_new_def)
  from signal_lost [OF this] show ?thesis by (auto simp: wait_test_def signals_new_def)
qed

text \<open>
  C35. Otherwise signals work: the thread returns only after a signal, and a signal that arrives while it
  sleeps, or before it tests the flag, makes it return in its next test.
\<close>

theorem signal_ends_waiting:
  assumes "sig_run as signals_new s"
  shows "(sg_waiter s = Returned \<longrightarrow> sg_signaled s)
    \<and> (sg_handler s = Quiet \<and> sg_waiter s = Asleep \<longrightarrow> (\<exists>s'. sig_run [Arrive, Notify, Test] s s' \<and> sg_waiter s' = Returned))
    \<and> (sg_handler s = Quiet \<and> sg_waiter s = Testing_flag \<longrightarrow>
        (\<exists>s'. sig_run [Arrive, Test, Notify] s s' \<and> sg_waiter s' = Returned))"
proof -
  have "sig_inv s" using sig_inv_run [OF assms signals_new_inv] .
  moreover have "sig_run [Arrive, Notify, Test] s (wait_test (signal_notifies (signal_arrives s)))"
    if "sg_handler s = Quiet" "sg_waiter s = Asleep"
    using that by (simp add: sig_simps)
  moreover have "sig_run [Arrive, Test, Notify] s (signal_notifies (wait_test (signal_arrives s)))"
    if "sg_handler s = Quiet" "sg_waiter s = Testing_flag"
    using that by (simp add: sig_simps)
  ultimately show ?thesis
    by (force simp: sig_inv_def wait_test_def signal_arrives_def signal_notifies_def)
qed

theorem signal_ends_waiting_witness:
  "\<exists>s'. sig_run [Arrive, Test, Notify] signals_new s' \<and> sg_waiter s' = Returned"
  using signal_ends_waiting [OF sig_run.stays] by (simp add: signals_new_def)

end
