(* ===== verification/Nix_Program.thy ===== *)
theory Nix_Program
  imports Nix_System Nix_Signals
begin

text \<open>
  The program as a whole: the messages that reach a started server and the services behind it, who may send
  them, and how the program ends.
\<close>

section \<open>Messages to a running program\<close>

text \<open>One message, with the time of its handling.\<close>

definition sys_deliver :: "jlib \<Rightarrow> (nat \<Rightarrow> string) \<Rightarrow> int \<times> raw_msg \<Rightarrow> sys_handler server \<times> services
    \<Rightarrow> (sys_handler server \<times> services) outcome" where
  "sys_deliver L rg e sw = server_deliver L (fst e) (sys_run L rg (fst e)) (snd e) sw"

definition sys_step :: "jlib \<Rightarrow> (nat \<Rightarrow> string) \<Rightarrow> int \<times> raw_msg \<Rightarrow> sys_handler server \<times> services
    \<Rightarrow> sys_handler server \<times> services" where
  "sys_step L rg e sw = final_state sw (sys_deliver L rg e sw)"

text \<open>A server in production mode, and services that are as they were.\<close>

definition locked_down :: "resolver \<times> job_queue \<times> cache \<Rightarrow> sys_handler server \<times> services \<Rightarrow> bool" where
  "locked_down k sw \<longleftrightarrow> server_inv (fst sw) \<and> routes_closed (sr_dispatcher (fst sw))
     \<and> \<not> so_development_mode (dp_options (sr_dispatcher (fst sw))) \<and> kept (snd sw) = k"

lemma granted_strict: "auth_inv False a \<Longrightarrow> granted L doc am a \<Longrightarrow> am = ANY"
  using check_strict [of a am L doc] by (cases "am = ANY") (simp_all add: granted_def)

lemma dispatch_locked:
  assumes "dispatcher_inv d" "routes_closed d" "\<not> so_development_mode (dp_options d)"
  shows "kept (snd (final_state (d, w) (dispatch L now (sys_run L rg now) rm (d, w)))) = kept w"
proof (cases "snd (final_state (d, w) (dispatch L now (sys_run L rg now) rm (d, w))) = w")
  case False
  from dispatch_guarded [OF assms(1) this] obtain r doc h where
    r: "map_of (dp_routing d) (full_route (rm_object rm) (rm_name rm)) = Some r" "rt_handler r = Bound h"
      "granted L doc (rt_access r) (dp_auth d)"
    and w: "snd (final_state (d, w) (dispatch L now (sys_run L rg now) rm (d, w)))
      = final_state w (sys_run L rg now h \<lparr>im_id = rm_id rm, im_doc = doc\<rparr> w)" by blast
  have "rt_access r = ANY"
    using dispatcher_auth [OF assms(1)] assms(3) r(3) granted_strict by auto
  with assms(2) r have "harmless h" unfolding routes_closed_def by blast
  with w harmless_run show ?thesis by simp
qed simp

lemma sys_step_locked: "locked_down k sw \<Longrightarrow> locked_down k (sys_step L rg e sw)"
proof -
  assume l: "locked_down k sw"
  obtain s w where sw: "sw = (s, w)" by force
  let ?D = "dispatch L (fst e) (sys_run L rg (fst e)) (snd e) (sr_dispatcher s, w)"
  let ?sw' = "sys_step L rg e sw"
  have d: "dispatcher_inv (sr_dispatcher s)" "routes_closed (sr_dispatcher s)"
    "\<not> so_development_mode (dp_options (sr_dispatcher s))" "kept w = k"
    using l by (simp_all add: locked_down_def server_inv_def sw)
  note fixed = dispatch_fixed [OF d(1), of w L "fst e" "sys_run L rg (fst e)" "snd e"]
  have "sr_dispatcher (fst ?sw') \<in> {sr_dispatcher s, fst (final_state (sr_dispatcher s, w) ?D)}"
    using deliver_dispatcher [of sw L "fst e" "sys_run L rg (fst e)" "snd e"]
    by (simp add: sys_step_def sys_deliver_def sw)
  then have "dispatcher_inv (sr_dispatcher (fst ?sw')) \<and> routes_closed (sr_dispatcher (fst ?sw'))
      \<and> dp_options (sr_dispatcher (fst ?sw')) = dp_options (sr_dispatcher s)"
    using d(1,2) fixed dispatch_inv [OF d(1), of w L "fst e" "sys_run L rg (fst e)" "snd e"]
    by (auto simp: routes_closed_def)
  moreover have "kept (snd ?sw') = k"
  proof (cases "snd ?sw' = w")
    case False
    then have "snd ?sw' = snd (final_state (sr_dispatcher s, w) ?D)"
      using deliver_world [of sw L "fst e" "sys_run L rg (fst e)" "snd e"]
      by (simp add: sys_step_def sys_deliver_def sw)
    then show ?thesis using dispatch_locked [OF d(1-3), of w L "fst e" rg "snd e"] d(4) by simp
  qed (use d(4) in simp)
  ultimately show ?thesis using d(3) by (simp add: locked_down_def server_inv_def)
qed

interpretation production: event_system "sys_step L rg" "locked_down k" for L rg k
  by unfold_locales (rule sys_step_locked)

section \<open>What a started program is\<close>

lemma act_bind_Inr:
  "act_bind m f w = (Inr y, w') \<longleftrightarrow> (\<exists>x v. m w = (Inr x, v) \<and> f x v = (Inr y, w'))"
  by (auto simp: act_bind_def split: prod.split sum.split)

lemma main_setup_server:
  "main_setup X now vm foreground w = (Inr r, w') \<Longrightarrow>
     \<exists>options. load_server_options now vm = Inr options
       \<and> rn_server r = manager_register_routing service_ident service_routes (rn_manager r) (server_new options)
       \<and> mm_running (rn_manager r)"
  by (auto simp: main_setup_def act_bind_Inr act_lift_def act_ret_def Let_def manager_start_all_def rbind_Inr_iff
      manager_register_routing_def manager_modules_def split: prod.splits)

lemma main_start_parts:
  assumes "main_start X now progname args w = (Inr r, w')"
  obtains vm f w1 r0 debug s' where "main_options X progname args = Inr vm"
    "main_setup X now vm f w1 = (Inr r0, w')" "opt_get_bool vm ''foreground'' = Inr f"
    "fst (server_start (ou_listen X)
        (if debug then server_register_object ''echo'' (To_direct Echo) (rn_server r0) else rn_server r0)) = Inr s'"
    "r = r0\<lparr>rn_server := s', rn_manager := manager_start_thread (manager_finds (fst (ou_stale X)) (rn_manager r0))\<rparr>"
proof -
  from assms obtain vm f w1 r0 where vm: "main_options X progname args = Inr vm"
    and f: "opt_get_bool vm ''foreground'' = Inr f"
    and r0: "main_setup X now vm f w1 = (Inr r0, w')" and r: "main_listen X vm r0 = Inr r"
    by (auto simp: main_start_def act_bind_Inr rbind_Inr_iff act_lift_def act_ret_def split: sum.splits prod.splits)
  from r obtain debug s' where
    "fst (server_start (ou_listen X)
        (if debug then server_register_object ''echo'' (To_direct Echo) (rn_server r0) else rn_server r0)) = Inr s'"
    "r = r0\<lparr>rn_server := s', rn_manager := manager_start_thread (manager_finds (fst (ou_stale X)) (rn_manager r0))\<rparr>"
    by (auto simp: main_listen_def Let_def split: sum.splits)
  with vm f r0 that show thesis by blast
qed

lemma manager_later [simp]:
  "manager_modules (manager_start_thread mm) = manager_modules mm"
  "manager_modules (manager_finds b mm) = manager_modules mm"
  "mm_running (manager_finds b mm) = mm_running mm" "mm_thread (manager_finds b mm) = mm_thread mm"
  "manager_finds b (manager_start_thread (manager_finds b mm)) = manager_start_thread (manager_finds b mm)"
  "manager_finds b (manager_start_thread (manager_finds False mm)) = manager_finds b mm"
  "mm_thread_enabled (manager_finds b mm) = b" "mm_pool (manager_finds b mm) = mm_pool mm"
  by (simp_all add: manager_start_thread_def manager_finds_def manager_modules_def)

lemma main_started:
  assumes "main_start X now progname args w = (Inr r, w')"
  shows "serving (manager_modules (rn_manager r)) (rn_server r)
    \<and> (\<exists>vm options. load_server_options now vm = Inr options \<and> main_options X progname args = Inr vm
        \<and> dp_options (sr_dispatcher (rn_server r)) = options)"
  using assms
proof (rule main_start_parts)
  fix vm f w1 r0 debug s'
  assume vm: "main_options X progname args = Inr vm" and r0: "main_setup X now vm f w1 = (Inr r0, w')"
    and s': "fst (server_start (ou_listen X)
        (if debug then server_register_object ''echo'' (To_direct Echo) (rn_server r0) else rn_server r0)) = Inr s'"
    and r: "r = r0\<lparr>rn_server := s', rn_manager := manager_start_thread (manager_finds (fst (ou_stale X)) (rn_manager r0))\<rparr>"
  from main_setup_server [OF r0] obtain options where
    "load_server_options now vm = Inr options"
    "rn_server r0 = manager_register_routing service_ident service_routes (rn_manager r0) (server_new options)"
    by blast
  with started_serving [OF s'] vm r show ?thesis by (auto simp: manager_register_routing_def)
qed

section \<open>The modules of a started program\<close>

fun service_option :: "service \<Rightarrow> string" where
  "service_option S_debug = ''enable-debug''"
| "service_option S_resolver = ''enable-resolver''"
| "service_option S_job_queue = ''enable-job-queue''"
| "service_option S_cache = ''enable-cache''"

definition enabled_services :: "vmap \<Rightarrow> service list" where
  "enabled_services vm =
     filter (\<lambda>m. opt_get_bool vm (service_option m) = Inr True) [S_debug, S_resolver, S_job_queue, S_cache]"

text \<open>The workers of the debug module are there, and the threads of the cache and the resolver run as long as nobody stops them.\<close>

definition debug_alive :: "services \<Rightarrow> bool" where
  "debug_alive w \<longleftrightarrow> dg_queue (sv_debug w) \<noteq> None"

definition thread_runs :: "background \<Rightarrow> bool" where
  "thread_runs b \<longleftrightarrow> bg_inv b \<and> \<not> bg_bad b \<and> bg_starter b = Running"

fun service_runs :: "services \<Rightarrow> service \<Rightarrow> bool" where
  "service_runs w S_debug = debug_alive w"
| "service_runs w S_resolver = (so_resolver_monitor_enabled (sv_options w) \<longrightarrow> thread_runs (sv_monitor w))"
| "service_runs w S_job_queue = True"
| "service_runs w S_cache = (so_cache_cleaner_enabled (sv_options w) \<longrightarrow> thread_runs (sv_cleaner w))"


lemma thread_runs_start: "\<not> bg_bad b \<Longrightarrow> thread_runs (bg_start b)"
  by (simp add: thread_runs_def bg_inv_def bg_start_def)

lemma add_when_Inr:
  "add_when opt m init vm (mm, w) = Inr mw \<longleftrightarrow>
     (opt_get_bool vm opt = Inr False \<and> mw = (mm, w))
     \<or> (opt_get_bool vm opt = Inr True \<and> (\<exists>w'. init w = Inr w' \<and> mw = (manager_add_builtin m mm, w')))"
  by (auto simp: add_when_def rbind_Inr_iff)

lemma setup_builtin_enabled:
  assumes "setup_builtin_modules P files vm (mm, w) = Inr (mm', w')" "manager_modules mm = []"
  shows "manager_modules mm' = enabled_services vm" "mm_thread mm' = mm_thread mm" "mm_pool mm' = mm_pool mm"
  using assms
  by (auto simp: setup_builtin_modules_def rbind_Inr_iff add_when_Inr enabled_services_def manager_add_builtin_def
      manager_modules_def)

lemma setup_builtin_options:
  "setup_builtin_modules P files vm (mm, w) = Inr (mm', w') \<Longrightarrow>
     sv_options w' = sv_options w \<and> sv_cleaner w' = sv_cleaner w \<and> sv_monitor w' = sv_monitor w
     \<and> sv_job_queue w' = (if S_job_queue \<in> set (enabled_services vm) then sv_job_queue w' else sv_job_queue w)"
  by (auto simp: setup_builtin_modules_def rbind_Inr_iff add_when_Inr enabled_services_def)

lemma service_start_runs:
  assumes "service_start m w = Inr w'" "\<not> bg_bad (sv_cleaner w)" "\<not> bg_bad (sv_monitor w)"
  shows "service_runs w' m" "service_runs w k \<Longrightarrow> service_runs w' k" "\<not> bg_bad (sv_cleaner w')" "\<not> bg_bad (sv_monitor w')"
    "sv_options w' = sv_options w"
  using assms thread_runs_start [of "sv_cleaner w"] thread_runs_start [of "sv_monitor w"]
  by (cases m; cases k; auto simp: rbind_Inr_iff debug_alive_def res_of_def debug_start_def module_start_def bg_start_def
      split: if_splits)+

lemma each_start:
  "each_module service_start ms w = Inr w' \<Longrightarrow> \<not> bg_bad (sv_cleaner w) \<Longrightarrow> \<not> bg_bad (sv_monitor w) \<Longrightarrow>
     (\<forall>m \<in> set ms. service_runs w' m) \<and> (\<forall>k. service_runs w k \<longrightarrow> service_runs w' k) \<and> sv_options w' = sv_options w"
proof (induction ms arbitrary: w)
  case (Cons m ms)
  from Cons.prems(1) obtain w1 where w1: "service_start m w = Inr w1" "each_module service_start ms w1 = Inr w'"
    by (auto simp: rbind_Inr_iff)
  note st = service_start_runs [OF w1(1) Cons.prems(2,3)]
  from Cons.IH [OF w1(2) st(3,4)] st show ?case by auto
qed simp








lemma main_setup_modules:
  assumes "linker_ok (ou_linker X)" "main_setup X now vm foreground w = (Inr r, w')"
  shows "manager_modules (rn_manager r) = enabled_services vm" "mm_thread (rn_manager r) = bg_idle"
    "mm_running (rn_manager r)" "\<forall>m \<in> set (enabled_services vm). service_runs (rn_services r) m"
    "foreground \<Longrightarrow> rn_pid r = 0" "po_objects (mm_pool (rn_manager r)) = []"
    "\<exists>options. load_server_options now vm = Inr options \<and> sv_options (rn_services r) = options"
proof -
  from assms(2) obtain modules api options fatal mm mm0 w0 w1 where
    m: "manager_load_all (ou_linker X) modules (manager_new options api fatal) = Inr mm"
      "setup_builtin_modules (ou_options X) (ou_files X) vm (mm, services_new\<lparr>sv_options := options\<rparr>) = Inr (mm0, w0)"
      "each_module service_start (manager_modules mm0) w0 = Inr w1"
      "rn_manager r = mm0\<lparr>mm_running := True\<rparr>" "rn_services r = w1" "foreground \<Longrightarrow> rn_pid r = 0"
      "load_server_options now vm = Inr options"
    by (auto simp: main_setup_def act_bind_Inr act_lift_def act_ret_def Let_def manager_start_all_def rbind_Inr_iff
        split: prod.splits if_splits)
  have "mm = manager_new options api fatal" using load_all_nothing [OF assms(1) m(1)] by simp
  then have new: "manager_modules mm = []" "mm_thread mm = bg_idle" "po_objects (mm_pool mm) = []"
    by (simp_all add: manager_new_def manager_modules_def pool_empty_def map_filter_simps)
  from setup_builtin_enabled [OF m(2) new(1)] new(2,3) m(4) show
    "manager_modules (rn_manager r) = enabled_services vm" "mm_thread (rn_manager r) = bg_idle"
    "mm_running (rn_manager r)" "po_objects (mm_pool (rn_manager r)) = []"
    by (simp_all add: manager_modules_def)
  have w0: "sv_options w0 = options" "\<not> bg_bad (sv_cleaner w0)" "\<not> bg_bad (sv_monitor w0)"
    using setup_builtin_options [OF m(2)] by (simp_all add: services_new_def bg_idle_def)
  show "\<forall>m \<in> set (enabled_services vm). service_runs (rn_services r) m"
    using each_start [OF m(3) w0(2,3)] setup_builtin_enabled(1) [OF m(2) new(1)] m(5) by simp
  show "\<exists>options. load_server_options now vm = Inr options \<and> sv_options (rn_services r) = options"
    using each_start [OF m(3) w0(2,3)] w0(1) m(5,7) by simp
  show "foreground \<Longrightarrow> rn_pid r = 0" using m(6) .
qed

section \<open>What happens in a running program\<close>

text \<open>
  A message arrives, a handler that waits for work wakes up, or one of the other threads takes a turn: a worker of the
  debug module, the cleaner of the cache, the monitor of the resolver. Where the process ends there is no program any more:
  at undefined behaviour, and at an exception in a thread of a service, which nothing catches.
\<close>

datatype program_event =
    Arrives int raw_msg
  | Wakes nat
  | Debug_turn
  | Cleaner_turn int
  | Monitor_turn pinger

fun program_step :: "jlib \<Rightarrow> (nat \<Rightarrow> string) \<Rightarrow> program_event \<Rightarrow> sys_handler server \<times> services
    \<Rightarrow> (sys_handler server \<times> services) option" where
  "program_step L rg (Arrives now rm) sw = alive_step (sys_deliver L rg) (now, rm) sw"
| "program_step L rg (Wakes i) (s, w) =
     map_option (\<lambda>q. (s, w\<lparr>sv_job_queue := q\<rparr>)) (alive_step (job_queue_react L rg) (Wake i) (sv_job_queue w))"
| "program_step L rg Debug_turn (s, w) =
     (case res_of (debug_work L (sv_debug w)) of Inl e \<Rightarrow> None | Inr d \<Rightarrow> Some (s, w\<lparr>sv_debug := d\<rparr>))"
| "program_step L rg (Cleaner_turn now) (s, w) = (case cleaner_turn now w of Inl e \<Rightarrow> None | Inr w' \<Rightarrow> Some (s, w'))"
| "program_step L rg (Monitor_turn ping) (s, w) = (case monitor_turn ping w of Inl e \<Rightarrow> None | Inr w' \<Rightarrow> Some (s, w'))"

fun program_run :: "jlib \<Rightarrow> (nat \<Rightarrow> string) \<Rightarrow> program_event list \<Rightarrow> sys_handler server \<times> services
    \<Rightarrow> (sys_handler server \<times> services) option" where
  "program_run L rg [] sw = Some sw"
| "program_run L rg (e # es) sw = Option.bind (program_step L rg e sw) (program_run L rg es)"

text \<open>A program after some events, when it is still there.\<close>

definition running_after :: "jlib \<Rightarrow> (nat \<Rightarrow> string) \<Rightarrow> program_event list \<Rightarrow> running \<Rightarrow> running option" where
  "running_after L rg es r =
     map_option (\<lambda>(s, w). r\<lparr>rn_server := s, rn_services := w\<rparr>) (program_run L rg es (rn_server r, rn_services r))"

lemma program_step_cases:
  assumes "program_step L rg e (s, w) = Some sw'"
  obtains now rm where "e = Arrives now rm" "sw' = sys_step L rg (now, rm) (s, w)"
  | q where "sw' = (s, w\<lparr>sv_job_queue := q\<rparr>)"
  | d where "sw' = (s, w\<lparr>sv_debug := d\<rparr>)" "res_of (debug_work L (sv_debug w)) = Inr d"
  | now w' where "cleaner_turn now w = Inr w'" "sw' = (s, w')"
  | ping w' where "monitor_turn ping w = Inr w'" "sw' = (s, w')"
  using assms by (cases e) (auto simp: alive_step_Some sys_step_def split: sum.splits)

lemma program_run_inv:
  assumes "program_run L rg es sw = Some sw'" "P sw"
    and "\<And>e sw sw'. program_step L rg e sw = Some sw' \<Longrightarrow> P sw \<Longrightarrow> P sw'"
  shows "P sw'"
  using assms(1,2) by (induction es arbitrary: sw) (auto simp: bind_eq_Some_conv dest: assms(3))

text \<open>What is a matter of the server alone only messages can change.\<close>

lemma running_after_server:
  assumes "running_after L rg es r = Some r'" "P (rn_server r, rn_services r)"
    and "\<And>e sw. P sw \<Longrightarrow> P (sys_step L rg e sw)" and "\<And>s w w'. P (s, w) \<Longrightarrow> P (s, w')"
  shows "P (rn_server r', rn_services r')"
proof -
  obtain s w where sw: "program_run L rg es (rn_server r, rn_services r) = Some (s, w)"
    "r' = r\<lparr>rn_server := s, rn_services := w\<rparr>" using assms(1) by (auto simp: running_after_def)
  have "P sw'" if "program_step L rg e sw = Some sw'" "P sw" for e sw sw'
  proof -
    obtain s w where w: "sw = (s, w)" by force
    from that(1) [unfolded w] show ?thesis
      by (cases rule: program_step_cases) (use that(2) w assms(3,4) in auto)
  qed
  from program_run_inv [where P = P, OF sw(1) assms(2) this] show ?thesis by (simp add: sw(2))
qed





section \<open>A message that is granted\<close>

text \<open>A message a service's route grants is handled by the service, and the server stays as it is.\<close>

lemma deliver_granted:
  assumes "serving ms s" "m \<in> set ms" "r \<in> set (service_routes m)"
    and "rm_object rm = service_ident m" "rm_name rm = rt_name r" "parsed L rm = Inr doc"
    and "granted L doc (rt_access r) (dp_auth (sr_dispatcher s))" "rt_processing r \<noteq> PUBLISH" "rt_handler r = Bound h"
  shows "\<exists>s'. (\<forall>ms'. serving ms' s \<longrightarrow> serving ms' s')
    \<and> dp_options (sr_dispatcher s') = dp_options (sr_dispatcher s)
    \<and> sys_deliver L rg (now, rm) (s, w)
        = map_outcome_state (\<lambda>w'. (s', w')) (sys_run L rg now h \<lparr>im_id = rm_id rm, im_doc = doc\<rparr> w)"
proof -
  let ?d = "sr_dispatcher s"
  let ?d' = "checked L doc r (rm_object rm) ?d"
  let ?s' = "s\<lparr>sr_dispatcher := ?d'\<rparr>"
  have s: "server_inv s" "routes_closed ?d" "sr_listening s"
    "server_target s (rm_object rm) = Some To_dispatcher"
    "map_of (dp_routing ?d) (full_route (rm_object rm) (rm_name rm)) = Some r"
    using assms(1-5) unfolding serving_def by auto
  then have inv: "dispatcher_inv ?d" by (simp add: server_inv_def)
  have "server_target ?s' = server_target s"
    by (simp add: server_target_def fun_eq_iff cong: option.case_cong)
  then have "\<forall>ms'. serving ms' s \<longrightarrow> serving ms' ?s'"
    using checked_inv [OF inv, of L doc r "rm_object rm"]
    by (simp add: serving_def server_inv_def routes_closed_def count_fixed)
  moreover have "dispatch L now (sys_run L rg now) rm (?d, w)
      = map_outcome_state (\<lambda>w'. (?d', w')) (sys_run L rg now h \<lparr>im_id = rm_id rm, im_doc = doc\<rparr> w)"
    using dispatch_routed [OF s(5) routed_counted [OF inv s(5)], of L now "sys_run L rg now" w] assms(6-9)
    by (simp add: Let_def)
  ultimately show ?thesis
    using deliver_dispatched [OF s(3,4), of L now "sys_run L rg now" w]
    by (intro exI [of _ ?s'])
      (cases "sys_run L rg now h \<lparr>im_id = rm_id rm, im_doc = doc\<rparr> w"; simp add: sys_deliver_def count_fixed)
qed

section \<open>A program that starts\<close>

text \<open>A machine on which the program starts, with the cache alone, in the foreground.\<close>

definition sample_outside :: "string list outside" where
  "sample_outside = \<lparr>ou_options = ref_po_lib, ou_host = sample_host, ou_uname = Some ''node'', ou_has_pw = True,
     ou_files = (\<lambda>p. Some []), ou_appends = (\<lambda>p w. True), ou_trim = (\<lambda>s. s),
     ou_linker = \<lparr>dl_open = (\<lambda>p. (None, Some ''no such file'')), dl_create = (\<lambda>h. (None, Some ''no create'')), dl_close = (\<lambda>h. True)\<rparr>,
     ou_listen = (\<lambda>a. Inr ''tcp://127.0.0.1:9999''), ou_stale = (False, False)\<rparr>"

lemma sample_linker_closed: "linker_ok (ou_linker sample_outside)"
  by (simp add: sample_outside_def linker_ok_def)

text \<open>Its options with some switches beside the two it is started with.\<close>

definition sample_map :: "string list \<Rightarrow> vmap" where
  "sample_map switches = stored_with (config_file_options ''.'' ''node'') []
     (stored_with (command_line_options ''.'' ''node'') ([''foreground'', ''enable-cache''] @ switches) [])"

definition sample_reads :: "string list \<Rightarrow> bool" where
  "sample_reads switches = (let vm = sample_map switches in
     \<not> has_help vm
     \<and> list_all (\<lambda>(k, b). opt_get_bool vm k = Inr b)
        [(''debug'', False), (''foreground'', True), (''enable-cache'', True), (''enable-debug'', False),
         (''enable-resolver'', False), (''enable-job-queue'', False), (''fatal'', False),
         (''verbose'', False), (''builtins.cache.cleaner_enabled'', False), (''development-mode'', ''development-mode'' \<in> set switches)]
     \<and> list_all (\<lambda>(k, s). opt_get_string vm k = Inr s)
        [(''basedir'', ''.''), (''logdir'', ''./logs''), (''dbconfig'', ''./etc/db.ini''), (''modulesdir'', ''./lib'')])"

definition sample_command_line :: "string list \<Rightarrow> bool" where
  "sample_command_line switches =
     (let vm = stored_with (command_line_options ''.'' ''node'') ([''foreground'', ''enable-cache''] @ switches) []
      in \<not> has_help vm \<and> opt_get_bool vm ''debug'' = Inr False \<and> opt_get_string vm ''config'' = Inr ''./etc/config.ini'')"

lemma sample_options:
  "sample_command_line []" "sample_reads []"
  "sample_command_line [''development-mode'']" "sample_reads [''development-mode'']"
  by code_simp+

lemma sample_databases: "parse_db_options ref_po_lib (\<lambda>p. Some []) ''./etc/db.ini'' = Inr []"
  by code_simp

lemma sample_start:
  assumes "sample_command_line switches" "sample_reads switches"
  shows "\<exists>r w. main_start sample_outside 5 ''bin/nix'' ([''foreground'', ''enable-cache''] @ switches) [] = (Inr r, w)
    \<and> so_development_mode (dp_options (sr_dispatcher (rn_server r))) = (''development-mode'' \<in> set switches)
    \<and> manager_modules (rn_manager r) = [S_cache] \<and> rn_pid r = 0
    \<and> server_target (rn_server r) ''ping'' = Some (To_direct Alive)
    \<and> \<not> so_cache_cleaner_enabled (sv_options (rn_services r)) \<and> jq_waiting (sv_job_queue (rn_services r)) = []"
proof -
  let ?args = "[''foreground'', ''enable-cache''] @ switches"
  let ?vm = "sample_map switches"
  note reads = assms(2) [unfolded sample_reads_def Let_def, simplified]
  have conf: "parse_config_file ref_po_lib (\<lambda>p. Some []) ''.'' ''node''
      (stored_with (command_line_options ''.'' ''node'') ?args []) = Inr ?vm"
    using assms(1)
    by (simp add: parse_config_file_def ref_po_lib_def ref_store_distinct [OF distinct_config_file] sample_map_def
        sample_command_line_def Let_def)
  have options: "main_options sample_outside ''bin/nix'' ?args = Inr ?vm"
    using conf reads
    by (simp add: main_options_def parse_program_options_def sample_outside_def ref_command_line init_error_def)
  have "list_all (opt_typed ?vm) (server_option_reads @ client_option_reads @ main_option_reads)"
    by (rule config_read_typed [OF ref_po_lib_ok ref_command_line _ _ _ conf])
      (use assms(1) in \<open>simp_all add: sample_command_line_def Let_def\<close>)
  then have typed: "list_all (opt_typed ?vm) server_option_reads" "list_all (opt_typed ?vm) client_option_reads"
    by simp_all
  then have load: "load_server_options now ?vm = Inr (setup_server_options (po_of ?vm) now server_options_default)" for now
    by (simp add: load_server_options_def reading_def)
  have lg: "setup_logging sample_host (\<lambda>p w. True) ?vm [] = (Inr (), [''./logs''])"
    using reads by (simp add: setup_logging_def act_bind_def act_when_def path_exists_def sample_host_def expand_plain)
  have st: "\<exists>r. main_setup sample_outside 5 ?vm True w = (Inr r, w) \<and> manager_modules (rn_manager r) = [S_cache]
      \<and> rn_pid r = 0 \<and> sv_options (rn_services r) = setup_server_options (po_of ?vm) 5 server_options_default
      \<and> jq_waiting (sv_job_queue (rn_services r)) = []" for w
    using reads load typed
    by (simp add: load_client_pool_def reading_def main_setup_def setup_modules_def setup_db_pool_def sample_databases is_verbose_def pool_empty_def module_start_def
        setup_builtin_modules_def add_when_def sample_outside_def expand_plain act_bind_def manager_new_def
        manager_start_all_def manager_modules_def manager_add_builtin_def Let_def services_new_def job_queue_new_def)
  obtain r0 where r0: "main_setup sample_outside 5 ?vm True [''./logs''] = (Inr r0, [''./logs''])"
    "manager_modules (rn_manager r0) = [S_cache]" "rn_pid r0 = 0"
    "sv_options (rn_services r0) = setup_server_options (po_of ?vm) 5 server_options_default"
    "jq_waiting (sv_job_queue (rn_services r0)) = []" using st by blast
  obtain s' where s': "fst (server_start (\<lambda>a. Inr ''tcp://127.0.0.1:9999'') (rn_server r0)) = Inr s'"
    by (simp add: server_start_def Let_def)
  then have ping: "server_target s' ''ping'' = Some (To_direct Alive)"
    using start_objects [of _ "rn_server r0" s'] by (metis prod.collapse)
  from s' have "main_listen sample_outside ?vm r0
      = Inr (r0\<lparr>rn_server := s', rn_manager := manager_start_thread (manager_finds False (rn_manager r0))\<rparr>)"
    using reads by (simp add: main_listen_def sample_outside_def)
  moreover have "manager_modules (manager_start_thread (manager_finds False (rn_manager r0))) = [S_cache]"
    using r0(2) by (simp add: manager_start_thread_def manager_finds_def manager_modules_def)
  ultimately obtain r where r: "main_listen sample_outside ?vm r0 = Inr r" "manager_modules (rn_manager r) = [S_cache]"
    "rn_pid r = 0" "server_target (rn_server r) ''ping'' = Some (To_direct Alive)" "rn_services r = rn_services r0"
    using r0(3) ping by simp
  have main: "main_start sample_outside 5 ''bin/nix'' ?args [] = (Inr r, [''./logs''])"
    using options reads lg r0(1) r(1)
    by (simp add: main_start_def sample_outside_def expand_plain)
  from main_started [OF this] options load reads have
    "dp_options (sr_dispatcher (rn_server r)) = setup_server_options (po_of ?vm) 5 server_options_default"
    by auto
  then have "so_development_mode (dp_options (sr_dispatcher (rn_server r))) = (''development-mode'' \<in> set switches)"
    using reads by (simp add: setup_server_options_def po_of_def)
  moreover have "\<not> so_cache_cleaner_enabled (sv_options (rn_services r))"
    using reads r0(4) r(5) by (simp add: setup_server_options_def po_of_def)
  ultimately show ?thesis using main r(2-5) r0(5) by auto
qed

section \<open>Properties\<close>

text \<open>
  C21. A program that starts serves its services: when \<open>main\<close> comes to wait for a signal, the server
  listens, and for every module of the manager the messages to its name go to the dispatcher and
  each of its routes leads to its own handler, not to that of another module.
\<close>

theorem main_serves:
  assumes "main_start X now progname args w = (Inr r, w')"
  shows "sr_listening (rn_server r)
    \<and> (\<forall>m \<in> set (manager_modules (rn_manager r)). server_target (rn_server r) (service_ident m) = Some To_dispatcher
        \<and> (\<forall>rt \<in> set (service_routes m).
             map_of (dp_routing (sr_dispatcher (rn_server r))) (full_route (service_ident m) (rt_name rt)) = Some rt))"
  using main_started [OF assms] by (simp add: serving_def)

theorem main_serves_witness:
  "\<exists>r w'. main_start sample_outside 5 ''bin/nix'' [''foreground'', ''enable-cache''] [] = (Inr r, w')
    \<and> sr_listening (rn_server r) \<and> server_target (rn_server r) ''Cache'' = Some To_dispatcher"
proof -
  obtain r w where r: "main_start sample_outside 5 ''bin/nix'' ([''foreground'', ''enable-cache''] @ []) [] = (Inr r, w)"
    "manager_modules (rn_manager r) = [S_cache]" using sample_start [OF sample_options(1,2)] by blast
  with main_serves [OF r(1)] show ?thesis by (auto simp: module_idents simp del: service_ident.simps)
qed

text \<open>
  C20. The modules of a started program are the services whose options are set, in the order debug, resolver,
  job queue, cache; no others, whatever \<open>modules.load\<close> names.
\<close>

theorem main_modules:
  assumes "linker_ok (ou_linker X)" and "main_start X now progname args w = (Inr r, w')"
  shows "\<exists>vm. main_options X progname args = Inr vm \<and> manager_modules (rn_manager r) = enabled_services vm"
  using assms(2) by (rule main_start_parts) (use main_setup_modules(1) [OF assms(1)] in auto)

theorem main_modules_witness:
  "\<exists>r w. main_start sample_outside 5 ''bin/nix'' [''foreground'', ''enable-cache''] [] = (Inr r, w)
    \<and> (\<exists>vm. main_options sample_outside ''bin/nix'' [''foreground'', ''enable-cache''] = Inr vm
         \<and> [S_cache] = enabled_services vm)"
proof -
  obtain r w where r: "main_start sample_outside 5 ''bin/nix'' ([''foreground'', ''enable-cache''] @ []) [] = (Inr r, w)"
    "manager_modules (rn_manager r) = [S_cache]" using sample_start [OF sample_options(1,2)] by blast
  with main_modules [OF sample_linker_closed r(1)] show ?thesis by auto
qed



text \<open>
  C5. Without development mode a started program is closed: whatever messages reach it, in whatever order
  and with whatever keys, the resolver, the job queue and the cache stay as they were. There is no
  way to give the server a key of its own.
\<close>

theorem production_mode_is_closed:
  assumes "main_start X now progname args w = (Inr r, w')"
    and "\<not> so_development_mode (dp_options (sr_dispatcher (rn_server r)))"
  shows "kept (snd (fold (sys_step L rg) es (rn_server r, rn_services r))) = kept (rn_services r)"
proof -
  have "locked_down (kept (rn_services r)) (rn_server r, rn_services r)"
    using main_started [OF assms(1)] assms(2) by (simp add: locked_down_def serving_def)
  from production.fold_inv [OF this] show ?thesis by (simp add: locked_down_def)
qed

theorem production_mode_is_closed_witness:
  "\<exists>r w'. main_start sample_outside 5 ''bin/nix'' [''foreground'', ''enable-cache''] [] = (Inr r, w')
    \<and> kept (snd (fold (sys_step ref_lib (\<lambda>n. ''id''))
        [(6, \<lparr>rm_id = 1, rm_object = ''Cache'', rm_name = ''store'',
             rm_message = Some (jl_write ref_lib (JObject [(''key'', JString ''a''), (''value'', JInt 1)]))\<rparr>)]
        (rn_server r, rn_services r))) = kept (rn_services r)"
proof -
  obtain r w where r: "main_start sample_outside 5 ''bin/nix'' ([''foreground'', ''enable-cache''] @ []) [] = (Inr r, w)"
    "\<not> so_development_mode (dp_options (sr_dispatcher (rn_server r)))" using sample_start [OF sample_options(1,2)] by auto
  with production_mode_is_closed [OF r(1)] show ?thesis unfolding append.simps by blast
qed

end
