(* ===== verification/Nix_Network.thy ===== *)
theory Nix_Network
  imports Nix_Program
begin

text \<open>
  Clients and servers together: several nodes, each a started server with its services, and the
  clients of src/src/nix/core that talk to them over a transport that loses nothing. What the clients
  and the services of the repository promise each other is shown here, across both ends.
\<close>

section \<open>The network\<close>

text \<open>
  An instance of the parameter \<open>agent\<close>. An address leads to a node or to nobody; to nobody the sending
  throws. A message is delivered at once, the \<open>n\<close>th at the time \<open>clock n\<close>, and the sender sees what
  was sent to it on its own channel by then; without an answer its message stays transmitted.
\<close>

type_synonym node = "sys_handler server \<times> services"

type_synonym network = "(string \<Rightarrow> node option) \<times> nat"

definition answer_of :: "nat \<Rightarrow> net list \<Rightarrow> omsg" where
  "answer_of n ns = (case filter (\<lambda>c. net_id c = n) ns of
     [] \<Rightarrow> \<lparr>om_state = Transmitted, om_reply = None, om_exception = []\<rparr>
   | Reply i t # _ \<Rightarrow> replied_with t
   | EmptyReply i # _ \<Rightarrow> \<lparr>om_state = Replied, om_reply = None, om_exception = []\<rparr>
   | Reject i reason # _ \<Rightarrow> \<lparr>om_state = Rejected, om_reply = None, om_exception = reason\<rparr>)"

definition transmit :: "jlib \<Rightarrow> (nat \<Rightarrow> string) \<Rightarrow> (nat \<Rightarrow> int) \<Rightarrow> string \<Rightarrow> string \<Rightarrow> string \<Rightarrow> string
    \<Rightarrow> network \<Rightarrow> omsg option \<times> network" where
  "transmit L rg clock a obj name t Nn =
     (let (N, n) = Nn in case N a of
        None \<Rightarrow> (None, (N, n))
      | Some sw \<Rightarrow>
          let r = sys_deliver L rg (clock n, \<lparr>rm_id = n, rm_object = obj, rm_name = name, rm_message = Some t\<rparr>) sw
          in (Some (answer_of n (sent r)), (N(a \<mapsto> final_state sw r), Suc n)))"

definition network_agent :: "jlib \<Rightarrow> (nat \<Rightarrow> string) \<Rightarrow> (nat \<Rightarrow> int) \<Rightarrow> network agent" where
  "network_agent L rg clock =
     \<lparr>ta_send = \<lambda>a obj name t ms Nn. transmit L rg clock a obj name t Nn,
      ta_one_way = \<lambda>a obj name t Nn.
        (let (om, Nn') = transmit L rg clock a obj name t Nn in (om \<noteq> None, Nn'))\<rparr>"

text \<open>A node with some services, in development mode.\<close>

definition runs :: "service list \<Rightarrow> string \<Rightarrow> services \<Rightarrow> (string \<Rightarrow> node option) \<Rightarrow> bool" where
  "runs ms a w N \<longleftrightarrow>
     (\<exists>s. N a = Some (s, w) \<and> serving ms s \<and> so_development_mode (dp_options (sr_dispatcher s)))"

text \<open>The routes of a service.\<close>

definition offers :: "service \<Rightarrow> string \<Rightarrow> sys_handler \<Rightarrow> access_modifier \<Rightarrow> bool" where
  "offers m name h am \<longleftrightarrow> (\<exists>r \<in> set (service_routes m). rt_name r = name \<and> rt_handler r = Bound h
     \<and> rt_access r = am \<and> rt_processing r \<noteq> PUBLISH)"

lemma cache_offers:
  "offers S_cache ''store'' (H_cache (Own Cache_store)) API_PRIVATE"
  "offers S_cache ''retrieve'' (H_cache (Own Cache_retrieve)) API_PRIVATE"
  "offers S_cache ''remove'' (H_cache (Own Cache_remove)) API_PRIVATE"
  "offers S_cache ''status'' (H_cache (Own Cache_status)) API_PRIVATE"
  by (simp_all add: offers_def cache_module_def builtin_new_routes)

lemma resolver_offers:
  "offers S_resolver ''node/bind'' (H_resolver (Own Node_bind)) API_PRIVATE"
  "offers S_resolver ''node/resolve'' (H_resolver (Own Node_resolve)) API_PRIVATE"
  "offers S_resolver ''node/unbind'' (H_resolver (Own Node_unbind)) API_PRIVATE"
  "offers S_resolver ''service/bind'' (H_resolver (Own Service_bind)) API_PRIVATE"
  "offers S_resolver ''service/resolve'' (H_resolver (Own Service_resolve)) API_PRIVATE"
  "offers S_resolver ''service/unbind'' (H_resolver (Own Service_unbind)) API_PRIVATE"
  by (simp_all add: offers_def resolver_module_def builtin_new_routes)

lemma job_queue_offers:
  "offers S_job_queue ''job/submit'' (H_job_queue (Own Job_submit)) API_PRIVATE"
  "offers S_job_queue ''job/work/get'' (H_job_queue (Own Work_get)) API_PRIVATE"
  "offers S_job_queue ''job/progress/set'' (H_job_queue (Own Progress_set)) API_PRIVATE"
  "offers S_job_queue ''job/result/set'' (H_job_queue (Own Result_set)) API_PRIVATE"
  "offers S_job_queue ''job/result/get'' (H_job_queue (Own Result_get)) API_PRIVATE"
  "offers S_job_queue ''manage'' (H_job_queue (Own Queue_manage)) ADMIN"
  "offers S_job_queue ''status'' (H_job_queue (Own Queue_status)) API_PRIVATE"
  by (simp_all add: offers_def job_queue_module_def builtin_new_routes)

lemmas service_offers = cache_offers resolver_offers job_queue_offers

text \<open>A started server, and a node with it.\<close>

definition node_server :: "service list \<Rightarrow> sys_handler server" where
  "node_server ms =
     (case fst (server_start Inr (fold (\<lambda>m. server_register_module (service_ident m) (service_routes m)) ms
        (server_new (server_options_default\<lparr>so_development_mode := True\<rparr>)))) of
        Inr s \<Rightarrow> s | Inl _ \<Rightarrow> server_new server_options_default)"

lemma node_server_runs: "runs ms a w [a \<mapsto> (node_server ms, w)]"
proof -
  let ?s = "fold (\<lambda>m. server_register_module (service_ident m) (service_routes m)) ms
        (server_new (server_options_default\<lparr>so_development_mode := True\<rparr>))"
  have "fst (server_start Inr (if False then server_register_object ''echo'' (To_direct Echo) ?s else ?s)) = Inr (node_server ms)"
    by (simp add: node_server_def server_start_def Let_def)
  from started_serving [OF this refl] show ?thesis by (simp add: runs_def)
qed

section \<open>A message to a service\<close>

text \<open>A document with a key that opens a route.\<close>

definition carries :: "json \<Rightarrow> access_modifier \<Rightarrow> bool" where
  "carries doc am \<longleftrightarrow>
     (\<exists>k. message_find ''@api_key'' doc = Some (JString k) \<and> k \<noteq> [] \<and> opens (dev_key k) am)"

lemma carries_granted:
  assumes "jlib_ok L" "serving ms s" "so_development_mode (dp_options (sr_dispatcher s))" "carries doc am"
  shows "granted L doc am (dp_auth (sr_dispatcher s))"
proof -
  have "auth_inv True (dp_auth (sr_dispatcher s))"
    using assms(2,3) dispatcher_auth [of "sr_dispatcher s"] by (simp add: serving_def server_inv_def)
  from check_dev [OF this, of L doc am] assms(1,4) show ?thesis
    by (auto simp: granted_def carries_def get_string_def get_as_def jlib_okD)
qed

text \<open>
  The one fact about the transport and the server that everything below uses: a message with a fitting
  key to a service of a node runs the service's handler there, its answer is what the sender
  sees, and nothing else changes. The document may have another form when the server reads it.
\<close>

lemma transmit_read:
  assumes L: "jlib_ok L" and N: "runs ms a w N" "m \<in> set ms"
    and o: "offers m name h am" and d: "carries doc am" "jl_read L (jl_write L doc') = Some doc"
    and run: "sys_run L rg (clock n) h \<lparr>im_id = n, im_doc = doc\<rparr> w = Done w' ns"
  obtains N' where "\<And>ms'. runs ms' a w N \<Longrightarrow> runs ms' a w' N'" "\<And>b. b \<noteq> a \<Longrightarrow> N' b = N b"
    "transmit L rg clock a (service_ident m) name (jl_write L doc') (N, n) = (Some (answer_of n ns), (N', Suc n))"
proof -
  obtain s where s: "N a = Some (s, w)" "serving ms s" "so_development_mode (dp_options (sr_dispatcher s))"
    using N(1) unfolding runs_def by blast
  obtain r where r: "r \<in> set (service_routes m)" "rt_name r = name" "rt_handler r = Bound h" "rt_access r = am"
    "rt_processing r \<noteq> PUBLISH" using o unfolding offers_def by blast
  let ?rm = "\<lparr>rm_id = n, rm_object = service_ident m, rm_name = name, rm_message = Some (jl_write L doc')\<rparr>"
  have p: "parsed L ?rm = Inr doc"
    using d(2) by (simp add: parsed_def message_parse_def jlib_okD(5) [OF L])
  from deliver_granted [OF s(2) N(2) r(1) _ _ p _ r(5,3), of rg "clock n" w]
    carries_granted [OF L s(2,3) d(1)] r(2,4) run obtain s' where
    s': "\<And>ms'. serving ms' s \<Longrightarrow> serving ms' s'" "dp_options (sr_dispatcher s') = dp_options (sr_dispatcher s)"
    and e: "sys_deliver L rg (clock n, ?rm) (s, w) = Done (s', w') ns"
    by auto
  show thesis
  proof (rule that [of "N(a \<mapsto> (s', w'))"])
    show "runs ms' a w' (N(a \<mapsto> (s', w')))" if "runs ms' a w N" for ms'
      using that s' s(1,3) by (simp add: runs_def)
    show "transmit L rg clock a (service_ident m) name (jl_write L doc') (N, n)
        = (Some (answer_of n ns), (N(a \<mapsto> (s', w')), Suc n))"
      using s(1) e by (simp add: transmit_def Let_def)
  qed simp
qed

lemma transmit_served:
  assumes "jlib_ok L" and "runs ms a w N" "m \<in> set ms"
    and "offers m name h am" and "carries doc am" "reads_back L doc"
    and "sys_run L rg (clock n) h \<lparr>im_id = n, im_doc = doc\<rparr> w = Done w' ns"
  obtains N' where "\<And>ms'. runs ms' a w N \<Longrightarrow> runs ms' a w' N'" "\<And>b. b \<noteq> a \<Longrightarrow> N' b = N b"
    "transmit L rg clock a (service_ident m) name (jl_write L doc) (N, n) = (Some (answer_of n ns), (N', Suc n))"
  using transmit_read [where rg = rg and clock = clock and n = n, OF assms(1-5) assms(6) [unfolded reads_back_def] assms(7)]
  by metis

lemma answer_of_reply [simp]: "answer_of n [Reply n t] = replied_with t"
  by (simp add: answer_of_def)

text \<open>The same for a call of a service's client that sets some entries and uses the response.\<close>

lemma call_with_served:
  assumes "jlib_ok L" "runs ms a w N" "m \<in> set ms" "offers m name h am"
    and "keyed_message c kvs = Inr doc" "carries doc am" "reads_back L doc"
    and "sc_address c = a" "sc_service c = service_ident m"
    and "sys_run L rg (clock n) h \<lparr>im_id = n, im_doc = doc\<rparr> w = Done w' [Reply n (jl_write L d)]" "reads_back L d"
  obtains N' where "\<And>ms'. runs ms' a w N \<Longrightarrow> runs ms' a w' N'" "\<And>b. b \<noteq> a \<Longrightarrow> N' b = N b"
    "call_with L (network_agent L rg clock) c name kvs use (N, n)
      = use \<lparr>rs_om = replied_with (jl_write L d), rs_doc = d, rs_exception_msg = []\<rparr> (N', Suc n)"
proof (rule transmit_served [where rg = rg and clock = clock and n = n, OF assms(1-4,6,7,10)])
  fix N' assume N': "\<And>ms'. runs ms' a w N \<Longrightarrow> runs ms' a w' N'" "\<And>b. b \<noteq> a \<Longrightarrow> N' b = N b"
    and t: "transmit L rg clock a (service_ident m) name (jl_write L doc) (N, n)
      = (Some (answer_of n [Reply n (jl_write L d)]), (N', Suc n))"
  have "call_with L (network_agent L rg clock) c name kvs use (N, n)
      = use \<lparr>rs_om = replied_with (jl_write L d), rs_doc = d, rs_exception_msg = []\<rparr> (N', Suc n)"
    by (rule call_with_replied [OF assms(5) _ assms(1,11)]) (use t assms(8,9) in \<open>simp add: network_agent_def\<close>)
  with N' that show thesis by blast
qed

section \<open>The cache client\<close>

text \<open>A configuration with a key that opens the routes of the services.\<close>

definition may_call :: "client_config \<Rightarrow> bool" where
  "may_call cfg \<longleftrightarrow> cc_api_key_private cfg
     \<in> {''_development_key_private_'', ''_development_key_admin_'', ''_development_key_''}"

lemma may_call_carries:
  assumes "may_call cfg" "message_find ''@api_key'' doc = Some (JString (cc_api_key_private cfg))"
  shows "carries doc API_PRIVATE"
proof -
  have "cc_api_key_private cfg \<noteq> [] \<and> opens (dev_key (cc_api_key_private cfg)) API_PRIVATE"
    using assms(1) by (auto simp: may_call_def dev_key_def opens_def less_eq_key_type_def)
  with assms(2) show ?thesis by (simp add: carries_def)
qed

lemma service_client_fields [simp]:
  "cl_config (service_client_new s a cfg tm) = cfg" "sc_address (service_client_new s a cfg tm) = a"
  "sc_service (service_client_new s a cfg tm) = s"
  by (simp_all add: service_client_new_def)

lemmas service_clients = cache_client_new_def resolver_client_new_def

text \<open>The documents a \<open>store\<close> of \<open>m\<close> under \<open>key\<close> and a \<open>retrieve\<close> exchange.\<close>

definition key_message :: "client_config \<Rightarrow> string \<Rightarrow> (string \<times> json) list \<Rightarrow> json" where
  "key_message cfg key rest =
     JObject ((''@api_key'', JString (cc_api_key_private cfg)) # (''key'', JString key) # rest)"

definition exchanged :: "jlib \<Rightarrow> client_config \<Rightarrow> string \<Rightarrow> json \<Rightarrow> json list" where
  "exchanged L cfg key m =
     [m, JString (jl_write L m), key_message cfg key [(''value'', JString (jl_write L m))], status_doc Ok [],
      key_message cfg key [], JObject (obj_put ''@status_code'' (JInt (code_of Ok)) [(key, JString (jl_write L m))])]"

lemma key_message_facts:
  "message_find ''key'' (key_message cfg key rest) = Some (JString key)" "passable (key_message cfg key rest)"
  "message_find ''@api_key'' (key_message cfg key rest) = Some (JString (cc_api_key_private cfg))"
  "message_clear (key_message cfg key rest) = Inr (JObject [])"
  by (simp_all add: key_message_def message_find_plain plain_key_def passable_def message_clear_def)

lemma status_ok_doc: "jlib_ok L \<Longrightarrow> message_find ''@status_code'' d = Some (JInt (code_of st)) \<Longrightarrow>
    is_status_ok L \<lparr>rs_om = om, rs_doc = d, rs_exception_msg = x\<rparr> \<longleftrightarrow> st = Ok"
  by (simp add: is_status_ok_def get_int_def get_as_def jlib_okD(2) code_of_inj [of st Ok, symmetric]
      del: code_of.simps)

lemma store_served:
  assumes "jlib_ok L" "runs ms a w N" "S_cache \<in> set ms" "cc_srv_cache_address cfg = a" "may_call cfg" "plain_key key"
    and "reads_back L (key_message cfg key [(''value'', JString v)])" "reads_back L (status_doc Ok [])"
    and "int32 (clock n)"
  obtains w' N' where "runs ms a w' N'" "\<And>b. b \<noteq> a \<Longrightarrow> N' b = N b"
    "cc_store L (network_agent L rg clock) (cache_client_new cfg tm) key v (N, n) = (Inr True, (N', Suc n))"
    "\<And>t. cache_peek t key (sv_cache w')
        = (if t - clock n < 300 then Some (jl_write L (JString v)) else None)"
proof -
  let ?doc = "key_message cfg key [(''value'', JString v)]"
  let ?c = "cache_put (clock n) key 0 (jl_write L (JString v)) (sv_cache w)"
  let ?w' = "w\<lparr>sv_cache := ?c\<lparr>ca_writes := ca_writes ?c + 1\<rparr>\<rparr>"
  have f: "message_find ''value'' ?doc = Some (JString v)" "message_find ''max_age'' ?doc = None" "key \<noteq> []"
    using assms(6) by (auto simp: key_message_def message_find_plain plain_key_def)
  have run: "sys_run L rg (clock n) (H_cache (Own Cache_store)) \<lparr>im_id = n, im_doc = ?doc\<rparr> w
      = Done ?w' [Reply n (jl_write L (status_doc Ok []))]"
    using f key_message_facts [of cfg key] jlib_okD(1,2) [OF assms(1)]
    by (simp add: cache_run_def run_handler_def cache_store_def get_string_def get_int_def get_as_def
        message_to_string_def im_reply_eq Let_def)
  have peek: "cache_peek t key (sv_cache ?w') = (if t - clock n < 300 then Some (jl_write L (JString v)) else None)" for t
    using cs.peek_put [OF assms(9), of t key 0 "jl_write L (JString v)" "sv_cache w"]
    by (simp add: cache_peek_def effective_age_def)
  have k: "keyed_message (cache_client_new cfg tm) [(''key'', JString key), (''value'', JString v)] = Inr ?doc"
    by (simp add: keyed_message_docs key_message_def service_clients)
  show thesis
  proof (rule call_with_served [where rg = rg and clock = clock and n = n and use = "\<lambda>r. act_ret (is_status_ok L r)",
        OF assms(1-3) cache_offers(1) k may_call_carries [OF assms(5) key_message_facts(3)] assms(7) _ _ run assms(8)])
    fix N' assume "\<And>ms'. runs ms' a w N \<Longrightarrow> runs ms' a ?w' N'" "\<And>b. b \<noteq> a \<Longrightarrow> N' b = N b"
      and "call_with L (network_agent L rg clock) (cache_client_new cfg tm) ''store'' [(''key'', JString key), (''value'', JString v)]
        (\<lambda>r. act_ret (is_status_ok L r)) (N, n)
        = act_ret (is_status_ok L \<lparr>rs_om = replied_with (jl_write L (status_doc Ok [])), rs_doc = status_doc Ok [],
            rs_exception_msg = []\<rparr>) (N', Suc n)"
    with assms(2) show thesis
      by (intro that [of ?w' N', OF _ _ _ peek])
        (simp_all add: cc_store_def status_ok_doc [OF assms(1) status_doc_find(1)])
  qed (simp_all add: service_clients assms(4) module_idents del: service_ident.simps)
qed

lemma retrieve_served:
  assumes "jlib_ok L" "runs ms a w N" "S_cache \<in> set ms" "cc_srv_cache_address cfg = a" "may_call cfg" "plain_key key"
    and "key \<noteq> ''@status_code''" "cache_peek (clock n) key (sv_cache w) = Some (jl_write L (JString (jl_write L m)))"
    and "\<forall>d \<in> set (exchanged L cfg key m). reads_back L d"
  obtains v where "cc_retrieve L (network_agent L rg clock) (cache_client_new cfg tm) key result (N, n) = (Inr (True, m), v)"
proof -
  let ?doc = "key_message cfg key []"
  let ?v = "JString (jl_write L m)"
  let ?d = "JObject (obj_put ''@status_code'' (JInt (code_of Ok)) [(key, ?v)])"
  let ?w' = "w\<lparr>sv_cache := (sv_cache w)\<lparr>ca_hits := ca_hits (sv_cache w) + 1\<rparr>\<rparr>"
  have rb: "reads_back L m" "reads_back L ?v" "reads_back L ?doc" "reads_back L ?d"
    using assms(9) by (simp_all add: exchanged_def)
  have set: "set_deserialized L key (jl_write L ?v) (JObject []) = Inr (JObject [(key, ?v)])"
    using rb(2) assms(6) by (simp add: set_deserialized_def reads_back_def message_set_plain obj_sorted_def)
  have "key \<noteq> []" using assms(6) by (simp add: plain_key_def)
  then have run: "sys_run L rg (clock n) (H_cache (Own Cache_retrieve)) \<lparr>im_id = n, im_doc = ?doc\<rparr> w
      = Done ?w' [Reply n (jl_write L ?d)]"
    using set key_message_facts [of cfg key] jlib_okD(1) [OF assms(1)] cache_peek_found [OF assms(8)] assms(8)
    by (simp add: cache_run_def run_handler_def cache_retrieve_peek get_string_def get_as_def Let_def
        im_reply_msg_object del: obj_put.simps)
  have k: "keyed_message (cache_client_new cfg tm) [(''key'', JString key)] = Inr ?doc"
    by (simp add: keyed_message_docs key_message_def service_clients)
  have g: "message_find ''@status_code'' ?d = Some (JInt (code_of Ok))" "message_find key ?d = Some ?v"
    using assms(6,7) by (simp_all add: message_find_plain plain_key_def map_of_obj_put del: obj_put.simps)
  let ?use = "\<lambda>r. if is_status_ok L r
            then act_bind (act_lift (message_parse L (get_string L key [] (rs_doc r)) result))
                   (\<lambda>d. act_ret (True, d))
            else act_ret (False, result)"
  show thesis
  proof (rule call_with_served [where rg = rg and clock = clock and n = n and use = ?use,
        OF assms(1-3) cache_offers(2) k may_call_carries [OF assms(5) key_message_facts(3)] rb(3) _ _ run rb(4)])
    fix N' assume "call_with L (network_agent L rg clock) (cache_client_new cfg tm) ''retrieve'' [(''key'', JString key)]
        ?use (N, n) = ?use \<lparr>rs_om = replied_with (jl_write L ?d), rs_doc = ?d, rs_exception_msg = []\<rparr> (N', Suc n)"
    moreover have "message_parse L (get_string L key [] ?d) result = Inr m"
      using g(2) rb(1) jlib_okD(1,5) [OF assms(1)]
      by (simp add: get_string_def get_as_def message_parse_def reads_back_def del: obj_put.simps)
    ultimately show thesis
      by (intro that [of "(N', Suc n)"])
        (simp add: cc_retrieve_def status_ok_doc [OF assms(1) g(1)] del: obj_put.simps code_of.simps)
  qed (simp_all add: service_clients assms(4) module_idents del: service_ident.simps)
qed

section \<open>Properties of the cache and its client\<close>

text \<open>
  C1. A message stored through the client of the cache comes back through it: with a node in development
  mode that has the cache, \<open>store\<close> returns true and a \<open>retrieve\<close> of the key by any client with a key,
  which the node handles within 300 seconds, returns true and the message.
\<close>

theorem cache_client_roundtrip:
  assumes "jlib_ok L" and "\<forall>d \<in> set (exchanged L cfg key m @ exchanged L cfg' key m). reads_back L d"
    and "runs ms a w N" and "S_cache \<in> set ms" and "cc_srv_cache_address cfg = a" and "cc_srv_cache_address cfg' = a"
    and "may_call cfg" and "may_call cfg'" and "plain_key key" and "key \<noteq> ''@status_code''"
    and "int32 (clock n)" and "clock (Suc n) - clock n < 300"
  shows "\<exists>v. act_bind (cc_store_message L (network_agent L rg clock) (cache_client_new cfg tm) key m)
      (\<lambda>ok. act_bind (cc_retrieve L (network_agent L rg clock) (cache_client_new cfg' tm') key result)
        (\<lambda>r. act_ret (ok, r))) (N, n) = (Inr (True, True, m), v)"
proof -
  have rb: "reads_back L (key_message cfg key [(''value'', JString (jl_write L m))])" "reads_back L (status_doc Ok [])"
    "\<forall>d \<in> set (exchanged L cfg' key m). reads_back L d"
    using assms(2) by (simp_all add: exchanged_def)
  show ?thesis
  proof (rule store_served [where rg = rg and clock = clock and n = n and tm = tm,
        OF assms(1,3-5,7,9) rb(1,2) assms(11)])
    fix w' N' assume N': "runs ms a w' N'"
      and store: "cc_store L (network_agent L rg clock) (cache_client_new cfg tm) key (jl_write L m) (N, n)
        = (Inr True, (N', Suc n))"
      and peek: "\<And>t. cache_peek t key (sv_cache w')
        = (if t - clock n < 300 then Some (jl_write L (JString (jl_write L m))) else None)"
    have "cache_peek (clock (Suc n)) key (sv_cache w') = Some (jl_write L (JString (jl_write L m)))"
      using peek assms(12) by simp
    from retrieve_served [where clock = clock and n = "Suc n" and rg = rg and tm = tm' and result = result,
        OF assms(1) N' assms(4,6,8-10) this rb(3)]
    obtain v where "cc_retrieve L (network_agent L rg clock) (cache_client_new cfg' tm') key result (N', Suc n)
        = (Inr (True, m), v)" .
    with store show ?thesis
      by (auto simp: act_bind_def cc_store_message_def message_to_string_def)
  qed
qed

theorem cache_client_roundtrip_witness:
  "\<exists>v. act_bind (cc_store_message ref_lib (network_agent ref_lib (\<lambda>_. ''id'') int)
        (cache_client_new (client_config_default\<lparr>cc_api_key_private := ''_development_key_'', cc_srv_cache_address := ''tcp://c:1''\<rparr>) 0)
        ''a'' (JInt 7))
      (\<lambda>ok. act_bind (cc_retrieve ref_lib (network_agent ref_lib (\<lambda>_. ''id'') int)
        (cache_client_new (client_config_default\<lparr>cc_api_key_private := ''_development_key_admin_'', cc_srv_cache_address := ''tcp://c:1''\<rparr>) 0)
        ''a'' JNull)
        (\<lambda>r. act_ret (ok, r))) ([''tcp://c:1'' \<mapsto> (node_server [S_cache], services_new)], 0) = (Inr (True, True, JInt 7), v)"
  by (rule cache_client_roundtrip [OF _ _ node_server_runs])
    (simp_all add: may_call_def plain_key_def int32_def)

section \<open>The resolver client\<close>

text \<open>A request of the resolver's client, and the reply with the address of a node.\<close>

definition keyed_doc :: "client_config \<Rightarrow> (string \<times> json) list \<Rightarrow> json" where
  "keyed_doc cfg kvs = JObject ((''@api_key'', JString (cc_api_key_private cfg)) # kvs)"

lemma keyed_doc_facts:
  "message_find ''@api_key'' (keyed_doc cfg kvs) = Some (JString (cc_api_key_private cfg))"
  "message_clear (keyed_doc cfg kvs) = Inr (JObject [])" "passable (keyed_doc cfg kvs)"
  "plain_key k \<Longrightarrow> k \<noteq> ''@api_key'' \<Longrightarrow> message_find k (keyed_doc cfg kvs) = map_of kvs k"
  by (simp_all add: keyed_doc_def message_find_plain plain_key_def message_clear_def passable_def)

definition resolved_doc :: "string \<Rightarrow> string \<Rightarrow> json" where
  "resolved_doc node address =
     (case rbind (message_set node (JString address) (JObject [])) (set_status_code Ok) of Inr d \<Rightarrow> d | Inl _ \<Rightarrow> JNull)"

lemma resolved_doc_facts:
  assumes "report_keys [node]"
  shows "rbind (message_set node (JString address) (JObject [])) (\<lambda>d. im_reply_msg L i d Ok)
      = Inr (Reply i (jl_write L (resolved_doc node address)))"
    and "message_find node (resolved_doc node address) = Some (JString address)"
    and "message_find ''@status_code'' (resolved_doc node address) = Some (JInt (code_of Ok))"
proof -
  have k: "split node ''.'' \<noteq> []" "hd (split node ''.'') \<noteq> ''@status_code''"
    using assms by (simp_all add: report_keys_def)
  then obtain d where d: "message_set node (JString address) (JObject []) = Inr d"
    using message_set_empty split_eq_Nil by metis
  then obtain ms where ms: "d = JObject ms" by (auto simp: message_set_def dest: set_path_object)
  from d ms have r: "resolved_doc node address = JObject (obj_put ''@status_code'' (JInt (code_of Ok)) ms)"
    by (simp add: resolved_doc_def set_status_code_def)
  show "rbind (message_set node (JString address) (JObject [])) (\<lambda>d. im_reply_msg L i d Ok)
      = Inr (Reply i (jl_write L (resolved_doc node address)))"
    using d ms r by (simp add: im_reply_msg_object)
  obtain x xs where "split node ''.'' = x # xs" "x \<noteq> ''@status_code''" using k by (metis list.collapse)
  with find_beside message_find_set [OF d] ms r
  show "message_find node (resolved_doc node address) = Some (JString address)" by metis
  show "message_find ''@status_code'' (resolved_doc node address) = Some (JInt (code_of Ok))"
    unfolding r by (simp add: message_find_plain plain_key_def map_of_obj_put del: obj_put.simps)
qed

text \<open>A node whose resolver stands for a directory.\<close>

definition resolves :: "service list \<Rightarrow> string \<Rightarrow> directory \<Rightarrow> (string \<Rightarrow> node option) \<Rightarrow> bool" where
  "resolves ms a d N \<longleftrightarrow>
     (\<exists>w. runs ms a w N \<and> resolver_inv (sv_resolver w) \<and> directory_of (sv_resolver w) = d)"

text \<open>A node with a job queue in some state.\<close>

definition has_jobs :: "service list \<Rightarrow> string \<Rightarrow> job_queue \<Rightarrow> (string \<Rightarrow> node option) \<Rightarrow> bool" where
  "has_jobs ms a q N \<longleftrightarrow> (\<exists>w. runs ms a w N \<and> sv_job_queue w = q)"

lemma has_jobs_kept:
  assumes "has_jobs ms b q N" "\<And>ms'. runs ms' a w N \<Longrightarrow> runs ms' a w' N'" "\<And>b. b \<noteq> a \<Longrightarrow> N' b = N b"
    "runs ms' a w N" "sv_job_queue w' = sv_job_queue w"
  shows "has_jobs ms b q N'"
proof -
  from assms(1) obtain v where v: "runs ms b v N" "sv_job_queue v = q" by (auto simp: has_jobs_def)
  show ?thesis
  proof (cases "b = a")
    case True
    with v(1) assms(4) have "v = w" by (auto simp: runs_def)
    with True v assms(2,5) show ?thesis by (auto simp: has_jobs_def)
  next
    case False
    with v assms(3) show ?thesis by (auto simp: has_jobs_def runs_def)
  qed
qed

text \<open>The resolver's answer to a request of a client.\<close>

definition resolver_answers :: "jlib \<Rightarrow> nat \<Rightarrow> client_config \<Rightarrow> resolver \<Rightarrow> resolver_handler
    \<Rightarrow> (string \<times> json) list \<Rightarrow> json \<Rightarrow> bool" where
  "resolver_answers L n cfg r h kvs d \<longleftrightarrow>
     (\<exists>r'. resolver_run L (Own h) \<lparr>im_id = n, im_doc = keyed_doc cfg kvs\<rparr> r = Done r' [Reply n (jl_write L d)])"

text \<open>One call of the resolver's client on a node that has the resolver.\<close>

lemma resolver_served:
  assumes "jlib_ok L" "runs ms a w N" "S_resolver \<in> set ms" "cc_srv_resolver_address cfg = a" "may_call cfg"
    and "resolver_inv (sv_resolver w)" "offers S_resolver name (H_resolver (Own h)) API_PRIVATE"
    and "keyed_message (resolver_client_new cfg tm) kvs = Inr (keyed_doc cfg kvs')" "reads_back L (keyed_doc cfg kvs')"
    and "resolver_answers L n cfg (sv_resolver w) h kvs' d" "reads_back L d"
  obtains N' where
    "resolves ms a (directory_step L (Own h) \<lparr>im_id = n, im_doc = keyed_doc cfg kvs'\<rparr> (directory_of (sv_resolver w))) N'"
    "\<And>ms' b q. has_jobs ms' b q N \<Longrightarrow> has_jobs ms' b q N'"
    "call_with L (network_agent L rg clock) (resolver_client_new cfg tm) name kvs use (N, n)
      = use \<lparr>rs_om = replied_with (jl_write L d), rs_doc = d, rs_exception_msg = []\<rparr> (N', Suc n)"
proof -
  let ?m = "\<lparr>im_id = n, im_doc = keyed_doc cfg kvs'\<rparr>"
  obtain r' where r': "resolver_run L (Own h) ?m (sv_resolver w) = Done r' [Reply n (jl_write L d)]"
    using assms(10) unfolding resolver_answers_def by blast
  have step: "resolver_step L (Own h, ?m) (sv_resolver w) = r'" by (simp add: resolver_step_def r')
  have inv: "resolver_inv r'" using resolver_handler_inv [OF assms(6), of L "Own h" ?m] r' by simp
  have dir: "directory_of r' = directory_step L (Own h) ?m (directory_of (sv_resolver w))"
    using resolver_step_directory [OF assms(6), of L "Own h" ?m] step by simp
  have run: "sys_run L rg (clock n) (H_resolver (Own h)) ?m w
      = Done (w\<lparr>sv_resolver := r'\<rparr>) [Reply n (jl_write L d)]"
    by (simp add: r')
  show thesis
  proof (rule call_with_served [where rg = rg and clock = clock and n = n and use = use, OF assms(1-3,7,8)
        may_call_carries [OF assms(5) keyed_doc_facts(1)] assms(9) _ _ run assms(11)])
    fix N' assume "\<And>ms'. runs ms' a w N \<Longrightarrow> runs ms' a (w\<lparr>sv_resolver := r'\<rparr>) N'" "\<And>b. b \<noteq> a \<Longrightarrow> N' b = N b"
      and "call_with L (network_agent L rg clock) (resolver_client_new cfg tm) name kvs use (N, n)
        = use \<lparr>rs_om = replied_with (jl_write L d), rs_doc = d, rs_exception_msg = []\<rparr> (N', Suc n)"
    then show thesis
      using assms(2) inv dir has_jobs_kept [of _ _ _ N a w "w\<lparr>sv_resolver := r'\<rparr>" N' ms]
      by (intro that [of N']) (auto simp: resolves_def intro!: exI [of _ "w\<lparr>sv_resolver := r'\<rparr>"])
  qed (simp_all add: service_clients assms(4) module_idents del: service_ident.simps)
qed

text \<open>
  The operations of the client, and what they mean for the directory the resolver stands for. A client
  binds and unbinds its own node.
\<close>

datatype resolver_call =
    Bind_node | Resolve_node string | Unbind_node
  | Bind_service string | Resolve_service string | Unbind_service string

datatype resolver_result = Success bool | Address string | Addresses json

fun rc_call :: "jlib \<Rightarrow> 'w agent \<Rightarrow> service_client \<Rightarrow> resolver_call \<Rightarrow> (resolver_result, 'w) action" where
  "rc_call L A c Bind_node = act_bind (rc_bind_node L A c) (\<lambda>b. act_ret (Success b))"
| "rc_call L A c (Resolve_node n) = act_bind (rc_resolve_node L A c n) (\<lambda>a. act_ret (Address a))"
| "rc_call L A c Unbind_node = act_bind (rc_unbind_node L A c) (\<lambda>b. act_ret (Success b))"
| "rc_call L A c (Bind_service s) = act_bind (rc_bind_service L A c s) (\<lambda>b. act_ret (Success b))"
| "rc_call L A c (Resolve_service s) = act_bind (rc_resolve_service L A c s) (\<lambda>as. act_ret (Addresses as))"
| "rc_call L A c (Unbind_service s) = act_bind (rc_unbind_service L A c s) (\<lambda>b. act_ret (Success b))"

fun directory_call :: "client_config \<Rightarrow> resolver_call \<Rightarrow> directory \<Rightarrow> resolver_result \<times> directory" where
  "directory_call cfg Bind_node d =
     (let n = cc_local_nodename cfg; a = cc_local_address cfg
      in if n = [] \<or> a = [] then (Success False, d)
         else (Success True, d\<lparr>dir_known := insert n (dir_known d), dir_address := (dir_address d)(n := a)\<rparr>))"
| "directory_call cfg (Resolve_node n) d =
     (Address (dir_address d n), d\<lparr>dir_known := insert n (dir_known d)\<rparr>)"
| "directory_call cfg Unbind_node d =
     (let n = cc_local_nodename cfg
      in (Success True, d\<lparr>dir_known := dir_known d - {n}, dir_address := (dir_address d)(n := []),
            dir_providers := (\<lambda>s. dir_providers d s - {n})\<rparr>))"
| "directory_call cfg (Bind_service s) d =
     (let n = cc_local_nodename cfg
      in if s = [] \<or> n = [] \<or> n \<notin> dir_known d then (Success False, d)
         else (Success True, d\<lparr>dir_providers := (dir_providers d)(s := insert n (dir_providers d s))\<rparr>))"
| "directory_call cfg (Resolve_service s) d =
     (Addresses (JArray (map JString (directory_addresses s d))), d)"
| "directory_call cfg (Unbind_service s) d =
     (let n = cc_local_nodename cfg
      in if s = [] \<or> n = [] then (Success False, d)
         else (Success True, d\<lparr>dir_providers := (dir_providers d)(s := dir_providers d s - {n})\<rparr>))"

text \<open>
  A name the resolver can answer for: the answer has the address under the name, beside the status.
\<close>

definition node_name :: "string \<Rightarrow> bool" where
  "node_name n \<longleftrightarrow> split n ''.'' \<noteq> [] \<and> hd (split n ''.'') \<notin> {''@status'', ''@status_code''}"

fun call_ok :: "resolver_call \<Rightarrow> bool" where
  "call_ok (Resolve_node n) = node_name n"
| "call_ok _ = True"

text \<open>The documents of the protocol.\<close>

definition addresses_doc :: "string list \<Rightarrow> json" where
  "addresses_doc as = JObject (obj_put ''@status_code'' (JInt (code_of Ok)) [(''addresses'', JArray (map JString as))])"

definition resolver_protocol :: "json \<Rightarrow> bool" where
  "resolver_protocol d \<longleftrightarrow>
     (\<exists>cfg kvs. d = keyed_doc cfg (map (\<lambda>(k, s). (k, JString s)) kvs)) \<or> (\<exists>st r. d = status_doc st r)
     \<or> (\<exists>n a. d = resolved_doc n a) \<or> (\<exists>as. d = addresses_doc as)"

lemma protocol_docs:
  "resolver_protocol (keyed_doc cfg [(k, JString s)])"
  "resolver_protocol (keyed_doc cfg [(k, JString s), (k', JString s')])"
  "resolver_protocol (status_doc st r)" "resolver_protocol (resolved_doc n a)" "resolver_protocol (addresses_doc as)"
  unfolding resolver_protocol_def
      apply (metis (no_types, lifting) case_prod_conv list.simps(8) list.simps(9))
     apply (metis (no_types, lifting) case_prod_conv list.simps(8) list.simps(9))
  by blast+

lemma keyed_get_string:
  "jlib_ok L \<Longrightarrow> plain_key k \<Longrightarrow> k \<noteq> ''@api_key'' \<Longrightarrow> map_of kvs k = Some (JString s) \<Longrightarrow>
     get_string L k [] (keyed_doc cfg kvs) = s"
  by (simp add: get_string_def get_as_def keyed_doc_facts(4) jlib_okD(1))

text \<open>What the resolver answers to each message of the client.\<close>

lemma passable_object: "passable (JObject ms)"
  by (simp add: passable_iff)

lemma resolver_replies:
  assumes "jlib_ok L" "resolver_inv r"
  shows "resolver_answers L n cfg r Node_bind [(''address'', JString address), (''nodename'', JString node)]
      (if node = [] \<or> address = [] then status_doc Data_invalid_content ''Resolver cannot bind. Invalid content.''
       else status_doc Ok [])"
    and "resolver_answers L n cfg r Node_unbind [(''nodename'', JString node)] (status_doc Ok [])"
    and "node_name node \<Longrightarrow> resolver_answers L n cfg r Node_resolve [(''nodename'', JString node)]
      (if dir_address (directory_of r) node = [] then status_doc Fail ''Unknown node.''
       else resolved_doc node (dir_address (directory_of r) node))"
    and "resolver_answers L n cfg r Service_bind [(''nodename'', JString node), (''service'', JString service)]
      (if service = [] \<or> node = [] \<or> node \<notin> dir_known (directory_of r)
       then status_doc Data_invalid_content ''Cannot bind a service. Invalid content or unknown node.''
       else status_doc Ok [])"
    and "resolver_answers L n cfg r Service_resolve [(''service'', JString service)]
      (if dir_providers (directory_of r) service = {} then status_doc Fail ''Unknown service.''
       else addresses_doc (directory_addresses service (directory_of r)))"
    and "resolver_answers L n cfg r Service_unbind [(''nodename'', JString node), (''service'', JString service)]
      (if service = [] \<or> node = [] then status_doc Data_invalid_content [] else status_doc Ok [])"
proof -
  have g: "get_string L ''nodename'' [] (keyed_doc cfg [(''nodename'', JString node)]) = node"
    "get_string L ''nodename'' [] (keyed_doc cfg [(''nodename'', JString node), (''service'', JString service)]) = node"
    "get_string L ''service'' [] (keyed_doc cfg [(''nodename'', JString node), (''service'', JString service)]) = service"
    "get_string L ''nodename'' [] (keyed_doc cfg [(''address'', JString address), (''nodename'', JString node)]) = node"
    "get_string L ''address'' [] (keyed_doc cfg [(''address'', JString address), (''nodename'', JString node)]) = address"
    "get_string L ''service'' [] (keyed_doc cfg [(''service'', JString service)]) = service"
    by (simp_all add: keyed_get_string [OF assms(1)] plain_key_def)
  note eqs = resolver_answers_def resolver_run_def run_handler_def g keyed_doc_facts(2,3) im_fail_code_eq im_reply_eq Let_def
  show "resolver_answers L n cfg r Node_bind [(''address'', JString address), (''nodename'', JString node)]
      (if node = [] \<or> address = [] then status_doc Data_invalid_content ''Resolver cannot bind. Invalid content.''
       else status_doc Ok [])"
    "resolver_answers L n cfg r Node_unbind [(''nodename'', JString node)] (status_doc Ok [])"
    "resolver_answers L n cfg r Service_unbind [(''nodename'', JString node), (''service'', JString service)]
      (if service = [] \<or> node = [] then status_doc Data_invalid_content [] else status_doc Ok [])"
    by (auto simp: eqs resolver_bind_def resolver_unbind_def resolver_unbind_service_def case_prod_unfold passable_object)
  show "resolver_answers L n cfg r Service_bind [(''nodename'', JString node), (''service'', JString service)]
      (if service = [] \<or> node = [] \<or> node \<notin> dir_known (directory_of r)
       then status_doc Data_invalid_content ''Cannot bind a service. Invalid content or unknown node.''
       else status_doc Ok [])"
    by (auto simp: eqs resolver_bind_service_def case_prod_unfold um_count_iff directory_of_def image_iff passable_object)
  show "resolver_answers L n cfg r Service_resolve [(''service'', JString service)]
      (if dir_providers (directory_of r) service = {} then status_doc Fail ''Unknown service.''
       else addresses_doc (directory_addresses service (directory_of r)))"
    using resolve_service_eq [OF assms(2), of "\<lparr>im_id = n, im_doc = keyed_doc cfg [(''service'', JString service)]\<rparr>" L]
    by (simp add: eqs msg_service_def addresses_doc_def)
  assume "node_name node"
  then have k: "report_keys [node]" by (auto simp: node_name_def report_keys_def)
  have v: "fst (index_or_insert [] node (rv_nodes r)) = dir_address (directory_of r) node"
    by (simp add: index_or_insert_value directory_of_def)
  show "resolver_answers L n cfg r Node_resolve [(''nodename'', JString node)]
      (if dir_address (directory_of r) node = [] then status_doc Fail ''Unknown node.''
       else resolved_doc node (dir_address (directory_of r) node))"
    using v resolved_doc_facts(1) [OF k, of "dir_address (directory_of r) node" L n]
    by (auto simp: eqs resolver_resolve_def case_prod_unfold)
qed

text \<open>The messages of the client, and what it makes of the replies.\<close>

lemma resolver_keyed:
  "keyed_message (resolver_client_new cfg tm) [(''nodename'', v)] = Inr (keyed_doc cfg [(''nodename'', v)])"
  "keyed_message (resolver_client_new cfg tm) [(''nodename'', v), (''address'', u)]
    = Inr (keyed_doc cfg [(''address'', u), (''nodename'', v)])"
  "keyed_message (resolver_client_new cfg tm) [(''service'', v)] = Inr (keyed_doc cfg [(''service'', v)])"
  "keyed_message (resolver_client_new cfg tm) [(''service'', v), (''nodename'', u)]
    = Inr (keyed_doc cfg [(''nodename'', u), (''service'', v)])"
  by (simp_all add: keyed_message_docs keyed_doc_def service_clients)

lemma status_reply:
  "jlib_ok L \<Longrightarrow> is_status_ok L \<lparr>rs_om = om, rs_doc = status_doc st x, rs_exception_msg = y\<rparr> \<longleftrightarrow> st = Ok"
  by (rule status_ok_doc) (simp_all add: status_doc_find)

lemma address_reply:
  assumes "jlib_ok L" "node_name n"
  shows "get_string L n [] (status_doc Fail x) = []" and "get_string L n [] (resolved_doc n a) = a"
proof -
  have "report_keys [n]" using assms(2) by (auto simp: node_name_def report_keys_def)
  moreover obtain k ks where "split n ''.'' = k # ks" "k \<notin> {''@status'', ''@status_code''}"
    using assms(2) by (cases "split n ''.''") (auto simp: node_name_def)
  then have "message_find n (status_doc Fail x) = None"
    by (simp add: status_doc_def message_find_object)
  ultimately show "get_string L n [] (status_doc Fail x) = []" "get_string L n [] (resolved_doc n a) = a"
    using resolved_doc_facts(2) assms(1) by (auto simp: get_string_def get_as_def jlib_okD(1))
qed

lemma addresses_reply:
  "get_array ''addresses'' (array_value (JArray []))
     (if dir_providers d s = {} then status_doc Fail x else addresses_doc (directory_addresses s d))
   = JArray (map JString (directory_addresses s d))"
proof -
  have "message_find ''addresses'' (addresses_doc as) = Some (JArray (map JString as))" for as
    by (simp add: addresses_doc_def message_find_plain plain_key_def map_of_obj_put del: obj_put.simps)
  moreover have "message_find ''addresses'' (status_doc Fail x) = None"
    by (simp add: status_doc_def message_find_plain plain_key_def)
  ultimately show ?thesis
    by (auto simp: get_array_def message_is_array_def get_raw_value_def array_value_def directory_addresses_def)
qed

lemma client_config_of: "cl_config (resolver_client_new cfg tm) = cfg" "cl_config (cache_client_new cfg tm) = cfg"
  by (simp_all add: service_clients)

lemma rc_call_served:
  assumes L: "jlib_ok L" "\<And>d. resolver_protocol d \<Longrightarrow> reads_back L d"
    and N: "resolves ms a d N" "S_resolver \<in> set ms"
    and c: "cc_srv_resolver_address cfg = a" "may_call cfg" "call_ok x"
  shows "\<exists>N'. rc_call L (network_agent L rg clock) (resolver_client_new cfg tm) x (N, n)
      = (Inr (fst (directory_call cfg x d)), (N', Suc n)) \<and> resolves ms a (snd (directory_call cfg x d)) N'
    \<and> (\<forall>ms' b q. has_jobs ms' b q N \<longrightarrow> has_jobs ms' b q N')"
proof -
  obtain w where w: "runs ms a w N" "resolver_inv (sv_resolver w)" "directory_of (sv_resolver w) = d"
    using N(1) unfolding resolves_def by blast
  note served = resolver_served [where rg = rg and clock = clock and n = n and tm = tm, OF L(1) w(1) N(2) c(1,2) w(2)]
  note replies = resolver_replies [where n = n and cfg = cfg, OF L(1) w(2), unfolded w(3)]
  note step = w(3) msg_node_def msg_address_def msg_service_def keyed_get_string [OF L(1)] plain_key_def Let_def
  note conv = status_reply [OF L(1)] address_reply [OF L(1)] addresses_reply local_name_def client_config_of
  have reads: "reads_back L (keyed_doc cfg [(k, JString s)])" "reads_back L (keyed_doc cfg [(k, JString s), (k', JString s')])"
    "reads_back L (status_doc st y)" "reads_back L (resolved_doc m b)" "reads_back L (addresses_doc as)" for k s k' s' st y m b as
    using L(2) protocol_docs by blast+
  show ?thesis
  proof (cases x)
    case Bind_node
    show ?thesis
      by (rule served [OF resolver_offers(1) resolver_keyed(2) reads(2) replies(1) [where node = "cc_local_nodename cfg" and address = "cc_local_address cfg"],
            where use = "\<lambda>r. act_ret (is_status_ok L r)"])
        (use reads in \<open>auto simp: Bind_node rc_bind_node_def conv step\<close>)
  next
    case (Resolve_node m)
    then have m: "node_name m" using c(3) by simp
    show ?thesis
      by (rule served [OF resolver_offers(2) resolver_keyed(1) reads(1) replies(3) [OF m],
            where use = "\<lambda>r. act_ret (get_string L m [] (rs_doc r))"])
        (use reads m in \<open>auto simp: Resolve_node rc_resolve_node_def conv step\<close>)
  next
    case Unbind_node
    show ?thesis
      by (rule served [OF resolver_offers(3) resolver_keyed(1) reads(1) replies(2) [where node = "cc_local_nodename cfg"],
            where use = "\<lambda>r. act_ret (is_status_ok L r)"])
        (use reads in \<open>auto simp: Unbind_node rc_unbind_node_def conv step\<close>)
  next
    case (Bind_service s)
    show ?thesis
      by (rule served [OF resolver_offers(4) resolver_keyed(4) reads(2) replies(4) [where node = "cc_local_nodename cfg" and service = s],
            where use = "\<lambda>r. act_ret (is_status_ok L r)"])
        (use reads in \<open>auto simp: Bind_service rc_bind_service_def conv step\<close>)
  next
    case (Resolve_service s)
    show ?thesis
      by (rule served [OF resolver_offers(5) resolver_keyed(3) reads(1) replies(5) [where service = s],
            where use = "\<lambda>r. act_ret (get_array ''addresses'' (array_value (JArray [])) (rs_doc r))"])
        (use reads in \<open>auto simp: Resolve_service rc_resolve_service_def conv step\<close>)
  next
    case (Unbind_service s)
    show ?thesis
      by (rule served [OF resolver_offers(6) resolver_keyed(4) reads(2) replies(6) [where node = "cc_local_nodename cfg" and service = s],
            where use = "\<lambda>r. act_ret (is_status_ok L r)"])
        (use reads in \<open>auto simp: Unbind_service rc_unbind_service_def conv step\<close>)
  qed
qed

text \<open>Calls of several clients one after the other, and the same of the directory.\<close>

fun session :: "jlib \<Rightarrow> 'w agent \<Rightarrow> (service_client \<times> resolver_call) list \<Rightarrow> (resolver_result list, 'w) action" where
  "session L A [] = act_ret []"
| "session L A ((c, x) # calls) =
     act_bind (rc_call L A c x) (\<lambda>r. act_bind (session L A calls) (\<lambda>rs. act_ret (r # rs)))"

fun directory_session :: "(client_config \<times> resolver_call) list \<Rightarrow> directory \<Rightarrow> resolver_result list \<times> directory" where
  "directory_session [] d = ([], d)"
| "directory_session ((cfg, x) # calls) d =
     (let (r, d1) = directory_call cfg x d; (rs, d2) = directory_session calls d1 in (r # rs, d2))"

definition client_of :: "nat \<Rightarrow> client_config \<times> resolver_call \<Rightarrow> service_client \<times> resolver_call" where
  "client_of tm = (\<lambda>(cfg, x). (resolver_client_new cfg tm, x))"

lemma resolves_new: "resolves [S_resolver] a (directory_of resolver_new) [a \<mapsto> (node_server [S_resolver], services_new)]"
  using node_server_runs [of "[S_resolver]" a services_new]
  by (auto simp: resolves_def services_new_def intro!: exI [of _ services_new])

section \<open>Properties of the resolver and its clients\<close>

text \<open>
  C4. Clients of the resolver see a directory: whatever calls any clients make one after the other over the
  network, with the keys and names that fit, each returns what the abstract directory of nodes and
  services says at that point, through the client, the transport, the dispatcher, the check of
  the key and the service, and the node then stands for the directory after them.
\<close>

theorem resolver_clients_see_directory:
  assumes "jlib_ok L" and "\<And>d. resolver_protocol d \<Longrightarrow> reads_back L d"
    and "resolves ms a d N" and "S_resolver \<in> set ms"
    and "\<forall>(cfg, x) \<in> set calls. cc_srv_resolver_address cfg = a \<and> may_call cfg \<and> call_ok x"
  shows "\<exists>N'. session L (network_agent L rg clock) (map (client_of tm) calls) (N, n)
      = (Inr (fst (directory_session calls d)), (N', n + length calls))
    \<and> resolves ms a (snd (directory_session calls d)) N'"
  using assms(3,5)
proof (induction calls arbitrary: N n d)
  case Nil
  then show ?case by simp
next
  case (Cons cx calls)
  obtain cfg x where cx: "cx = (cfg, x)" by force
  have ok: "cc_srv_resolver_address cfg = a" "may_call cfg" "call_ok x"
    "\<forall>(cfg, x) \<in> set calls. cc_srv_resolver_address cfg = a \<and> may_call cfg \<and> call_ok x"
    using Cons.prems(2) cx by auto
  from rc_call_served [OF assms(1,2) Cons.prems(1) assms(4) ok(1-3)] obtain N1 where
    N1: "rc_call L (network_agent L rg clock) (resolver_client_new cfg tm) x (N, n)
      = (Inr (fst (directory_call cfg x d)), (N1, Suc n))" "resolves ms a (snd (directory_call cfg x d)) N1"
    by blast
  from Cons.IH [OF N1(2) ok(4), of "Suc n"] N1(1) cx show ?case
    by (auto simp: client_of_def case_prod_unfold Let_def)
qed

definition sample_config :: "string \<Rightarrow> string \<Rightarrow> client_config" where
  "sample_config name address = client_config_default
     \<lparr>cc_local_nodename := name, cc_local_address := address, cc_api_key_private := ''_development_key_'',
      cc_srv_resolver_address := ''tcp://r:1'', cc_srv_cache_address := ''tcp://r:1'',
      cc_srv_job_queue_address := ''tcp://q:1''\<rparr>"

theorem resolver_clients_see_directory_witness:
  "\<exists>v. session ref_lib (network_agent ref_lib (\<lambda>_. ''id'') int)
      [(resolver_client_new (sample_config ''n1'' ''tcp://n1:1'') 0, Bind_node),
       (resolver_client_new (sample_config ''n1'' ''tcp://n1:1'') 0, Bind_service ''mail''),
       (resolver_client_new (sample_config ''n2'' ''tcp://n2:1'') 0, Resolve_node ''n1''),
       (resolver_client_new (sample_config ''n2'' ''tcp://n2:1'') 0, Bind_service ''mail''),
       (resolver_client_new (sample_config ''n2'' ''tcp://n2:1'') 0, Resolve_service ''mail'')]
      ([''tcp://r:1'' \<mapsto> (node_server [S_resolver], services_new)], 0)
    = (Inr [Success True, Success True, Address ''tcp://n1:1'', Success False,
        Addresses (JArray [JString ''tcp://n1:1''])], v)"
proof -
  let ?c1 = "sample_config ''n1'' ''tcp://n1:1''" and ?c2 = "sample_config ''n2'' ''tcp://n2:1''"
  let ?calls = "[(?c1, Bind_node), (?c1, Bind_service ''mail''), (?c2, Resolve_node ''n1''),
    (?c2, Bind_service ''mail''), (?c2, Resolve_service ''mail'')]"
  have ok: "\<forall>(cfg, x) \<in> set ?calls. cc_srv_resolver_address cfg = ''tcp://r:1'' \<and> may_call cfg \<and> call_ok x"
    by (simp add: sample_config_def may_call_def node_name_def split_plain plain_key_def)
  have "fst (directory_session ?calls (directory_of resolver_new)) = [Success True, Success True, Address ''tcp://n1:1'',
      Success False, Addresses (JArray [JString ''tcp://n1:1''])]"
    by (simp add: sample_config_def directory_of_def resolver_new_def directory_addresses_def Let_def)
  with resolver_clients_see_directory [OF _ _ resolves_new _ ok, of ref_lib "\<lambda>_. ''id''" int 0 0] show ?thesis
    by (auto simp: client_of_def)
qed

end
