(* ===== verification/Nix_Workflow.thy ===== *)
theory Nix_Workflow
  imports Nix_Network
begin

text \<open>
  The job queue and its clients over the network. A client submits jobs to the queue at its configured
  address; a worker gets them there; what becomes of a job is reported to the node the job came from and
  asked for there, with an address the resolver gives. The state of all this is a directory and, for
  every address with a job queue, a board of jobs.
\<close>

section \<open>Boards\<close>

record board =
  bd_queues :: "string \<Rightarrow> (job list \<times> nat) option"
  bd_in_progress :: "string \<Rightarrow> job option"
  bd_completed :: "string \<Rightarrow> job option"

definition board_of :: "job_queue \<Rightarrow> board" where
  "board_of s = \<lparr>bd_queues = \<lambda>n. map_option (\<lambda>q. (q_items q, q_size q)) (map_of (jq_queues s) n),
     bd_in_progress = map_of (jq_in_progress s), bd_completed = map_of (jq_completed s)\<rparr>"

definition submit_board :: "job \<Rightarrow> board \<Rightarrow> bool \<times> board" where
  "submit_board j b = (case bd_queues b (j_module j) of
     None \<Rightarrow> (False, b)
   | Some (js, n) \<Rightarrow>
       if length js < n then (True, b\<lparr>bd_queues := (bd_queues b)(j_module j \<mapsto> (js @ [j], n))\<rparr>) else (False, b))"

definition take_board :: "string \<Rightarrow> board \<Rightarrow> job option \<times> board" where
  "take_board m b = (case bd_queues b m of
     Some (j # js, n) \<Rightarrow> (Some j, b\<lparr>bd_queues := (bd_queues b)(m \<mapsto> (js, n)),
                                     bd_in_progress := (bd_in_progress b)(j_id j \<mapsto> j)\<rparr>)
   | _ \<Rightarrow> (None, b))"

definition progress_board :: "job \<Rightarrow> board \<Rightarrow> board" where
  "progress_board j b = (case bd_in_progress b (j_id j) of
     Some j' \<Rightarrow> if j_progress j \<noteq> 0
       then b\<lparr>bd_in_progress := (bd_in_progress b)(j_id j \<mapsto> job_set_progress (j_progress j) j')\<rparr> else b
   | None \<Rightarrow> b)"

definition result_board :: "job \<Rightarrow> board \<Rightarrow> board" where
  "result_board j b = b\<lparr>bd_in_progress := (bd_in_progress b)(j_id j := None),
     bd_completed := (bd_completed b)(j_id j \<mapsto> job_set_progress 100 j)\<rparr>"

definition collect_board :: "job \<Rightarrow> board \<Rightarrow> job option \<times> board" where
  "collect_board j b = (case bd_completed b (j_id j) of
     Some j' \<Rightarrow> (Some j', b\<lparr>bd_completed := (bd_completed b)(j_id j := None)\<rparr>)
   | None \<Rightarrow> (bd_in_progress b (j_id j), b))"

text \<open>
  A service none of whose queues is closed, and where no worker is parked and no handler waits. (Workers
  are parked only at closed queues, and wait only at empty ones.)
\<close>

definition calm :: "job_queue \<Rightarrow> bool" where
  "calm s \<longleftrightarrow> jq_inv s \<and> (\<forall>n q. map_of (jq_queues s) n = Some q \<longrightarrow> \<not> q_closed q)
     \<and> (\<forall>n w. map_of (jq_workers s) n = Some w \<longrightarrow> q_items w = []) \<and> jq_waiting s = []"

section \<open>The jobs the library carries\<close>

text \<open>
  The answer to a submission, and a class of jobs whose documents survive the transport: with identifier,
  time and a key that opens the routes; progress reports do not lead out of it. The library may read
  the progress of a job in another form than it was written in, as an integer for example, as long as
  the reader of that gets the same number and the documents with it survive.
\<close>

definition receipt_doc :: "string \<Rightarrow> json" where
  "receipt_doc i = JObject [(''@job_id'', JString i), (''@status_code'', JInt (code_of Ok))]"

definition carried :: "jlib \<Rightarrow> (job \<Rightarrow> bool) \<Rightarrow> bool" where
  "carried L G \<longleftrightarrow> (\<forall>j. G j \<longrightarrow> j_id j \<noteq> [] \<and> j_ctime j \<noteq> 0 \<and> int32 (j_ctime j)
     \<and> carries (job_doc j) API_PRIVATE
     \<and> (\<exists>v. reads_as L j v \<and> (\<forall>st. reads_back L (job_reply_doc_as v j st)))
     \<and> reads_back L (receipt_doc (j_id j))
     \<and> G (job_set_progress 100 j) \<and> (\<forall>j'. G j' \<longrightarrow> G (job_set_progress (j_progress j') j)))"

lemma carriedD:
  assumes "carried L G" "G j"
  shows "j_id j \<noteq> []" "j_ctime j \<noteq> 0" "int32 (j_ctime j)" "carries (job_doc_as v j) API_PRIVATE"
    "reads_back L (receipt_doc (j_id j))"
    "G (job_set_progress 100 j)" "G j' \<Longrightarrow> G (job_set_progress (j_progress j') j)"
proof -
  have "carries (job_doc j) API_PRIVATE" using assms unfolding carried_def by blast
  then show "carries (job_doc_as v j) API_PRIVATE" by (simp add: carries_def job_doc_find job_doc_as_find)
qed (use assms in \<open>unfold carried_def, blast+\<close>)

lemma carriedE:
  assumes "carried L G" "G j"
  obtains v where "reads_as L j v" "\<And>st. reads_back L (job_reply_doc_as v j st)"
  using assms unfolding carried_def by blast

definition all_good :: "(job \<Rightarrow> bool) \<Rightarrow> board \<Rightarrow> bool" where
  "all_good G b \<longleftrightarrow> (\<forall>n js k. bd_queues b n = Some (js, k) \<longrightarrow> list_all G js)
     \<and> (\<forall>i j. bd_in_progress b i = Some j \<longrightarrow> G j) \<and> (\<forall>i j. bd_completed b i = Some j \<longrightarrow> G j)"

lemma all_good_submit: "all_good G b \<Longrightarrow> G j \<Longrightarrow> all_good G (snd (submit_board j b))"
  by (auto simp: all_good_def submit_board_def split: option.splits if_splits)

lemma all_good_take: "all_good G b \<Longrightarrow> all_good G (snd (take_board m b))"
  by (fastforce simp: all_good_def take_board_def split: option.splits list.splits if_splits)

lemma all_good_progress: "carried L G \<Longrightarrow> all_good G b \<Longrightarrow> G j \<Longrightarrow> all_good G (progress_board j b)"
  by (auto simp: all_good_def progress_board_def carried_def split: option.splits if_splits)

lemma all_good_result: "carried L G \<Longrightarrow> all_good G b \<Longrightarrow> G j \<Longrightarrow> all_good G (result_board j b)"
  by (auto simp: all_good_def result_board_def carried_def split: option.splits if_splits)

lemma all_good_collect: "all_good G b \<Longrightarrow> all_good G (snd (collect_board j b))"
  by (auto simp: all_good_def collect_board_def split: option.splits if_splits)

lemma carried_job:
  assumes "jlib_ok L" "carried L G" "G j" "jl_double L v = Some (j_progress j)"
  shows "job_of_message L rg now (job_doc_as v j) n = (j, Suc n)"
    and "job_of_message L rg now (job_reply_doc_as v j st) n = (j, Suc n)"
  using carriedD(1-3) [OF assms(2,3)] job_from_doc_as [OF assms(1) _ assms(4)] job_from_reply_doc_as [OF assms(1) _ assms(4)]
  by (simp_all add: job_of_message_def job_default_eq prod_eq_iff job_init_id)

lemma job_doc_meta:
  assumes "jlib_ok L" "jl_double L v = Some (j_progress j)"
  shows "get_meta L ''job_id'' [] (job_doc_as v j) = j_id j" "get_meta L ''api_key'' [] (job_doc_as v j) = j_api_key j"
    "get_string L ''module'' [] (job_doc_as v j) = j_module j" "get_string L ''action'' [] (job_doc_as v j) = j_action j"
    "get_double L ''progress'' 0 (job_doc_as v j) = j_progress j" "passable (job_doc_as v j)"
    "message_exists ''parameters'' (job_doc_as v j)"
  using assms by (simp_all add: getter_defs meta_key_def get_as_def job_doc_as_find jlib_okD passable_def)
    (simp_all add: job_doc_as_def message_exists_def message_find_plain plain_key_def)

section \<open>What the service does to its board\<close>

lemma board_sel [simp]:
  "bd_queues (board_of s) n = map_option (\<lambda>q. (q_items q, q_size q)) (map_of (jq_queues s) n)"
  "bd_in_progress (board_of s) = map_of (jq_in_progress s)" "bd_completed (board_of s) = map_of (jq_completed s)"
  by (simp_all add: board_of_def)

lemma calm_open: "calm s \<Longrightarrow> map_of (jq_queues s) n = Some q \<Longrightarrow> open_queue n s \<and> pending n s = q_items q"
  by (simp add: calm_def open_queue_def queue_is_closed_def pending_def)

lemma calm_parked: "calm s \<Longrightarrow> parked n s = []"
  by (simp add: calm_def parked_def split: option.split)

lemma calm_inv: "calm s \<Longrightarrow> jq_inv s" by (simp add: calm_def)

lemma job_reply_status: "jlib_ok L \<Longrightarrow> is_status_ok L \<lparr>rs_om = om, rs_doc = job_reply_doc_as v j st, rs_exception_msg = x\<rparr> \<longleftrightarrow> st = Ok"
  by (rule status_ok_doc) (simp_all add: job_reply_doc_as_find)

definition board_answers :: "jlib \<Rightarrow> (nat \<Rightarrow> string) \<Rightarrow> int \<Rightarrow> nat \<Rightarrow> job_queue_handler \<Rightarrow> json \<Rightarrow> job_queue
    \<Rightarrow> board \<Rightarrow> json \<Rightarrow> bool" where
  "board_answers L rg now n h doc s b d \<longleftrightarrow>
     (\<exists>s'. job_queue_run L rg now (Own h) \<lparr>im_id = n, im_doc = doc\<rparr> s = Done s' [Reply n (jl_write L d)]
       \<and> calm s' \<and> board_of s' = b)"

lemma calm_put_queue:
  "calm s \<Longrightarrow> map_of (jq_workers s) n \<noteq> None \<Longrightarrow> queue_ok q \<Longrightarrow> \<not> q_closed q \<Longrightarrow> calm (put_queue n q s)"
  by (simp add: calm_def jq_inv_put_queue) (auto simp: put_queue_def update_conv')

lemma calm_jobs:
  assumes "calm s" "jq_queues s' = jq_queues s" "jq_workers s' = jq_workers s" "jq_waiting s' = jq_waiting s"
    "\<And>i j. map_of (jq_in_progress s') i = Some j \<Longrightarrow> j_id j = i"
    "\<And>i j. map_of (jq_completed s') i = Some j \<Longrightarrow> j_completed j \<and> i \<noteq> []"
  shows "calm s'"
  using assms unfolding calm_def jq_inv_def by (simp (no_asm_simp))

lemma submit_answers:
  assumes "jlib_ok L" "carried L G" "\<And>st x. reads_back L (status_doc st x)"
    and "calm s" "G j" "j_module j \<noteq> []" "j_action j \<noteq> []" "jl_double L v = Some (j_progress j)"
  shows "\<exists>d st. board_answers L rg now n Job_submit (job_doc_as v j) s (snd (submit_board j (board_of s))) d \<and> reads_back L d
    \<and> message_find ''@status_code'' d = Some (JInt (code_of st)) \<and> (st = Ok \<longleftrightarrow> fst (submit_board j (board_of s)))"
proof -
  let ?msg = "\<lparr>im_id = n, im_doc = job_doc_as v j\<rparr>" and ?m = "j_module j"
  note doc = job_doc_meta [OF assms(1,8)]
  note run = board_answers_def job_queue_run_def run_handler_def
  show ?thesis
  proof (cases "map_of (jq_queues s) ?m")
    case None
    then have "job_submit L rg now ?msg s = Done s [Reply n (jl_write L (status_doc Fail (''No queue for module: '' @ ?m)))]"
      by (simp add: job_submit_def doc im_fail_eq)
    with None assms(3,4) show ?thesis
      by (intro exI [of _ "status_doc Fail (''No queue for module: '' @ ?m)"] exI [of _ Fail])
        (simp add: run submit_board_def status_doc_find)
  next
    case (Some q)
    have good: "good_submission L ?m ?msg"
      using doc assms(6,7) by (simp add: good_submission_def)
    have sub: "submitted_job L rg now ?msg s = j"
      by (simp add: submitted_job_def carried_job [OF assms(1,2,5,8)])
    obtain w where w: "map_of (jq_workers s) ?m = Some w" "\<not> q_closed w" "queue_ok w" "queue_ok q"
      using jq_inv_queueE [OF calm_inv [OF assms(4)] Some] by metis
    then have "hand_over L j (queue_count w) w = (Kept, w)"
      using assms(4) by (simp add: calm_def hand_over_open)
    with Some w doc assms(4,6,7) have eq: "job_submit L rg now ?msg s =
        submit_to_queue L ?msg ?m q j (put_workers ?m w (s\<lparr>jq_drawn := Suc (jq_drawn s)\<rparr>))"
      by (simp add: job_submit_def Let_def carried_job [OF assms(1,2,5,8)] queue_is_closed_def calm_def)
    let ?s = "put_workers ?m w (s\<lparr>jq_drawn := Suc (jq_drawn s)\<rparr>)"
    have calm: "calm (put_queue ?m q' ?s)" if "queue_ok q'" "\<not> q_closed q'" for q'
    proof (rule calm_put_queue [OF _ _ that])
      show "calm ?s" using assms(4) w by (auto simp: calm_def jq_inv_put_workers put_workers_def update_conv' jq_inv_def)
      show "map_of (jq_workers ?s) ?m \<noteq> None" by (simp add: put_workers_def update_conv')
    qed
    have q: "\<not> q_closed q" using assms(4) Some by (simp add: calm_def)
    show ?thesis
    proof (cases "length (q_items q) < q_size q")
      case True
      let ?q = "q\<lparr>q_items := q_items q @ [j]\<rparr>"
      have push: "queue_push j q = (?q, True)" using True q by (simp add: queue_push_def)
      have reply: "rbind (message_clear (job_doc_as v j)) (\<lambda>d. rbind (set_meta ''job_id'' (JString (j_id j)) d)
          (\<lambda>d'. im_reply_msg L n d' Ok)) = Inr (Reply n (jl_write L (receipt_doc (j_id j))))"
        by (simp add: job_doc_as_def message_clear_def set_meta_def meta_key_def im_reply_msg_object receipt_doc_def
            message_set_plain plain_key_def obj_sorted_def less_char_def)
      have "job_submit L rg now ?msg s = Done (put_queue ?m ?q ?s) [Reply n (jl_write L (receipt_doc (j_id j)))]"
        by (simp add: eq submit_to_queue_def push reply)
      moreover have "board_of (put_queue ?m ?q ?s) = snd (submit_board j (board_of s))"
        using Some True by (simp add: submit_board_def)
          (simp add: board_of_def put_queue_def put_workers_def fun_eq_iff update_conv')
      moreover have "calm (put_queue ?m ?q ?s)"
        by (rule calm) (use w True q in \<open>simp_all add: queue_ok_def\<close>)
      ultimately show ?thesis
        using carriedD(5) [OF assms(2,5)] Some True
        by (intro exI [of _ "receipt_doc (j_id j)"] exI [of _ Ok])
          (simp add: run submit_board_def receipt_doc_def message_find_plain plain_key_def)
    next
      case False
      have push: "queue_push j q = (q, False)" using False q by (simp add: queue_push_def)
      have "job_submit L rg now ?msg s = Done (put_queue ?m q ?s) [Reply n (jl_write L (status_doc Temp_limit_reached ''Queue full''))]"
        by (simp add: eq submit_to_queue_def push im_fail_code_eq doc)
      moreover have "board_of (put_queue ?m q ?s) = snd (submit_board j (board_of s))"
        using Some False by (simp add: submit_board_def)
          (auto simp: board_of_def put_queue_def put_workers_def fun_eq_iff update_conv')
      ultimately show ?thesis
        using calm [OF w(4) q] Some False assms(3)
        by (intro exI [of _ "status_doc Temp_limit_reached ''Queue full''"] exI [of _ Temp_limit_reached])
          (simp add: run submit_board_def status_doc_find)
    qed
  qed
qed

lemma work_answers:
  assumes "jlib_ok L" "carried L G" "calm s" "all_good G (board_of s)" "bd_queues (board_of s) m = Some (j # js, k)"
  shows "reads_as L j v \<Longrightarrow> board_answers L rg now n Work_get (keyed_doc cfg [(''module'', JString m)]) s
      (snd (take_board m (board_of s))) (job_reply_doc_as v j Ok)" and "G j"
proof -
  let ?msg = "\<lparr>im_id = n, im_doc = keyed_doc cfg [(''module'', JString m)]\<rparr>"
  show G: "G j" using assms(4,5) unfolding all_good_def by (metis list.pred_inject(2))
  from assms(5) obtain q where q: "map_of (jq_queues s) m = Some q" "q_items q = j # js" "q_size q = k" by auto
  obtain w where w: "map_of (jq_workers s) m = Some w" "queue_ok q"
    using jq_inv_queueE [OF calm_inv [OF assms(3)] q(1)] by metis
  have c: "\<not> q_closed q" using assms(3) q(1) by (simp add: calm_def)
  have name: "get_string L ''module'' [] (keyed_doc cfg [(''module'', JString m)]) = m"
    by (rule keyed_get_string [OF assms(1)]) (simp_all add: plain_key_def)
  let ?s1 = "put_queue m (q\<lparr>q_items := js\<rparr>) s"
  let ?s' = "?s1\<lparr>jq_in_progress := AList.update (j_id j) j (jq_in_progress ?s1)\<rparr>"
  assume v: "reads_as L j v"
  have run: "job_get_work L ?msg s = Done ?s' [Reply n (jl_write L (job_reply_doc_as v j Ok))]"
    using q c v
    by (simp add: job_get_work_def job_work_got_def name queue_pop_def Let_def task_reply_job im_reply_job_as [OF assms(1)])
  have "calm ?s1" using assms(3) w q c by (intro calm_put_queue) (auto simp: queue_ok_def)
  then have "calm ?s'" by (rule calm_jobs) (use \<open>calm ?s1\<close> in \<open>auto simp: calm_def jq_inv_def update_conv' split: if_splits\<close>)
  moreover have "board_of ?s' = snd (take_board m (board_of s))"
    using assms(5) q by (simp add: take_board_def) (simp add: board_of_def put_queue_def fun_eq_iff update_conv')
  ultimately show "board_answers L rg now n Work_get (keyed_doc cfg [(''module'', JString m)]) s
      (snd (take_board m (board_of s))) (job_reply_doc_as v j Ok)"
    using run by (simp add: board_answers_def job_queue_run_def run_handler_def)
qed

lemma no_work_answers:
  assumes "jlib_ok L" "calm s" "bd_queues (board_of s) m = None"
  shows "board_answers L rg now n Work_get (keyed_doc cfg [(''module'', JString m)]) s (board_of s)
      (status_doc Fail (''No queue for module: '' @ m))"
proof -
  have "get_string L ''module'' [] (keyed_doc cfg [(''module'', JString m)]) = m"
    by (rule keyed_get_string [OF assms(1)]) (simp_all add: plain_key_def)
  with assms(2,3) show ?thesis
    by (simp add: board_answers_def job_queue_run_def run_handler_def job_get_work_def im_fail_eq keyed_doc_facts)
qed

lemma progress_runs:
  assumes "jlib_ok L" "calm s" "jl_double L v = Some (j_progress j)"
  shows "\<exists>s'. job_queue_run L rg now (Own Progress_set) \<lparr>im_id = n, im_doc = job_doc_as v j\<rparr> s = Done s' []
    \<and> calm s' \<and> board_of s' = progress_board j (board_of s)"
proof (cases "map_of (jq_in_progress s) (j_id j)")
  case (Some j')
  note doc = job_doc_meta [OF assms(1,3)]
  let ?s = "s\<lparr>jq_in_progress := AList.update (j_id j) (job_set_progress (j_progress j) j') (jq_in_progress s)\<rparr>"
  have "calm ?s"
    by (rule calm_jobs [OF assms(2)]) (use assms(2) Some in \<open>auto simp: calm_def jq_inv_def update_conv' split: if_splits\<close>)
  moreover have "board_of ?s = (board_of s)\<lparr>bd_in_progress := (bd_in_progress (board_of s))
      (j_id j \<mapsto> job_set_progress (j_progress j) j')\<rparr>"
    by (simp add: board_of_def fun_eq_iff update_conv')
  ultimately show ?thesis
    using Some assms(2)
    by (auto simp: job_queue_run_def run_handler_def job_set_progress_request_def doc progress_board_def)
qed (use assms(2) in \<open>simp add: job_queue_run_def run_handler_def job_set_progress_request_def
      job_doc_meta [OF assms(1,3)] progress_board_def\<close>)

lemma result_answers:
  assumes "jlib_ok L" "carried L G" "calm s" "G j" "jl_double L v = Some (j_progress j)"
  shows "board_answers L rg now n Result_set (job_doc_as v j) s (result_board j (board_of s)) (status_doc Ok [])"
proof -
  note doc = job_doc_meta [OF assms(1,5)]
  let ?msg = "\<lparr>im_id = n, im_doc = job_doc_as v j\<rparr>"
  have "get_meta L ''job_id'' [] (im_doc ?msg) = j_id j" "j_id j \<noteq> []" "passable (im_doc ?msg)"
    using doc carriedD(1) [OF assms(2,4)] by simp_all
  from set_result_eq [OF this, of rg now s] obtain k where run: "job_set_result L rg now ?msg s =
      Done (s\<lparr>jq_in_progress := AList.delete (j_id j) (jq_in_progress s),
            jq_completed := AList.update (j_id j) (reported_job L rg now ?msg s) (jq_completed s),
            jq_completed_jobs := jq_completed_jobs s + 1, jq_drawn := k\<rparr>) [Reply n (jl_write L (status_doc Ok []))]"
    by auto
  have rep: "reported_job L rg now ?msg s = job_set_progress 100 j"
    by (simp add: reported_job_def carried_job [OF assms(1,2,4,5)])
  have inv: "jq_inv s" using assms(3) by (simp add: calm_def)
  have "calm (s\<lparr>jq_in_progress := AList.delete (j_id j) (jq_in_progress s),
            jq_completed := AList.update (j_id j) (job_set_progress 100 j) (jq_completed s),
            jq_completed_jobs := jq_completed_jobs s + 1, jq_drawn := k\<rparr>)"
    by (rule calm_jobs [OF assms(3)])
      (use inv carriedD(1) [OF assms(2,4)] in \<open>auto simp: jq_inv_def update_conv' map_of_delete job_set_progress_def split: if_splits\<close>)
  with run rep show ?thesis
    by (simp add: board_answers_def job_queue_run_def run_handler_def result_board_def)
      (simp add: board_of_def fun_eq_iff update_conv' map_of_delete)
qed

text \<open>Whether the job a client asks for is known under its key.\<close>

definition known_job :: "job \<Rightarrow> board \<Rightarrow> bool" where
  "known_job j b = (case bd_completed b (j_id j) of
     Some j' \<Rightarrow> j_api_key j' = j_api_key j
   | None \<Rightarrow> bd_in_progress b (j_id j) \<noteq> None)"

lemma collect_answers:
  assumes "jlib_ok L" "carried L G" "calm s" "all_good G (board_of s)" "known_job j (board_of s)"
    and "jl_double L v = Some (j_progress j)"
  shows "\<exists>j' v' st. fst (collect_board j (board_of s)) = Some j' \<and> G j' \<and> jl_double L v' = Some (j_progress j')
    \<and> (\<forall>st. reads_back L (job_reply_doc_as v' j' st))
    \<and> board_answers L rg now n Result_get (job_doc_as v j) s (snd (collect_board j (board_of s))) (job_reply_doc_as v' j' st)"
proof -
  note doc = job_doc_meta [OF assms(1,6)]
  let ?msg = "\<lparr>im_id = n, im_doc = job_doc_as v j\<rparr>"
  have r: "result_request L (j_id j) (j_api_key j) ?msg" by (simp add: result_request_def doc)
  have G: "G j'" if "map_of (jq_completed s) i = Some j' \<or> map_of (jq_in_progress s) i = Some j'" for i j'
    using assms(4) that unfolding all_good_def by auto
  have "\<forall>j'. \<exists>v. G j' \<longrightarrow> reads_as L j' v \<and> (\<forall>st. reads_back L (job_reply_doc_as v j' st))"
    using carriedE [OF assms(2)] by blast
  then obtain V where V: "G j' \<Longrightarrow> reads_as L j' (V j') \<and> (\<forall>st. reads_back L (job_reply_doc_as (V j') j' st))" for j'
    by metis
  have eq: "job_get_result L ?msg s =
    (case map_of (jq_completed s) (j_id j) of
       Some j' \<Rightarrow>
         if j_api_key j' = j_api_key j
         then Done (s\<lparr>jq_completed := AList.delete (j_id j) (jq_completed s)\<rparr>) [Reply n (jl_write L (job_reply_doc_as (V j') j' Ok))]
         else Done s [Reply n (jl_write L (status_doc Access_denied []))]
     | None \<Rightarrow>
         (case map_of (jq_in_progress s) (j_id j) of
            Some j' \<Rightarrow> Done s [Reply n (jl_write L (job_reply_doc_as (V j') j' Not_ready))]
          | None \<Rightarrow> Done s [Reply n (jl_write L (status_doc Fail ''Job not found or not yet started''))]))"
    by (rule get_result_as [OF r assms(1), unfolded imsg.select_convs]) (use G V in blast)
  have calm: "calm (s\<lparr>jq_completed := AList.delete (j_id j) (jq_completed s)\<rparr>)"
    by (rule calm_jobs [OF assms(3)]) (use assms(3) in \<open>auto simp: calm_def jq_inv_def map_of_delete split: if_splits\<close>)
  have b: "board_of (s\<lparr>jq_completed := AList.delete (j_id j) (jq_completed s)\<rparr>)
      = (board_of s)\<lparr>bd_completed := (bd_completed (board_of s))(j_id j := None)\<rparr>"
    by (simp add: board_of_def fun_eq_iff map_of_delete)
  show ?thesis
  proof (cases "map_of (jq_completed s) (j_id j)")
    case (Some j')
    then show ?thesis
      using eq assms(5) G [of "j_id j" j'] V [of j'] calm b
      by (intro exI [of _ j'] exI [of _ "V j'"] exI [of _ Ok])
        (simp add: reads_asD(2) collect_board_def known_job_def board_answers_def job_queue_run_def run_handler_def)
  next
    case None
    then obtain j' where "map_of (jq_in_progress s) (j_id j) = Some j'" using assms(5) by (auto simp: known_job_def)
    with None show ?thesis
      using eq G [of "j_id j" j'] V [of j'] assms(3)
      by (intro exI [of _ j'] exI [of _ "V j'"] exI [of _ Not_ready])
        (simp add: reads_asD(2) collect_board_def board_answers_def job_queue_run_def run_handler_def)
  qed
qed

section \<open>Job queues on the network\<close>

text \<open>A resolver at \<open>r\<close> that stands for the directory \<open>d\<close>, and a job queue at every address with a board.\<close>

type_synonym boards = "string \<Rightarrow> board option"

definition workplace :: "(job \<Rightarrow> bool) \<Rightarrow> string \<Rightarrow> directory \<Rightarrow> boards \<Rightarrow> (string \<Rightarrow> node option) \<Rightarrow> bool" where
  "workplace G r d B N \<longleftrightarrow> (\<exists>ms. S_resolver \<in> set ms \<and> resolves ms r d N)
     \<and> (\<forall>a b. B a = Some b \<longrightarrow> all_good G b
          \<and> (\<exists>ms q. S_job_queue \<in> set ms \<and> has_jobs ms a q N \<and> calm q \<and> board_of q = b))"

lemma workplace_board:
  assumes "workplace G r d B N" "B a = Some b"
  obtains ms w where "S_job_queue \<in> set ms" "runs ms a w N" "calm (sv_job_queue w)"
    "board_of (sv_job_queue w) = b" "all_good G b"
  using assms unfolding workplace_def has_jobs_def by blast

lemma workplace_step:
  assumes W: "workplace G r d B N" and w: "runs ms a w N" "S_job_queue \<in> set ms"
    and N': "\<And>ms'. runs ms' a w N \<Longrightarrow> runs ms' a (w\<lparr>sv_job_queue := q\<rparr>) N'" "\<And>b. b \<noteq> a \<Longrightarrow> N' b = N b"
    and q: "calm q" "all_good G (board_of q)"
  shows "workplace G r d (B(a \<mapsto> board_of q)) N'"
proof -
  have same: "v = w" if "runs ms' a v N" for ms' v using that w(1) by (auto simp: runs_def)
  have resolver: "resolves ms' r d N'" if "resolves ms' r d N" for ms'
  proof (cases "r = a")
    case True
    with that same have "runs ms' a w N" "resolver_inv (sv_resolver w)" "directory_of (sv_resolver w) = d"
      unfolding resolves_def by blast+
    with N'(1) True show ?thesis by (auto simp: resolves_def intro!: exI [of _ "w\<lparr>sv_job_queue := q\<rparr>"])
  next
    case False
    with that N'(2) show ?thesis by (simp add: resolves_def runs_def)
  qed
  have here: "has_jobs ms a q N'" using N'(1) [OF w(1)] by (auto simp: has_jobs_def)
  have there: "has_jobs ms' b p N'" if "b \<noteq> a" "has_jobs ms' b p N" for ms' b p
    using that N'(2) by (simp add: has_jobs_def runs_def)
  show ?thesis
    unfolding workplace_def
  proof (intro conjI allI impI)
    show "\<exists>ms. S_resolver \<in> set ms \<and> resolves ms r d N'" using W resolver unfolding workplace_def by blast
    fix b bb assume bb: "(B(a \<mapsto> board_of q)) b = Some bb"
    show "all_good G bb" using bb W q(2) unfolding workplace_def by (auto split: if_splits)
    show "\<exists>ms q. S_job_queue \<in> set ms \<and> has_jobs ms b q N' \<and> calm q \<and> board_of q = bb"
    proof (cases "b = a")
      case True
      with bb here w(2) q(1) show ?thesis by auto
    next
      case False
      with bb have "B b = Some bb" by simp
      with W obtain ms' p where "S_job_queue \<in> set ms'" "has_jobs ms' b p N" "calm p" "board_of p = bb"
        unfolding workplace_def by blast
      with there [OF False] show ?thesis by blast
    qed
  qed
qed

lemma transmit_job:
  assumes "jlib_ok L" "workplace G r d B N" "runs ms a w N" "S_job_queue \<in> set ms"
    and "offers S_job_queue name (H_job_queue (Own h)) API_PRIVATE" "carries doc API_PRIVATE" "jl_read L (jl_write L doc') = Some doc"
    and "job_queue_run L rg (clock n) (Own h) \<lparr>im_id = n, im_doc = doc\<rparr> (sv_job_queue w) = Done s' ns"
    and "calm s'" "board_of s' = b'" "all_good G b'"
  shows "\<exists>N'. transmit L rg clock a ''JobQueue'' name (jl_write L doc') (N, n) = (Some (answer_of n ns), (N', Suc n))
    \<and> workplace G r d (B(a \<mapsto> b')) N'"
proof -
  have run: "sys_run L rg (clock n) (H_job_queue (Own h)) \<lparr>im_id = n, im_doc = doc\<rparr> w = Done (w\<lparr>sv_job_queue := s'\<rparr>) ns"
    by (simp add: assms(8))
  show ?thesis
  proof (rule transmit_read [where rg = rg and clock = clock and n = n, OF assms(1,3-7) run])
    fix N' assume N': "\<And>ms'. runs ms' a w N \<Longrightarrow> runs ms' a (w\<lparr>sv_job_queue := s'\<rparr>) N'" "\<And>b. b \<noteq> a \<Longrightarrow> N' b = N b"
      and t: "transmit L rg clock a (service_ident S_job_queue) name (jl_write L doc') (N, n)
        = (Some (answer_of n ns), (N', Suc n))"
    from workplace_step [OF assms(2-4) N' assms(9)] assms(10,11) t show ?thesis
      by (auto simp: module_idents simp del: service_ident.simps)
  qed
qed

lemma transmit_board:
  assumes "jlib_ok L" "workplace G r d B N" "runs ms a w N" "S_job_queue \<in> set ms"
    and "offers S_job_queue name (H_job_queue (Own h)) API_PRIVATE" "carries doc API_PRIVATE" "jl_read L (jl_write L doc') = Some doc"
    and "board_answers L rg (clock n) n h doc (sv_job_queue w) b' reply" "all_good G b'"
  shows "\<exists>N'. transmit L rg clock a ''JobQueue'' name (jl_write L doc') (N, n)
      = (Some (replied_with (jl_write L reply)), (N', Suc n)) \<and> workplace G r d (B(a \<mapsto> b')) N'"
  using assms(8) transmit_job [OF assms(1-7) _ _ _ assms(9)]
  unfolding board_answers_def by (metis answer_of_reply)

lemma client_call_network:
  assumes "jlib_ok L" "reads_back L d"
    "transmit L rg clock a service name text (N, n) = (Some (replied_with (jl_write L d)), v)"
  shows "client_call L (network_agent L rg clock) c a service name text t (N, n)
    = (Inr (Some \<lparr>rs_om = replied_with (jl_write L d), rs_doc = d, rs_exception_msg = []\<rparr>), v)"
  using assms by (simp add: client_call_def network_agent_def response_of_reply)

text \<open>The resolver behind the reports about a job.\<close>

lemma workplace_resolve:
  assumes "jlib_ok L" "\<And>d. resolver_protocol d \<Longrightarrow> reads_back L d" "workplace G r d B N"
    "cc_srv_resolver_address cfg = r" "may_call cfg" "node_name m"
  shows "\<exists>N'. rc_resolve_node L (network_agent L rg clock) (resolver_client_new cfg tm) m (N, n)
      = (Inr (dir_address d m), (N', Suc n)) \<and> workplace G r (d\<lparr>dir_known := insert m (dir_known d)\<rparr>) B N'"
proof -
  obtain ms where ms: "S_resolver \<in> set ms" "resolves ms r d N" using assms(3) by (auto simp: workplace_def)
  from rc_call_served [where x = "Resolve_node m" and rg = rg and clock = clock and tm = tm and n = n,
      OF assms(1,2) ms(2,1) assms(4,5)] assms(6) obtain N' where
    N': "rc_call L (network_agent L rg clock) (resolver_client_new cfg tm) (Resolve_node m) (N, n)
      = (Inr (Address (dir_address d m)), (N', Suc n))"
      "resolves ms r (d\<lparr>dir_known := insert m (dir_known d)\<rparr>) N'" "\<And>ms' b q. has_jobs ms' b q N \<Longrightarrow> has_jobs ms' b q N'"
    by auto
  from N'(1) have "rc_resolve_node L (network_agent L rg clock) (resolver_client_new cfg tm) m (N, n)
      = (Inr (dir_address d m), (N', Suc n))"
    by (auto simp: act_bind_def act_ret_def split: prod.splits sum.splits)
  moreover have "workplace G r (d\<lparr>dir_known := insert m (dir_known d)\<rparr>) B N'"
    using assms(3) ms(1) N'(2,3) unfolding workplace_def by blast
  ultimately show ?thesis by blast
qed

section \<open>The calls of the client\<close>

datatype job_call = Submit job | Get_work string | Set_progress job | Set_result job | Get_result job

datatype job_reply = Submitted bool | Given "job option" | Reported bool

text \<open>\<open>rg\<close>, \<open>now\<close> and \<open>k\<close> are those of the client's own process, for the jobs it makes of replies.\<close>

fun jc_call :: "jlib \<Rightarrow> (nat \<Rightarrow> string) \<Rightarrow> int \<Rightarrow> nat \<Rightarrow> 'w agent \<Rightarrow> job_queue_client \<Rightarrow> job_call \<Rightarrow> (job_reply, 'w) action" where
  "jc_call L rg now k A c (Submit j) = act_bind (jc_submit L A c j)
     (\<lambda>(p, j'). act_ret (Submitted (case p of Some r \<Rightarrow> is_status_ok L r | None \<Rightarrow> False)))"
| "jc_call L rg now k A c (Get_work m) = act_bind (jc_get_work L rg now k A c m) (\<lambda>(j, k'). act_ret (Given j))"
| "jc_call L rg now k A c (Set_progress j) = act_bind (jc_set_progress L A c j) (\<lambda>b. act_ret (Reported b))"
| "jc_call L rg now k A c (Set_result j) = act_bind (jc_set_result L A c j) (\<lambda>b. act_ret (Reported b))"
| "jc_call L rg now k A c (Get_result j) = act_bind (jc_get_result L rg now k A c j) (\<lambda>(j', k'). act_ret (Given j'))"

text \<open>What a client submits, and the board it talks to: the one at its queue's address, or at a job's origin.\<close>

definition sent_job :: "client_config \<Rightarrow> job \<Rightarrow> job" where
  "sent_job cfg j = job_set_origin_node (cc_local_nodename cfg) (job_set_api_key (cc_api_key_private cfg) j)"

fun board_address :: "client_config \<Rightarrow> directory \<Rightarrow> job_call \<Rightarrow> string" where
  "board_address cfg d (Submit j) = cc_srv_job_queue_address cfg"
| "board_address cfg d (Get_work m) = cc_srv_job_queue_address cfg"
| "board_address cfg d (Set_progress j) = dir_address d (j_origin_node j)"
| "board_address cfg d (Set_result j) = dir_address d (j_origin_node j)"
| "board_address cfg d (Get_result j) = dir_address d (j_origin_node j)"

fun board_call :: "client_config \<Rightarrow> job_call \<Rightarrow> board \<Rightarrow> job_reply \<times> board" where
  "board_call cfg (Submit j) b = (let (ok, b') = submit_board (sent_job cfg j) b in (Submitted ok, b'))"
| "board_call cfg (Get_work m) b = (let (j, b') = take_board m b in (Given j, b'))"
| "board_call cfg (Set_progress j) b = (Reported True, progress_board j b)"
| "board_call cfg (Set_result j) b = (Reported True, result_board j b)"
| "board_call cfg (Get_result j) b = (let (j', b') = collect_board j b in (Given j', b'))"

fun unknown_origin :: "job_call \<Rightarrow> job_reply" where
  "unknown_origin (Get_result j) = Given None"
| "unknown_origin _ = Reported False"

fun asked_origin :: "job_call \<Rightarrow> string set" where
  "asked_origin (Set_progress j) = {j_origin_node j}"
| "asked_origin (Set_result j) = {j_origin_node j}"
| "asked_origin (Get_result j) = {j_origin_node j}"
| "asked_origin _ = {}"

definition workplace_call :: "client_config \<Rightarrow> job_call \<Rightarrow> directory \<times> boards \<Rightarrow> job_reply \<times> directory \<times> boards" where
  "workplace_call cfg x = (\<lambda>(d, B).
     let a = board_address cfg d x; d' = d\<lparr>dir_known := asked_origin x \<union> dir_known d\<rparr>
     in if asked_origin x \<noteq> {} \<and> a = [] then (unknown_origin x, d', B)
        else let (y, b) = board_call cfg x (the (B a)) in (y, d', B(a \<mapsto> b)))"

text \<open>
  The calls that return: to an address with a board, about a job the library carries. An open queue
  without a job makes the caller wait, and asking for a job nobody knows gives a made-up one: these two are
  left out.
\<close>

fun board_call_ok :: "(job \<Rightarrow> bool) \<Rightarrow> client_config \<Rightarrow> job_call \<Rightarrow> board \<Rightarrow> bool" where
  "board_call_ok G cfg (Submit j) b \<longleftrightarrow> G (sent_job cfg j) \<and> j_module j \<noteq> [] \<and> j_action j \<noteq> []"
| "board_call_ok G cfg (Get_work m) b \<longleftrightarrow> (\<forall>n. bd_queues b m \<noteq> Some ([], n))"
| "board_call_ok G cfg (Set_progress j) b \<longleftrightarrow> G j"
| "board_call_ok G cfg (Set_result j) b \<longleftrightarrow> G j"
| "board_call_ok G cfg (Get_result j) b \<longleftrightarrow> G j \<and> known_job j b"

definition workplace_call_ok :: "(job \<Rightarrow> bool) \<Rightarrow> string \<Rightarrow> client_config \<Rightarrow> job_call \<Rightarrow> directory \<times> boards \<Rightarrow> bool" where
  "workplace_call_ok G r cfg x = (\<lambda>(d, B).
     cc_srv_resolver_address cfg = r \<and> may_call cfg \<and> (\<forall>m \<in> asked_origin x. node_name m)
     \<and> (let a = board_address cfg d x in asked_origin x \<noteq> {} \<and> a = [] \<and> (\<exists>b. board_call_ok G cfg x b)
        \<or> (\<exists>b. B a = Some b \<and> board_call_ok G cfg x b)))"

lemma job_client_fields [simp]:
  "cl_config (job_queue_client_new cfg tm) = cfg" "sc_address (job_queue_client_new cfg tm) = cc_srv_job_queue_address cfg"
  "sc_service (job_queue_client_new cfg tm) = ''JobQueue''"
  "jc_resolver (job_queue_client_new cfg tm) = resolver_client_new cfg 2000"
  by (simp_all add: job_queue_client_new_def)

lemma submit_served:
  assumes "jlib_ok L" "carried L G" "\<And>st x. reads_back L (status_doc st x)"
    and "workplace G r d B N" "B (cc_srv_job_queue_address cfg) = Some b" "board_call_ok G cfg (Submit j) b"
  shows "\<exists>N'. jc_call L rg' now k (network_agent L rg clock) (job_queue_client_new cfg tm) (Submit j) (N, n)
      = (Inr (Submitted (fst (submit_board (sent_job cfg j) b))), (N', Suc n))
    \<and> workplace G r d (B(cc_srv_job_queue_address cfg \<mapsto> snd (submit_board (sent_job cfg j) b))) N'"
proof -
  let ?j = "sent_job cfg j" and ?a = "cc_srv_job_queue_address cfg"
  have j: "G ?j" "j_module ?j \<noteq> []" "j_action ?j \<noteq> []"
    using assms(6) by (simp_all add: sent_job_def job_set_origin_node_def job_set_api_key_def)
  obtain ms w where w: "S_job_queue \<in> set ms" "runs ms ?a w N" "calm (sv_job_queue w)" "board_of (sv_job_queue w) = b"
    "all_good G b" by (rule workplace_board [OF assms(4,5)])
  obtain v where v: "reads_as L ?j v" by (rule carriedE [OF assms(2) j(1)])
  obtain reply st where reply: "board_answers L rg (clock n) n Job_submit (job_doc_as v ?j) (sv_job_queue w)
      (snd (submit_board ?j b)) reply" "reads_back L reply"
      "message_find ''@status_code'' reply = Some (JInt (code_of st))" "st = Ok \<longleftrightarrow> fst (submit_board ?j b)"
    using submit_answers [OF assms(1-3) w(3) j reads_asD(2) [OF v], of rg "clock n" n] w(4) by auto
  from transmit_board [where rg = rg and clock = clock and n = n, OF assms(1,4) w(2,1) job_queue_offers(1) carriedD(4) [OF assms(2) j(1)] reads_asD(1) [OF v] reply(1)
      all_good_submit [OF w(5) j(1)]] obtain N' where
    t: "transmit L rg clock ?a ''JobQueue'' ''job/submit'' (jl_write L (job_doc ?j)) (N, n)
      = (Some (replied_with (jl_write L reply)), (N', Suc n))"
    and N': "workplace G r d (B(?a \<mapsto> snd (submit_board ?j b))) N'" by blast
  have "jc_submit L (network_agent L rg clock) (job_queue_client_new cfg tm) j (N, n)
      = (Inr (Some \<lparr>rs_om = replied_with (jl_write L reply), rs_doc = reply, rs_exception_msg = []\<rparr>, ?j), (N', Suc n))"
    by (simp add: jc_submit_def Let_def job_to_string_doc call_service_def client_call_network [OF assms(1) reply(2) t]
        sent_job_def [symmetric])
  with N' reply(4) status_ok_doc [OF assms(1) reply(3)] show ?thesis by (auto simp: act_bind_def)
qed

lemma get_work_served:
  assumes "jlib_ok L" "carried L G" "\<And>d. resolver_protocol d \<Longrightarrow> reads_back L d"
    and "workplace G r d B N" "B (cc_srv_job_queue_address cfg) = Some b" "board_call_ok G cfg (Get_work m) b" "may_call cfg"
  shows "\<exists>N'. jc_call L rg' now k (network_agent L rg clock) (job_queue_client_new cfg tm) (Get_work m) (N, n)
      = (Inr (Given (fst (take_board m b))), (N', Suc n))
    \<and> workplace G r d (B(cc_srv_job_queue_address cfg \<mapsto> snd (take_board m b))) N'"
proof -
  let ?a = "cc_srv_job_queue_address cfg" and ?doc = "keyed_doc cfg [(''module'', JString m)]"
  obtain ms w where w: "S_job_queue \<in> set ms" "runs ms ?a w N" "calm (sv_job_queue w)" "board_of (sv_job_queue w) = b"
    "all_good G b" by (rule workplace_board [OF assms(4,5)])
  have doc: "carries ?doc API_PRIVATE" "reads_back L ?doc"
    using may_call_carries [OF assms(7) keyed_doc_facts(1)] assms(3) protocol_docs by blast+
  have keyed: "keyed_message (job_queue_client_new cfg tm) [(''module'', JString m)] = Inr ?doc"
    by (simp add: keyed_message_docs keyed_doc_def)
  obtain reply where reply: "board_answers L rg (clock n) n Work_get ?doc (sv_job_queue w) (snd (take_board m b)) reply"
    "reads_back L reply"
    and use: "(if is_status_ok L \<lparr>rs_om = replied_with (jl_write L reply), rs_doc = reply, rs_exception_msg = []\<rparr>
      then (let (j, n') = job_of_message L rg' now reply k in (Some j, n')) else (None, k))
      = (fst (take_board m b), (if fst (take_board m b) = None then k else Suc k))"
  proof (cases "bd_queues b m")
    case None
    with w no_work_answers [OF assms(1) w(3), of m rg "clock n" n cfg] show thesis
      by (intro that [of "status_doc Fail (''No queue for module: '' @ m)"])
        (simp_all add: take_board_def assms(3) protocol_docs status_reply [OF assms(1)])
  next
    case (Some jn)
    then obtain j js c where q: "bd_queues b m = Some (j # js, c)"
      using assms(6) by (cases jn, cases "fst jn") auto
    with w(4,5) have "all_good G (board_of (sv_job_queue w))" "bd_queues (board_of (sv_job_queue w)) m = Some (j # js, c)" by simp_all
    note here = this
    obtain v where v: "reads_as L j v" "\<And>st. reads_back L (job_reply_doc_as v j st)"
      by (rule carriedE [OF assms(2) work_answers(2) [OF assms(1,2) w(3) here]]) blast
    from work_answers(1) [OF assms(1,2) w(3) here v(1), of rg "clock n" n cfg] work_answers(2) [OF assms(1,2) w(3) here]
      v(2) w(4) q show thesis
      by (intro that [of "job_reply_doc_as v j Ok"])
        (simp_all add: take_board_def job_reply_status [OF assms(1)] carried_job [OF assms(1,2) _ reads_asD(2) [OF v(1)]])
  qed
  from transmit_board [where rg = rg and clock = clock and n = n, OF assms(1,4) w(2,1) job_queue_offers(2) doc(1) doc(2) [unfolded reads_back_def] reply(1) all_good_take [OF w(5)]] obtain N' where
    t: "transmit L rg clock ?a ''JobQueue'' ''job/work/get'' (jl_write L ?doc) (N, n)
      = (Some (replied_with (jl_write L reply)), (N', Suc n))"
    and N': "workplace G r d (B(?a \<mapsto> snd (take_board m b))) N'" by blast
  have "jc_get_work L rg' now k (network_agent L rg clock) (job_queue_client_new cfg tm) m (N, n)
      = (Inr (fst (take_board m b), (if fst (take_board m b) = None then k else Suc k)), (N', Suc n))"
    unfolding jc_get_work_def
    by (subst call_with_replied [OF keyed _ assms(1) reply(2), where w' = "(N', Suc n)"])
      (use t use in \<open>auto simp: network_agent_def case_prod_unfold Let_def split: if_splits\<close>)
  with N' show ?thesis by (auto simp: act_bind_def)
qed

lemma progress_served:
  assumes "jlib_ok L" "carried L G" "workplace G r d B N" "B a = Some b" "G j"
  shows "\<exists>N'. client_send_one_way (network_agent L rg clock) a ''JobQueue'' ''job/progress/set'' (jl_write L (job_doc j)) (N, n)
      = (Inr True, (N', Suc n)) \<and> workplace G r d (B(a \<mapsto> progress_board j b)) N'"
proof -
  obtain ms w where w: "S_job_queue \<in> set ms" "runs ms a w N" "calm (sv_job_queue w)" "board_of (sv_job_queue w) = b"
    "all_good G b" by (rule workplace_board [OF assms(3,4)])
  obtain v where v: "reads_as L j v" by (rule carriedE [OF assms(2,5)])
  obtain s' where "job_queue_run L rg (clock n) (Own Progress_set) \<lparr>im_id = n, im_doc = job_doc_as v j\<rparr> (sv_job_queue w) = Done s' []"
    "calm s'" "board_of s' = progress_board j b"
    using progress_runs [OF assms(1) w(3) reads_asD(2) [OF v], of rg "clock n" n] w(4) by auto
  from transmit_job [where rg = rg and clock = clock and n = n, OF assms(1,3) w(2,1) job_queue_offers(3) carriedD(4) [OF assms(2,5)] reads_asD(1) [OF v] this
      all_good_progress [OF assms(2) w(5) assms(5)]]
  show ?thesis by (auto simp: client_send_one_way_def network_agent_def)
qed

lemma result_served:
  assumes "jlib_ok L" "carried L G" "\<And>st x. reads_back L (status_doc st x)"
    and "workplace G r d B N" "B a = Some b" "G j"
  shows "\<exists>p N'. client_call L (network_agent L rg clock) c a ''JobQueue'' ''job/result/set'' (jl_write L (job_doc j)) t (N, n)
      = (Inr p, (N', Suc n)) \<and> workplace G r d (B(a \<mapsto> result_board j b)) N'"
proof -
  obtain ms w where w: "S_job_queue \<in> set ms" "runs ms a w N" "calm (sv_job_queue w)" "board_of (sv_job_queue w) = b"
    "all_good G b" by (rule workplace_board [OF assms(4,5)])
  obtain v where v: "reads_as L j v" by (rule carriedE [OF assms(2,6)])
  have reply: "board_answers L rg (clock n) n Result_set (job_doc_as v j) (sv_job_queue w) (result_board j b) (status_doc Ok [])"
    using result_answers [OF assms(1,2) w(3) assms(6) reads_asD(2) [OF v]] w(4) by simp
  from transmit_board [where rg = rg and clock = clock and n = n, OF assms(1,4) w(2,1) job_queue_offers(4) carriedD(4) [OF assms(2,6)] reads_asD(1) [OF v] reply
      all_good_result [OF assms(2) w(5) assms(6)]] client_call_network [OF assms(1,3)]
  show ?thesis by blast
qed

lemma collect_served:
  assumes "jlib_ok L" "carried L G" "workplace G r d B N" "B a = Some b" "G j" "known_job j b"
  shows "\<exists>j' v' st N'. fst (collect_board j b) = Some j' \<and> G j' \<and> jl_double L v' = Some (j_progress j')
    \<and> client_call L (network_agent L rg clock) c a ''JobQueue'' ''job/result/get'' (jl_write L (job_doc j)) t (N, n)
      = (Inr (Some \<lparr>rs_om = replied_with (jl_write L (job_reply_doc_as v' j' st)), rs_doc = job_reply_doc_as v' j' st,
          rs_exception_msg = []\<rparr>), (N', Suc n))
    \<and> workplace G r d (B(a \<mapsto> snd (collect_board j b))) N'"
proof -
  obtain ms w where w: "S_job_queue \<in> set ms" "runs ms a w N" "calm (sv_job_queue w)" "board_of (sv_job_queue w) = b"
    "all_good G b" by (rule workplace_board [OF assms(3,4)])
  from w have good: "all_good G (board_of (sv_job_queue w))" "known_job j (board_of (sv_job_queue w))" using assms(6) by simp_all
  obtain v where v: "reads_as L j v" by (rule carriedE [OF assms(2,5)])
  obtain j' v' st where j': "fst (collect_board j b) = Some j'" "G j'" "jl_double L v' = Some (j_progress j')"
    "\<And>st. reads_back L (job_reply_doc_as v' j' st)"
    and reply: "board_answers L rg (clock n) n Result_get (job_doc_as v j) (sv_job_queue w) (snd (collect_board j b)) (job_reply_doc_as v' j' st)"
    using collect_answers [OF assms(1,2) w(3) good reads_asD(2) [OF v], of rg "clock n" n] w(4) by auto
  from transmit_board [where rg = rg and clock = clock and n = n, OF assms(1,3) w(2,1) job_queue_offers(5) carriedD(4) [OF assms(2,5)] reads_asD(1) [OF v] reply
      all_good_collect [OF w(5)]] client_call_network [OF assms(1) j'(4)] j'(1-3)
  show ?thesis by blast
qed

lemma at_origin_eq:
  assumes "rc_resolve_node L A (jc_resolver c) (j_origin_node j) w = (Inr address, v)"
  shows "at_origin L A c j none use w = (if address = [] then (Inr none, v) else use address (jl_write L (job_doc j)) v)"
  using assms by (simp add: at_origin_def act_bind_def act_ret_def job_to_string_doc act_lift_def)

lemma jc_call_served:
  assumes L: "jlib_ok L" "carried L G" "\<And>d. resolver_protocol d \<Longrightarrow> reads_back L d"
    and W: "workplace G r d B N" "workplace_call_ok G r cfg x (d, B)"
  shows "\<exists>y d' B' N' n'. workplace_call cfg x (d, B) = (y, d', B')
    \<and> jc_call L rg' now k (network_agent L rg clock) (job_queue_client_new cfg tm) x (N, n) = (Inr y, (N', n'))
    \<and> workplace G r d' B' N'"
proof -
  have cfg: "cc_srv_resolver_address cfg = r" "may_call cfg" "\<And>m. m \<in> asked_origin x \<Longrightarrow> node_name m"
    using W(2) by (auto simp: workplace_call_ok_def)
  have status: "reads_back L (status_doc st y)" for st y using L(3) protocol_docs by blast
  let ?A = "network_agent L rg clock" and ?c = "job_queue_client_new cfg tm"
  let ?d = "\<lambda>j. d\<lparr>dir_known := insert (j_origin_node j) (dir_known d)\<rparr>"
  note call = workplace_call_def case_prod_unfold Let_def act_bind_def
  have origin: "\<exists>N1. rc_resolve_node L ?A (jc_resolver ?c) (j_origin_node j) (N, n)
        = (Inr (dir_address d (j_origin_node j)), (N1, Suc n)) \<and> workplace G r (?d j) B N1"
    if "j_origin_node j \<in> asked_origin x" for j
    using workplace_resolve [OF L(1,3) W(1) cfg(1,2) cfg(3) [OF that]] by simp
  show ?thesis
  proof (cases x)
    case (Submit j)
    with W(2) obtain b where b: "B (cc_srv_job_queue_address cfg) = Some b" "board_call_ok G cfg (Submit j) b"
      by (auto simp: workplace_call_ok_def)
    from submit_served [where rg' = rg' and now = now and k = k and rg = rg and clock = clock and tm = tm and n = n,
        OF L(1,2) status W(1) b] b(1) Submit show ?thesis
      by (auto simp: workplace_call_def case_prod_unfold Let_def)
  next
    case (Get_work m)
    with W(2) obtain b where b: "B (cc_srv_job_queue_address cfg) = Some b" "board_call_ok G cfg (Get_work m) b"
      by (auto simp: workplace_call_ok_def)
    from get_work_served [where rg' = rg' and now = now and k = k and rg = rg and clock = clock and tm = tm and n = n,
        OF L W(1) b cfg(2)] b(1) Get_work show ?thesis
      by (auto simp: workplace_call_def case_prod_unfold Let_def)
  next
    case (Set_progress j)
    with origin [of j] obtain N1 where N1: "workplace G r (?d j) B N1"
      and o: "rc_resolve_node L ?A (jc_resolver ?c) (j_origin_node j) (N, n) = (Inr (dir_address d (j_origin_node j)), (N1, Suc n))"
      by auto
    show ?thesis
    proof (cases "dir_address d (j_origin_node j) = []")
      case True
      with N1 Set_progress show ?thesis by (auto simp: call jc_set_progress_def at_origin_eq [OF o])
    next
      case False
      with W(2) Set_progress obtain b where b: "B (dir_address d (j_origin_node j)) = Some b" "G j"
        by (auto simp: workplace_call_ok_def)
      from progress_served [where rg = rg and clock = clock and n = "Suc n", OF L(1,2) N1 b] b(1) False Set_progress
      show ?thesis by (auto simp: call jc_set_progress_def at_origin_eq [OF o])
    qed
  next
    case (Set_result j)
    with origin [of j] obtain N1 where N1: "workplace G r (?d j) B N1"
      and o: "rc_resolve_node L ?A (jc_resolver ?c) (j_origin_node j) (N, n) = (Inr (dir_address d (j_origin_node j)), (N1, Suc n))"
      by auto
    show ?thesis
    proof (cases "dir_address d (j_origin_node j) = []")
      case True
      with N1 Set_result show ?thesis by (auto simp: call jc_set_result_def at_origin_eq [OF o])
    next
      case False
      with W(2) Set_result obtain b where b: "B (dir_address d (j_origin_node j)) = Some b" "G j"
        by (auto simp: workplace_call_ok_def)
      from result_served [where rg = rg and clock = clock and n = "Suc n" and c = ?c and t = 0, OF L(1,2) status N1 b]
        b(1) False Set_result
      show ?thesis by (auto simp: call jc_set_result_def at_origin_eq [OF o])
    qed
  next
    case (Get_result j)
    with origin [of j] obtain N1 where N1: "workplace G r (?d j) B N1"
      and o: "rc_resolve_node L ?A (jc_resolver ?c) (j_origin_node j) (N, n) = (Inr (dir_address d (j_origin_node j)), (N1, Suc n))"
      by auto
    show ?thesis
    proof (cases "dir_address d (j_origin_node j) = []")
      case True
      with N1 Get_result show ?thesis by (auto simp: call jc_get_result_def at_origin_eq [OF o])
    next
      case False
      with W(2) Get_result obtain b where b: "B (dir_address d (j_origin_node j)) = Some b" "G j" "known_job j b"
        by (auto simp: workplace_call_ok_def)
      from collect_served [where rg = rg and clock = clock and n = "Suc n" and c = ?c and t = 0, OF L(1,2) N1 b]
        b(1) False Get_result
      show ?thesis
        by (auto simp: call jc_get_result_def at_origin_eq [OF o] is_replied_def replied_with_def carried_job [OF L(1,2)])
    qed
  qed
qed

section \<open>Sessions\<close>

text \<open>
  Calls of several clients one after the other, and the same of the directory and the boards. All jobs
  have identifiers, so it does not matter what a client's own generator would draw.
\<close>

fun job_session :: "jlib \<Rightarrow> (nat \<Rightarrow> string) \<Rightarrow> int \<Rightarrow> nat \<Rightarrow> 'w agent \<Rightarrow> (job_queue_client \<times> job_call) list
    \<Rightarrow> (job_reply list, 'w) action" where
  "job_session L rg now k A [] = act_ret []"
| "job_session L rg now k A ((c, x) # calls) =
     act_bind (jc_call L rg now k A c x) (\<lambda>y.
     act_bind (job_session L rg now k A calls) (\<lambda>ys. act_ret (y # ys)))"

fun workplace_session :: "(client_config \<times> job_call) list \<Rightarrow> directory \<times> boards
    \<Rightarrow> job_reply list \<times> directory \<times> boards" where
  "workplace_session [] v = ([], v)"
| "workplace_session ((cfg, x) # calls) v =
     (let (y, v1) = workplace_call cfg x v; (ys, v2) = workplace_session calls v1 in (y # ys, v2))"

fun workplace_session_ok :: "(job \<Rightarrow> bool) \<Rightarrow> string \<Rightarrow> (client_config \<times> job_call) list \<Rightarrow> directory \<times> boards \<Rightarrow> bool" where
  "workplace_session_ok G r [] v \<longleftrightarrow> True"
| "workplace_session_ok G r ((cfg, x) # calls) v \<longleftrightarrow>
     workplace_call_ok G r cfg x v \<and> workplace_session_ok G r calls (snd (workplace_call cfg x v))"

definition job_client_of :: "nat \<Rightarrow> client_config \<times> job_call \<Rightarrow> job_queue_client \<times> job_call" where
  "job_client_of tm = (\<lambda>(cfg, x). (job_queue_client_new cfg tm, x))"

lemma job_session_served:
  assumes "jlib_ok L" "carried L G" "\<And>d. resolver_protocol d \<Longrightarrow> reads_back L d"
    and "workplace G r d B N" "workplace_session_ok G r calls (d, B)"
  shows "\<exists>ys d' B' N' n'. workplace_session calls (d, B) = (ys, d', B')
    \<and> job_session L rg' now k (network_agent L rg clock) (map (job_client_of tm) calls) (N, n) = (Inr ys, (N', n'))
    \<and> workplace G r d' B' N'"
  using assms(4,5)
proof (induction calls arbitrary: N n d B)
  case Nil
  then show ?case by simp
next
  case (Cons cx calls)
  obtain cfg x where cx: "cx = (cfg, x)" by force
  from Cons.prems(2) cx have ok: "workplace_call_ok G r cfg x (d, B)"
    "workplace_session_ok G r calls (snd (workplace_call cfg x (d, B)))" by simp_all
  from jc_call_served [where rg' = rg' and now = now and k = k and rg = rg and clock = clock and tm = tm and n = n,
      OF assms(1-3) Cons.prems(1) ok(1)] obtain y d1 B1 N1 n1 where
    1: "workplace_call cfg x (d, B) = (y, d1, B1)"
      "jc_call L rg' now k (network_agent L rg clock) (job_queue_client_new cfg tm) x (N, n) = (Inr y, (N1, n1))"
      "workplace G r d1 B1 N1" by blast
  from Cons.IH [OF 1(3), of n1] ok(2) 1(1) obtain ys d' B' N' n' where
    "workplace_session calls (d1, B1) = (ys, d', B')"
    "job_session L rg' now k (network_agent L rg clock) (map (job_client_of tm) calls) (N1, n1) = (Inr ys, (N', n'))"
    "workplace G r d' B' N'" by auto
  with 1 cx show ?case by (simp add: job_client_of_def act_bind_def)
qed

text \<open>A job on its way: submitted, given to a worker, reported as done, collected.\<close>

definition job_way :: "client_config \<Rightarrow> client_config \<Rightarrow> job \<Rightarrow> job \<Rightarrow> (client_config \<times> job_call) list" where
  "job_way submitter worker j j' =
     [(submitter, Submit j), (worker, Get_work (j_module j)), (worker, Set_result j'), (submitter, Get_result (sent_job submitter j))]"

definition way_ok :: "(job \<Rightarrow> bool) \<Rightarrow> string \<Rightarrow> client_config \<Rightarrow> client_config \<Rightarrow> job \<Rightarrow> job \<Rightarrow> directory \<Rightarrow> boards \<Rightarrow> bool" where
  "way_ok G r submitter worker j j' d B \<longleftrightarrow>
     (let q = cc_srv_job_queue_address submitter; m = cc_local_nodename submitter; a = dir_address d m
      in cc_srv_job_queue_address worker = q \<and> cc_srv_resolver_address submitter = r \<and> cc_srv_resolver_address worker = r
         \<and> may_call submitter \<and> may_call worker \<and> node_name m \<and> a \<noteq> [] \<and> B a \<noteq> None
         \<and> (\<exists>b n. B q = Some b \<and> bd_queues b (j_module j) = Some ([], n) \<and> 0 < n)
         \<and> j_module j \<noteq> [] \<and> j_action j \<noteq> [] \<and> G (sent_job submitter j) \<and> G j'
         \<and> j_id j' = j_id j \<and> j_api_key j' = cc_api_key_private submitter \<and> j_origin_node j' = m)"

lemma sent_job_fields [simp]:
  "j_id (sent_job cfg j) = j_id j" "j_module (sent_job cfg j) = j_module j" "j_action (sent_job cfg j) = j_action j"
  "j_api_key (sent_job cfg j) = cc_api_key_private cfg" "j_origin_node (sent_job cfg j) = cc_local_nodename cfg"
  by (simp_all add: sent_job_def job_set_origin_node_def job_set_api_key_def)

lemma job_set_progress_key [simp]: "j_api_key (job_set_progress p j) = j_api_key j"
  by (simp add: job_set_progress_def)

lemma job_way_abstract:
  assumes "way_ok G r submitter worker j j' d B"
  defines "v \<equiv> workplace_session (job_way submitter worker j j') (d, B)"
    and "q \<equiv> cc_srv_job_queue_address submitter" and "a \<equiv> dir_address d (cc_local_nodename submitter)"
  shows "workplace_session_ok G r (job_way submitter worker j j') (d, B)"
    and "fst v = [Submitted True, Given (Some (sent_job submitter j)), Reported True, Given (Some (job_set_progress 100 j'))]"
    and "\<exists>b. snd (snd v) q = Some b
      \<and> bd_in_progress b (j_id j) = (if q = a then None else Some (sent_job submitter j))"
proof -
  obtain b n where b: "B q = Some b" "bd_queues b (j_module j) = Some ([], n)" "0 < n"
    using assms(1) by (auto simp: way_ok_def q_def Let_def)
  obtain c where c: "B a = Some c" using assms(1) by (auto simp: way_ok_def a_def Let_def)
  note facts = assms(1) [unfolded way_ok_def Let_def, folded q_def a_def]
  note ops = job_way_def submit_board_def take_board_def result_board_def collect_board_def known_job_def
  have s1: "workplace_call submitter (Submit j) (d, B) = (Submitted True, d, B(q \<mapsto>
      b\<lparr>bd_queues := (bd_queues b)(j_module j \<mapsto> ([sent_job submitter j], n))\<rparr>))"
    using facts b by (simp add: workplace_call_def submit_board_def Let_def flip: q_def)
  define b1 where "b1 = b\<lparr>bd_queues := (bd_queues b)(j_module j \<mapsto> ([sent_job submitter j], n))\<rparr>"
  define b2 where "b2 = b1\<lparr>bd_queues := (bd_queues b1)(j_module j \<mapsto> ([], n)),
      bd_in_progress := (bd_in_progress b1)(j_id j \<mapsto> sent_job submitter j)\<rparr>"
  have s2: "workplace_call worker (Get_work (j_module j)) (d, B(q \<mapsto> b1)) = (Given (Some (sent_job submitter j)), d, B(q \<mapsto> b2))"
    using facts by (simp add: workplace_call_def take_board_def Let_def b1_def b2_def)
  define d1 where "d1 = d\<lparr>dir_known := insert (cc_local_nodename submitter) (dir_known d)\<rparr>"
  define c2 where "c2 = (if q = a then b2 else c)"
  have c2: "(B(q \<mapsto> b2)) a = Some c2" using c by (simp add: c2_def)
  have s3: "workplace_call worker (Set_result j') (d, B(q \<mapsto> b2)) = (Reported True, d1, B(q \<mapsto> b2, a \<mapsto> result_board j' c2))"
    using facts c2 by (simp add: workplace_call_def Let_def d1_def flip: a_def)
  have d1: "dir_address d1 = dir_address d" "d1\<lparr>dir_known := insert (cc_local_nodename submitter) (dir_known d1)\<rparr> = d1"
    by (simp_all add: d1_def)
  have s4: "workplace_call submitter (Get_result (sent_job submitter j)) (d1, B(q \<mapsto> b2, a \<mapsto> result_board j' c2))
      = (Given (Some (job_set_progress 100 j')), d1, B(q \<mapsto> b2, a \<mapsto> snd (collect_board (sent_job submitter j) (result_board j' c2))))"
    using facts d1 by (simp add: workplace_call_def Let_def collect_board_def result_board_def flip: a_def)
  show "fst v = [Submitted True, Given (Some (sent_job submitter j)), Reported True, Given (Some (job_set_progress 100 j'))]"
    by (simp add: v_def job_way_def s1 b1_def [symmetric] s2 s3 s4)
  show "\<exists>b. snd (snd v) q = Some b \<and> bd_in_progress b (j_id j) = (if q = a then None else Some (sent_job submitter j))"
    using facts by (simp add: v_def job_way_def s1 b1_def [symmetric] s2 s3 s4)
      (simp add: collect_board_def result_board_def b2_def)
  show "workplace_session_ok G r (job_way submitter worker j j') (d, B)"
    using facts b c2 d1
    by (simp add: job_way_def s1 b1_def [symmetric] s2 s3 workplace_call_ok_def q_def [symmetric] a_def [symmetric])
      (simp add: b1_def result_board_def known_job_def)
qed

section \<open>Properties\<close>

text \<open>
  C3. Clients of the job queue see boards of jobs: calls that any clients make one after the other over the
  network each return what the abstract directory and boards say, and the nodes then stand for the
  directory and boards after them. Submitting and getting work go to the configured queue, everything else to
  the address the resolver knows for the node the job came from. The calls are those that return a
  statement about jobs the library carries: submissions with a module and an action, \<open>get_work\<close> from
  a queue that does not exist or has a job (an empty one makes the caller wait), reports about any
  such job, and requests for the result of a job that is in progress, or completed under the client's
  key (the client makes up a job of any other answer); all queues are open, no worker is parked or waits,
  and nothing else runs between the calls.
\<close>

theorem job_clients_see_boards:
  assumes "jlib_ok L" and "carried L G" and "\<And>d. resolver_protocol d \<Longrightarrow> reads_back L d"
    and "workplace G r d B N" and "workplace_session_ok G r calls (d, B)"
  shows "\<exists>ys d' B' N' n'. workplace_session calls (d, B) = (ys, d', B')
    \<and> job_session L rg' now k (network_agent L rg clock) (map (job_client_of tm) calls) (N, n) = (Inr ys, (N', n'))
    \<and> workplace G r d' B' N'"
  by (rule job_session_served [OF assms])

text \<open>
  C2. A job comes back done: after a submission to a queue with room that had nothing to do, a worker that
  asks the queue gets the job as it was submitted; when it reports the job with a result, the
  submitter gets that back, completed, from its own node. The queue that gave the job out forgets it only
  when it is on the submitter's own node; elsewhere it stays in progress there.
\<close>

theorem job_comes_back:
  assumes "jlib_ok L" and "carried L G" and "\<And>d. resolver_protocol d \<Longrightarrow> reads_back L d"
    and "workplace G r d B N" and "way_ok G r submitter worker j j' d B"
  shows "\<exists>N' n' d' B' b. job_session L rg' now k (network_agent L rg clock)
        (map (job_client_of tm) (job_way submitter worker j j')) (N, n)
      = (Inr [Submitted True, Given (Some (sent_job submitter j)), Reported True, Given (Some (job_set_progress 100 j'))], (N', n'))
    \<and> workplace G r d' B' N' \<and> B' (cc_srv_job_queue_address submitter) = Some b
    \<and> bd_in_progress b (j_id j) =
        (if cc_srv_job_queue_address submitter = dir_address d (cc_local_nodename submitter) then None
         else Some (sent_job submitter j))"
proof -
  note way = job_way_abstract [OF assms(5)]
  from job_session_served [where rg' = rg' and now = now and k = k and rg = rg and clock = clock and tm = tm and n = n,
      OF assms(1-4) way(1)] obtain ys d' B' N' n' where
    "workplace_session (job_way submitter worker j j') (d, B) = (ys, d', B')"
    "job_session L rg' now k (network_agent L rg clock) (map (job_client_of tm) (job_way submitter worker j j')) (N, n)
      = (Inr ys, (N', n'))" "workplace G r d' B' N'" by blast
  with way(2,3) show ?thesis
    by (intro exI [of _ N'] exI [of _ n'] exI [of _ d'] exI [of _ B']) (simp add: ex_simps)
qed

text \<open>A resolver, a node with a queue and a submitter's node, and the jobs the reference library carries.\<close>

definition sample_resolver :: resolver where
  "sample_resolver = resolver_new\<lparr>rv_nodes := [(''n1'', ''tcp://n1:1'')]\<rparr>"

definition sample_network :: "string \<Rightarrow> node option" where
  "sample_network =
     [''tcp://r:1'' \<mapsto> (node_server [S_resolver], services_new\<lparr>sv_resolver := sample_resolver\<rparr>),
      ''tcp://q:1'' \<mapsto> (node_server [S_job_queue], services_new\<lparr>sv_job_queue := snd (init_queue ''q'' 0 job_queue_new)\<rparr>),
      ''tcp://n1:1'' \<mapsto> (node_server [S_job_queue], services_new)]"

definition sample_boards :: boards where
  "sample_boards = [''tcp://q:1'' \<mapsto> board_of (snd (init_queue ''q'' 0 job_queue_new)),
     ''tcp://n1:1'' \<mapsto> board_of job_queue_new]"

definition plain_job :: "job \<Rightarrow> bool" where
  "plain_job j \<longleftrightarrow> j_id j \<noteq> [] \<and> j_ctime j \<noteq> 0 \<and> int32 (j_ctime j) \<and> j_api_key j = ''_development_key_''"

lemma plain_job_carried: "carried ref_lib plain_job"
  by (simp add: carried_def plain_job_def)
    (auto simp: carries_def job_doc_find dev_key_def opens_def less_eq_key_type_def job_set_progress_def
      intro!: exI [of _ "JReal (j_progress _)"] reads_back_as)

text \<open>
  A library whose reader takes the text of a whole real number as an integer, as jsoncpp 1.6.1 does with its
  own texts. It carries jobs as well; their progress comes back as an integer when it is whole.
\<close>

fun plain_numbers :: "json \<Rightarrow> json" where
  "plain_numbers (JReal q) = (if of_int \<lfloor>q\<rfloor> = q then JInt \<lfloor>q\<rfloor> else JReal q)"
| "plain_numbers (JArray xs) = JArray (map plain_numbers xs)"
| "plain_numbers (JObject ms) = JObject (map (\<lambda>(k, v). (k, plain_numbers v)) ms)"
| "plain_numbers v = v"

definition whole_lib :: jlib where
  "whole_lib = ref_lib\<lparr>jl_read := \<lambda>s. map_option plain_numbers (jl_read ref_lib s)\<rparr>"

lemma whole_lib_simps:
  "jl_write whole_lib v = jl_write ref_lib v" "jl_double whole_lib v = jl_double ref_lib v"
  "jl_read whole_lib (jl_write ref_lib v) = Some (plain_numbers v)"
  by (simp_all add: whole_lib_def)

lemma whole_lib_ok: "jlib_ok whole_lib"
  using ref_lib_ok by (simp add: jlib_ok_def whole_lib_def)

lemma whole_reads_back: "reads_back whole_lib d \<longleftrightarrow> plain_numbers d = d"
  by (simp add: reads_back_def whole_lib_simps del: ref_lib_simps)

abbreviation plain_members :: "(string \<times> json) list \<Rightarrow> (string \<times> json) list" where
  "plain_members ms \<equiv> map (\<lambda>(k, v). (k, plain_numbers v)) ms"

lemma plain_members_put:
  "plain_members ms = ms \<Longrightarrow> plain_numbers v = v \<Longrightarrow> plain_members (obj_put k v ms) = obj_put k v ms"
  by (induction ms) auto

lemma plain_members_delete: "plain_members ms = ms \<Longrightarrow> plain_members (AList.delete k ms) = AList.delete k ms"
  by (induction ms) auto

lemma plain_members_find: "plain_members ms = ms \<Longrightarrow> map_of ms k = Some v \<Longrightarrow> plain_numbers v = v"
  by (induction ms) (auto split: if_splits)

lemma plain_put:
  "put_member k v d = Inr d' \<Longrightarrow> plain_numbers d = d \<Longrightarrow> plain_numbers v = v \<Longrightarrow> plain_numbers d' = d'"
  by (cases d) (auto simp: plain_members_put)

lemma plain_remove: "remove_member k d = Inr d' \<Longrightarrow> plain_numbers d = d \<Longrightarrow> plain_numbers d' = d'"
  by (cases d) (auto simp: plain_members_delete)

lemma plain_value: "plain_numbers d = d \<Longrightarrow> plain_numbers (member_value k d) = member_value k d"
  by (cases d) (auto simp: plain_members_find split: option.split)

lemma plain_enter: "enter_member k d = Inr d' \<Longrightarrow> plain_numbers d = d \<Longrightarrow> plain_numbers d' = d'"
  by (auto simp: enter_member_def rbind_Inr_iff split: if_splits dest: plain_put)

lemma plain_set:
  "set_path ks v d = Inr d' \<Longrightarrow> plain_numbers d = d \<Longrightarrow> plain_numbers v = v \<Longrightarrow> plain_numbers d' = d'"
proof (induction ks v d arbitrary: d' rule: set_path.induct)
  case (2 k v d)
  then show ?case by (auto simp: rbind_Inr_iff dest: plain_remove plain_put)
next
  case (3 k k' ks v d)
  from 3(2) obtain j c where "enter_member k d = Inr j" "set_path (k' # ks) v (member_value k j) = Inr c"
    "put_member k c j = Inr d'" by (auto simp: rbind_Inr_iff)
  with 3 show ?case by (metis plain_enter plain_value plain_put)
qed simp

lemma whole_protocol: "resolver_protocol d \<Longrightarrow> reads_back whole_lib d"
proof -
  have resolved: "plain_numbers (resolved_doc n a) = resolved_doc n a" for n a
    unfolding resolved_doc_def message_set_def set_status_code_def
    by (auto simp: rbind_def split: sum.split dest!: plain_put plain_set)
  have keyed: "plain_members (map (\<lambda>(k, s). (k, JString s)) kvs) = map (\<lambda>(k, s). (k, JString s)) kvs"
    for kvs :: "(string \<times> string) list" by (induction kvs) auto
  assume "resolver_protocol d"
  then show ?thesis
    unfolding resolver_protocol_def whole_reads_back
    by (auto simp: keyed_doc_def keyed status_doc_def resolved addresses_doc_def plain_members_put comp_def)
qed

definition whole_job :: "job \<Rightarrow> bool" where
  "whole_job j \<longleftrightarrow> plain_job j \<and> plain_numbers (j_parameters j) = j_parameters j"

lemma whole_job_carried: "carried whole_lib whole_job"
  unfolding carried_def
proof (intro allI impI)
  fix j assume j: "whole_job j"
  let ?v = "plain_numbers (JReal (j_progress j))"
  have v: "plain_numbers ?v = ?v" "jl_double whole_lib ?v = Some (j_progress j)"
    by (simp_all add: whole_lib_simps)
  have "reads_as whole_lib j ?v"
    using j v(2) by (simp add: reads_as_def whole_lib_simps whole_job_def del: ref_lib_simps)
      (simp add: job_doc_def job_doc_as_def)
  moreover have "reads_back whole_lib (job_reply_doc_as ?v j st)" for st
    using j v(1) unfolding whole_reads_back whole_job_def
    by (simp add: job_reply_doc_as_def job_doc_as_def less_char_def del: plain_numbers.simps(1))
  moreover have "reads_back whole_lib (receipt_doc (j_id j))" by (simp add: whole_reads_back receipt_doc_def)
  moreover have "carries (job_doc j) API_PRIVATE" "j_id j \<noteq> []" "j_ctime j \<noteq> 0" "int32 (j_ctime j)"
    using j carriedD(4) [OF plain_job_carried, of j "JReal (j_progress j)"]
    by (simp_all add: whole_job_def plain_job_def job_doc_def)
  moreover have "whole_job (job_set_progress p j)" for p
    using j by (simp add: whole_job_def plain_job_def job_set_progress_def)
  ultimately show "j_id j \<noteq> [] \<and> j_ctime j \<noteq> 0 \<and> int32 (j_ctime j) \<and> carries (job_doc j) API_PRIVATE
     \<and> (\<exists>v. reads_as whole_lib j v \<and> (\<forall>st. reads_back whole_lib (job_reply_doc_as v j st)))
     \<and> reads_back whole_lib (receipt_doc (j_id j)) \<and> whole_job (job_set_progress 100 j)
     \<and> (\<forall>j'. whole_job j' \<longrightarrow> whole_job (job_set_progress (j_progress j') j))" by blast
qed

lemma sample_workplace:
  "workplace G ''tcp://r:1'' (directory_of sample_resolver) sample_boards sample_network"
proof -
  have run: "runs ms a w sample_network" if "sample_network a = Some (node_server ms, w)" for ms a w
    using node_server_runs [of ms a w] that by (simp add: runs_def)
  have r: "resolves [S_resolver] ''tcp://r:1'' (directory_of sample_resolver) sample_network"
    unfolding resolves_def
    by (intro exI [of _ "services_new\<lparr>sv_resolver := sample_resolver\<rparr>"] conjI run)
      (simp_all add: sample_network_def sample_resolver_def resolver_inv_def resolver_new_def)
  have q: "has_jobs [S_job_queue] ''tcp://q:1'' (snd (init_queue ''q'' 0 job_queue_new)) sample_network"
    "has_jobs [S_job_queue] ''tcp://n1:1'' job_queue_new sample_network"
    unfolding has_jobs_def
     apply (intro exI [of _ "services_new\<lparr>sv_job_queue := snd (init_queue ''q'' 0 job_queue_new)\<rparr>"] conjI run)
      apply (simp_all add: sample_network_def)
    using run [of "''tcp://n1:1''" "[S_job_queue]" services_new]
    by (auto simp: sample_network_def services_new_def)
  have calm: "calm (snd (init_queue ''q'' 0 job_queue_new))" "calm job_queue_new"
    using jq_inv_init_queue [of job_queue_new "''q''" 0]
    by (simp_all add: calm_def)
      (auto simp: init_queue_def job_queue_new_def um_count_def um_emplace_def Let_def queue_new_def)
  have good: "all_good G (board_of (snd (init_queue ''q'' 0 job_queue_new)))" "all_good G (board_of job_queue_new)"
    by (auto simp: all_good_def init_queue_def job_queue_new_def um_count_def um_emplace_def Let_def queue_new_def split: if_splits)
  show ?thesis
    unfolding workplace_def
  proof (intro conjI allI impI)
    show "\<exists>ms. S_resolver \<in> set ms \<and> resolves ms ''tcp://r:1'' (directory_of sample_resolver) sample_network"
      using r by (intro exI [of _ "[S_resolver]"]) simp
    fix a b assume "sample_boards a = Some b"
    then consider "a = ''tcp://q:1''" "b = board_of (snd (init_queue ''q'' 0 job_queue_new))"
      | "a = ''tcp://n1:1''" "b = board_of job_queue_new"
      by (auto simp: sample_boards_def split: if_splits)
    note boards = this
    from boards good show "all_good G b" by cases simp_all
    from boards have "\<exists>q. has_jobs [S_job_queue] a q sample_network \<and> calm q \<and> board_of q = b"
      by cases (use q calm in blast)+
    then show "\<exists>ms q. S_job_queue \<in> set ms \<and> has_jobs ms a q sample_network \<and> calm q \<and> board_of q = b"
      by (intro exI [of _ "[S_job_queue]"]) simp
  qed
qed

definition sample_task :: job where
  "sample_task = sample_job\<lparr>j_api_key := ''_development_key_'', j_module := ''q''\<rparr>"

lemma sample_way:
  assumes "G = plain_job \<or> G = whole_job"
  shows "way_ok G ''tcp://r:1'' (sample_config ''n1'' ''tcp://n1:1'') (sample_config ''w'' []) sample_task
     (sample_task\<lparr>j_parameters := JInt 42\<rparr>) (directory_of sample_resolver) sample_boards"
  using assms
  by (elim disjE; simp add: way_ok_def sample_config_def may_call_def node_name_def split_plain plain_key_def;
      simp add: sample_task_def sample_job_def whole_job_def plain_job_def sent_job_def job_set_origin_node_def job_set_api_key_def
        int32_def directory_of_def sample_resolver_def resolver_new_def sample_boards_def init_queue_def job_queue_new_def
        um_count_def um_emplace_def Let_def queue_new_def)

theorem job_comes_back_witness:
  "\<exists>v. job_session ref_lib (\<lambda>_. ''id'') 5 0 (network_agent ref_lib (\<lambda>_. ''id'') int)
      [(job_queue_client_new (sample_config ''n1'' ''tcp://n1:1'') 0, Submit sample_task),
       (job_queue_client_new (sample_config ''w'' []) 0, Get_work ''q''),
       (job_queue_client_new (sample_config ''w'' []) 0, Set_result (sample_task\<lparr>j_parameters := JInt 42\<rparr>)),
       (job_queue_client_new (sample_config ''n1'' ''tcp://n1:1'') 0, Get_result sample_task)] (sample_network, 0)
    = (Inr [Submitted True, Given (Some sample_task), Reported True,
        Given (Some (sample_task\<lparr>j_parameters := JInt 42, j_completed := True, j_progress := 100\<rparr>))], v)"
proof -
  have j: "sent_job (sample_config ''n1'' ''tcp://n1:1'') sample_task = sample_task" "j_module sample_task = ''q''"
    by (simp_all add: sent_job_def job_set_origin_node_def job_set_api_key_def sample_task_def sample_job_def sample_config_def)
  from job_comes_back [OF _ plain_job_carried _ sample_workplace sample_way [OF disjI1 [OF refl]], where rg' = "\<lambda>_. ''id''" and now = 5 and k = 0
      and rg = "\<lambda>_. ''id''" and clock = int and tm = 0 and n = 0]
  show ?thesis by (auto simp: job_way_def job_client_of_def j job_set_progress_def)
qed

theorem job_clients_see_boards_witness:
  "\<exists>v. job_session whole_lib (\<lambda>_. ''id'') 5 0 (network_agent whole_lib (\<lambda>_. ''id'') int)
      [(job_queue_client_new (sample_config ''n1'' ''tcp://n1:1'') 0, Submit sample_task),
       (job_queue_client_new (sample_config ''w'' []) 0, Get_work ''q''),
       (job_queue_client_new (sample_config ''w'' []) 0, Set_result (sample_task\<lparr>j_parameters := JInt 42\<rparr>)),
       (job_queue_client_new (sample_config ''n1'' ''tcp://n1:1'') 0, Get_result sample_task)] (sample_network, 0)
    = (Inr [Submitted True, Given (Some sample_task), Reported True,
        Given (Some (sample_task\<lparr>j_parameters := JInt 42, j_completed := True, j_progress := 100\<rparr>))], v)"
proof -
  have j: "sent_job (sample_config ''n1'' ''tcp://n1:1'') sample_task = sample_task" "j_module sample_task = ''q''"
    by (simp_all add: sent_job_def job_set_origin_node_def job_set_api_key_def sample_task_def sample_job_def sample_config_def)
  note way = job_way_abstract [OF sample_way [OF disjI2 [OF refl]]]
  from job_clients_see_boards [OF whole_lib_ok whole_job_carried whole_protocol sample_workplace way(1), where rg' = "\<lambda>_. ''id''"
      and now = 5 and k = 0 and rg = "\<lambda>_. ''id''" and clock = int and tm = 0 and n = 0] way(2)
  show ?thesis by (auto simp: job_way_def job_client_of_def j job_set_progress_def simp del: job_session.simps workplace_session.simps)
qed

end
