(* ===== verification/Nix_Simulator.thy ===== *)
theory Nix_Simulator
  imports Nix_Network
begin

text \<open>
  The simulator (src/src/simulator/src): a program that loads a server with the calls of many clients.
  Its clients send with an agent like those of Nix_Client; a client of the simulator is a record with
  its kind, and the virtual functions \<open>run\<close> and \<open>on_replied\<close> go by the kind. What they log as
  information is part of their value; errors they only log are not.
\<close>

section \<open>The base client\<close>

datatype sim_kind = Sim_resolver | Sim_cache | Sim_status bool nat

record sim_client =
  bc_client_id :: int
  bc_server_address :: string
  bc_module :: string
  bc_kind :: sim_kind

text \<open>The counter of clients is passed along; the constructors of the kinds name their modules.\<close>

definition base_client_new :: "string \<Rightarrow> string \<Rightarrow> sim_kind \<Rightarrow> int \<Rightarrow> sim_client \<times> int" where
  "base_client_new address mdl kind counter =
     (\<lparr>bc_client_id = counter + 1, bc_server_address = address, bc_module = mdl, bc_kind = kind\<rparr>, counter + 1)"

fun kind_module :: "sim_kind \<Rightarrow> string" where
  "kind_module Sim_resolver = ''Resolver''"
| "kind_module Sim_cache = ''Cache''"
| "kind_module (Sim_status verbose interval) = ''Status''"

definition sim_api_key :: string where "sim_api_key = ''_development_key_''"

definition sim_max_timeout :: int where "sim_max_timeout = 250"

definition sim_wait :: "int \<Rightarrow> nat" where
  "sim_wait timeout = nat (if timeout < 0 then sim_max_timeout
     else if timeout > sim_max_timeout then sim_max_timeout else timeout)"

section \<open>What the clients do with a reply\<close>

definition cache_key :: string where "cache_key = ''cache_key''"

definition cache_value :: string where "cache_value = ''cache_value''"

definition cache_on_replied :: "jlib \<Rightarrow> int \<Rightarrow> json \<Rightarrow> string list res" where
  "cache_on_replied L client_id m =
     (let own_key = cache_key @ to_string_int client_id; retrieved = get_string L ''key'' [] m
      in if retrieved \<noteq> [] \<and> retrieved = own_key
            \<and> client_id \<noteq> get_int L ''value.client_id'' (- 1) m
         then Inl (RuntimeError ''Cache retrieved other thread's value'') else Inr [])"

text \<open>The table of the status client: \<open>setw\<close> pads to the width and cuts nothing off.\<close>

definition newline :: string where "newline = [CHR 0x0A]"

definition pad_right :: "nat \<Rightarrow> string \<Rightarrow> string" where
  "pad_right n s = s @ replicate (n - length s) CHR '' ''"

definition pad_left :: "nat \<Rightarrow> string \<Rightarrow> string" where
  "pad_left n s = replicate (n - length s) CHR '' '' @ s"

definition status_header :: "string list" where
  "status_header = [''requests'', ''auth_errors'', ''unroutable'', ''rejected'']"

definition status_modules :: "string list" where
  "status_modules = [''Cache'', ''Resolver'', ''JobQueue'', ''Debug'']"

definition status_rule :: string where
  "status_rule = replicate 72 CHR ''-'' @ newline"

definition status_row :: "string \<Rightarrow> (string \<Rightarrow> int) \<Rightarrow> string" where
  "status_row name value =
     ''|'' @ pad_right 12 name
     @ concat (map (\<lambda>h. ''|'' @ pad_left 12 (to_string_int (value h))) status_header) @ newline @ status_rule"

definition status_table :: "(string \<Rightarrow> int) \<Rightarrow> (string \<Rightarrow> string \<Rightarrow> int) \<Rightarrow> string" where
  "status_table grand value =
     newline @ newline @ ''|'' @ pad_right 12 ''Module''
     @ concat (map (\<lambda>h. ''|'' @ pad_right 12 h) status_header) @ newline @ status_rule
     @ status_row ''Total'' grand
     @ concat (map (\<lambda>m. status_row m (value m)) status_modules) @ newline"

definition status_on_replied :: "jlib \<Rightarrow> bool \<Rightarrow> json \<Rightarrow> string list res" where
  "status_on_replied L verbose msg =
     (let s = status_table (\<lambda>h. get_int L (''stats.'' @ h) 0 msg)
                (\<lambda>m h. get_int L (''stats.'' @ m @ ''.'' @ h) 0 msg)
      in Inr (if verbose then [s] else []))"

fun sim_on_replied :: "jlib \<Rightarrow> sim_client \<Rightarrow> json \<Rightarrow> string list res" where
  "sim_on_replied L c m = (case bc_kind c of
     Sim_resolver \<Rightarrow> Inr []
   | Sim_cache \<Rightarrow> cache_on_replied L (bc_client_id c) m
   | Sim_status verbose interval \<Rightarrow> status_on_replied L verbose m)"

section \<open>Calls\<close>

text \<open>
  A call changes the message it gets: it sets the key. The value is the message and what was logged. The
  reply of YAMI throws when it has no entry \<open>message\<close>; \<open>on_rejected\<close> and \<open>on_abanoned\<close> do nothing.
\<close>

definition sim_call :: "jlib \<Rightarrow> 'w agent \<Rightarrow> sim_client \<Rightarrow> string \<Rightarrow> int \<Rightarrow> json \<Rightarrow> (json \<times> string list, 'w) action" where
  "sim_call L A c route timeout msg =
     act_bind (act_lift (message_set ''@api_key'' (JString sim_api_key) msg)) (\<lambda>msg'. \<lambda>w.
     (case ta_send A (bc_server_address c) (bc_module c) route (message_to_string L [] False msg') (sim_wait timeout) w of
        (None, w') \<Rightarrow> (Inr (msg', []), w')
      | (Some om, w') \<Rightarrow>
          (if om_state om = Replied then
             (case om_reply om of
                None \<Rightarrow> Inl (RuntimeError ''No such entry.'')
              | Some text \<Rightarrow> rbind (message_parse L text message_new) (\<lambda>m.
                             rbind (sim_on_replied L c m) (\<lambda>out. Inr (msg', out))))
           else Inr (msg', []), w')))"

definition sim_send_one_way :: "jlib \<Rightarrow> 'w agent \<Rightarrow> sim_client \<Rightarrow> string \<Rightarrow> json \<Rightarrow> (json, 'w) action" where
  "sim_send_one_way L A c route msg =
     act_bind (act_lift (message_set ''@api_key'' (JString sim_api_key) msg)) (\<lambda>msg'. \<lambda>w.
     (Inr msg', snd (ta_one_way A (bc_server_address c) (bc_module c) route (message_to_string L [] False msg') w)))"

section \<open>The runs of the clients\<close>

text \<open>The texts with characters beyond ASCII, byte by byte as UTF-8.\<close>

definition cache_text_1 :: string where
  "cache_text_1 = ''za'' @ [CHR 0xC5, CHR 0xBC, CHR 0xC3, CHR 0xB3, CHR 0xC5, CHR 0x82, CHR 0xC4, CHR 0x87]
     @ '' g'' @ [CHR 0xC4, CHR 0x99, CHR 0xC5, CHR 0x9B] @ ''l'' @ [CHR 0xC4, CHR 0x85]
     @ '' ja'' @ [CHR 0xC5, CHR 0xBA, CHR 0xC5, CHR 0x84]"

definition cache_text_2 :: string where
  "cache_text_2 = [CHR 0xCF, CHR 0x80, CHR 0xC5, CHR 0x93, CHR 0xC4, CHR 0x99, CHR 0xC2, CHR 0xA9, CHR 0xC3, CHR 0x9F,
     CHR 0xE2, CHR 0x86, CHR 0x90, CHR 0xE2, CHR 0x86, CHR 0x93, CHR 0xE2, CHR 0x86, CHR 0x92, CHR 0xC3, CHR 0xB3,
     CHR 0xC3, CHR 0xBE]"

text \<open>The product stays within an \<open>int\<close> for the clients of the program.\<close>

definition cache_message_1 :: "jlib \<Rightarrow> int \<Rightarrow> json res" where
  "cache_message_1 L client_id =
     rbind (set_all [(''key'', JString cache_key), (''value.string'', JString cache_value),
       (''value.other'', JString cache_text_1), (''value.int'', JInt (123567 * client_id))] message_new) (\<lambda>m.
     rbind (set_array ''value.array'' m) (\<lambda>m.
     rbind (message_append ''value.array'' (JString cache_text_2) m) (\<lambda>m.
     rbind (message_append ''value.array'' (JString (message_to_string L [] False m)) m) (\<lambda>m.
     message_append ''value.array'' (JBool False) m))))"

definition cache_message_2 :: "string \<Rightarrow> int \<Rightarrow> json res" where
  "cache_message_2 thread_id client_id =
     set_all [(''key'', JString (cache_key @ to_string_int client_id)), (''value.thread'', JString thread_id),
       (''value.client_id'', JInt client_id)] message_new"

definition cache_client_run :: "jlib \<Rightarrow> 'w agent \<Rightarrow> sim_client \<Rightarrow> string \<Rightarrow> (string list, 'w) action" where
  "cache_client_run L A c thread_id =
     act_bind (act_lift (cache_message_1 L (bc_client_id c))) (\<lambda>m1.
     act_bind (sim_call L A c ''store'' (- 1) m1) (\<lambda>(m1, o1).
     act_bind (act_lift (cache_message_2 thread_id (bc_client_id c))) (\<lambda>m2.
     act_bind (sim_call L A c ''store'' (- 1) m2) (\<lambda>(m2, o2).
     act_bind (sim_call L A c ''retrieve'' (- 1) m1) (\<lambda>(m1, o3).
     act_bind (sim_call L A c ''retrieve'' (- 1) m2) (\<lambda>(m2, o4).
     act_bind (sim_send_one_way L A c ''remove'' m1) (\<lambda>_.
     act_bind (sim_send_one_way L A c ''remove'' m2) (\<lambda>_.
     act_ret (o1 @ o2 @ o3 @ o4)))))))))"

definition resolver_message :: "json res" where
  "resolver_message = set_all [(''@api_key'', JString sim_api_key), (''nodename'', JString ''simulator-01''),
     (''address'', JString ''tcp://127.0.0.1:12345'')] message_new"

definition resolver_client_run :: "jlib \<Rightarrow> 'w agent \<Rightarrow> sim_client \<Rightarrow> (string list, 'w) action" where
  "resolver_client_run L A c =
     act_bind (act_lift resolver_message) (\<lambda>m.
     act_bind (sim_call L A c ''bind'' (- 1) m) (\<lambda>(m, o1).
     act_bind (sim_call L A c ''resolve'' (- 1) m) (\<lambda>(m, o2).
     act_bind (sim_call L A c ''unbind'' (- 1) m) (\<lambda>(m, o3). act_ret (o1 @ o2 @ o3)))))"

text \<open>The pause of the status client after its call is not modelled.\<close>

definition status_client_run :: "jlib \<Rightarrow> 'w agent \<Rightarrow> sim_client \<Rightarrow> (string list, 'w) action" where
  "status_client_run L A c =
     act_bind (act_lift (set_all [(''stats'', JBool True), (''module_stats'', JBool True)] message_new)) (\<lambda>msg.
     act_bind (sim_call L A c ''status'' (- 1) msg) (\<lambda>(msg, out). act_ret out))"

definition sim_run :: "jlib \<Rightarrow> 'w agent \<Rightarrow> sim_client \<Rightarrow> string \<Rightarrow> (string list, 'w) action" where
  "sim_run L A c thread_id = (case bc_kind c of
     Sim_resolver \<Rightarrow> resolver_client_run L A c
   | Sim_cache \<Rightarrow> cache_client_run L A c thread_id
   | Sim_status verbose interval \<Rightarrow> status_client_run L A c)"

section \<open>The program\<close>

text \<open>
  The loop of a thread: a run after the other until the flag the signal handler sets is seen. \<open>signaled\<close> reads
  the flag; no value is a loop that does not end. An exception ends the thread and with it the process.
\<close>

partial_function (option) run_client :: "jlib \<Rightarrow> 'w agent \<Rightarrow> ('w \<Rightarrow> bool) \<Rightarrow> string \<Rightarrow> sim_client \<Rightarrow> 'w
    \<Rightarrow> (unit res \<times> 'w) option" where
  "run_client L A signaled thread_id c w =
     (if signaled w then Some (Inr (), w)
      else case sim_run L A c thread_id w of
             (Inl e, w') \<Rightarrow> Some (Inl e, w')
           | (Inr out, w') \<Rightarrow> run_client L A signaled thread_id c w')"

definition simulator_kinds :: "sim_kind list" where
  "simulator_kinds = concat (replicate 16 [Sim_resolver, Sim_cache, Sim_status False 0]) @ [Sim_status True 1]"

fun make_clients :: "string \<Rightarrow> sim_kind list \<Rightarrow> int \<Rightarrow> sim_client list" where
  "make_clients address [] counter = []"
| "make_clients address (k # ks) counter =
     (let (c, counter') = base_client_new address (kind_module k) k counter
      in c # make_clients address ks counter')"

text \<open>
  Without an address it ends with status 1; with one it finds the configuration of its log and starts a thread
  for every client.
\<close>

definition simulator_main :: "'h host \<Rightarrow> string list \<Rightarrow> (int + sim_client list, 'h) action" where
  "simulator_main H argv =
     (if length argv < 2 then act_ret (Inl 1)
      else act_bind (fs_dirname H (argv ! 0)) (\<lambda>dirname.
        act_bind (resolve_path H dirname) (\<lambda>base_dir.
        act_bind (resolve_path H (base_dir @ ''/../log.conf'')) (\<lambda>log_config.
        act_ret (Inr (make_clients (argv ! 1) simulator_kinds 0))))))"

text \<open>The clients the simulator starts: 16 of each kind and a monitor, numbered from 1, all for one address.\<close>

lemma make_clients_numbered:
  "map bc_client_id (make_clients address ks n) = map (\<lambda>i. n + 1 + int i) [0..<length ks]
   \<and> map bc_kind (make_clients address ks n) = ks
   \<and> (\<forall>c \<in> set (make_clients address ks n). bc_server_address c = address \<and> bc_module c = kind_module (bc_kind c))"
proof (induction address ks n rule: make_clients.induct)
  case (2 address k ks n)
  have "[0..<length (k # ks)] = 0 # map Suc [0..<length ks]"
    by (simp add: map_Suc_upt upt_conv_Cons del: upt_Suc)
  with 2 [of _ _ "n + 1"] show ?case
    by (simp add: base_client_new_def comp_def add.assoc del: upt_Suc)
qed simp

text \<open>
  The simulator starts only where its log configuration is: with a file \<open>log.conf\<close> beside the directory of the
  program it starts 49 clients; without one it reads a buffer nobody has written to.
\<close>

theorem simulator_starts:
  assumes "fs_dirname H program w = (Inr d, w)" and "resolve_path H d w = (Inr base, w)" and "hd base \<noteq> CHR 0x7E"
    and "base \<noteq> []"
  shows "simulator_main H (program # address # rest) w =
      (case os_realpath H (base @ ''/../log.conf'') w of
         None \<Rightarrow> Inl UndefinedBehaviour
       | Some log_config \<Rightarrow> Inr (Inr (make_clients address simulator_kinds 0)), w)"
    and "map bc_client_id (make_clients address simulator_kinds 0) = map (\<lambda>i. 1 + int i) [0..<49]"
proof -
  have "length simulator_kinds = 49" by (simp add: simulator_kinds_def length_concat sum_list_replicate)
  with make_clients_numbered [of address simulator_kinds 0]
  show "map bc_client_id (make_clients address simulator_kinds 0) = map (\<lambda>i. 1 + int i) [0..<49]" by simp
  have "expand_user H (base @ ''/../log.conf'') = Inr (base @ ''/../log.conf'')" using assms(3,4) by (simp add: expand_plain)
  with assms(1,2) show "simulator_main H (program # address # rest) w =
      (case os_realpath H (base @ ''/../log.conf'') w of
         None \<Rightarrow> Inl UndefinedBehaviour
       | Some log_config \<Rightarrow> Inr (Inr (make_clients address simulator_kinds 0)), w)"
    by (simp add: simulator_main_def resolve_path_def act_bind_def act_ret_def act_lift_def split: option.split)
qed

section \<open>The documents of the cache client\<close>

lemma value_paths:
  "split ''value.string'' ''.'' = [''value'', ''string'']" "split ''value.other'' ''.'' = [''value'', ''other'']"
  "split ''value.int'' ''.'' = [''value'', ''int'']" "split ''value.array'' ''.'' = [''value'', ''array'']"
  "split ''value.thread'' ''.'' = [''value'', ''thread'']" "split ''value.client_id'' ''.'' = [''value'', ''client_id'']"
  "split ''key'' ''.'' = [''key'']" "split ''@api_key'' ''.'' = [''@api_key'']"
  by code_simp+

definition cache_sent :: "jlib \<Rightarrow> string \<Rightarrow> int \<Rightarrow> json \<Rightarrow> bool" where
  "cache_sent L thread_id client_id doc \<longleftrightarrow>
     rbind (cache_message_1 L client_id) (message_set ''@api_key'' (JString sim_api_key)) = Inr doc
     \<or> rbind (cache_message_2 thread_id client_id) (message_set ''@api_key'' (JString sim_api_key)) = Inr doc"

lemma cache_messages:
  "\<exists>v. rbind (cache_message_1 L i) (message_set ''@api_key'' (JString sim_api_key))
     = Inr (JObject [(''@api_key'', JString sim_api_key), (''key'', JString cache_key), (''value'', v)])"
  "\<exists>v. rbind (cache_message_2 t i) (message_set ''@api_key'' (JString sim_api_key))
     = Inr (JObject [(''@api_key'', JString sim_api_key), (''key'', JString (cache_key @ to_string_int i)), (''value'', v)])"
  by (simp_all add: cache_message_1_def cache_message_2_def set_array_def message_set_def message_append_def value_paths
      message_new_def array_value_def obj_sorted_def less_char_def enter_member_def)

lemma plain_own_key: "plain_key (cache_key @ to_string_int i)" "plain_key cache_key"
proof -
  have "CHR ''.'' \<notin> set (decimal n)" for n
    using decimal_digits [of "CHR ''.''" n] by (auto simp: is_digit_def)
  then show "plain_key (cache_key @ to_string_int i)" "plain_key cache_key"
    by (simp_all add: plain_key_def cache_key_def to_string_int_def)
qed

lemma cache_sent_key:
  assumes "cache_sent L t i doc"
  obtains k where "message_find ''key'' doc = Some (JString k)" "plain_key k" "k \<noteq> ''key''" "k \<noteq> []" "passable doc"
    "message_clear doc = Inr (JObject [])" "k \<noteq> ''@status_code''"
proof -
  obtain k v where d: "doc = JObject [(''@api_key'', JString sim_api_key), (''key'', JString k), (''value'', v)]"
    and k: "k = cache_key \<or> k = cache_key @ to_string_int i"
    using assms cache_messages(1) [of L i] cache_messages(2) [of t i] unfolding cache_sent_def by fastforce
  have "plain_key k" using k plain_own_key by blast
  moreover have "k \<noteq> ''key''" "k \<noteq> []" "k \<noteq> ''@status_code''" using k by (auto simp: cache_key_def)
  ultimately show thesis
    using that [of k] by (simp add: d message_find_plain plain_key_def passable_def message_clear_def)
qed

section \<open>Properties\<close>

text \<open>
  The simulator checks that a client of the cache gets its own value back, and throws otherwise; the check
  cannot fail. Whatever the cache holds, another client's value under the own key included, the reply to
  each call of the simulator has no entry \<open>key\<close>, the entry the check compares first.
\<close>

theorem simulator_check_never_fails:
  assumes "jlib_ok L" and "cache_sent L thread_id (bc_client_id c) doc" and "bc_kind c = Sim_cache"
    and "h \<in> {Cache_store, Cache_retrieve}"
    and "cache_run L now (Own h) \<lparr>im_id = i, im_doc = doc\<rparr> state = Done state' ns"
  shows "\<exists>d. ns = [Reply i (jl_write L d)] \<and> sim_on_replied L c d = Inr []"
proof -
  obtain k where k: "message_find ''key'' doc = Some (JString k)" "plain_key k" "k \<noteq> ''key''" "k \<noteq> []" "passable doc"
    "message_clear doc = Inr (JObject [])" "k \<noteq> ''@status_code''" by (rule cache_sent_key [OF assms(2)])
  then have get: "get_string L ''key'' [] doc = k" using assms(1) by (simp add: get_string_def get_as_def jlib_okD(1))
  have quiet: "sim_on_replied L c d = Inr []" if "message_find ''key'' d = None" for d
    using that assms(3) by (simp add: cache_on_replied_def get_string_def get_as_def Let_def)
  have status: "message_find ''key'' (status_doc st x) = None" for st x
    by (simp add: status_doc_def message_find_plain plain_key_def)
  have found: "message_find ''key'' (JObject (obj_put ''@status_code'' u [(k, v)])) = None" for u v
    using k(3) by (simp add: message_find_plain plain_key_def map_of_obj_put del: obj_put.simps)
  have entry: "set_deserialized L k content (JObject []) = Inr d \<Longrightarrow> \<exists>v. d = JObject [(k, v)]" for content d
    using k(2) by (auto simp: set_deserialized_def message_set_plain obj_sorted_def split: option.splits)
  have hit: "\<exists>v u. n = Reply i (jl_write L (JObject (obj_put ''@status_code'' u [(k, v)])))"
    if "rbind (set_deserialized L k content (JObject [])) (\<lambda>d'. im_reply_msg L i d' Ok) = Inr n" for content n
    using that by (auto simp: rbind_Inr_iff im_reply_msg_object simp del: obj_put.simps dest!: entry) blast
  show ?thesis
  proof (cases "h = Cache_store")
    case True
    with assms(5) get k show ?thesis
      using status quiet by (auto simp: cache_run_def run_handler_def cache_store_def Let_def im_reply_eq)
  next
    case False
    with assms(4,5) have run: "cache_retrieve L now \<lparr>im_id = i, im_doc = doc\<rparr> state = Done state' ns"
      by (simp add: cache_run_def run_handler_def)
    have "ns = [Reply i (jl_write L (status_doc Null_value []))] \<or> (\<exists>v u. ns = [Reply i (jl_write L (JObject (obj_put ''@status_code'' u [(k, v)])))])"
      using run get k(4-6)
      by (auto simp: cache_retrieve_def cache_retrieve_miss_def cache_retrieve_hit_def Let_def im_fail_code_eq passable_object
          answer_def dest!: hit [folded get] split: if_splits prod.splits sum.splits simp del: obj_put.simps)
    with status quiet found show ?thesis by blast
  qed
qed

text \<open>A value of another client under the own key of the client 2.\<close>

definition foreign_value :: json where
  "foreign_value = JObject [(''client_id'', JInt 99)]"

theorem simulator_check_never_fails_witness:
  "\<exists>doc s s' d. cache_sent ref_lib ''t'' 2 doc
    \<and> cache_peek 5 (cache_key @ to_string_int 2) s = Some (jl_write ref_lib foreign_value)
    \<and> cache_run ref_lib 5 (Own Cache_retrieve) \<lparr>im_id = 7, im_doc = doc\<rparr> s = Done s' [Reply 7 (jl_write ref_lib d)]
    \<and> sim_on_replied ref_lib \<lparr>bc_client_id = 2, bc_server_address = [], bc_module = ''Cache'', bc_kind = Sim_cache\<rparr> d = Inr []"
proof -
  let ?k = "cache_key @ to_string_int 2"
  let ?s = "cache_put 0 ?k 0 (jl_write ref_lib foreign_value) cache_new"
  obtain v where doc: "rbind (cache_message_2 ''t'' 2) (message_set ''@api_key'' (JString sim_api_key))
     = Inr (JObject [(''@api_key'', JString sim_api_key), (''key'', JString ?k), (''value'', v)])" (is "_ = Inr ?doc")
    using cache_messages(2) [of "''t''" 2] by blast
  have peek: "cache_peek 5 ?k ?s = Some (jl_write ref_lib foreign_value)"
    using cs.peek_put [of 0 5 ?k 0 "jl_write ref_lib foreign_value" cache_new]
    by (simp add: int32_def effective_age_def)
  have key: "request_key ref_lib \<lparr>im_id = 7, im_doc = ?doc\<rparr> = ?k"
    by (simp add: request_key_def get_string_def get_as_def message_find_plain plain_key_def)
  have "report_keys [?k]"
    using plain_own_key(1) [of 2] by (simp add: report_keys_def split_plain) (simp add: cache_key_def)
  then obtain d where run: "cache_retrieve ref_lib 5 \<lparr>im_id = 7, im_doc = ?doc\<rparr> ?s
      = Done (?s\<lparr>ca_hits := ca_hits ?s + 1\<rparr>) [Reply 7 (jl_write ref_lib d)]"
    using retrieve_hit_reply [OF key _ peek] plain_own_key(1) [of 2] by (auto simp: plain_key_def passable_object)
  have sent: "cache_sent ref_lib ''t'' 2 ?doc" using doc by (simp add: cache_sent_def)
  let ?c = "\<lparr>bc_client_id = 2, bc_server_address = [], bc_module = ''Cache'', bc_kind = Sim_cache\<rparr>"
  from simulator_check_never_fails [of ref_lib "''t''" ?c ?doc Cache_retrieve 5 7 ?s] run sent
  obtain d' where d': "cache_run ref_lib 5 (Own Cache_retrieve) \<lparr>im_id = 7, im_doc = ?doc\<rparr> ?s
      = Done (?s\<lparr>ca_hits := ca_hits ?s + 1\<rparr>) [Reply 7 (jl_write ref_lib d')]"
    "sim_on_replied ref_lib ?c d' = Inr []"
    by (auto simp: cache_run_def run_handler_def)
  with sent peek show ?thesis by blast
qed

section \<open>The routes of a started program\<close>

text \<open>Nothing else is routed than the status of the server and the routes of services.\<close>

definition routes_known :: "sys_handler dispatcher \<Rightarrow> bool" where
  "routes_known d \<longleftrightarrow> (\<forall>k. map_of (dp_routing d) k \<noteq> None \<longrightarrow> k = full_route ''Status'' ''status''
     \<or> (\<exists>m. \<exists>r \<in> set (service_routes m). k = full_route (service_ident m) (rt_name r)))"

lemma known_add_routes:
  "routes_known d \<Longrightarrow> set rs \<subseteq> set (service_routes m) \<Longrightarrow> routes_known (add_routes (service_ident m) rs d)"
  unfolding add_routes_def
proof (induction rs arbitrary: d)
  case (Cons r rs)
  have "routes_known (add_route (service_ident m) r d)"
    using Cons.prems unfolding routes_known_def by (auto simp: add_route_def map_of_um_emplace split: if_splits)
  from Cons.IH [OF this] Cons.prems(2) show ?case by simp
qed simp

lemma known_registered:
  "routes_known d \<Longrightarrow> routes_known (fold (\<lambda>m. add_routes (service_ident m) (service_routes m)) ms d)"
proof (induction ms arbitrary: d)
  case (Cons m ms)
  from Cons.IH [OF known_add_routes [OF Cons.prems subset_refl]] show ?case by simp
qed simp

lemma unknown_route:
  assumes "routes_known d" "no_colon name" "name \<notin> rt_name ` set (service_routes m)"
  shows "map_of (dp_routing d) (full_route (service_ident m) name) = None"
proof (rule ccontr)
  assume "map_of (dp_routing d) (full_route (service_ident m) name) \<noteq> None"
  with assms(1) consider "full_route (service_ident m) name = full_route ''Status'' ''status''"
    | m' r where "r \<in> set (service_routes m')" "full_route (service_ident m) name = full_route (service_ident m') (rt_name r)"
    unfolding routes_known_def by blast
  then show False
  proof cases
    case 1
    with full_route_split [of "''Status''" "''status''"] have "service_ident m = ''Status''" by (simp add: no_colon_def)
    then show False by (cases m) (simp_all add: module_idents del: service_ident.simps)
  next
    case 2
    with full_route_split [OF _ _ 2(2)] service_routes_names [of m'] have "service_ident m = service_ident m'" "name = rt_name r"
      by blast+
    moreover then have "m = m'" by (cases m; cases m') (simp_all add: module_idents del: service_ident.simps)
    ultimately show False using 2(1) assms(3) by blast
  qed
qed

definition known_server :: "sys_handler server \<times> services \<Rightarrow> bool" where
  "known_server sw \<longleftrightarrow> server_inv (fst sw) \<and> routes_known (sr_dispatcher (fst sw)) \<and> sr_listening (fst sw)
     \<and> (\<forall>m. server_target (fst sw) (service_ident m) = Some To_dispatcher)"

lemma deliver_objects:
  "sr_listening (fst (final_state sw (server_deliver L now run rm sw))) = sr_listening (fst sw)"
  "server_target (fst (final_state sw (server_deliver L now run rm sw))) = server_target (fst sw)"
proof -
  have "\<exists>d. fst (final_state sw (server_deliver L now run rm sw)) = (fst sw)\<lparr>sr_dispatcher := d\<rparr>
      \<or> fst (final_state sw (server_deliver L now run rm sw)) = fst sw"
    by (cases sw; cases "dispatch L now run rm (sr_dispatcher (fst sw), snd sw)")
      (auto simp: server_deliver_def is_node_alive_handler_def echo_def Let_def
        split: if_splits option.splits target.splits direct.splits)
  then show "sr_listening (fst (final_state sw (server_deliver L now run rm sw))) = sr_listening (fst sw)"
    "server_target (fst (final_state sw (server_deliver L now run rm sw))) = server_target (fst sw)"
    by (auto simp: server_target_def fun_eq_iff cong: option.case_cong)
qed

lemma known_server_step: "known_server sw \<Longrightarrow> known_server (sys_step L rg e sw)"
proof -
  assume k: "known_server sw"
  obtain s w where sw: "sw = (s, w)" by force
  have inv: "dispatcher_inv (sr_dispatcher s)" using k by (simp add: known_server_def server_inv_def sw)
  let ?D = "dispatch L (fst e) (sys_run L rg (fst e)) (snd e) (sr_dispatcher s, w)"
  have "sr_dispatcher (fst (sys_step L rg e sw)) \<in> {sr_dispatcher s, fst (final_state (sr_dispatcher s, w) ?D)}"
    using deliver_dispatcher [of sw L "fst e" "sys_run L rg (fst e)" "snd e"]
    by (simp add: sys_step_def sys_deliver_def sw)
  then have "dp_routing (sr_dispatcher (fst (sys_step L rg e sw))) = dp_routing (sr_dispatcher s)"
    using dispatch_fixed [OF inv, of w L "fst e" "sys_run L rg (fst e)" "snd e"] by auto
  then have "routes_known (sr_dispatcher (fst (sys_step L rg e sw)))"
    using k by (simp add: known_server_def routes_known_def sw)
  moreover have "server_inv (fst (sys_step L rg e sw))"
    using server_step_inv [of sw L "sys_run L rg (fst e)" e] k
    by (simp add: known_server_def server_step_def sys_step_def sys_deliver_def)
  ultimately show ?thesis
    using k deliver_objects [of sw L "fst e" "sys_run L rg (fst e)" "snd e"]
    by (simp add: known_server_def sys_step_def sys_deliver_def)
qed

interpretation known: event_system "sys_step L rg" known_server for L rg
  by unfold_locales (rule known_server_step)

text \<open>The server of a started program: its dispatcher has what was registered, and its objects lead there.\<close>

lemma main_server_shape:
  assumes "main_start X now progname args w = (Inr r, w')"
  shows "\<exists>ms options. sr_dispatcher (rn_server r)
      = fold (\<lambda>m. add_routes (service_ident m) (service_routes m)) ms (dispatcher_new options)"
    and "sr_listening (rn_server r)" and "server_target (rn_server r) ''Status'' = Some To_dispatcher"
    and "server_target (rn_server r) (service_ident m) = Some To_dispatcher"
proof -
  obtain f vm w1 r0 debug s' where r0: "main_setup X now vm f w1 = (Inr r0, w')"
    and s': "fst (server_start (ou_listen X)
        (if debug then server_register_object ''echo'' (To_direct Echo) (rn_server r0) else rn_server r0)) = Inr s'"
    and r: "r = r0\<lparr>rn_server := s', rn_manager := manager_start_thread (manager_finds (fst (ou_stale X)) (rn_manager r0))\<rparr>"
    using main_start_parts [OF assms] by metis
  let ?s = "if debug then server_register_object ''echo'' (To_direct Echo) (rn_server r0) else rn_server r0"
  from main_setup_server [OF r0] obtain options where
    s: "rn_server r0 = fold (\<lambda>m. server_register_module (service_ident m) (service_routes m)) (manager_modules (rn_manager r0)) (server_new options)"
    by (auto simp: manager_register_routing_def)
  have d: "sr_dispatcher ?s = fold (\<lambda>m. add_routes (service_ident m) (service_routes m)) (manager_modules (rn_manager r0)) (dispatcher_new options)"
    by (simp add: s register_routing_dispatcher server_register_object_def server_new_def)
  obtain s'' where st: "server_start (ou_listen X) ?s = (Inr s', s'')" using s' by (metis prod.collapse)
  note start = start_objects [OF st]
  show "\<exists>ms options. sr_dispatcher (rn_server r)
      = fold (\<lambda>m. add_routes (service_ident m) (service_routes m)) ms (dispatcher_new options)"
    and "sr_listening (rn_server r)" using start d r by auto
  show "server_target (rn_server r) ''Status'' = Some To_dispatcher"
    using st r by (auto simp: server_start_def Let_def server_register_object_def server_target_def update_conv'
        split: sum.splits)
  have ne: "service_ident m \<noteq> ''ping'' \<and> service_ident m \<noteq> ''echo''"
    by (cases m) (simp_all add: module_idents del: service_ident.simps)
  have "map_of (sr_objects (rn_server r0)) (service_ident m) \<in> {None, Some To_dispatcher}"
    unfolding s register_routing_objects by (simp add: server_new_def)
  with ne have "map_of (sr_objects ?s) (service_ident m) \<in> {None, Some To_dispatcher}"
    by (simp add: server_register_object_def update_conv' del: service_ident.simps)
  with ne start r show "server_target (rn_server r) (service_ident m) = Some To_dispatcher"
    by (auto simp del: service_ident.simps)
qed

lemma main_known:
  assumes "main_start X now progname args w = (Inr r, w')"
  shows "known_server (rn_server r, rn_services r)"
proof -
  have "routes_known (dispatcher_new options)" for options
    by (simp add: routes_known_def dispatcher_new_routing full_route_def)
  then show ?thesis
    using main_server_shape [OF assms] services_registered(1) [OF dispatcher_inv_new dispatcher_new_closed]
    by (auto simp: known_server_def server_inv_def known_registered simp del: service_ident.simps)
qed

text \<open>A message to a service under a name none of its routes has.\<close>

lemma transmit_unrouted:
  assumes "N a = Some (s, w)" "known_server (s, w)" "no_colon name" "name \<notin> rt_name ` set (service_routes m)"
  shows "\<exists>s'. transmit L rg clock a (service_ident m) name t (N, n)
      = (Some \<lparr>om_state = Rejected, om_reply = None, om_exception = []\<rparr>, (N(a \<mapsto> (s', w)), Suc n))
    \<and> known_server (s', w)
    \<and> st_unroutable (dp_stats (sr_dispatcher s')) = st_unroutable (dp_stats (sr_dispatcher s)) + 1"
proof -
  let ?rm = "\<lparr>rm_id = n, rm_object = service_ident m, rm_name = name, rm_message = Some t\<rparr>"
  let ?d = "count_module one_unroutable (service_ident m) (count_server one_unroutable (count_server one_request (sr_dispatcher s)))"
  have s: "sr_listening s" "server_target s (service_ident m) = Some To_dispatcher" "routes_known (sr_dispatcher s)"
    using assms(2) by (simp_all add: known_server_def)
  have "map_of (dp_routing (sr_dispatcher s)) (full_route (rm_object ?rm) (rm_name ?rm)) = None"
    using unknown_route [OF s(3) assms(3,4)] by simp
  from dispatch_unroutable [OF this, of L "clock n" "sys_run L rg (clock n)" w]
  have e: "sys_deliver L rg (clock n, ?rm) (s, w) = Done (s\<lparr>sr_dispatcher := ?d\<rparr>, w) [Reject n []]"
    using deliver_dispatched [OF s(1), of ?rm L "clock n" "sys_run L rg (clock n)" w] s(2)
    by (simp add: sys_deliver_def del: service_ident.simps)
  have "known_server (s\<lparr>sr_dispatcher := ?d\<rparr>, w)"
    using known_server_step [OF assms(2), of L rg "(clock n, ?rm)"] e by (simp add: sys_step_def)
  moreover have "st_unroutable (dp_stats ?d) = st_unroutable (dp_stats (sr_dispatcher s)) + 1"
    by (simp add: count_server_def one_unroutable_def one_request_def)
  moreover have "transmit L rg clock a (service_ident m) name t (N, n)
      = (Some \<lparr>om_state = Rejected, om_reply = None, om_exception = []\<rparr>, (N(a \<mapsto> (s\<lparr>sr_dispatcher := ?d\<rparr>, w)), Suc n))"
    using assms(1) e by (simp add: transmit_def Let_def answer_of_def)
  ultimately show ?thesis by (intro exI [of _ "s\<lparr>sr_dispatcher := ?d\<rparr>"]) simp
qed

lemma sim_call_unrouted:
  assumes "N a = Some (s, w)" "known_server (s, w)" "no_colon name" "name \<notin> rt_name ` set (service_routes m)"
    and "bc_server_address c = a" "bc_module c = service_ident m"
    and "message_set ''@api_key'' (JString sim_api_key) msg = Inr msg'"
  shows "\<exists>s'. sim_call L (network_agent L rg clock) c name timeout msg (N, n)
      = (Inr (msg', []), (N(a \<mapsto> (s', w)), Suc n)) \<and> known_server (s', w)
    \<and> st_unroutable (dp_stats (sr_dispatcher s')) = st_unroutable (dp_stats (sr_dispatcher s)) + 1"
proof -
  from transmit_unrouted [where N = N and a = a and m = m and L = L and rg = rg and clock = clock and n = n
      and t = "message_to_string L [] False msg'", OF assms(1-4)] obtain s' where
    "transmit L rg clock a (service_ident m) name (message_to_string L [] False msg') (N, n)
      = (Some \<lparr>om_state = Rejected, om_reply = None, om_exception = []\<rparr>, (N(a \<mapsto> (s', w)), Suc n))"
    "known_server (s', w)" "st_unroutable (dp_stats (sr_dispatcher s')) = st_unroutable (dp_stats (sr_dispatcher s)) + 1"
    by blast
  with assms(5-7) show ?thesis
    by (intro exI [of _ s']) (simp add: sim_call_def network_agent_def act_bind_def act_lift_def del: service_ident.simps)
qed

lemma resolver_message_keyed:
  "\<exists>m. resolver_message = Inr m \<and> message_set ''@api_key'' (JString sim_api_key) m = Inr m"
  by (simp add: resolver_message_def message_new_def message_set_plain plain_key_def obj_sorted_def less_char_def)

text \<open>
  C38. The simulator puts no load on the resolver: the routes its resolver client calls do not exist. In
  any started program that is still there after any messages and turns of its threads, a run of that client is three messages that are rejected and
  counted as unroutable; the services stay as they are.
\<close>

theorem simulator_resolver_rejected:
  assumes "main_start X now progname args v = (Inr r, v')" and "running_after L rg es r = Some r'"
    and "N a = Some (rn_server r', rn_services r')"
    and "bc_kind c = Sim_resolver" and "bc_module c = kind_module Sim_resolver" and "bc_server_address c = a"
  shows "\<exists>s'. sim_run L (network_agent L rg clock) c thread_id (N, n)
      = (Inr [], (N(a \<mapsto> (s', rn_services r')), n + 3))
    \<and> st_unroutable (dp_stats (sr_dispatcher s')) = st_unroutable (dp_stats (sr_dispatcher (rn_server r'))) + 3"
proof -
  have known: "known_server (rn_server r', rn_services r')"
    by (rule running_after_server [OF assms(2), where P = known_server])
      (simp_all add: main_known [OF assms(1)] known.react_inv, simp add: known_server_def)
  have names: "no_colon name \<and> name \<notin> rt_name ` set (service_routes S_resolver)"
    if "name \<in> {''bind'', ''resolve'', ''unbind''}" for name
    using that by (auto simp: resolver_module_def builtin_new_routes module_new_def no_colon_def)
  obtain m where m: "resolver_message = Inr m" "message_set ''@api_key'' (JString sim_api_key) m = Inr m"
    using resolver_message_keyed by blast
  have call: "\<exists>s'. sim_call L (network_agent L rg clock) c name (- 1) m (M, k)
      = (Inr (m, []), (M(a \<mapsto> (s', w)), Suc k)) \<and> known_server (s', w)
    \<and> st_unroutable (dp_stats (sr_dispatcher s')) = st_unroutable (dp_stats (sr_dispatcher s)) + 1"
    if "M a = Some (s, w)" "known_server (s, w)" "name \<in> {''bind'', ''resolve'', ''unbind''}" for M s w k name
    using sim_call_unrouted [where N = M and m = S_resolver and L = L and rg = rg and clock = clock and n = k and timeout = "- 1", OF that(1,2) conjunct1 [OF names [OF that(3)]] conjunct2 [OF names [OF that(3)]] assms(6) _ m(2)]
      assms(5) by (simp add: module_idents del: service_ident.simps)
  let ?A = "network_agent L rg clock"
  obtain s1 where 1: "sim_call L ?A c ''bind'' (- 1) m (N, n) = (Inr (m, []), (N(a \<mapsto> (s1, rn_services r')), Suc n))"
    "known_server (s1, rn_services r')"
    "st_unroutable (dp_stats (sr_dispatcher s1)) = st_unroutable (dp_stats (sr_dispatcher (rn_server r'))) + 1"
    using call [of N "rn_server r'" "rn_services r'" "''bind''" n] assms(3) known by blast
  obtain s2 where 2: "sim_call L ?A c ''resolve'' (- 1) m (N(a \<mapsto> (s1, rn_services r')), Suc n)
      = (Inr (m, []), (N(a \<mapsto> (s2, rn_services r')), Suc (Suc n)))"
    "known_server (s2, rn_services r')" "st_unroutable (dp_stats (sr_dispatcher s2)) = st_unroutable (dp_stats (sr_dispatcher s1)) + 1"
    using call [of "N(a \<mapsto> (s1, rn_services r'))" s1 "rn_services r'" "''resolve''" "Suc n"] 1(2) unfolding fun_upd_upd by auto
  obtain s3 where 3: "sim_call L ?A c ''unbind'' (- 1) m (N(a \<mapsto> (s2, rn_services r')), Suc (Suc n))
      = (Inr (m, []), (N(a \<mapsto> (s3, rn_services r')), Suc (Suc (Suc n))))"
    "st_unroutable (dp_stats (sr_dispatcher s3)) = st_unroutable (dp_stats (sr_dispatcher s2)) + 1"
    using call [of "N(a \<mapsto> (s2, rn_services r'))" s2 "rn_services r'" "''unbind''" "Suc (Suc n)"] 2(2) unfolding fun_upd_upd by auto
  have "sim_run L ?A c thread_id (N, n) = (Inr [], (N(a \<mapsto> (s3, rn_services r')), n + 3))"
    using 1(1) 2(1) 3(1) m(1) assms(4)
    by (simp add: sim_run_def resolver_client_run_def)
  with 1(3) 2(3) 3(2) show ?thesis by auto
qed

theorem simulator_resolver_rejected_witness:
  "\<exists>r s'. (\<exists>v'. main_start sample_outside 5 ''bin/nix'' [''foreground'', ''enable-cache'', ''development-mode''] [] = (Inr r, v'))
    \<and> sim_run ref_lib (network_agent ref_lib (\<lambda>_. ''id'') int)
        \<lparr>bc_client_id = 1, bc_server_address = ''tcp://127.0.0.1:9999'', bc_module = ''Resolver'', bc_kind = Sim_resolver\<rparr> ''t''
        ([''tcp://127.0.0.1:9999'' \<mapsto> (rn_server r, rn_services r)], 0)
      = (Inr [], ([''tcp://127.0.0.1:9999'' \<mapsto> (s', rn_services r)], 3))"
proof -
  obtain r v' where r: "main_start sample_outside 5 ''bin/nix'' [''foreground'', ''enable-cache'', ''development-mode''] [] = (Inr r, v')"
    using sample_start [OF sample_options(3,4)] by auto
  have "running_after ref_lib (\<lambda>_. ''id'') [] r = Some r" by (simp add: running_after_def)
  with simulator_resolver_rejected [OF r this, where clock = int and n = 0
      and N = "[''tcp://127.0.0.1:9999'' \<mapsto> (rn_server r, rn_services r)]" and thread_id = "''t''"
      and c = "\<lparr>bc_client_id = 1, bc_server_address = ''tcp://127.0.0.1:9999'', bc_module = ''Resolver'', bc_kind = Sim_resolver\<rparr>"] r
  show ?thesis by auto
qed

end
