(* ===== verification/Nix_Sim_Status.thy ===== *)
theory Nix_Sim_Status
  imports Nix_Simulator
begin

text \<open>
  The status client of the simulator against the status of the server: the table it prints is the counters
  of the dispatcher.
\<close>

section \<open>The status report as a document\<close>

definition stat_column :: "string \<Rightarrow> server_stats \<Rightarrow> 64 word" where
  "stat_column h st = (if h = ''requests'' then st_requests st else if h = ''auth_errors'' then st_auth_errors st
     else if h = ''unroutable'' then st_unroutable st else st_rejected st)"

definition total_key :: "string \<Rightarrow> string" where
  "total_key h = ''stats.'' @ h"

definition module_key :: "string \<Rightarrow> string \<Rightarrow> string" where
  "module_key m h = ''stats.'' @ m @ ''.'' @ h"

lemma stats_entries_columns:
  "stats_entries ''stats'' st = map (\<lambda>h. (total_key h, JInt (sint (stat_column h st)))) status_header"
  "stats_entries (''stats.'' @ m) st = map (\<lambda>h. (module_key m h, JInt (sint (stat_column h st)))) status_header"
  by (simp_all add: stats_entries_def status_header_def stat_column_def total_key_def module_key_def)

definition asked_entries :: "'h dispatcher \<Rightarrow> (string \<times> json) list" where
  "asked_entries d = (''nodename'', JString (so_nodename (dp_options d)))
     # map (\<lambda>h. (total_key h, JInt (sint (stat_column h (dp_stats d))))) status_header
     @ map (\<lambda>((m, st), h). (module_key m h, JInt (sint (stat_column h st)))) (List.product (dp_module_stats d) status_header)"

lemma product_map: "map f (List.product xs ys) = concat (map (\<lambda>x. map (\<lambda>y. f (x, y)) ys) xs)"
  by (induction xs) simp_all

text \<open>The names of modules: none contains a dot or is the name of a column.\<close>

definition stats_module :: "string \<Rightarrow> bool" where
  "stats_module m \<longleftrightarrow> m = ''Status'' \<or> m \<in> range service_ident"

lemma stats_module_plain: "stats_module m \<Longrightarrow> plain_key m \<and> m \<notin> set status_header"
proof -
  have "plain_key (service_ident x) \<and> service_ident x \<notin> set status_header" for x
    by (cases x) (simp_all add: module_idents plain_key_def status_header_def del: service_ident.simps)
  then show "stats_module m \<Longrightarrow> plain_key m \<and> m \<notin> set status_header"
    unfolding stats_module_def by (auto simp: plain_key_def status_header_def)
qed

lemma header_plain: "h \<in> set status_header \<Longrightarrow> plain_key h"
  by (auto simp: status_header_def plain_key_def)

lemma key_paths:
  "split ''nodename'' ''.'' = [''nodename'']"
  "h \<in> set status_header \<Longrightarrow> split (total_key h) ''.'' = [''stats'', h]"
  "h \<in> set status_header \<Longrightarrow> stats_module m \<Longrightarrow> split (module_key m h) ''.'' = [''stats'', m, h]"
proof -
  have stats: "split (''stats.'' @ x) ''.'' = ''stats'' # split x ''.''" for x
    using split_dotted [of "''stats''" x] by (simp add: plain_key_def)
  show "split ''nodename'' ''.'' = [''nodename'']" by (simp add: split_plain plain_key_def)
  show "h \<in> set status_header \<Longrightarrow> split (total_key h) ''.'' = [''stats'', h]"
    using stats [of h] by (simp add: total_key_def split_plain header_plain)
  show "split (module_key m h) ''.'' = [''stats'', m, h]" if "h \<in> set status_header" "stats_module m"
    using stats [of "m @ ''.'' @ h"] split_dotted [of m h] split_plain [OF header_plain [OF that(1)]]
      stats_module_plain [OF that(2)] by (simp add: module_key_def)
qed

lemma keys_apart:
  assumes "h \<in> set status_header" "h' \<in> set status_header" "stats_module m" "stats_module m'"
  shows "apart ''nodename'' (total_key h)" "apart ''nodename'' (module_key m h)" "apart (total_key h) (module_key m h')"
    "h \<noteq> h' \<Longrightarrow> apart (total_key h) (total_key h')" "(m, h) \<noteq> (m', h') \<Longrightarrow> apart (module_key m h) (module_key m' h')"
  using assms stats_module_plain by (auto simp: apart_def key_paths)

lemma keys_differ:
  assumes "h \<in> set status_header" "h' \<in> set status_header" "stats_module m" "stats_module m'"
  shows "total_key h \<noteq> ''nodename''" "module_key m h \<noteq> ''nodename''" "total_key h \<noteq> module_key m h'"
    "total_key h = total_key h' \<longleftrightarrow> h = h'" "module_key m h = module_key m' h' \<longleftrightarrow> m = m' \<and> h = h'"
proof -
  note p = key_paths(1) key_paths(2) [OF assms(1)] key_paths(2) [OF assms(2)] key_paths(3) [OF assms(1,3)]
    key_paths(3) [OF assms(2,3)] key_paths(3) [OF assms(2,4)]
  show "total_key h \<noteq> ''nodename''" "module_key m h \<noteq> ''nodename''" "total_key h \<noteq> module_key m h'"
    using p by (metis list.distinct(1) list.inject)+
  show "total_key h = total_key h' \<longleftrightarrow> h = h'" "module_key m h = module_key m' h' \<longleftrightarrow> m = m' \<and> h = h'"
    using p by (metis list.inject)+
qed

definition stats_known :: "'h dispatcher \<Rightarrow> bool" where
  "stats_known d \<longleftrightarrow> distinct (keys (dp_module_stats d)) \<and> (\<forall>m \<in> set (keys (dp_module_stats d)). stats_module m)"

lemma asked_keys:
  "keys (asked_entries d) = ''nodename'' # map total_key status_header
     @ map (\<lambda>((m, st), h). module_key m h) (List.product (dp_module_stats d) status_header)"
  by (simp add: asked_entries_def case_prod_unfold comp_def)

lemma asked_keyE:
  assumes "stats_known d" "k \<in> set (keys (asked_entries d))"
  obtains "k = ''nodename''" | h where "h \<in> set status_header" "k = total_key h"
  | m h where "h \<in> set status_header" "stats_module m" "m \<in> set (keys (dp_module_stats d))" "k = module_key m h"
proof -
  from assms(2) consider "k = ''nodename''" | "k \<in> set (map total_key status_header)"
    | "k \<in> set (map (\<lambda>((m, st), h). module_key m h) (List.product (dp_module_stats d) status_header))"
    unfolding asked_keys by (simp only: list.set set_append) blast
  then show thesis
  proof cases
    case 3
    then obtain m st h where "(m, st) \<in> set (dp_module_stats d)" "h \<in> set status_header" "k = module_key m h" by auto
    with assms(1) that(3) [of h m] show thesis by (force simp: stats_known_def)
  qed (use that in auto)
qed

lemma asked_apart:
  assumes "stats_known d" "k \<in> set (keys (asked_entries d))" "l \<in> set (keys (asked_entries d))" "k \<noteq> l"
  shows "apart k l"
  by (rule asked_keyE [OF assms(1,2)]; rule asked_keyE [OF assms(1,3)])
    (use assms(4) stats_module_plain in \<open>auto simp: apart_def key_paths\<close>)+

lemma asked_distinct: "stats_known d \<Longrightarrow> distinct (keys (asked_entries d))"
proof -
  assume s: "stats_known d"
  then have names: "stats_module m" if "(m, st) \<in> set (dp_module_stats d)" for m st
    using that by (force simp: stats_known_def)
  have d: "distinct status_header" "distinct (dp_module_stats d)"
    using s by (auto simp: stats_known_def distinct_map status_header_def)
  have "m = m' \<and> h = h'" if "(m, st) \<in> set (dp_module_stats d)" "(m', st') \<in> set (dp_module_stats d)"
    "h \<in> set status_header" "h' \<in> set status_header" "module_key m h = module_key m' h'" for m st m' st' h h'
    using keys_differ(5) [OF that(3,4) names [OF that(1)] names [OF that(2)]] that(5) by simp
  moreover have "st = st'" if "(m, st) \<in> set (dp_module_stats d)" "(m, st') \<in> set (dp_module_stats d)" for m st st'
    using s that by (metis eq_key_imp_eq_value stats_known_def)
  ultimately have "inj_on (\<lambda>((m, st), h). module_key m h) (set (List.product (dp_module_stats d) status_header))"
    by (intro inj_onI) (clarsimp, blast)
  then have "distinct (map (\<lambda>((m, st), h). module_key m h) (List.product (dp_module_stats d) status_header))"
    using d by (simp add: distinct_map distinct_product)
  moreover have "distinct (map total_key status_header)"
    using d(1) by (auto simp: distinct_map inj_on_def total_key_def)
  moreover have "set (map total_key status_header)
      \<inter> set (map (\<lambda>((m, st), h). module_key m h) (List.product (dp_module_stats d) status_header)) = {}"
    using names keys_differ(3) by (fastforce simp: image_iff)
  moreover have "''nodename'' \<notin> set (map total_key status_header)
      \<union> set (map (\<lambda>((m, st), h). module_key m h) (List.product (dp_module_stats d) status_header))"
  proof -
    have "''nodename'' \<noteq> module_key m h" if "(m, st) \<in> set (dp_module_stats d)" "h \<in> set status_header" for m st h
      using keys_differ(2) [OF that(2,2) names [OF that(1)] names [OF that(1)]] by metis
    moreover have "''nodename'' \<noteq> total_key h" for h by (simp add: total_key_def)
    ultimately show ?thesis by (auto simp: image_iff)
  qed
  ultimately show ?thesis unfolding asked_keys by simp
qed

lemma asked_report_keys:
  assumes "stats_known d"
  shows "report_keys (keys (asked_entries d))"
proof -
  have "split k ''.'' \<noteq> [] \<and> hd (split k ''.'') \<noteq> ''@status_code''" if "k \<in> set (keys (asked_entries d))" for k
    using assms that by (rule asked_keyE) (simp_all add: key_paths)
  moreover have "pairwise apart (set (keys (asked_entries d)))"
    using asked_apart [OF assms] by (simp add: pairwise_def)
  moreover have "keys (asked_entries d) \<noteq> []" by (simp add: asked_keys)
  ultimately show ?thesis using asked_distinct [OF assms] unfolding report_keys_def by blast
qed

text \<open>What the status client's request asks for, and the document it is answered with.\<close>

definition status_request :: json where
  "status_request = JObject [(''@api_key'', JString sim_api_key), (''module_stats'', JBool True), (''stats'', JBool True)]"

definition status_report :: "'h dispatcher \<Rightarrow> json" where
  "status_report d = (case rbind (set_all (asked_entries d) message_new) (set_status_code Ok) of Inr r \<Rightarrow> r | Inl _ \<Rightarrow> JNull)"

lemma module_entries:
  "concat (map (\<lambda>(m, st). stats_entries (''stats.'' @ m) st) ms)
     = map (\<lambda>((m, st), h). (module_key m h, JInt (sint (stat_column h st)))) (List.product ms status_header)"
  unfolding stats_entries_columns product_map by (simp add: case_prod_unfold)

lemma status_request_entries:
  "jlib_ok L \<Longrightarrow> status_entries L now status_request d = asked_entries d"
  unfolding status_entries_def module_entries stats_entries_columns(1)
  by (simp add: Let_def get_bool_def get_as_def status_request_def message_find_plain plain_key_def
      jlib_okD asked_entries_def)

lemma status_reported:
  assumes "jlib_ok L" "stats_known d"
  shows "server_status L now \<lparr>im_id = i, im_doc = status_request\<rparr> d = Done d [Reply i (jl_write L (status_report d))]"
    and "h \<in> set status_header \<Longrightarrow> message_find (total_key h) (status_report d) = Some (JInt (sint (stat_column h (dp_stats d))))"
    and "h \<in> set status_header \<Longrightarrow> stats_module m \<Longrightarrow> message_find (module_key m h) (status_report d)
      = map_option (\<lambda>st. JInt (sint (stat_column h st))) (map_of (dp_module_stats d) m)"
proof -
  note ks = asked_report_keys [OF assms(2)]
  have r: "asked_entries d \<noteq> []" "distinct (keys (asked_entries d))" "pairwise apart (set (keys (asked_entries d)))"
    "\<And>k. k \<in> set (keys (asked_entries d)) \<Longrightarrow> split k ''.'' \<noteq> []"
    using ks by (auto simp: report_keys_def)
  have "\<not> overruns k l" if "k \<in> set (keys (asked_entries d))" "l \<in> set (keys (asked_entries d))" for k l
    using that r(3) apart_not_overruns by (metis not_overruns_self pairwiseD)
  then obtain ms where ms: "set_all (asked_entries d) message_new = Inr (JObject ms)"
    using set_all_blank [of message_new "asked_entries d"] r(1,4) by (auto simp: message_new_def)
  have rep: "status_report d = JObject (obj_put ''@status_code'' (JInt (code_of Ok)) ms)"
    by (simp add: status_report_def ms set_status_code_def)
  have reset: "get_bool L ''reset'' False status_request = False"
    by (simp add: get_bool_def get_as_def status_request_def message_find_plain plain_key_def)
  show "server_status L now \<lparr>im_id = i, im_doc = status_request\<rparr> d = Done d [Reply i (jl_write L (status_report d))]"
    using ms reset by (simp add: server_status_def status_request_entries [OF assms(1)] rep im_reply_msg_object)
  have beside: "message_find k (status_report d) = message_find k (JObject ms)" if "split k ''.'' = ''stats'' # xs" for k xs
    unfolding rep using find_beside [OF that] by simp
  show "message_find (total_key h) (status_report d) = Some (JInt (sint (stat_column h (dp_stats d))))" if h: "h \<in> set status_header"
  proof -
    have "(total_key h, JInt (sint (stat_column h (dp_stats d)))) \<in> set (asked_entries d)"
      using h by (simp add: asked_entries_def)
    with set_all_lookup [OF ms r(3,2)] beside [OF key_paths(2) [OF h]] show ?thesis by simp
  qed
  show "message_find (module_key m h) (status_report d)
      = map_option (\<lambda>st. JInt (sint (stat_column h st))) (map_of (dp_module_stats d) m)"
    if h: "h \<in> set status_header" "stats_module m"
  proof (cases "map_of (dp_module_stats d) m")
    case (Some st)
    then have "(m, st) \<in> set (dp_module_stats d)" by (rule map_of_SomeD)
    then have "(module_key m h, JInt (sint (stat_column h st))) \<in> set (asked_entries d)"
      using h by (force simp: asked_entries_def)
    with Some set_all_lookup [OF ms r(3,2)] beside [OF key_paths(3) [OF h]] show ?thesis by simp
  next
    case None
    then have m: "m \<notin> set (keys (dp_module_stats d))" by (simp add: map_of_eq_None_iff)
    have "apart k (module_key m h)" if "k \<in> set (keys (asked_entries d))" for k
      by (rule asked_keyE [OF assms(2) that])
        (use m h stats_module_plain in \<open>auto simp: apart_def key_paths\<close>)
    then have "message_find (module_key m h) (JObject ms) = message_find (module_key m h) message_new"
      by (rule set_all_other [OF ms])
    with beside [OF key_paths(3) [OF h]] None show ?thesis
      by (simp add: message_new_def) (simp add: message_find_object key_paths h)
  qed
qed

section \<open>The dispatcher of a started program\<close>

text \<open>Messages change counters, not which modules have them.\<close>

lemma count_module_keys [simp]: "keys (dp_module_stats (count_module f m d)) = keys (dp_module_stats d)"
  by (auto simp: count_module_def update_keys map_of_eq_None_iff image_iff split: option.split dest!: map_of_SomeD)

lemma other_keys [simp]:
  "keys (dp_module_stats (checked L doc r m d)) = keys (dp_module_stats d)"
  "keys (dp_module_stats (reset_stats d)) = keys (dp_module_stats d)"
  by (simp_all add: checked_def Let_def reset_stats_def case_prod_unfold comp_def)

lemma dispatch_stats_keys:
  assumes "dispatcher_inv d"
  shows "keys (dp_module_stats (fst (final_state (d, w) (dispatch L now run rm (d, w))))) = keys (dp_module_stats d)"
proof (cases "map_of (dp_routing d) (full_route (rm_object rm) (rm_name rm))")
  case None
  then show ?thesis by (simp add: dispatch_unroutable)
next
  case (Some r)
  note eq = dispatch_routed [OF Some routed_counted [OF assms Some]]
  show ?thesis
  proof (cases "parsed L rm")
    case (Inl e)
    then show ?thesis by (simp add: eq)
  next
    case (Inr doc)
    let ?d3 = "checked L doc r (rm_object rm) d"
    have own: "fst (final_state (d, w) (map_outcome_state (\<lambda>d'. (d', w)) (server_status L now im ?d3)))
        = final_state ?d3 (server_status L now im ?d3)" for im
      by (subst final_map_outcome_any [where s = ?d3]) simp
    have st: "keys (dp_module_stats (final_state ?d3 (server_status L now im ?d3))) = keys (dp_module_stats d)" for im
      using server_status_states [of ?d3 L now im] by auto
    have other: "fst (final_state (d, w) (map_outcome_state (\<lambda>w'. (?d3, w')) (run h im w))) = ?d3" for h im
      by (subst final_map_outcome_any [where s = w]) simp
    from Inr own st other show ?thesis
      by (simp add: eq Let_def final_state_answer split: sum.split bound.split)
  qed
qed

lemma stats_known_keys: "stats_known d \<Longrightarrow> keys (dp_module_stats d') = keys (dp_module_stats d) \<Longrightarrow> stats_known d'"
  by (simp add: stats_known_def del: set_map)

definition status_route :: "sys_handler bound route" where
  "status_route = route_new ''status'' Server_status API_PRIVATE SYNC []"

definition status_server :: "sys_handler server \<times> services \<Rightarrow> bool" where
  "status_server sw \<longleftrightarrow> server_inv (fst sw) \<and> stats_known (sr_dispatcher (fst sw)) \<and> sr_listening (fst sw)
     \<and> server_target (fst sw) ''Status'' = Some To_dispatcher
     \<and> map_of (dp_routing (sr_dispatcher (fst sw))) (full_route ''Status'' ''status'') = Some status_route"

lemma status_server_step: "status_server sw \<Longrightarrow> status_server (sys_step L rg e sw)"
proof -
  assume k: "status_server sw"
  obtain s w where sw: "sw = (s, w)" by force
  have inv: "dispatcher_inv (sr_dispatcher s)" using k by (simp add: status_server_def server_inv_def sw)
  let ?D = "dispatch L (fst e) (sys_run L rg (fst e)) (snd e) (sr_dispatcher s, w)"
  have "sr_dispatcher (fst (sys_step L rg e sw)) \<in> {sr_dispatcher s, fst (final_state (sr_dispatcher s, w) ?D)}"
    using deliver_dispatcher [of sw L "fst e" "sys_run L rg (fst e)" "snd e"]
    by (simp add: sys_step_def sys_deliver_def sw)
  then have "dp_routing (sr_dispatcher (fst (sys_step L rg e sw))) = dp_routing (sr_dispatcher s)"
    "keys (dp_module_stats (sr_dispatcher (fst (sys_step L rg e sw)))) = keys (dp_module_stats (sr_dispatcher s))"
    using dispatch_fixed [OF inv, of w L "fst e" "sys_run L rg (fst e)" "snd e"]
      dispatch_stats_keys [OF inv, of w L "fst e" "sys_run L rg (fst e)" "snd e"] by auto
  moreover have "server_inv (fst (sys_step L rg e sw))"
    using server_step_inv [of sw L "sys_run L rg (fst e)" e] k
    by (simp add: status_server_def server_step_def sys_step_def sys_deliver_def)
  ultimately show ?thesis
    using k deliver_objects [of sw L "fst e" "sys_run L rg (fst e)" "snd e"] stats_known_keys [of "sr_dispatcher s"]
    by (simp add: status_server_def sys_step_def sys_deliver_def sw del: set_map)
qed

interpretation status: event_system "sys_step L rg" status_server for L rg
  by unfold_locales (rule status_server_step)

lemma stats_known_registered:
  "stats_known d \<Longrightarrow> stats_known (fold (\<lambda>m. add_routes (service_ident m) (service_routes m)) ms d)"
proof -
  have one: "stats_known d \<Longrightarrow> stats_known (add_route (service_ident m) r d)" for m r and d :: "sys_handler dispatcher"
  proof -
    assume "stats_known d"
    moreover have "keys (dp_module_stats (add_route (service_ident m) r d)) = keys (dp_module_stats d)
        \<or> keys (dp_module_stats (add_route (service_ident m) r d)) = keys (dp_module_stats d) @ [service_ident m]
          \<and> service_ident m \<notin> set (keys (dp_module_stats d))"
      by (simp add: add_route_def um_emplace_def um_count_iff update_keys del: service_ident.simps)
    moreover have "stats_module (service_ident m)" by (simp add: stats_module_def del: service_ident.simps)
    ultimately show "stats_known (add_route (service_ident m) r d)"
      unfolding stats_known_def by (auto simp del: service_ident.simps set_map)
  qed
  have "stats_known d \<Longrightarrow> stats_known (add_routes (service_ident m) rs d)" for m rs and d :: "sys_handler dispatcher"
    unfolding add_routes_def by (induction rs arbitrary: d) (simp_all add: one)
  then show "stats_known d \<Longrightarrow> stats_known (fold (\<lambda>m. add_routes (service_ident m) (service_routes m)) ms d)"
    by (induction ms arbitrary: d) simp_all
qed

lemma route_kept_registered:
  "map_of (dp_routing d) k = Some r \<Longrightarrow>
     map_of (dp_routing (fold (\<lambda>m. add_routes (service_ident m) (service_routes m)) ms d)) k = Some r"
proof -
  have "map_of (dp_routing d) k = Some r \<Longrightarrow> map_of (dp_routing (add_route m x d)) k = Some r"
    for m x and d :: "sys_handler dispatcher"
    by (auto simp: add_route_def map_of_um_emplace um_count_def)
  then have "map_of (dp_routing d) k = Some r \<Longrightarrow> map_of (dp_routing (add_routes m rs d)) k = Some r"
    for m rs and d :: "sys_handler dispatcher"
    unfolding add_routes_def by (induction rs arbitrary: d) simp_all
  then show "map_of (dp_routing d) k = Some r \<Longrightarrow>
     map_of (dp_routing (fold (\<lambda>m. add_routes (service_ident m) (service_routes m)) ms d)) k = Some r"
    by (induction ms arbitrary: d) simp_all
qed

lemma main_status_server:
  assumes "main_start X now progname args w = (Inr r, w')"
  shows "status_server (rn_server r, rn_services r)"
proof -
  have "stats_known (dispatcher_new options :: sys_handler dispatcher)" for options
    by (simp add: stats_known_def dispatcher_new_def add_route_def um_emplace_def um_count_def stats_module_def)
  moreover have "map_of (dp_routing (dispatcher_new options)) (full_route ''Status'' ''status'') = Some status_route" for options
    by (simp add: dispatcher_new_routing full_route_def status_route_def)
  ultimately show ?thesis
    using main_server_shape(1-3) [OF assms] services_registered(1) [OF dispatcher_inv_new dispatcher_new_closed]
    by (auto simp: status_server_def server_inv_def stats_known_registered route_kept_registered)
qed

text \<open>All counters start at zero.\<close>

definition counts_nothing :: "'h dispatcher \<Rightarrow> bool" where
  "counts_nothing d \<longleftrightarrow> dp_stats d = stats_zero \<and> (\<forall>(m, st) \<in> set (dp_module_stats d). st = stats_zero)"

lemma counts_nothing_registered:
  "counts_nothing d \<Longrightarrow> counts_nothing (fold (\<lambda>m. add_routes (service_ident m) (service_routes m)) ms d)"
proof -
  have "counts_nothing d \<Longrightarrow> counts_nothing (add_route m r d)" for m r and d :: "sys_handler dispatcher"
    using set_update [of m stats_zero "dp_module_stats d"]
    by (auto simp: counts_nothing_def add_route_def um_emplace_def)
  then have "counts_nothing d \<Longrightarrow> counts_nothing (add_routes m rs d)" for m rs and d :: "sys_handler dispatcher"
    unfolding add_routes_def by (induction rs arbitrary: d) simp_all
  then show "counts_nothing d \<Longrightarrow> counts_nothing (fold (\<lambda>m. add_routes (service_ident m) (service_routes m)) ms d)"
    by (induction ms arbitrary: d) simp_all
qed

lemma main_counts_nothing:
  assumes "main_start X now progname args w = (Inr r, w')"
  shows "counts_nothing (sr_dispatcher (rn_server r))"
proof -
  have "counts_nothing (dispatcher_new options :: sys_handler dispatcher)" for options
    by (simp add: counts_nothing_def dispatcher_new_def add_route_def um_emplace_def um_count_def)
  with main_server_shape(1) [OF assms] show ?thesis by (auto simp: counts_nothing_registered)
qed

section \<open>Properties\<close>

text \<open>The counters a request for the status is answered with: it has been counted itself.\<close>

definition status_counted :: "'h dispatcher \<Rightarrow> 'h dispatcher" where
  "status_counted d = count_module one_request ''Status'' (count_server one_request d)"

definition counters_fit :: "'h dispatcher \<Rightarrow> bool" where
  "counters_fit d \<longleftrightarrow> (\<forall>st \<in> set (dp_stats d # map snd (dp_module_stats d)). \<forall>h. int32 (sint (stat_column h st)))"

definition counted_table :: "'h dispatcher \<Rightarrow> string" where
  "counted_table d = status_table (\<lambda>h. sint (stat_column h (dp_stats d)))
     (\<lambda>m h. case map_of (dp_module_stats d) m of Some st \<Rightarrow> sint (stat_column h st) | None \<Rightarrow> 0)"

lemma status_report_auth: "status_report (d\<lparr>dp_auth := a\<rparr>) = status_report d"
  by (simp add: status_report_def asked_entries_def)

lemma status_rows: "(\<And>h. h \<in> set status_header \<Longrightarrow> f h = g h) \<Longrightarrow> status_row m f = status_row m g"
  by (simp add: status_row_def cong: map_cong)

lemma table_of_report:
  assumes "jlib_ok L" "stats_known d" "counters_fit d"
  shows "status_on_replied L verbose (status_report d) = Inr (if verbose then [counted_table d] else [])"
proof -
  have fit: "int32 (sint (stat_column h (dp_stats d)))"
    "map_of (dp_module_stats d) m = Some st \<Longrightarrow> int32 (sint (stat_column h st))" for h m st
    using assms(3) map_of_SomeD [of "dp_module_stats d" m st] by (force simp: counters_fit_def)+
  have grand: "get_int L (''stats.'' @ h) 0 (status_report d) = sint (stat_column h (dp_stats d))" if "h \<in> set status_header" for h
    using status_reported(2) [OF assms(1,2) that] fit(1) jlib_okD(2) [OF assms(1)]
    by (simp add: get_int_def get_as_def total_key_def)
  have each: "get_int L (''stats.'' @ m @ ''.'' @ h) 0 (status_report d)
      = (case map_of (dp_module_stats d) m of Some st \<Rightarrow> sint (stat_column h st) | None \<Rightarrow> 0)"
    if "h \<in> set status_header" "m \<in> set status_modules" for m h
  proof -
    have "m \<in> service_ident ` {S_cache, S_resolver, S_job_queue, S_debug}"
      using that(2) by (auto simp: status_modules_def module_idents simp del: service_ident.simps)
    then have "stats_module m" by (auto simp: stats_module_def simp del: service_ident.simps)
    from status_reported(3) [OF assms(1,2) that(1) this] fit(2) [of m] jlib_okD(2) [OF assms(1)] show ?thesis
      by (simp add: get_int_def get_as_def module_key_def split: option.split)
  qed
  have "status_row ''Total'' (\<lambda>h. get_int L (''stats.'' @ h) 0 (status_report d))
      = status_row ''Total'' (\<lambda>h. sint (stat_column h (dp_stats d)))"
    using grand by (rule status_rows)
  moreover have "map (\<lambda>m. status_row m (\<lambda>h. get_int L (''stats.'' @ m @ ''.'' @ h) 0 (status_report d))) status_modules
      = map (\<lambda>m. status_row m (\<lambda>h. case map_of (dp_module_stats d) m of Some st \<Rightarrow> sint (stat_column h st) | None \<Rightarrow> 0)) status_modules"
    by (rule map_cong [OF refl], rule status_rows, rule each)
  ultimately show ?thesis
    by (simp only: status_on_replied_def Let_def counted_table_def status_table_def)
qed

lemma transmit_status:
  assumes "jlib_ok L" "status_server (s, w)" "so_development_mode (dp_options (sr_dispatcher s))" "N a = Some (s, w)"
    and "reads_back L status_request"
  shows "\<exists>N'. transmit L rg clock a ''Status'' ''status'' (jl_write L status_request) (N, n)
    = (Some (replied_with (jl_write L (status_report (status_counted (sr_dispatcher s))))), (N', Suc n))"
proof -
  let ?rm = "\<lparr>rm_id = n, rm_object = ''Status'', rm_name = ''status'', rm_message = Some (jl_write L status_request)\<rparr>"
  let ?d = "sr_dispatcher s"
  let ?d3 = "checked L status_request status_route ''Status'' ?d"
  have s: "dispatcher_inv ?d" "stats_known ?d" "sr_listening s" "server_target s ''Status'' = Some To_dispatcher"
    "map_of (dp_routing ?d) (full_route (rm_object ?rm) (rm_name ?rm)) = Some status_route"
    using assms(2) by (simp_all add: status_server_def server_inv_def)
  have p: "parsed L ?rm = Inr status_request"
    using assms(5) by (simp add: parsed_def message_parse_def reads_back_def jlib_okD(5) [OF assms(1)])
  have key: "get_string L ''@api_key'' [] status_request = sim_api_key"
    using assms(1) by (simp add: status_request_def get_string_def get_as_def message_find_plain plain_key_def jlib_okD(1))
  have g: "granted L status_request API_PRIVATE (dp_auth ?d)"
    using check_dev [of "dp_auth ?d" L status_request API_PRIVATE] dispatcher_auth [OF s(1)] assms(3) key
    by (simp add: granted_def) (simp add: sim_api_key_def dev_key_def opens_def less_eq_key_type_def)
  have k3: "stats_known ?d3" by (rule stats_known_keys [OF s(2)]) simp
  have rep: "status_report ?d3 = status_report (status_counted ?d)"
    by (simp add: checked_def Let_def status_report_auth status_counted_def)
  have "dispatch L (clock n) (sys_run L rg (clock n)) ?rm (?d, w)
      = Done (?d3, w) [Reply n (jl_write L (status_report ?d3))]"
    using dispatch_routed [OF s(5) routed_counted [OF s(1,5)], of L "clock n" "sys_run L rg (clock n)" w] p g
      status_reported(1) [OF assms(1) k3, of "clock n" n]
    by (simp add: status_route_def Let_def)
  then have "sys_deliver L rg (clock n, ?rm) (s, w)
      = Done (s\<lparr>sr_dispatcher := ?d3\<rparr>, w) [Reply n (jl_write L (status_report (status_counted ?d)))]"
    using deliver_dispatched [OF s(3), of ?rm L "clock n" "sys_run L rg (clock n)" w] s(4) rep
    by (simp add: sys_deliver_def)
  with assms(4) show ?thesis by (simp add: transmit_def Let_def)
qed

text \<open>
  C37. The status client of the simulator shows the counters: against any started program in development
  mode that is still there after any messages and turns of its threads, its run logs the table (or nothing, when it is not verbose) whose numbers are
  the dispatcher's for the whole server and for each module, zero for a module that is not loaded, as
  long as they fit an \<open>int\<close>.
\<close>

theorem simulator_status_shows_counters:
  assumes "jlib_ok L" and "main_start X now progname args v = (Inr r, v')" and "running_after L rg es r = Some r'"
    and "so_development_mode (dp_options (sr_dispatcher (rn_server r')))" and "N a = Some (rn_server r', rn_services r')"
    and "d = status_counted (sr_dispatcher (rn_server r'))" and "counters_fit d"
    and "reads_back L status_request" and "reads_back L (status_report d)"
    and "bc_kind c = Sim_status verbose interval" and "bc_module c = kind_module (bc_kind c)" and "bc_server_address c = a"
  shows "\<exists>N'. sim_run L (network_agent L rg clock) c thread_id (N, n)
    = (Inr (if verbose then [counted_table d] else []), (N', Suc n))"
proof -
  have st: "status_server (rn_server r', rn_services r')"
    by (rule running_after_server [OF assms(3), where P = status_server])
      (simp_all add: main_status_server [OF assms(2)] status.react_inv, simp add: status_server_def)
  from transmit_status [where N = N and rg = rg and clock = clock and n = n, OF assms(1) st assms(4,5,8)] obtain N' where
    t: "transmit L rg clock a ''Status'' ''status'' (jl_write L status_request) (N, n)
      = (Some (replied_with (jl_write L (status_report d))), (N', Suc n))" using assms(6) by blast
  have "stats_known (sr_dispatcher (rn_server r'))" using st by (simp add: status_server_def)
  then have known: "stats_known d" by (rule stats_known_keys) (simp add: assms(6) status_counted_def)
  have msg: "set_all [(''stats'', JBool True), (''module_stats'', JBool True)] message_new
      = Inr (JObject [(''module_stats'', JBool True), (''stats'', JBool True)])"
    "message_set ''@api_key'' (JString sim_api_key) (JObject [(''module_stats'', JBool True), (''stats'', JBool True)])
      = Inr status_request"
    by (simp_all add: message_new_def message_set_plain plain_key_def obj_sorted_def less_char_def status_request_def)
  have parse: "message_parse L (jl_write L (status_report d)) message_new = Inr (status_report d)"
    using assms(9) by (simp add: message_parse_def reads_back_def jlib_okD(5) [OF assms(1)])
  have "sim_call L (network_agent L rg clock) c ''status'' (- 1)
      (JObject [(''module_stats'', JBool True), (''stats'', JBool True)]) (N, n)
      = (Inr (status_request, if verbose then [counted_table d] else []), (N', Suc n))"
    using assms(10-12) t parse table_of_report [OF assms(1) known assms(7), of verbose]
    by (simp add: sim_call_def act_bind_def act_lift_def msg(2) message_to_string_def network_agent_def replied_with_def)
  then show ?thesis
    unfolding sim_run_def status_client_run_def msg(1) assms(10) by simp
qed

lemma counted_once_fits:
  assumes "counts_nothing d"
  shows "counters_fit (status_counted d)"
proof -
  have one: "int32 (sint (stat_column h stats_zero))" "int32 (sint (stat_column h (one_request stats_zero)))" for h
    by (simp_all add: stat_column_def one_request_def stats_zero_def int32_def)
  have "dp_stats (status_counted d) = one_request stats_zero"
    using assms by (simp add: status_counted_def count_server_def counts_nothing_def)
  moreover have "st \<in> {stats_zero, one_request stats_zero}" if "(m, st) \<in> set (dp_module_stats (status_counted d))" for m st
  proof (cases "map_of (dp_module_stats d) ''Status''")
    case None
    with that assms show ?thesis by (auto simp: status_counted_def count_module_def count_server_def counts_nothing_def)
  next
    case (Some st0)
    then have "st0 = stats_zero" using assms map_of_SomeD [OF Some] by (auto simp: counts_nothing_def)
    with that Some set_update [of "''Status''" "one_request st0" "dp_module_stats d"] assms show ?thesis
      by (auto simp: status_counted_def count_module_def count_server_def counts_nothing_def)
  qed
  ultimately show ?thesis using one unfolding counters_fit_def by fastforce
qed

theorem simulator_status_shows_counters_witness:
  "\<exists>r v' N'. main_start sample_outside 5 ''bin/nix'' [''foreground'', ''enable-cache'', ''development-mode''] [] = (Inr r, v')
    \<and> sim_run ref_lib (network_agent ref_lib (\<lambda>_. ''id'') int)
        \<lparr>bc_client_id = 49, bc_server_address = ''tcp://127.0.0.1:9999'', bc_module = ''Status'', bc_kind = Sim_status True 1\<rparr> ''t''
        ([''tcp://127.0.0.1:9999'' \<mapsto> (rn_server r, rn_services r)], 0)
      = (Inr [counted_table (status_counted (sr_dispatcher (rn_server r)))], (N', 1))"
proof -
  obtain r v' where r: "main_start sample_outside 5 ''bin/nix'' [''foreground'', ''enable-cache'', ''development-mode''] [] = (Inr r, v')"
    "so_development_mode (dp_options (sr_dispatcher (rn_server r)))"
    using sample_start [OF sample_options(3,4)] by auto
  have r': "running_after ref_lib (\<lambda>_. ''id'') [] r = Some r" by (simp add: running_after_def)
  from simulator_status_shows_counters [OF _ r(1) r' r(2) _ refl counted_once_fits [OF main_counts_nothing [OF r(1)]],
      where clock = int and n = 0 and verbose = True and interval = 1
      and N = "[''tcp://127.0.0.1:9999'' \<mapsto> (rn_server r, rn_services r)]" and thread_id = "''t''"
      and c = "\<lparr>bc_client_id = 49, bc_server_address = ''tcp://127.0.0.1:9999'', bc_module = ''Status'', bc_kind = Sim_status True 1\<rparr>"] r(1)
  show ?thesis by auto
qed

end
