(* ===== verification/Nix_Sections.thy ===== *)
theory Nix_Sections
  imports Nix_Prelude
begin

text \<open>
  Requests whose handlers take a mutex more than once. The server handles requests in several threads; a
  handler that releases the mutex and takes it again, or that looks something up without the mutex and takes
  it afterwards, is two steps, with steps of other threads in between. A turn is the first section of a
  request or the second one of a request that waits for it. A handler that has a single section here is
  not thereby a single step of the code: what the theories that use this show are runs that go wrong, with
  the handlers whose sections they split.
\<close>

section \<open>Turns\<close>

text \<open>
  The first section either ends the request or leaves what the handler remembers: a key, or an iterator into
  a map. \<open>se_live\<close> tells whether the element behind it is still there; the second section gets to know
  whether it has been there all along.
\<close>

record ('s, 'r, 'k) sections =
  se_first :: "int \<Rightarrow> 'r \<Rightarrow> 's \<Rightarrow> 's outcome + 'k"
  se_second :: "bool \<Rightarrow> int \<Rightarrow> 'k \<Rightarrow> 's \<Rightarrow> 's outcome"
  se_live :: "'k \<Rightarrow> 's \<Rightarrow> bool"

record ('s, 'r, 'k) threads =
  th_state :: 's
  th_pending :: "('r \<times> 'k \<times> bool) list"
  th_log :: "((int \<times> 'r) \<times> 's outcome) list"

definition threads_new :: "'s \<Rightarrow> ('s, 'r, 'k) threads" where
  "threads_new s = \<lparr>th_state = s, th_pending = [], th_log = []\<rparr>"

datatype 'r turn = Begin int 'r | Finish int nat

definition settle :: "('s, 'r, 'k) sections \<Rightarrow> int \<times> 'r \<Rightarrow> 's outcome \<Rightarrow> ('r \<times> 'k \<times> bool) list
    \<Rightarrow> ('s, 'r, 'k) threads \<Rightarrow> ('s, 'r, 'k) threads" where
  "settle H q out ps x =
     (let s' = final_state (th_state x) out
      in \<lparr>th_state = s', th_pending = map (\<lambda>(r, k, b). (r, k, b \<and> se_live H k s')) ps, th_log = th_log x @ [(q, out)]\<rparr>)"

text \<open>Undefined behaviour ends the process: no thread has a turn after it.\<close>

definition ended :: "('s, 'r, 'k) threads \<Rightarrow> bool" where
  "ended x \<longleftrightarrow> \<not> list_all (\<lambda>(q, out). no_crash out) (th_log x)"

fun take_turn :: "('s, 'r, 'k) sections \<Rightarrow> 'r turn \<Rightarrow> ('s, 'r, 'k) threads \<Rightarrow> ('s, 'r, 'k) threads" where
  "take_turn H (Begin t r) x =
     (if ended x then x
      else case se_first H t r (th_state x) of
        Inl out \<Rightarrow> settle H (t, r) out (th_pending x) x
      | Inr k \<Rightarrow> x\<lparr>th_pending := th_pending x @ [(r, k, True)]\<rparr>)"
| "take_turn H (Finish t i) x =
     (if \<not> ended x \<and> i < length (th_pending x) then
        (let (r, k, b) = th_pending x ! i
         in settle H (t, r) (se_second H b t k (th_state x)) (take i (th_pending x) @ drop (Suc i) (th_pending x)) x)
      else x)"

definition run_turns :: "('s, 'r, 'k) sections \<Rightarrow> 'r turn list \<Rightarrow> 's \<Rightarrow> ('s, 'r, 'k) threads" where
  "run_turns H es s = fold (take_turn H) es (threads_new s)"

end
