(* ===== verification/Nix_Resolver_Threads.thy ===== *)
theory Nix_Resolver_Threads
  imports Nix_Resolver Nix_Sections
begin

text \<open>
  The resolver with several threads (src/src/nix/module/builtin/service/resolver.cxx): \<open>bind_service\<close> looks for
  the node before it takes the mutex, and the monitor works on a copy of the nodes. The lookup runs beside
  changes of the map by other threads, which is a data race; it is a step of its own here, which shows what is
  wrong even if it happens at once. The other handlers have one section.
\<close>

section \<open>The sections of the handlers\<close>

type_synonym resolver_request = "resolver_handler mod_handler \<times> imsg"

definition bind_service_lookup :: "jlib \<Rightarrow> imsg \<Rightarrow> resolver \<Rightarrow> resolver outcome + string \<times> string \<times> imsg" where
  "bind_service_lookup L msg r =
     (let service = get_string L ''service'' [] (im_doc msg);
          nodename = get_string L ''nodename'' [] (im_doc msg)
      in if service = [] \<or> nodename = [] \<or> \<not> um_count nodename (rv_nodes r) then
           Inl (answer (im_fail_code L msg Data_invalid_content
             ''Cannot bind a service. Invalid content or unknown node.'') r r)
         else Inr (service, nodename, msg))"

fun bind_service_insert :: "jlib \<Rightarrow> string \<times> string \<times> imsg \<Rightarrow> resolver \<Rightarrow> resolver outcome" where
  "bind_service_insert L (service, nodename, msg) r =
     (let (ns, r1) = service_nodes service r;
          r2 = put_service service (sset_insert nodename ns) r1
      in answer (rbind (message_clear (im_doc msg)) (\<lambda>d. im_reply L (msg\<lparr>im_doc := d\<rparr>))) r2 r2)"

fun node_known :: "string \<times> string \<times> imsg \<Rightarrow> resolver \<Rightarrow> bool" where
  "node_known (service, nodename, msg) r \<longleftrightarrow> um_count nodename (rv_nodes r)"

definition resolver_sections :: "jlib \<Rightarrow> (resolver, resolver_request, string \<times> string \<times> imsg) sections" where
  "resolver_sections L =
     \<lparr>se_first = (\<lambda>now q r. if fst q = Own Service_bind then bind_service_lookup L (snd q) r
                            else Inl (resolver_run L (fst q) (snd q) r)),
      se_second = (\<lambda>b now. bind_service_insert L), se_live = node_known\<rparr>"

lemma bind_service_parts:
  "resolver_bind_service L msg r =
     (case bind_service_lookup L msg r of Inl out \<Rightarrow> out | Inr k \<Rightarrow> bind_service_insert L k r)"
  by (simp add: resolver_bind_service_def bind_service_lookup_def Let_def)

section \<open>Several threads\<close>

text \<open>
  C18. The node is looked up without the mutex: when it is unbound before \<open>service/bind\<close> gets the mutex, the service
  is bound to a node that is not known, which no sequence of requests could do, and the request is
  answered as successful.
\<close>

theorem service_bind_race:
  assumes "msg_service L m1 = s" and "s \<noteq> []" and "msg_node L m1 = n" and "n \<noteq> []" and "n \<in> dir_known (directory_of r)"
    and "passable (im_doc m1)" and "msg_node L m2 = n"
  shows "\<exists>r' out. map snd (th_log (run_turns (resolver_sections L)
        [Begin ta (Own Service_bind, m1), Begin tb (Own Node_unbind, m2), Finish tc 0] r))
      = [out, Done r' [Reply (im_id m1) (jl_write L (status_doc Ok []))]]
    \<and> n \<in> dir_providers (directory_of r') s \<and> n \<notin> dir_known (directory_of r') \<and> \<not> resolver_inv r'"
proof -
  have f: "get_string L ''service'' [] (im_doc m1) = s" "get_string L ''nodename'' [] (im_doc m1) = n"
    "get_string L ''nodename'' [] (im_doc m2) = n"
    using assms(1,3,7) by (simp_all add: msg_service_def msg_node_def)
  have k: "um_count n (rv_nodes r)" using assms(5) by (simp add: um_count_iff directory_of_def)
  have u: "final_state r (resolver_run L (Own Node_unbind) m2 r) = unbind_node n r"
    by (simp add: resolver_run_def run_handler_def resolver_unbind_def Let_def f answer_same)
  have nc: "no_crash (resolver_run L (Own Node_unbind) m2 r)"
    by (simp add: resolver_run_def run_handler_def resolver_unbind_def Let_def no_crash_answer answers_no_crash
        rbind_no_crash clear_no_crash)
  obtain d where d: "message_clear (im_doc m1) = Inr d" "passable d"
    using assms(6) clear_passable [of "im_doc m1"] by (auto simp: message_clear_def passable_def)
  let ?r1 = "unbind_node n r"
  define r' where "r' = put_service s (sset_insert n (fst (service_nodes s ?r1))) (snd (service_nodes s ?r1))"
  have "directory_of r' = (directory_of ?r1)\<lparr>dir_providers := (dir_providers (directory_of ?r1))
      (s := insert n (set (fst (service_nodes s ?r1))))\<rparr>"
    by (simp add: r'_def directory_service)
  then have dir: "n \<in> dir_providers (directory_of r') s" "n \<notin> dir_known (directory_of r')"
    by (simp_all add: directory_unbind)
  then have "\<not> resolver_inv r'"
    by (auto simp: resolver_inv_def directory_of_def split: option.splits dest!: map_of_SomeD)
  moreover have "map snd (th_log (run_turns (resolver_sections L)
        [Begin ta (Own Service_bind, m1), Begin tb (Own Node_unbind, m2), Finish tc 0] r))
      = [resolver_run L (Own Node_unbind) m2 r, Done r' [Reply (im_id m1) (jl_write L (status_doc Ok []))]]"
    using assms(2,4) d
    by (simp add: run_turns_def threads_new_def settle_def resolver_sections_def bind_service_lookup_def Let_def f u k
        case_prod_unfold r'_def im_reply_eq ended_def nc)
  ultimately show ?thesis using dir
    by (intro exI [of _ r'] exI [of _ "resolver_run L (Own Node_unbind) m2 r"] conjI)
qed

theorem service_bind_race_witness:
  "\<exists>r' out text. map snd (th_log (run_turns (resolver_sections ref_lib)
        [Begin 1 (Own Service_bind, \<lparr>im_id = 1, im_doc = JObject [(''nodename'', JString ''n''), (''service'', JString ''s'')]\<rparr>),
         Begin 2 (Own Node_unbind, \<lparr>im_id = 2, im_doc = JObject [(''nodename'', JString ''n'')]\<rparr>), Finish 3 0]
        (resolver_new\<lparr>rv_nodes := [(''n'', ''tcp://n:1'')]\<rparr>))) = [out, Done r' [Reply 1 text]] \<and> \<not> resolver_inv r'"
proof -
  let ?m1 = "\<lparr>im_id = 1, im_doc = JObject [(''nodename'', JString ''n''), (''service'', JString ''s'')]\<rparr>"
  let ?m2 = "\<lparr>im_id = 2, im_doc = JObject [(''nodename'', JString ''n'')]\<rparr>"
  have "msg_service ref_lib ?m1 = ''s''" "msg_node ref_lib ?m1 = ''n''" "msg_node ref_lib ?m2 = ''n''"
    by (simp_all add: msg_service_def msg_node_def get_string_def get_as_def message_find_plain plain_key_def)
  with service_bind_race [of ref_lib ?m1 "''s''" "''n''" "resolver_new\<lparr>rv_nodes := [(''n'', ''tcp://n:1'')]\<rparr>" ?m2 1 2 3]
  show ?thesis by (auto simp: directory_of_def passable_def)
qed

text \<open>
  The monitor pings a copy of the nodes and unbinds by name: a node that has moved to another address since
  the copy was made is unbound because of its old address, however well the new one answers.
\<close>

theorem monitor_unbinds_moved_node:
  assumes "ping old ''ping'' [] = Inr False" and "ping new ''ping'' [] = Inr True" and "old \<noteq> new"
    and "msg_node L m = n" and "n \<noteq> []" and "msg_address L m = new" and "new \<noteq> []" and "resolver_inv r"
    and "max_failures \<le> 1 + (case map_of (mo_nodes mo) n of None \<Rightarrow> 0 | Some k \<Rightarrow> k)"
  shows "\<exists>mo' r'. monitor_nodes ping max_failures [(n, old)] (mo, resolver_step L (Own Node_bind, m) r) = Inr (mo', r')
    \<and> dir_address (directory_of (resolver_step L (Own Node_bind, m) r)) n = new
    \<and> n \<notin> dir_known (directory_of r')"
proof -
  have "dir_address (directory_of (resolver_step L (Own Node_bind, m) r)) n = new"
    using assms(4-7) by (simp add: resolver_step_directory [OF assms(8)])
  moreover have "fst (index_or_insert 0 n (mo_nodes mo)) = (case map_of (mo_nodes mo) n of None \<Rightarrow> 0 | Some k \<Rightarrow> k)"
    by (simp add: index_or_insert_value split: option.split)
  ultimately show ?thesis
    using assms(1,9) by (simp add: case_prod_unfold Let_def directory_unbind add.commute)
qed


end
