(* ===== verification/Nix_Job_Threads.thy ===== *)
theory Nix_Job_Threads
  imports Nix_Job_Queue Nix_Sections
begin

text \<open>
  The job queue service with several threads of the server (src/src/nix/module/builtin/service/job_queue.cxx).
  Its handlers look jobs up without the mutex and take it afterwards, and \<open>get_work\<close> answers the worker
  before it files the job. An access to a map that runs beside a change of it is a data race; the
  lookups are steps of their own here, which shows what is wrong even if each of them happens at once.
  \<open>get_result\<close>, \<open>set_progress\<close> and \<open>set_result\<close> (all of it under the mutex) have their sections; the other
  handlers count as one turn although submit, get_work, manage and status take several steps, and the runs
  of turns below do not contain them. The two steps of \<open>get_work\<close> are given at the end.
\<close>

section \<open>The sections of the handlers\<close>

type_synonym job_queue_request = "job_queue_handler mod_handler \<times> imsg"

text \<open>
  What a handler remembers from its lookup: the iterator, that is the key it leads to, with the cleared
  message. The key of the submitter is compared at once.
\<close>

datatype job_token = Take_result string string imsg | Show_progress string imsg | Change_progress string imsg

definition get_result_lookup :: "jlib \<Rightarrow> imsg \<Rightarrow> job_queue \<Rightarrow> job_queue outcome + job_token" where
  "get_result_lookup L msg s =
     (let api_key = get_meta L ''api_key'' [] (im_doc msg);
          job_id = get_meta L ''job_id'' [] (im_doc msg)
      in case message_clear (im_doc msg) of
           Inl e \<Rightarrow> Inl (Raised e s [])
         | Inr d \<Rightarrow>
             let m = msg\<lparr>im_doc := d\<rparr>
             in case map_of (jq_completed s) job_id of
                  Some j \<Rightarrow>
                    if j_api_key j = api_key then Inr (Take_result api_key job_id m)
                    else Inl (answer (im_fail_code L m Access_denied []) s s)
                | None \<Rightarrow>
                    (case map_of (jq_in_progress s) job_id of
                       Some j \<Rightarrow> Inr (Show_progress job_id m)
                     | None \<Rightarrow> Inl (answer (im_fail L m ''Job not found or not yet started'') s s)))"

definition set_progress_lookup :: "jlib \<Rightarrow> imsg \<Rightarrow> job_queue \<Rightarrow> job_queue outcome + job_token" where
  "set_progress_lookup L msg s =
     (let job_id = get_meta L ''job_id'' [] (im_doc msg)
      in case map_of (jq_in_progress s) job_id of
           None \<Rightarrow> Inl (Done s [])
         | Some j \<Rightarrow> Inr (Change_progress job_id msg))"

definition job_first :: "jlib \<Rightarrow> (nat \<Rightarrow> string) \<Rightarrow> int \<Rightarrow> job_queue_request \<Rightarrow> job_queue
    \<Rightarrow> job_queue outcome + job_token" where
  "job_first L rg now r s =
     (if fst r = Own Result_get then get_result_lookup L (snd r) s
      else if fst r = Own Progress_set then set_progress_lookup L (snd r) s
      else Inl (job_queue_run L rg now (fst r) (snd r) s))"

text \<open>With the mutex: an iterator to an element that has been erased since is invalid.\<close>

fun job_second :: "jlib \<Rightarrow> bool \<Rightarrow> job_token \<Rightarrow> job_queue \<Rightarrow> job_queue outcome" where
  "job_second L valid (Take_result api_key job_id m) s =
     (case map_of (jq_completed s) job_id of
        Some j \<Rightarrow> if valid then answer (im_reply_job L (im_id m) j Ok) s
                      (s\<lparr>jq_completed := AList.delete job_id (jq_completed s)\<rparr>)
                  else Raised UndefinedBehaviour s []
      | None \<Rightarrow> Raised UndefinedBehaviour s [])"
| "job_second L valid (Show_progress job_id m) s =
     (case map_of (jq_in_progress s) job_id of
        Some j \<Rightarrow> if valid then answer (im_reply_job L (im_id m) j Not_ready) s s
                  else Raised UndefinedBehaviour s []
      | None \<Rightarrow> Raised UndefinedBehaviour s [])"
| "job_second L valid (Change_progress job_id m) s =
     (case map_of (jq_in_progress s) job_id of
        Some j \<Rightarrow>
          if \<not> valid then Raised UndefinedBehaviour s []
          else if get_double L ''progress'' 0 (im_doc m) \<noteq> 0 then
            Done (s\<lparr>jq_in_progress := AList.update job_id
              (job_set_progress (get_double L ''progress'' 0 (im_doc m)) j) (jq_in_progress s)\<rparr>) []
          else Done s []
      | None \<Rightarrow> Raised UndefinedBehaviour s [])"

fun job_live :: "job_token \<Rightarrow> job_queue \<Rightarrow> bool" where
  "job_live (Take_result api_key job_id m) s \<longleftrightarrow> um_count job_id (jq_completed s)"
| "job_live (Show_progress job_id m) s \<longleftrightarrow> um_count job_id (jq_in_progress s)"
| "job_live (Change_progress job_id m) s \<longleftrightarrow> um_count job_id (jq_in_progress s)"

definition job_sections :: "jlib \<Rightarrow> (nat \<Rightarrow> string) \<Rightarrow> (job_queue, job_queue_request, job_token) sections" where
  "job_sections L rg =
     \<lparr>se_first = job_first L rg, se_second = (\<lambda>valid now. job_second L valid), se_live = job_live\<rparr>"

lemma whole_simps:
  "job_queue_run L rg now (Own Result_get) msg s = job_get_result L msg s"
  "job_queue_run L rg now (Own Progress_set) msg s = job_set_progress_request L msg s"
  "job_queue_run L rg now (Own Result_set) msg s = job_set_result L rg now msg s"
  by (simp_all add: job_queue_run_def run_handler_def)

lemma get_result_parts:
  "job_get_result L msg s = (case get_result_lookup L msg s of Inl out \<Rightarrow> out | Inr k \<Rightarrow> job_second L True k s)"
  by (auto simp: get_result_lookup_def job_get_result_def Let_def split: sum.splits option.splits if_splits)

lemma set_progress_parts:
  "job_set_progress_request L msg s =
     (case set_progress_lookup L msg s of Inl out \<Rightarrow> out | Inr k \<Rightarrow> job_second L True k s)"
  by (auto simp: set_progress_lookup_def job_set_progress_request_def Let_def split: option.splits if_splits)

section \<open>Several threads\<close>

text \<open>
  C16. The lookup of a result without the mutex: when two requests with the right key have found a result, the
  first that gets the mutex is answered and erases it, and the second one follows an iterator to
  nothing. And when the result is set again between the lookup and the mutex, by a message with another key,
  the request gets the new result, which is not for its key.
\<close>

theorem results_race:
  assumes "jlib_ok L" and "result_request L i key m1" and "result_request L i key m2" and "result_request L i other m3"
    and "i \<noteq> []" and "map_of (jq_completed s) i = Some j" and "j_api_key j = key"
    and "reads_as L j v" and "j' = reported_job L rg tb m3 s" and "reads_as L j' v'"
  shows "(\<exists>s'. map snd (th_log (run_turns (job_sections L rg)
        [Begin ta (Own Result_get, m1), Begin tb (Own Result_get, m2), Finish tc 0, Finish td 0] s))
      = [Done s' [Reply (im_id m1) (jl_write L (job_reply_doc_as v j Ok))], Raised UndefinedBehaviour s' []])
    \<and> (\<exists>s1 s2 n. map snd (th_log (run_turns (job_sections L rg)
        [Begin ta (Own Result_get, m1), Begin tb (Own Result_set, m3), Finish tc 0] s))
      = [Done s1 [n], Done s2 [Reply (im_id m1) (jl_write L (job_reply_doc_as v' j' Ok))]])
    \<and> j_api_key j' = other"
proof -
  note turns = ended_def run_turns_def threads_new_def settle_def job_sections_def job_first_def Let_def
  have look: "\<exists>d. get_result_lookup L m s = Inr (Take_result key i (m\<lparr>im_doc := d\<rparr>))" if "result_request L i key m" for m
    using that assms(6,7) clear_passable [of "im_doc m"]
    by (auto simp: get_result_lookup_def result_request_def message_clear_def Let_def)
  from look [OF assms(2)] look [OF assms(3)] obtain d1 d2 where
    d: "get_result_lookup L m1 s = Inr (Take_result key i (m1\<lparr>im_doc := d1\<rparr>))"
      "get_result_lookup L m2 s = Inr (Take_result key i (m2\<lparr>im_doc := d2\<rparr>))" by blast
  have m3: "get_meta L ''job_id'' [] (im_doc m3) = i" "get_meta L ''api_key'' [] (im_doc m3) = other" "passable (im_doc m3)"
    using assms(4) by (simp_all add: result_request_def)
  obtain n where set: "job_set_result L rg tb m3 s = Done (s\<lparr>jq_in_progress := AList.delete i (jq_in_progress s),
        jq_completed := AList.update i j' (jq_completed s), jq_completed_jobs := jq_completed_jobs s + 1, jq_drawn := n\<rparr>)
      [Reply (im_id m3) (jl_write L (status_doc Ok []))]"
    using set_result_eq [OF m3(1) assms(5) m3(3), of rg tb s] assms(9) by blast
  have "j_api_key j' = other"
    unfolding assms(9) reported_job_def job_of_message_def job_init_def job_set_id_def
    by (simp add: job_set_progress_def job_from_message_def m3 Let_def case_prod_unfold)
  moreover have "\<exists>s1 s2 n. map snd (th_log (run_turns (job_sections L rg)
        [Begin ta (Own Result_get, m1), Begin tb (Own Result_set, m3), Finish tc 0] s))
      = [Done s1 [n], Done s2 [Reply (im_id m1) (jl_write L (job_reply_doc_as v' j' Ok))]]"
    using assms(1,10) by (simp add: turns d set whole_simps update_conv' um_count_def im_reply_job_as)
  moreover have "\<exists>s'. map snd (th_log (run_turns (job_sections L rg)
        [Begin ta (Own Result_get, m1), Begin tb (Own Result_get, m2), Finish tc 0, Finish td 0] s))
      = [Done s' [Reply (im_id m1) (jl_write L (job_reply_doc_as v j Ok))], Raised UndefinedBehaviour s' []]"
    using assms(1,6,8) by (simp add: turns d map_of_delete im_reply_job_as)
  ultimately show ?thesis by (intro conjI)
qed

theorem results_race_witness:
  "let s = job_queue_new\<lparr>jq_completed := [(''job'', job_blank\<lparr>j_id := ''job'', j_api_key := ''key''\<rparr>)]\<rparr>
   in \<exists>s' text. map snd (th_log (run_turns (job_sections ref_lib (\<lambda>_. ''id''))
        [Begin 1 (Own Result_get, sample_request 1), Begin 2 (Own Result_get, sample_request 2), Finish 3 0, Finish 4 0] s))
      = [Done s' [Reply 1 text], Raised UndefinedBehaviour s' []]"
proof -
  let ?j = "job_blank\<lparr>j_id := ''job'', j_api_key := ''key''\<rparr>"
  let ?s = "job_queue_new\<lparr>jq_completed := [(''job'', ?j)]\<rparr>"
  let ?o = "\<lparr>im_id = 9, im_doc = JObject [(''@api_key'', JString ''stranger''), (''@job_id'', JString ''job'')]\<rparr>"
  have r: "result_request ref_lib ''job'' ''key'' (sample_request i)"
    "result_request ref_lib ''job'' ''stranger'' ?o" for i
    by (simp_all add: result_request_def get_meta_def meta_key_def get_string_def get_as_def,
        simp_all add: message_find_plain plain_key_def passable_def)
  from results_race [where s = ?s and j = ?j and rg = "\<lambda>_. ''id''" and ta = 1 and tb = 2 and tc = 3 and td = 4,
      OF _ r(1) [of 1] r(1) [of 2] r(2) _ _ _ reads_back_as refl reads_back_as]
  show ?thesis by (auto simp: Let_def)
qed

text \<open>A result that is set while \<open>set_progress\<close> waits for the mutex erases the job it has found.\<close>

theorem progress_race:
  assumes "result_request L i key m1" and "result_request L i other m2" and "i \<noteq> []" and "map_of (jq_in_progress s) i = Some j"
  shows "\<exists>s'. map snd (th_log (run_turns (job_sections L rg)
        [Begin ta (Own Progress_set, m1), Begin tb (Own Result_set, m2), Finish tc 0] s))
      = [job_set_result L rg tb m2 s, Raised UndefinedBehaviour s' []]"
proof -
  have look: "set_progress_lookup L m1 s = Inr (Change_progress i m1)"
    using assms(1,4) by (simp add: set_progress_lookup_def result_request_def)
  obtain n where "job_set_result L rg tb m2 s = Done (s\<lparr>jq_in_progress := AList.delete i (jq_in_progress s),
        jq_completed := AList.update i (reported_job L rg tb m2 s) (jq_completed s),
        jq_completed_jobs := jq_completed_jobs s + 1, jq_drawn := n\<rparr>)
      [Reply (im_id m2) (jl_write L (status_doc Ok []))]"
    using set_result_eq [OF _ assms(3), of L m2 rg tb s] assms(2) by (auto simp: result_request_def)
  then show ?thesis
    by (simp add: ended_def run_turns_def threads_new_def settle_def job_sections_def job_first_def look whole_simps map_of_delete Let_def)
qed

text \<open>
  \<open>submit\<close> asks for the number of parked workers before it takes one: when another submission takes the only
  one in between, it waits for a worker to park and its job does not get into the queue.
\<close>

theorem submit_waits_for_worker:
  assumes "queue_count w = 1" and "\<not> q_closed w"
  shows "\<exists>w1 w'. queue_pop (- 1) w = (Got w1, w') \<and> hand_over L j (queue_count w) w' = (Stuck, w')"
proof -
  from assms(1) obtain w1 where "q_items w = [w1]"
    by (auto simp: queue_count_def length_Suc_conv)
  with assms show ?thesis by (simp add: queue_pop_def)
qed

section \<open>Handing out work\<close>

text \<open>
  \<open>get_work\<close> takes a job off its queue and answers the worker; only then it takes the mutex and files the
  job as in progress.
\<close>

definition job_take_work :: "jlib \<Rightarrow> imsg \<Rightarrow> job_queue \<Rightarrow> job_queue outcome \<times> job option" where
  "job_take_work L msg s =
     (let name = get_string L ''module'' [] (im_doc msg)
      in case map_of (jq_queues s) name of
           None \<Rightarrow> (answer (im_fail L msg (''No queue for module: '' @ name)) s s, None)
         | Some q \<Rightarrow>
             (case queue_pop (- 1) q of
                (Got j, q') \<Rightarrow>
                  (let s1 = put_queue name q' s in (answer (task_reply L (im_id msg) j) s1 s1, Some j))
              | (Waits, q') \<Rightarrow>
                  (Blocked (s\<lparr>jq_waiting := jq_waiting s @ [\<lparr>ww_msg = msg, ww_queue = name, ww_removed = False\<rparr>]\<rparr>), None)
              | (Nothing, q') \<Rightarrow> (job_work_park msg name s, None)))"

definition job_file_work :: "job \<Rightarrow> job_queue \<Rightarrow> job_queue" where
  "job_file_work j s = s\<lparr>jq_in_progress := AList.update (j_id j) j (jq_in_progress s)\<rparr>"

lemma job_get_work_parts:
  "job_get_work L msg s = (case job_take_work L msg s of
     (Done s1 ns, Some j) \<Rightarrow> Done (job_file_work j s1) ns
   | (out, _) \<Rightarrow> out)"
  by (auto simp: job_get_work_def job_take_work_def job_file_work_def job_work_got_def answer_def Let_def
      split: option.split popped.split prod.split sum.split outcome.split)

text \<open>What takes a job out of progress is a result with its identifier, nothing else.\<close>

fun sets_result :: "jlib \<Rightarrow> string \<Rightarrow> job_queue_event \<Rightarrow> bool" where
  "sets_result L i (Request t h msg) \<longleftrightarrow> h = Own Result_set \<and> get_meta L ''job_id'' [] (im_doc msg) = i"
| "sets_result L i (Wake k) \<longleftrightarrow> False"

lemma put_in_progress [simp]:
  "jq_in_progress (put_queue n q s) = jq_in_progress s" "jq_in_progress (put_workers n w s) = jq_in_progress s"
  by (simp_all add: put_queue_def put_workers_def)

lemma manage_in_progress: "jq_in_progress (final_state s (job_manage L msg s)) = jq_in_progress s"
proof -
  have "jq_in_progress (manage_all L d s) = jq_in_progress s" for d
    by (simp add: manage_all_def Let_def clear_all_def remove_all_def switch_all_def mark_removed_def)
  moreover have "jq_in_progress (snd (init_queue n k t)) = jq_in_progress t" for n k t
    by (simp add: init_queue_def Let_def)
  moreover have "jq_in_progress (manage_queue L msg n q t) = jq_in_progress t" for n q t
    by (simp add: manage_queue_def Let_def mark_removed_def)
  ultimately show ?thesis
    by (simp add: job_manage_eq Let_def case_prod_unfold answer_same split: option.split)
qed

lemma handlers_in_progress:
  "jq_in_progress (final_state s (job_submit L rg now msg s)) = jq_in_progress s"
  "jq_in_progress (final_state s (job_get_result L msg s)) = jq_in_progress s"
  "jq_in_progress (final_state s (job_status L msg s)) = jq_in_progress s"
  by (auto simp: job_submit_def job_get_result_def job_status_def Let_def answer_same case_prod_unfold
      submit_to_queue_state final_state_answer split: option.split handed.split sum.split)

lemma work_in_progress:
  "map_of (jq_in_progress s) i \<noteq> None \<Longrightarrow> map_of (jq_in_progress (final_state t (job_work_got L msg j s))) i \<noteq> None"
  "jq_in_progress (final_state t (job_work_park msg n s)) = jq_in_progress s"
  by (simp_all add: job_work_got_def job_work_park_def final_state_answer update_conv' split: option.split sum.split)

lemma in_progress_stays:
  assumes "\<not> sets_result L i e" and "map_of (jq_in_progress s) i \<noteq> None"
  shows "map_of (jq_in_progress (final_state s (job_queue_react L rg e s))) i \<noteq> None"
proof (cases e)
  case (Wake k)
  with assms(2) show ?thesis
    using work_in_progress(1) [of _ i]
    by (auto simp: job_wake_worker_def Let_def work_in_progress(2) split: option.split popped.split prod.split)
next
  case (Request t h msg)
  have "map_of (jq_in_progress (final_state s (job_get_work L msg s))) i \<noteq> None"
    using assms(2) work_in_progress(1) [of _ i]
    by (auto simp: job_get_work_def Let_def answer_same work_in_progress(2) split: option.split popped.split prod.split)
  moreover have "map_of (jq_in_progress (final_state s (job_set_progress_request L msg s))) i \<noteq> None"
    using assms(2) by (auto simp: job_set_progress_request_def Let_def update_conv' split: option.split)
  moreover have "map_of (jq_in_progress (final_state s (job_set_result L rg t msg s))) i \<noteq> None"
    if "get_meta L ''job_id'' [] (im_doc msg) \<noteq> i"
    using assms(2) that by (auto simp: job_set_result_def Let_def answer_same case_prod_unfold map_of_delete)
  ultimately show ?thesis
    using assms Request by (cases h; cases "case h of Own f \<Rightarrow> f | _ \<Rightarrow> Queue_status")
      (auto simp: job_queue_run_def run_handler_def answer_same handlers_in_progress manage_in_progress)
qed

lemma in_progress_stays_all:
  assumes "\<forall>e \<in> set es. \<not> sets_result L i e" "alive_run (job_queue_react L rg) es s = Some s'"
    and "map_of (jq_in_progress s) i \<noteq> None"
  shows "map_of (jq_in_progress s') i \<noteq> None"
  using assms
proof (induction es arbitrary: s)
  case (Cons e es)
  from Cons.prems(2) have "alive_run (job_queue_react L rg) es (final_state s (job_queue_react L rg e s)) = Some s'"
    by (simp add: alive_run_Cons_Some del: alive_run.simps)
  with Cons.IH Cons.prems(1,3) in_progress_stays [of L i e s rg] show ?case by simp
qed simp

text \<open>
  C17. A worker that is fast loses its job's end: when its result arrives between the answer of \<open>get_work\<close> and
  the filing, the job is completed and afterwards filed as in progress, where it stays whatever other
  requests and wake-ups of waiting workers follow, as long as the process lives and no result for it
  is set again. In the other order it is out of progress.
\<close>

theorem late_filing:
  assumes "jlib_ok L" and "map_of (jq_queues s) n = Some q" and "q_items q = j # js" and "\<not> q_closed q" and "work_from L n wm"
    and "reads_as L j v" and "result_request L (j_id j) key rm" and "j_id j \<noteq> []"
    and "\<forall>e \<in> set es. \<not> sets_result L (j_id j) e"
  shows "\<exists>s1. job_take_work L wm s = (Done s1 [Reply (im_id wm) (jl_write L (job_reply_doc_as v j Ok))], Some j)
    \<and> (\<exists>s2. s2 = job_file_work j (final_state s1 (job_set_result L rg t rm s1)) \<and> um_count (j_id j) (jq_completed s2)
        \<and> (\<forall>s3. alive_run (job_queue_react L rg) es s2 = Some s3 \<longrightarrow> map_of (jq_in_progress s3) (j_id j) \<noteq> None))
    \<and> map_of (jq_in_progress (final_state s1 (job_set_result L rg t rm (job_file_work j s1)))) (j_id j) = None"
proof -
  let ?s1 = "put_queue n (q\<lparr>q_items := js\<rparr>) s"
  have rm: "get_meta L ''job_id'' [] (im_doc rm) = j_id j" "passable (im_doc rm)"
    using assms(7) by (simp_all add: result_request_def)
  have take: "job_take_work L wm s = (Done ?s1 [Reply (im_id wm) (jl_write L (job_reply_doc_as v j Ok))], Some j)"
    using assms(1-6) by (simp add: job_take_work_def work_from_def queue_pop_def Let_def task_reply_job im_reply_job_as)
  obtain k where set: "job_set_result L rg t rm v =
      Done (v\<lparr>jq_in_progress := AList.delete (j_id j) (jq_in_progress v),
        jq_completed := AList.update (j_id j) (reported_job L rg t rm v) (jq_completed v),
        jq_completed_jobs := jq_completed_jobs v + 1, jq_drawn := k v\<rparr>)
      [Reply (im_id rm) (jl_write L (status_doc Ok []))]" for v
    using set_result_eq [OF rm(1) assms(8) rm(2), of rg t] by metis
  let ?s2 = "job_file_work j (final_state ?s1 (job_set_result L rg t rm ?s1))"
  have "map_of (jq_in_progress ?s2) (j_id j) \<noteq> None" by (simp add: job_file_work_def update_conv')
  with in_progress_stays_all [OF assms(9)] have
    "\<forall>s3. alive_run (job_queue_react L rg) es ?s2 = Some s3 \<longrightarrow> map_of (jq_in_progress s3) (j_id j) \<noteq> None" by blast
  moreover have "um_count (j_id j) (jq_completed ?s2)"
    by (simp add: job_file_work_def set um_count_def update_conv')
  moreover have "map_of (jq_in_progress (final_state ?s1 (job_set_result L rg t rm (job_file_work j ?s1)))) (j_id j) = None"
    by (simp add: set map_of_delete)
  ultimately show ?thesis using take by blast
qed

theorem late_filing_witness:
  "let j = job_blank\<lparr>j_id := ''job'', j_api_key := ''key''\<rparr>;
       s = job_queue_new\<lparr>jq_queues := [(''q'', (queue_new 5)\<lparr>q_items := [j]\<rparr>)]\<rparr>
   in \<exists>s1 s3 text. job_take_work ref_lib (sample_request 1) s = (Done s1 [Reply 1 text], Some j)
    \<and> alive_run (job_queue_react ref_lib (\<lambda>_. ''id'')) [Request 7 (Own Result_get) (sample_request 3)]
        (job_file_work j (final_state s1 (job_set_result ref_lib (\<lambda>_. ''id'') 6 (sample_request 2) s1))) = Some s3
    \<and> map_of (jq_in_progress s3) ''job'' \<noteq> None"
proof -
  let ?j = "job_blank\<lparr>j_id := ''job'', j_api_key := ''key''\<rparr>"
  let ?q = "(queue_new 5)\<lparr>q_items := [?j]\<rparr>"
  let ?s = "job_queue_new\<lparr>jq_queues := [(''q'', ?q)]\<rparr>"
  let ?es = "[Request 7 (Own Result_get) (sample_request 3)]"
  let ?set = "\<lambda>s1. job_file_work ?j (final_state s1 (job_set_result ref_lib (\<lambda>_. ''id'') 6 (sample_request 2) s1))"
  have r: "result_request ref_lib ''job'' ''key'' (sample_request i)" for i
    by (simp add: result_request_def get_meta_def meta_key_def get_string_def get_as_def)
  have w: "work_from ref_lib ''q'' (sample_request i)" for i
    by (simp add: work_from_def get_string_def get_as_def)
  have nc: "no_crash (job_queue_react ref_lib (\<lambda>_. ''id'') (Request 7 (Own Result_get) (sample_request 3)) s)" for s
    using clear_no_crash [of "im_doc (sample_request 3)"]
    by (auto simp: job_queue_run_def run_handler_def job_get_result_def Let_def no_crash_answer answers_no_crash
        im_reply_job_no_crash split: sum.split option.split)
  have "\<exists>s1. job_take_work ref_lib (sample_request 1) ?s
      = (Done s1 [Reply (im_id (sample_request 1)) (jl_write ref_lib (job_reply_doc_as (JReal (j_progress ?j)) ?j Ok))], Some ?j)
    \<and> (\<exists>s2. s2 = ?set s1 \<and> um_count (j_id ?j) (jq_completed s2)
      \<and> (\<forall>s3. alive_run (job_queue_react ref_lib (\<lambda>_. ''id'')) ?es s2 = Some s3 \<longrightarrow> map_of (jq_in_progress s3) (j_id ?j) \<noteq> None))
    \<and> map_of (jq_in_progress (final_state s1 (job_set_result ref_lib (\<lambda>_. ''id'') 6 (sample_request 2) (job_file_work ?j s1)))) (j_id ?j) = None"
    by (rule late_filing [where n = "''q''" and q = ?q and js = "[]" and key = "''key''", OF _ _ _ _ _ reads_back_as])
      (use r [of 2] w [of 1] in \<open>simp_all add: job_queue_new_def queue_new_def\<close>)
  then obtain s1 where s1: "job_take_work ref_lib (sample_request 1) ?s
      = (Done s1 [Reply (im_id (sample_request 1)) (jl_write ref_lib (job_reply_doc_as (JReal (j_progress ?j)) ?j Ok))], Some ?j)"
    and kept: "\<forall>s3. alive_run (job_queue_react ref_lib (\<lambda>_. ''id'')) ?es (?set s1) = Some s3 \<longrightarrow> map_of (jq_in_progress s3) (j_id ?j) \<noteq> None"
    by blast
  obtain s3 where "alive_run (job_queue_react ref_lib (\<lambda>_. ''id'')) ?es (?set s1) = Some s3"
    using nc by (simp add: alive_step_def del: job_queue_react.simps)
  with s1 kept show ?thesis unfolding Let_def by (intro exI [of _ s1] exI [of _ s3] exI) auto
qed

end
