(* ===== verification/Nix_Log_Config.thy ===== *)
theory Nix_Log_Config
  imports Nix_Strings
begin

text \<open>
  The configuration of the log (the classes \<open>LevelHelper\<close>, \<open>ConfigurationTypeHelper\<close>, \<open>Configuration\<close>,
  \<open>Configurations\<close> and \<open>Configurations::Parser\<close> of src/src/nix/easylogging++.h): the repository of values by
  level and type, the ways it is written to, and the parser of etc/log.conf. The asserts of the
  library only print to the standard error, and are left out.
\<close>

section \<open>Text\<close>

definition is_space :: "char \<Rightarrow> bool" where
  "is_space c \<longleftrightarrow> c = CHR 0x20 \<or> 9 \<le> (of_char c :: nat) \<and> (of_char c :: nat) \<le> 13"

definition ltrim :: "string \<Rightarrow> string" where
  "ltrim s = dropWhile is_space s"

definition rtrim :: "string \<Rightarrow> string" where
  "rtrim s = rev (dropWhile is_space (rev s))"

definition el_trim :: "string \<Rightarrow> string" where
  "el_trim s = ltrim (rtrim s)"

definition starts_with :: "string \<Rightarrow> string \<Rightarrow> bool" where
  "starts_with s start \<longleftrightarrow> length start \<le> length s \<and> take (length start) s = start"

text \<open>\<open>s.find(what, pos)\<close> of \<open>std::string\<close>, \<open>npos\<close> being \<open>None\<close>, and what \<open>strcmp\<close> sees of a string.\<close>

definition str_find :: "string \<Rightarrow> string \<Rightarrow> nat \<Rightarrow> nat option" where
  "str_find s what pos = List.find (\<lambda>i. take (length what) (drop i s) = what) [pos..<length s]"

definition c_str :: "string \<Rightarrow> string" where
  "c_str s = takeWhile (\<lambda>c. c \<noteq> CHR 0x00) s"

lemma str_find_bounds: "str_find s what pos = Some i \<Longrightarrow> pos \<le> i \<and> i < length s"
  unfolding str_find_def find_Some_iff
proof (elim exE conjE)
  fix k
  assume k: "k < length [pos..<length s]" and i: "i = [pos..<length s] ! k"
  then have "i = pos + k" by simp
  with k show ?thesis by simp
qed

text \<open>A search, position by position.\<close>

lemma find_map: "List.find P (map f xs) = map_option f (List.find (P \<circ> f) xs)"
  by (induction xs) simp_all

lemma upt_Suc_map: "[0..<Suc n] = 0 # map Suc [0..<n]"
  by (simp add: upt_conv_Cons map_Suc_upt del: upt_Suc)

lemma str_find_eval:
  "str_find [] what 0 = None"
  "str_find (c # s) what 0 = (if take (length what) (c # s) = what then Some 0 else map_option Suc (str_find s what 0))"
  "0 < pos \<Longrightarrow> str_find s what pos = map_option (\<lambda>i. i + pos) (str_find (drop pos s) what 0)"
proof -
  show "str_find [] what 0 = None" by (simp add: str_find_def)
  show "str_find (c # s) what 0 = (if take (length what) (c # s) = what then Some 0 else map_option Suc (str_find s what 0))"
    by (simp add: str_find_def upt_Suc_map find_map comp_def del: upt_Suc)
  have "[pos..<length s] = map (\<lambda>i. i + pos) [0..<length s - pos]"
    by (cases "pos \<le> length s") (simp_all add: map_add_upt)
  then show "0 < pos \<Longrightarrow> str_find s what pos = map_option (\<lambda>i. i + pos) (str_find (drop pos s) what 0)"
    by (simp add: str_find_def find_map comp_def add.commute)
qed

section \<open>Levels and types\<close>

datatype el_level = L_global | L_trace | L_debug | L_fatal | L_error | L_warning | L_verbose | L_info | L_unknown

datatype el_ctype = T_enabled | T_to_file | T_to_stdout | T_format | T_filename | T_ms_width | T_performance
  | T_max_size | T_flush | T_unknown

fun level_code :: "el_level \<Rightarrow> nat" where
  "level_code L_global = 1"
| "level_code L_trace = 2"
| "level_code L_debug = 4"
| "level_code L_fatal = 8"
| "level_code L_error = 16"
| "level_code L_warning = 32"
| "level_code L_verbose = 64"
| "level_code L_info = 128"
| "level_code L_unknown = 1010"

text \<open>Both conversions compare with the name in capitals and in small letters.\<close>

definition level_names :: "(string \<times> el_level) list" where
  "level_names = [(''GLOBAL'', L_global), (''DEBUG'', L_debug), (''INFO'', L_info), (''WARNING'', L_warning),
     (''ERROR'', L_error), (''FATAL'', L_fatal), (''VERBOSE'', L_verbose), (''TRACE'', L_trace)]"

definition level_of_string :: "string \<Rightarrow> el_level" where
  "level_of_string s =
     (case List.find (\<lambda>(n, l). c_str s = n \<or> c_str s = to_lower n) level_names of Some (n, l) \<Rightarrow> l | None \<Rightarrow> L_unknown)"

definition type_names :: "(string \<times> el_ctype) list" where
  "type_names = [(''ENABLED'', T_enabled), (''TO_FILE'', T_to_file), (''TO_STANDARD_OUTPUT'', T_to_stdout),
     (''FORMAT'', T_format), (''FILENAME'', T_filename), (''MILLISECONDS_WIDTH'', T_ms_width),
     (''PERFORMANCE_TRACKING'', T_performance), (''MAX_LOG_FILE_SIZE'', T_max_size), (''LOG_FLUSH_THRESHOLD'', T_flush)]"

definition type_of_string :: "string \<Rightarrow> el_ctype" where
  "type_of_string s =
     (case List.find (\<lambda>(n, t). c_str s = n \<or> c_str s = to_lower n) type_names of Some (n, t) \<Rightarrow> t | None \<Rightarrow> T_unknown)"

text \<open>The levels \<open>forEachLevel\<close> visits from \<open>kMinValid\<close> on: the code is shifted to the left up to \<open>kMaxValid\<close>.\<close>

definition each_level :: "el_level list" where
  "each_level = [L_trace, L_debug, L_fatal, L_error, L_warning, L_verbose, L_info]"

lemma each_level_codes: "map level_code each_level = map (\<lambda>k. 2 ^ k) [1..<8]"
  by (simp add: each_level_def upt_rec)

lemma each_level_iff: "l \<in> set each_level \<longleftrightarrow> l \<noteq> L_global \<and> l \<noteq> L_unknown"
  by (cases l) (simp_all add: each_level_def)

lemma distinct_each_level: "distinct each_level"
  by (simp add: each_level_def)

section \<open>The repository\<close>

record configuration =
  cf_level :: el_level
  cf_type :: el_ctype
  cf_value :: string

type_synonym configurations = "configuration list"

definition cf_matches :: "el_level \<Rightarrow> el_ctype \<Rightarrow> configuration \<Rightarrow> bool" where
  "cf_matches l t c \<longleftrightarrow> cf_level c = l \<and> cf_type c = t"

definition conf_get :: "el_level \<Rightarrow> el_ctype \<Rightarrow> configurations \<Rightarrow> configuration option" where
  "conf_get l t cs = List.find (cf_matches l t) cs"

definition has_configuration :: "el_level \<Rightarrow> el_ctype \<Rightarrow> configurations \<Rightarrow> bool" where
  "has_configuration l t cs \<longleftrightarrow> conf_get l t cs \<noteq> None"

text \<open>The value of the first entry that matches is set, or a new entry comes to the end.\<close>

fun conf_put :: "el_level \<Rightarrow> el_ctype \<Rightarrow> string \<Rightarrow> configurations \<Rightarrow> configurations" where
  "conf_put l t v [] = [\<lparr>cf_level = l, cf_type = t, cf_value = v\<rparr>]"
| "conf_put l t v (c # cs) = (if cf_matches l t c then c\<lparr>cf_value := v\<rparr> # cs else c # conf_put l t v cs)"

definition unsafe_set_globally :: "el_ctype \<Rightarrow> string \<Rightarrow> configurations \<Rightarrow> configurations" where
  "unsafe_set_globally t v cs = fold (\<lambda>l. conf_put l t v) each_level cs"

definition unsafe_set :: "el_level \<Rightarrow> el_ctype \<Rightarrow> string \<Rightarrow> configurations \<Rightarrow> configurations" where
  "unsafe_set l t v cs =
     (let cs' = conf_put l t v cs in if l = L_global then unsafe_set_globally t v cs' else cs')"

definition conf_set :: "el_level \<Rightarrow> el_ctype \<Rightarrow> string \<Rightarrow> configurations \<Rightarrow> configurations" where
  "conf_set l t v cs =
     (let cs' = unsafe_set l t v cs in if l = L_global then unsafe_set_globally t v cs' else cs')"

definition set_globally :: "el_ctype \<Rightarrow> string \<Rightarrow> bool \<Rightarrow> configurations \<Rightarrow> configurations" where
  "set_globally t v global cs = fold (\<lambda>l. conf_set l t v) each_level (if global then conf_set L_global t v cs else cs)"

definition unsafe_set_if_not_exist :: "el_level \<Rightarrow> el_ctype \<Rightarrow> string \<Rightarrow> configurations \<Rightarrow> configurations" where
  "unsafe_set_if_not_exist l t v cs = (if conf_get l t cs = None then unsafe_set l t v cs else cs)"

definition set_from_base :: "configurations \<Rightarrow> configurations \<Rightarrow> configurations" where
  "set_from_base base cs = fold (\<lambda>c. conf_set (cf_level c) (cf_type c) (cf_value c)) base cs"

definition default_log_file :: string where
  "default_log_file = ''logs/myeasylog.log''"

text \<open>The formats of the levels that have one of their own.\<close>

definition level_formats :: "(el_level \<times> string) list" where
  "level_formats =
     [(L_debug, ''%datetime %level [%logger] [%user@%host] [%func] [%loc] %msg''),
      (L_error, ''%datetime %level [%logger] %msg''), (L_fatal, ''%datetime %level [%logger] %msg''),
      (L_verbose, ''%datetime %level-%vlevel [%logger] %msg''), (L_trace, ''%datetime %level [%logger] [%func] [%loc] %msg'')]"

definition set_to_default :: "configurations \<Rightarrow> configurations" where
  "set_to_default cs =
     fold (\<lambda>(l, f). conf_set l T_format f) level_formats
       (fold (\<lambda>(t, v). set_globally t v True)
         [(T_enabled, ''true''), (T_filename, default_log_file), (T_to_file, ''true''), (T_to_stdout, ''true''),
          (T_ms_width, ''3''), (T_performance, ''true''), (T_max_size, ''0''), (T_flush, ''0''),
          (T_format, ''%datetime %level [%logger] %msg'')] cs)"

text \<open>There is no default for the threshold of flushing among the remaining ones.\<close>

definition remaining_defaults :: "(el_ctype \<times> string) list" where
  "remaining_defaults =
     [(T_enabled, ''true''), (T_filename, default_log_file), (T_to_file, ''true''), (T_to_stdout, ''true''),
      (T_ms_width, ''3''), (T_performance, ''true''), (T_max_size, ''0''),
      (T_format, ''%datetime %level [%logger] %msg'')]"

definition set_remaining_to_default :: "configurations \<Rightarrow> configurations" where
  "set_remaining_to_default cs =
     fold (\<lambda>(l, f). unsafe_set_if_not_exist l T_format f) level_formats
       (fold (\<lambda>(t, v). unsafe_set_if_not_exist L_global t v) remaining_defaults cs)"

section \<open>The parser\<close>

definition quote :: string where "quote = [CHR 0x22]"

text \<open>The end of a quoted text: a quote behind a backslash is passed over, with the character behind it.\<close>

function skip_escaped :: "string \<Rightarrow> nat option \<Rightarrow> nat option" where
  "skip_escaped line None = None"
| "skip_escaped line (Some e) =
     (if e < length line \<and> line ! (e - 1) = CHR 0x5C then skip_escaped line (str_find line quote (e + 2)) else Some e)"
  by pat_completeness auto
termination
  by (relation "measure (\<lambda>(line, e). case e of None \<Rightarrow> 0 | Some e \<Rightarrow> Suc (length line - e))")
    (auto split: option.split dest!: str_find_bounds)

definition ignore_comments :: "string \<Rightarrow> string" where
  "ignore_comments line =
     (let quotes_end = (case str_find line quote 0 of None \<Rightarrow> None
                        | Some s \<Rightarrow> skip_escaped line (str_find line quote (s + 1)))
      in case str_find line ''##'' 0 of
           None \<Rightarrow> line
         | Some f \<Rightarrow>
             substr line 0
               (if (case quotes_end of None \<Rightarrow> True | Some e \<Rightarrow> f < e)
                then str_find line ''##'' (case quotes_end of None \<Rightarrow> 0 | Some e \<Rightarrow> e + 1)
                else Some f))"

definition is_level_line :: "string \<Rightarrow> bool" where
  "is_level_line line = starts_with line ''*''"

definition is_comment_line :: "string \<Rightarrow> bool" where
  "is_comment_line line = starts_with line ''##''"

text \<open>The test of the first character holds of every character.\<close>

definition is_config_line :: "string \<Rightarrow> bool" where
  "is_config_line line \<longleftrightarrow> line \<noteq> [] \<and>
     (65 \<le> (of_char (line ! 0) :: nat) \<or> (of_char (line ! 0) :: nat) \<le> 90
        \<or> 97 \<le> (of_char (line ! 0) :: nat) \<or> (of_char (line ! 0) :: nat) \<le> 122) \<and>
     (case str_find line ''='' 0 of None \<Rightarrow> False | Some a \<Rightarrow> a < length line)"

text \<open>In a value the backslash in front of a quote is removed.\<close>

function unescape :: "string \<Rightarrow> nat option \<Rightarrow> string \<times> nat option" where
  "unescape v None = (v, None)"
| "unescape v (Some e) =
     (if e < length v \<and> v ! (e - 1) = CHR 0x5C
      then let v' = take (e - 1) v @ drop e v in unescape v' (str_find v' quote (e + 2))
      else (v, Some e))"
  by pat_completeness auto
termination
  by (relation "measure (\<lambda>(v, e). case e of None \<Rightarrow> 0 | Some e \<Rightarrow> Suc (length v - e))")
    (auto split: option.split dest!: str_find_bounds)

text \<open>The length that is given to \<open>substr\<close> is the position of the closing quote less one.\<close>

definition unquote :: "string \<Rightarrow> string" where
  "unquote v =
     (case str_find v quote 0 of
        None \<Rightarrow> v
      | Some s \<Rightarrow>
          (case unescape v (str_find v quote (s + 1)) of
             (v', None) \<Rightarrow> v'
           | (v', Some e) \<Rightarrow> if s \<noteq> e \<and> s + 1 \<noteq> e then take (e - 1) (drop (s + 1) v') else v'))"

text \<open>One line: whether it is in order, the level from then on, and the repository.\<close>

definition parse_line :: "string \<Rightarrow> el_level \<times> configurations \<Rightarrow> bool \<times> el_level \<times> configurations" where
  "parse_line line lc =
     (let line = el_trim line; (level, cs) = lc
      in if is_comment_line line then (True, level, cs)
         else let line = el_trim (ignore_comments line)
         in if line = [] then (True, level, cs)
         else if is_level_line line then
           (if length line \<le> 2 then (True, level, cs)
            else (True, level_of_string (el_trim (to_upper (take (length line - 2) (drop 1 line)))), cs))
         else
           let (t, v) = (if is_config_line line
                         then (case str_find line ''='' 0 of
                                 Some a \<Rightarrow> (type_of_string (el_trim (to_upper (take a line))), unquote (el_trim (drop (a + 1) line)))
                               | None \<Rightarrow> (T_unknown, []))
                         else (T_unknown, []))
           in if level = L_unknown \<or> t = T_unknown then (False, level, cs)
              else (True, level, conf_set level t v cs))"

text \<open>\<open>std::getline\<close> up to the end of the file; behind the last line end there is one more, empty line.\<close>

fun file_lines :: "string \<Rightarrow> string list" where
  "file_lines [] = [[]]"
| "file_lines (c # s) = (if c = CHR 0x0A then [] # file_lines s
     else case file_lines s of [] \<Rightarrow> [[c]] | l # ls \<Rightarrow> (c # l) # ls)"

definition parse_log_file :: "string \<Rightarrow> configurations \<Rightarrow> bool \<times> configurations" where
  "parse_log_file text cs =
     (let (ok, level, cs') = fold (\<lambda>line (ok, lc). parse_line line lc) (file_lines text) (False, L_unknown, cs)
      in (ok, cs'))"

text \<open>\<open>Configurations(file)\<close>; a file that is not there or cannot be opened sets nothing.\<close>

definition configurations_of_file :: "string option \<Rightarrow> configurations" where
  "configurations_of_file text =
     set_remaining_to_default (case text of None \<Rightarrow> [] | Some s \<Rightarrow> snd (parse_log_file s []))"

section \<open>Values and order of a repository\<close>

definition conf_value :: "el_level \<Rightarrow> el_ctype \<Rightarrow> configurations \<Rightarrow> string option" where
  "conf_value l t cs = map_option cf_value (conf_get l t cs)"

abbreviation cf_key :: "configuration \<Rightarrow> el_level \<times> el_ctype" where
  "cf_key c \<equiv> (cf_level c, cf_type c)"

definition conf_wf :: "configurations \<Rightarrow> bool" where
  "conf_wf cs \<longleftrightarrow> distinct (map cf_key cs)"

text \<open>A type that has a value for all levels has one for each.\<close>

definition conf_closed :: "configurations \<Rightarrow> bool" where
  "conf_closed cs \<longleftrightarrow> (\<forall>t. conf_get L_global t cs \<noteq> None \<longrightarrow> (\<forall>l \<in> set each_level. conf_get l t cs \<noteq> None))"

text \<open>The levels with an entry of a type, in order, and those that stand before the level for all.\<close>

definition type_levels :: "el_ctype \<Rightarrow> configurations \<Rightarrow> el_level list" where
  "type_levels t cs = map fst (filter (\<lambda>k. snd k = t) (map cf_key cs))"

definition before_global :: "el_ctype \<Rightarrow> configurations \<Rightarrow> el_level list" where
  "before_global t cs = takeWhile (\<lambda>l. l \<noteq> L_global) (type_levels t cs)"

lemma type_levels_append:
  "type_levels t (xs @ c # ys) = type_levels t xs @ (if cf_type c = t then [cf_level c] else []) @ type_levels t ys"
  by (simp add: type_levels_def)

lemma type_levels_iff: "l \<in> set (type_levels t cs) \<longleftrightarrow> (\<exists>c \<in> set cs. cf_key c = (l, t))"
  by (auto simp: type_levels_def image_iff)

lemma conf_get_put:
  "conf_get l t (conf_put l' t' v cs)
     = (if l = l' \<and> t = t' then Some \<lparr>cf_level = l, cf_type = t, cf_value = v\<rparr> else conf_get l t cs)"
  by (induction cs) (auto simp: conf_get_def cf_matches_def)

lemma conf_value_put: "conf_value l t (conf_put l' t' v cs) = (if l = l' \<and> t = t' then Some v else conf_value l t cs)"
  by (simp add: conf_value_def conf_get_put)

lemma conf_get_None_iff: "conf_get l t cs = None \<longleftrightarrow> (l, t) \<notin> cf_key ` set cs"
  by (auto simp: conf_get_def find_None_iff cf_matches_def image_iff)

lemma conf_value_None_iff: "conf_value l t cs = None \<longleftrightarrow> (l, t) \<notin> cf_key ` set cs"
  by (simp add: conf_value_def conf_get_None_iff)

lemma keys_put:
  "map cf_key (conf_put l t v cs) = (if (l, t) \<in> cf_key ` set cs then map cf_key cs else map cf_key cs @ [(l, t)])"
  by (induction cs) (auto simp: cf_matches_def)

lemma wf_put: "conf_wf cs \<Longrightarrow> conf_wf (conf_put l t v cs)"
  unfolding conf_wf_def keys_put by auto

lemma keys_put_same: "conf_get l t cs \<noteq> None \<Longrightarrow> map cf_key (conf_put l t v cs) = map cf_key cs"
  by (auto simp: keys_put conf_get_None_iff)

lemma fold_put_value:
  "conf_value l t (fold (\<lambda>l'. conf_put l' t' v) ls cs) = (if l \<in> set ls \<and> t = t' then Some v else conf_value l t cs)"
  by (induction ls arbitrary: cs) (auto simp: conf_value_put)

lemma fold_put_wf: "conf_wf cs \<Longrightarrow> conf_wf (fold (\<lambda>l'. conf_put l' t' v) ls cs)"
  by (induction ls arbitrary: cs) (simp_all add: wf_put)

lemma fold_put_keys:
  "(\<forall>l \<in> set ls. conf_value l t cs \<noteq> None) \<Longrightarrow> map cf_key (fold (\<lambda>l'. conf_put l' t v) ls cs) = map cf_key cs"
proof (induction ls arbitrary: cs)
  case (Cons l ls)
  then have "map cf_key (fold (\<lambda>l'. conf_put l' t v) ls (conf_put l t v cs)) = map cf_key (conf_put l t v cs)"
    by (simp add: conf_value_put)
  also have "\<dots> = map cf_key cs"
    using Cons.prems by (intro keys_put_same) (simp add: conf_value_def)
  finally show ?case by simp
qed simp

lemma unsafe_set_value:
  "conf_value l t (unsafe_set l' t' v cs)
     = (if t = t' \<and> (l = l' \<or> l' = L_global \<and> l \<in> set each_level) then Some v else conf_value l t cs)"
  by (cases "l' = L_global"; cases "t = t'"; cases "l = l'")
    (simp_all add: unsafe_set_def unsafe_set_globally_def fold_put_value conf_value_put Let_def)

lemma conf_set_value:
  "conf_value l t (conf_set l' t' v cs)
     = (if t = t' \<and> (l = l' \<or> l' = L_global \<and> l \<in> set each_level) then Some v else conf_value l t cs)"
  by (cases "l' = L_global"; cases "t = t'"; cases "l = l'")
    (simp_all add: conf_set_def unsafe_set_globally_def fold_put_value unsafe_set_value Let_def)

lemma unsafe_set_wf: "conf_wf cs \<Longrightarrow> conf_wf (unsafe_set l t v cs)"
  by (simp add: unsafe_set_def unsafe_set_globally_def fold_put_wf wf_put Let_def)

lemma conf_set_wf: "conf_wf cs \<Longrightarrow> conf_wf (conf_set l t v cs)"
  by (simp add: conf_set_def unsafe_set_globally_def fold_put_wf unsafe_set_wf Let_def)

lemma set_globally_value:
  "conf_value l t (set_globally t' v b cs)
     = (if t = t' \<and> (l \<in> set each_level \<or> b \<and> l = L_global) then Some v else conf_value l t cs)"
proof -
  have "conf_value l t (fold (\<lambda>l. conf_set l t' v) ls cs') = (if l \<in> set ls \<and> t = t' then Some v else conf_value l t cs')"
    if "L_global \<notin> set ls" for ls cs'
    using that by (induction ls arbitrary: cs') (auto simp: conf_set_value)
  then show ?thesis by (auto simp: set_globally_def conf_set_value each_level_iff)
qed

lemma set_globally_wf: "conf_wf cs \<Longrightarrow> conf_wf (set_globally t v b cs)"
proof -
  have "conf_wf cs' \<Longrightarrow> conf_wf (fold (\<lambda>l. conf_set l t v) ls cs')" for ls cs'
    by (induction ls arbitrary: cs') (simp_all add: conf_set_wf)
  then show "conf_wf cs \<Longrightarrow> conf_wf (set_globally t v b cs)" by (simp add: set_globally_def conf_set_wf)
qed

text \<open>Without the level for all, the order of the entries stays when all are there.\<close>

lemma set_globally_keys:
  assumes "\<forall>l \<in> set each_level. conf_value l t cs \<noteq> None"
  shows "map cf_key (set_globally t v False cs) = map cf_key cs"
proof -
  have put: "conf_set l t v = conf_put l t v" if "l \<in> set each_level" for l
    using that by (auto simp: fun_eq_iff conf_set_def unsafe_set_def each_level_iff Let_def)
  then have "set_globally t v False cs = fold (\<lambda>l. conf_put l t v) each_level cs"
    unfolding set_globally_def if_False by (intro fold_cong) auto
  with fold_put_keys [OF assms] show ?thesis by simp
qed

lemma before_global_keys: "map cf_key cs = map cf_key cs' \<Longrightarrow> before_global t cs = before_global t cs'"
  by (simp only: before_global_def type_levels_def)

section \<open>Configuring from a base\<close>

text \<open>What a level has in the end: the value of the last entry of the base for it or for all levels.\<close>

definition overrides :: "el_level \<Rightarrow> el_ctype \<Rightarrow> configuration \<Rightarrow> bool" where
  "overrides l t c \<longleftrightarrow> cf_type c = t \<and> (cf_level c = l \<or> cf_level c = L_global \<and> l \<in> set each_level)"

lemma from_base_value:
  "conf_value l t (set_from_base base cs)
     = (case List.find (overrides l t) (rev base) of Some c \<Rightarrow> Some (cf_value c) | None \<Rightarrow> conf_value l t cs)"
proof (induction base rule: rev_induct)
  case (snoc c base)
  then show ?case by (auto simp: set_from_base_def conf_set_value overrides_def)
qed (simp add: set_from_base_def)

lemma from_base_wf: "conf_wf cs \<Longrightarrow> conf_wf (set_from_base base cs)"
  unfolding set_from_base_def by (induction base arbitrary: cs) (simp_all add: conf_set_wf)

lemma find_append: "List.find P (xs @ ys) = (case List.find P xs of None \<Rightarrow> List.find P ys | Some x \<Rightarrow> Some x)"
  by (induction xs) simp_all

lemma find_NoneI: "(\<And>x. x \<in> set xs \<Longrightarrow> \<not> P x) \<Longrightarrow> List.find P xs = None"
  by (simp add: find_None_iff)

lemma conf_value_entry: "conf_value l t cs = Some v \<Longrightarrow> \<exists>c \<in> set cs. cf_key c = (l, t) \<and> cf_value c = v"
  by (auto simp: conf_value_def conf_get_def find_Some_iff cf_matches_def)

lemma wf_later: "conf_wf (xs @ c # ys) \<Longrightarrow> x = c \<or> x \<in> set xs \<Longrightarrow> y \<in> set ys \<Longrightarrow> cf_key y \<noteq> cf_key x"
proof
  assume w: "conf_wf (xs @ c # ys)" "x = c \<or> x \<in> set xs" "y \<in> set ys" "cf_key y = cf_key x"
  have "cf_key x \<in> cf_key ` set (xs @ [c])" using w(2) by (intro imageI) auto
  moreover have "cf_key x \<in> cf_key ` set ys" using w(3) unfolding w(4) [symmetric] by (rule imageI)
  ultimately show False using w(1) unfolding conf_wf_def by (simp only: map_append list.map distinct_append set_map) auto
qed

lemma from_base_last:
  assumes "conf_wf (as @ c # bs)" "overrides l t c" "\<forall>b \<in> set bs. cf_key b \<noteq> (l, t) \<and> cf_key b \<noteq> (L_global, t)"
  shows "conf_value l t (set_from_base (as @ c # bs) cs) = Some (cf_value c)"
proof -
  have "List.find (overrides l t) (rev bs) = None"
    using assms(3) by (intro find_NoneI) (auto simp: overrides_def)
  then show ?thesis using assms(2) by (simp add: from_base_value find_append)
qed

text \<open>
  A level whose entry stands behind that of the level for all gets its own value; a level whose entry
  stands before it gets the value for all.
\<close>

lemma takeWhile_stops: "takeWhile (\<lambda>k. k \<noteq> g) (xs @ g # ys) = takeWhile (\<lambda>k. k \<noteq> g) xs"
  by (induction xs) simp_all

lemma takeWhile_keeps: "g \<notin> set xs \<Longrightarrow> l \<noteq> g \<Longrightarrow> l \<in> set (takeWhile (\<lambda>k. k \<noteq> g) (xs @ l # ys))"
  by (induction xs) auto

lemma two_entries:
  assumes "c \<in> set xs" "d \<in> set xs" "c \<noteq> d"
  obtains as bs cs where "xs = as @ c # bs @ d # cs" | as bs cs where "xs = as @ d # bs @ c # cs"
proof -
  from assms(1) obtain as bs where x: "xs = as @ c # bs" by (auto simp: in_set_conv_decomp)
  with assms(2,3) consider "d \<in> set as" | "d \<in> set bs" by auto
  then show thesis
  proof cases
    case 1
    then obtain us vs where "as = us @ d # vs" by (auto simp: in_set_conv_decomp)
    with x that(2) [of us vs bs] show thesis by simp
  next
    case 2
    then obtain us vs where "bs = us @ d # vs" by (auto simp: in_set_conv_decomp)
    with x that(1) [of as us vs] show thesis by simp
  qed
qed

lemma from_base_order:
  assumes "conf_wf base" "l \<in> set each_level" "conf_value l t base = Some v" "conf_value L_global t base = Some g"
  shows "conf_value l t (set_from_base base cs) = Some (if l \<in> set (before_global t base) then g else v)"
proof -
  have l: "l \<noteq> L_global" using assms(2) by (simp add: each_level_iff)
  from conf_value_entry [OF assms(3)] obtain c where c: "c \<in> set base" "cf_key c = (l, t)" "cf_value c = v" by blast
  from conf_value_entry [OF assms(4)] obtain d where d: "d \<in> set base" "cf_key d = (L_global, t)" "cf_value d = g" by blast
  from c(2) d(2) l have "c \<noteq> d" by auto
  with c(1) d(1) show ?thesis
  proof (cases rule: two_entries)
    case (1 as bs es)
    have "\<forall>a \<in> set as. cf_key a \<noteq> (L_global, t)"
    proof
      fix a
      assume "a \<in> set as"
      with wf_later [OF assms(1) [unfolded 1], of a d] d(2) show "cf_key a \<noteq> (L_global, t)" by auto
    qed
    then have "L_global \<notin> set (type_levels t as)" using type_levels_iff [of _ t as] by auto
    then have early: "l \<in> set (before_global t base)"
      using c(2) l by (auto simp: 1 before_global_def type_levels_append takeWhile_keeps)
    have base: "base = (as @ c # bs) @ d # es" by (simp add: 1)
    have "\<forall>b \<in> set es. cf_key b \<noteq> (l, t) \<and> cf_key b \<noteq> (L_global, t)"
      using wf_later [OF assms(1) [unfolded base], of c] wf_later [OF assms(1) [unfolded base], of d] c(2) d(2) by simp
    with from_base_last [of "as @ c # bs" d es l t cs] assms(1,2) d base early show ?thesis by (simp add: overrides_def)
  next
    case (2 as bs es)
    have "\<forall>a \<in> set as. cf_key a \<noteq> (l, t)"
    proof
      fix a
      assume "a \<in> set as"
      with wf_later [OF assms(1) [unfolded 2], of a c] c(2) show "cf_key a \<noteq> (l, t)" by auto
    qed
    then have "l \<notin> set (type_levels t as)" using type_levels_iff [of _ t as] by auto
    then have late: "l \<notin> set (before_global t base)"
      using d(2) set_takeWhileD [of l _ "type_levels t as"]
      by (auto simp: 2 before_global_def type_levels_append takeWhile_stops)
    have base: "base = (as @ d # bs) @ c # es" by (simp add: 2)
    have "\<forall>b \<in> set es. cf_key b \<noteq> (l, t) \<and> cf_key b \<noteq> (L_global, t)"
      using wf_later [OF assms(1) [unfolded base], of c] wf_later [OF assms(1) [unfolded base], of d] c(2) d(2) by simp
    with from_base_last [of "as @ d # bs" c es l t cs] assms(1) c base late show ?thesis by (simp add: overrides_def)
  qed
qed

section \<open>What a file gives\<close>

lemma conf_closed_iff:
  "conf_closed cs \<longleftrightarrow> (\<forall>t. conf_value L_global t cs \<noteq> None \<longrightarrow> (\<forall>l \<in> set each_level. conf_value l t cs \<noteq> None))"
  by (simp add: conf_closed_def conf_value_def)

lemma closed_unsafe_set: "conf_closed cs \<Longrightarrow> conf_closed (unsafe_set l t v cs)"
  by (simp add: conf_closed_iff unsafe_set_value)

lemma closed_conf_set: "conf_closed cs \<Longrightarrow> conf_closed (conf_set l t v cs)"
  by (simp add: conf_closed_iff conf_set_value)

lemma if_not_exist_value:
  "conf_value l t (unsafe_set_if_not_exist l' t' v cs)
     = (if conf_value l' t' cs = None \<and> t = t' \<and> (l = l' \<or> l' = L_global \<and> l \<in> set each_level) then Some v
        else conf_value l t cs)"
  by (cases "conf_get l' t' cs") (auto simp: unsafe_set_if_not_exist_def unsafe_set_value, auto simp: conf_value_def)

lemma remaining_fold_value:
  "distinct (map fst ds) \<Longrightarrow>
     conf_value l t (fold (\<lambda>(t, v). unsafe_set_if_not_exist L_global t v) ds cs)
       = (case map_of ds t of
            Some v \<Rightarrow> if conf_value L_global t cs = None \<and> (l = L_global \<or> l \<in> set each_level) then Some v else conf_value l t cs
          | None \<Rightarrow> conf_value l t cs)"
proof (induction ds arbitrary: cs)
  case (Cons d ds)
  then show ?case
    by (cases d; cases "t = fst d") (auto simp: if_not_exist_value map_of_eq_None_iff [symmetric] split: option.split)
qed simp

lemma remaining_distinct: "distinct (map fst remaining_defaults)"
  by (simp add: remaining_defaults_def)

lemma formats_kept:
  "conf_closed cs \<Longrightarrow> conf_value L_global T_format cs \<noteq> None \<Longrightarrow> set fs \<subseteq> set level_formats \<Longrightarrow>
     fold (\<lambda>(l, f). unsafe_set_if_not_exist l T_format f) fs cs = cs"
proof (induction fs)
  case (Cons f fs)
  then have "fst f \<in> set each_level" by (auto simp: level_formats_def each_level_def)
  with Cons.prems(1,2) have "conf_get (fst f) T_format cs \<noteq> None" by (auto simp: conf_closed_iff conf_value_def)
  then have "unsafe_set_if_not_exist (fst f) T_format (snd f) cs = cs" by (auto simp: unsafe_set_if_not_exist_def)
  with Cons show ?case by (simp add: case_prod_unfold)
qed simp

lemma closed_remaining_fold:
  "conf_closed cs \<Longrightarrow> conf_closed (fold (\<lambda>(t, v). unsafe_set_if_not_exist L_global t v) ds cs)"
  by (induction ds arbitrary: cs) (auto simp: unsafe_set_if_not_exist_def closed_unsafe_set)

lemma wf_remaining_fold:
  "conf_wf cs \<Longrightarrow> conf_wf (fold (\<lambda>(t, v). unsafe_set_if_not_exist L_global t v) ds cs)"
  by (induction ds arbitrary: cs) (auto simp: unsafe_set_if_not_exist_def unsafe_set_wf)

lemma remaining_eq:
  assumes "conf_closed cs"
  shows "set_remaining_to_default cs = fold (\<lambda>(t, v). unsafe_set_if_not_exist L_global t v) remaining_defaults cs"
proof -
  let ?r = "fold (\<lambda>(t, v). unsafe_set_if_not_exist L_global t v) remaining_defaults cs"
  have "conf_value L_global T_format ?r \<noteq> None"
    unfolding remaining_fold_value [OF remaining_distinct] by (simp add: remaining_defaults_def)
  with formats_kept [OF closed_remaining_fold [OF assms] this] show ?thesis
    by (simp add: set_remaining_to_default_def)
qed

lemma remaining_value:
  "conf_closed cs \<Longrightarrow>
     conf_value l t (set_remaining_to_default cs)
       = (case map_of remaining_defaults t of
            Some v \<Rightarrow> if conf_value L_global t cs = None \<and> (l = L_global \<or> l \<in> set each_level) then Some v else conf_value l t cs
          | None \<Rightarrow> conf_value l t cs)"
  by (simp only: remaining_eq remaining_fold_value [OF remaining_distinct])

lemma parse_line_inv:
  assumes "conf_wf cs" "conf_closed cs" "parse_line line (level, cs) = (ok, level', cs')"
  shows "conf_wf cs' \<and> conf_closed cs'"
proof -
  have "cs' = cs \<or> (\<exists>l t v. cs' = conf_set l t v cs)"
    using assms(3) by (auto simp: parse_line_def Let_def split: if_splits prod.splits)
  with assms(1,2) show ?thesis by (auto simp: conf_set_wf closed_conf_set)
qed

lemma parse_lines_inv:
  "conf_wf cs \<Longrightarrow> conf_closed cs \<Longrightarrow> fold (\<lambda>line (ok, lc). parse_line line lc) ls (ok, level, cs) = (ok', level', cs') \<Longrightarrow>
     conf_wf cs' \<and> conf_closed cs'"
proof (induction ls arbitrary: ok level cs)
  case (Cons l ls)
  obtain ok1 lv1 cs1 where p: "parse_line l (level, cs) = (ok1, lv1, cs1)" by (cases "parse_line l (level, cs)") auto
  with Cons.prems(3) have "fold (\<lambda>line (ok, lc). parse_line line lc) ls (ok1, lv1, cs1) = (ok', level', cs')" by simp
  with Cons.IH parse_line_inv [OF Cons.prems(1,2) p] show ?case by blast
qed simp

lemma parsed_inv: "conf_wf (snd (parse_log_file s [])) \<and> conf_closed (snd (parse_log_file s []))"
proof -
  obtain ok level cs where p: "fold (\<lambda>line (ok, lc). parse_line line lc) (file_lines s) (False, L_unknown, []) = (ok, level, cs)"
    by (cases "fold (\<lambda>line (ok, lc). parse_line line lc) (file_lines s) (False, L_unknown, [])") auto
  have "conf_wf cs \<and> conf_closed cs"
    by (rule parse_lines_inv [OF _ _ p]) (simp_all add: conf_wf_def conf_closed_iff conf_value_def conf_get_def)
  with p show ?thesis by (simp add: parse_log_file_def)
qed

definition parsed_part :: "string option \<Rightarrow> configurations" where
  "parsed_part text = (case text of None \<Rightarrow> [] | Some s \<Rightarrow> snd (parse_log_file s []))"

lemma parsed_part_inv: "conf_wf (parsed_part text)" "conf_closed (parsed_part text)"
  using parsed_inv by (auto simp: parsed_part_def conf_wf_def conf_closed_iff conf_value_def conf_get_def split: option.split)

lemma of_file_parsed: "configurations_of_file text = set_remaining_to_default (parsed_part text)"
  by (simp add: configurations_of_file_def parsed_part_def)

lemma of_file_inv: "conf_wf (configurations_of_file text)" "conf_closed (configurations_of_file text)"
  by (simp_all add: of_file_parsed remaining_eq parsed_part_inv wf_remaining_fold closed_remaining_fold)

lemma of_file_global:
  "t \<in> fst ` set remaining_defaults \<Longrightarrow> conf_value L_global t (configurations_of_file text) \<noteq> None"
  by (auto simp: of_file_parsed remaining_value [OF parsed_part_inv(2)] split: option.split)
    (metis map_of_eq_None_iff option.distinct(1) image_eqI fst_conv)+

text \<open>The defaults come behind what the file has set, the level for all first.\<close>

lemma put_keys_suffix: "\<exists>ks. map cf_key (conf_put l t v cs) = map cf_key cs @ ks \<and> (\<forall>k \<in> set ks. snd k = t)"
  by (simp add: keys_put)

lemma fold_put_suffix:
  "\<exists>ks. map cf_key (fold (\<lambda>l. conf_put l t v) ls cs) = map cf_key cs @ ks \<and> (\<forall>k \<in> set ks. snd k = t)"
proof (induction ls arbitrary: cs)
  case (Cons l ls)
  from put_keys_suffix [of l t v cs] obtain ks1 where
    1: "map cf_key (conf_put l t v cs) = map cf_key cs @ ks1" "\<forall>k \<in> set ks1. snd k = t" by blast
  from Cons [of "conf_put l t v cs"] obtain ks2 where
    2: "map cf_key (fold (\<lambda>l. conf_put l t v) ls (conf_put l t v cs)) = map cf_key (conf_put l t v cs) @ ks2"
      "\<forall>k \<in> set ks2. snd k = t" by blast
  have "map cf_key (fold (\<lambda>l. conf_put l t v) (l # ls) cs) = map cf_key cs @ ks1 @ ks2" using 1(1) 2(1) by simp
  moreover have "\<forall>k \<in> set (ks1 @ ks2). snd k = t" using 1(2) 2(2) by auto
  ultimately show ?case by blast
qed simp

lemma if_not_exist_before_global:
  "before_global t (unsafe_set_if_not_exist L_global t' v cs) = before_global t cs"
proof (cases "conf_get L_global t' cs")
  case None
  from fold_put_suffix [of t' v each_level "conf_put L_global t' v cs"] obtain ks where
    k: "map cf_key (unsafe_set L_global t' v cs) = map cf_key (conf_put L_global t' v cs) @ ks" "\<forall>k \<in> set ks. snd k = t'"
    by (auto simp: unsafe_set_def unsafe_set_globally_def Let_def)
  have "map cf_key (conf_put L_global t' v cs) = map cf_key cs @ [(L_global, t')]"
    using None by (simp add: keys_put conf_get_None_iff)
  with k have "type_levels t (unsafe_set L_global t' v cs)
      = (if t = t' then type_levels t cs @ L_global # map fst ks else type_levels t cs)"
    by (auto simp: type_levels_def filter_id_conv filter_empty_conv)
  with None show ?thesis by (simp add: unsafe_set_if_not_exist_def before_global_def takeWhile_stops)
qed (simp add: unsafe_set_if_not_exist_def)

lemma of_file_before_global: "before_global t (configurations_of_file text) = before_global t (parsed_part text)"
proof -
  have "before_global t (fold (\<lambda>(t, v). unsafe_set_if_not_exist L_global t v) ds cs) = before_global t cs" for ds cs
    by (induction ds arbitrary: cs) (auto simp: if_not_exist_before_global)
  then show ?thesis by (simp add: of_file_parsed remaining_eq parsed_part_inv)
qed

end
