(* ===== verification/Nix_Log_Format.thy ===== *)
theory Nix_Log_Format
  imports Nix_Log_Config
begin

text \<open>
  The text of a log line (the classes \<open>MillisecondsWidth\<close>, \<open>DateTime\<close>, \<open>LogFormat\<close>, \<open>DefaultLogBuilder\<close> and the
  helpers of \<open>Str\<close> and \<open>File\<close> in src/src/nix/easylogging++.h). The clock, in local time, is a value
  that is read; a buffer is the text in it and its size.
\<close>

unbundle bit_operations_syntax

section \<open>Buffers and numbers\<close>

definition add_to_buff :: "nat \<Rightarrow> string \<Rightarrow> string \<Rightarrow> string" where
  "add_to_buff limit s buf = buf @ take (limit - length buf) s"

text \<open>Digits from the right, as long as there is place in the local buffer and digits are wanted.\<close>

fun conv_digits :: "nat \<Rightarrow> nat \<Rightarrow> nat \<Rightarrow> string \<Rightarrow> string \<times> nat \<times> nat" where
  "conv_digits n 0 len acc = (acc, 0, len)"
| "conv_digits n (Suc p) len acc =
     (if 0 < n \<and> 0 < len then conv_digits (n div 10) p (len - 1) (digit (n mod 10) # acc) else (acc, Suc p, len))"

definition convert_and_add :: "nat \<Rightarrow> nat \<Rightarrow> nat \<Rightarrow> bool \<Rightarrow> string \<Rightarrow> string" where
  "convert_and_add limit n len zero_padded buf =
     (let (s, p, len') = (if 0 < n then conv_digits n 8 len [] else ([digit 0], 7, len - 1));
          s = (if zero_padded then replicate (min p len') (digit 0) @ s else s)
      in add_to_buff limit s buf)"

section \<open>Date and time\<close>

record ms_width =
  mw_width :: int
  mw_offset :: nat

definition ms_width_new :: "int \<Rightarrow> ms_width" where
  "ms_width_new width =
     (let w = (if width < 1 \<or> 6 < width then 3 else width)
      in \<lparr>mw_width = w, mw_offset = (if w = 4 then 100 else if w = 5 then 10 else if w = 6 then 1 else 1000)\<rparr>)"

record clock =
  tm_year :: nat
  tm_mon :: nat
  tm_mday :: nat
  tm_wday :: nat
  tm_hour :: nat
  tm_min :: nat
  tm_sec :: nat
  tm_usec :: nat

definition k_days :: "string list" where
  "k_days = [''Sunday'', ''Monday'', ''Tuesday'', ''Wednesday'', ''Thursday'', ''Friday'', ''Saturday'']"

definition k_days_abbrev :: "string list" where
  "k_days_abbrev = [''Sun'', ''Mon'', ''Tue'', ''Wed'', ''Thu'', ''Fri'', ''Sat'']"

definition k_months :: "string list" where
  "k_months = [''January'', ''February'', ''March'', ''Apri'', ''May'', ''June'', ''July'', ''August'',
     ''September'', ''October'', ''November'', ''December'']"

definition k_months_abbrev :: "string list" where
  "k_months_abbrev = [''Jan'', ''Feb'', ''Mar'', ''Apr'', ''May'', ''Jun'', ''Jul'', ''Aug'', ''Sep'', ''Oct'', ''Nov'', ''Dec'']"

text \<open>What a specifier of the date adds, or nothing when it is none.\<close>

definition date_specifier :: "nat \<Rightarrow> clock \<Rightarrow> ms_width \<Rightarrow> char \<Rightarrow> string \<Rightarrow> string" where
  "date_specifier limit now w c buf =
     (let num = (\<lambda>n len. convert_and_add limit n len True buf); txt = (\<lambda>s. add_to_buff limit s buf)
      in if c = CHR ''d'' then num (tm_mday now) 2
         else if c = CHR ''a'' then txt (k_days_abbrev ! tm_wday now)
         else if c = CHR ''A'' then txt (k_days ! tm_wday now)
         else if c = CHR ''M'' then num (tm_mon now + 1) 2
         else if c = CHR ''b'' then txt (k_months_abbrev ! tm_mon now)
         else if c = CHR ''B'' then txt (k_months ! tm_mon now)
         else if c = CHR ''y'' then num (tm_year now + 1900) 2
         else if c = CHR ''Y'' then num (tm_year now + 1900) 4
         else if c = CHR ''h'' then num (tm_hour now mod 12) 2
         else if c = CHR ''H'' then num (tm_hour now) 2
         else if c = CHR ''m'' then num (tm_min now) 2
         else if c = CHR ''s'' then num (tm_sec now) 2
         else if c = CHR ''z'' \<or> c = CHR ''g'' then num (tm_usec now div mw_offset w) (nat (mw_width w))
         else if c = CHR ''F'' then txt (if 12 \<le> tm_hour now then ''PM'' else ''AM'')
         else buf)"

text \<open>A percent sign at the end, or before another, is copied; a copy into a full buffer ends the loop.\<close>

fun parse_format :: "nat \<Rightarrow> clock \<Rightarrow> ms_width \<Rightarrow> string \<Rightarrow> string \<Rightarrow> string" where
  "parse_format limit now w [] buf = buf"
| "parse_format limit now w [c] buf = (if length buf = limit then buf else buf @ [c])"
| "parse_format limit now w (c # d # f) buf =
     (if c = CHR 0x25 \<and> d \<noteq> CHR 0x25 then parse_format limit now w f (date_specifier limit now w d buf)
      else if length buf = limit then buf
      else parse_format limit now w (if c = CHR 0x25 then f else d # f) (buf @ [c]))"

text \<open>The buffer has 30 places and is made a string up to its first zero: when it is full there is none.\<close>

definition get_date_time :: "clock \<Rightarrow> string \<Rightarrow> ms_width \<Rightarrow> string res" where
  "get_date_time now format w =
     (let buf = parse_format 30 now w format [] in if length buf < 30 then Inr buf else Inl UndefinedBehaviour)"

section \<open>Replacing specifiers\<close>

definition erase_at :: "nat \<Rightarrow> string \<Rightarrow> string" where
  "erase_at i s = take i s @ drop (i + 1) s"

function replace_first_from :: "string \<Rightarrow> string \<Rightarrow> nat \<Rightarrow> string \<Rightarrow> string" where
  "replace_first_from what text pos s =
     (case str_find s what pos of
        None \<Rightarrow> s
      | Some i \<Rightarrow>
          if 0 < i \<and> s ! (i - 1) = CHR 0x25 then replace_first_from what text (i + 2) (erase_at (i - 1) s)
          else take i s @ text @ drop (i + length what) s)"
  by pat_completeness auto
termination
  by (relation "measure (\<lambda>(what, text, pos, s). length s - pos)") (auto simp: erase_at_def dest!: str_find_bounds)

declare replace_first_from.simps [simp del]

definition replace_first :: "string \<Rightarrow> string \<Rightarrow> string \<Rightarrow> string" where
  "replace_first what text s = replace_first_from what text 0 s"

section \<open>Formats\<close>

record log_format =
  lf_level :: el_level
  lf_user :: string
  lf_format :: string
  lf_date :: string
  lf_flags :: "16 word"

text \<open>The bits of the flags.\<close>

datatype format_flag = F_date | F_logger | F_file | F_line | F_loc | F_func | F_user | F_host | F_msg | F_vlevel
  | F_app | F_thread | F_level | F_fbase | F_levshort

fun flag_bit :: "format_flag \<Rightarrow> nat" where
  "flag_bit F_date = 1"
| "flag_bit F_logger = 2"
| "flag_bit F_file = 3"
| "flag_bit F_line = 4"
| "flag_bit F_loc = 5"
| "flag_bit F_func = 6"
| "flag_bit F_user = 7"
| "flag_bit F_host = 8"
| "flag_bit F_msg = 9"
| "flag_bit F_vlevel = 10"
| "flag_bit F_app = 11"
| "flag_bit F_thread = 12"
| "flag_bit F_level = 13"
| "flag_bit F_fbase = 14"
| "flag_bit F_levshort = 15"

definition has_flag :: "format_flag \<Rightarrow> 16 word \<Rightarrow> bool" where
  "has_flag f flags \<longleftrightarrow> 0 < flags AND push_bit (flag_bit f) 1"

definition add_flag :: "format_flag \<Rightarrow> 16 word \<Rightarrow> 16 word" where
  "add_flag f flags = flags OR push_bit (flag_bit f) 1"

text \<open>A flag is set once it is added, and no other is.\<close>

lemma has_flag_bit: "has_flag f flags \<longleftrightarrow> bit flags (flag_bit f)"
  by (simp add: has_flag_def word_gt_0 bit_iff_and_push_bit_not_eq_0)
lemma flag_bit_eq: "flag_bit f = flag_bit g \<longleftrightarrow> f = g"
  by (cases f; cases g) simp_all
lemma has_add_flag [simp]: "has_flag f (add_flag g flags) \<longleftrightarrow> f = g \<or> has_flag f flags"
proof -
  have "flag_bit g < 16" by (cases g) simp_all
  then show ?thesis by (auto simp: has_flag_bit add_flag_def bit_simps flag_bit_eq)
qed
lemma has_no_flag [simp]: "\<not> has_flag f 0"
  by (simp add: has_flag_def)

fun specifier :: "format_flag \<Rightarrow> string" where
  "specifier F_date = ''%datetime''"
| "specifier F_logger = ''%logger''"
| "specifier F_file = ''%file''"
| "specifier F_line = ''%line''"
| "specifier F_loc = ''%loc''"
| "specifier F_func = ''%func''"
| "specifier F_user = ''%user''"
| "specifier F_host = ''%host''"
| "specifier F_msg = ''%msg''"
| "specifier F_vlevel = ''%vlevel''"
| "specifier F_app = ''%app''"
| "specifier F_thread = ''%thread''"
| "specifier F_level = ''%level''"
| "specifier F_fbase = ''%fbase''"
| "specifier F_levshort = ''%levshort''"

function conditional_add_flag :: "format_flag \<Rightarrow> nat \<Rightarrow> string \<times> 16 word \<Rightarrow> string \<times> 16 word" where
  "conditional_add_flag f pos (s, flags) =
     (case str_find s (specifier f) pos of
        None \<Rightarrow> (s, flags)
      | Some i \<Rightarrow>
          if 0 < i \<and> s ! (i - 1) = CHR 0x25 then
            (if has_flag f flags then conditional_add_flag f (i + 2) (erase_at (i - 1) s, flags)
             else conditional_add_flag f (i + 1) (s, flags))
          else conditional_add_flag f (i + 1) (s, if has_flag f flags then flags else add_flag f flags))"
  by pat_completeness auto
termination
  by (relation "measure (\<lambda>(f, pos, s, flags). length s - pos)") (auto simp: erase_at_def dest!: str_find_bounds)

declare conditional_add_flag.simps [simp del]

text \<open>
  The first specifier of the date that is not behind a percent sign. When all of them are, the loop goes on
  with \<open>npos\<close> as an index, which is undefined.
\<close>

function unescaped_date :: "nat \<Rightarrow> string \<Rightarrow> nat res" where
  "unescaped_date i s =
     (if 0 < i \<and> s ! (i - 1) = CHR 0x25
      then (case str_find s ''%datetime'' (i + 1) of None \<Rightarrow> Inl UndefinedBehaviour | Some j \<Rightarrow> unescaped_date j s)
      else Inr i)"
  by pat_completeness auto
termination
  by (relation "measure (\<lambda>(i, s). length s - i)") (auto dest!: str_find_bounds)

declare unescaped_date.simps [simp del]

text \<open>The text between braces behind the specifier, and the format without it.\<close>

definition braced_format :: "nat \<Rightarrow> string \<Rightarrow> (string \<times> string) option" where
  "braced_format i s =
     (if i < length s \<and> s ! i = CHR 0x7B then
        (let rest = c_str (drop (i + 1) s); fmt = takeWhile (\<lambda>c. c \<noteq> CHR 0x7D) rest;
             count = 1 + length fmt + (if CHR 0x7D \<in> set rest then 1 else 0)
         in Some (fmt, take i s @ drop (i + count) s))
      else None)"

definition default_date_format :: string where
  "default_date_format = ''%Y-%M-%d %H:%m:%s,%g''"

definition update_date_format :: "nat \<Rightarrow> string \<Rightarrow> string \<times> string" where
  "update_date_format i s =
     (case braced_format (i + length ''%datetime'') s of Some (fmt, s') \<Rightarrow> (fmt, s') | None \<Rightarrow> (default_date_format, s))"

text \<open>The names of the levels in a line. There are none for the level for all and the unknown one.\<close>

fun level_values :: "el_level \<Rightarrow> (string \<times> string) option" where
  "level_values L_debug = Some (''DEBUG'', ''D'')"
| "level_values L_info = Some (''INFO '', ''I'')"
| "level_values L_warning = Some (''WARN '', ''W'')"
| "level_values L_error = Some (''ERROR'', ''E'')"
| "level_values L_fatal = Some (''FATAL'', ''F'')"
| "level_values L_verbose = Some (''VER'', ''V'')"
| "level_values L_trace = Some (''TRACE'', ''T'')"
| "level_values _ = None"

definition when_flag :: "16 word \<Rightarrow> format_flag \<Rightarrow> string \<Rightarrow> string \<Rightarrow> string" where
  "when_flag flags f text s = (if has_flag f flags then replace_first (specifier f) text s else s)"

definition update_format_spec :: "string \<Rightarrow> string \<Rightarrow> el_level \<Rightarrow> 16 word \<Rightarrow> string \<Rightarrow> string" where
  "update_format_spec user hostname l flags s =
     when_flag flags F_host hostname (when_flag flags F_user user
       (case level_values l of
          None \<Rightarrow> s
        | Some (long, short) \<Rightarrow> replace_first (specifier F_levshort) short (replace_first (specifier F_level) long s)))"

definition log_format_new :: "string \<Rightarrow> string \<Rightarrow> el_level \<Rightarrow> string \<Rightarrow> log_format res" where
  "log_format_new user hostname l format =
     (let (s, flags) = fold (\<lambda>f. conditional_add_flag f 0)
            [F_app, F_level, F_levshort, F_logger, F_thread, F_file, F_fbase, F_line, F_loc, F_func, F_user, F_host,
             F_msg, F_vlevel] (format, 0)
      in rbind (case str_find s ''%datetime'' 0 of
                  None \<Rightarrow> Inr ([], s, flags)
                | Some i \<Rightarrow> rbind (unescaped_date i s) (\<lambda>i.
                    let (date, s') = update_date_format i s in Inr (date, s', add_flag F_date flags)))
           (\<lambda>(date, s, flags). Inr \<lparr>lf_level = l, lf_user = format,
              lf_format = update_format_spec user hostname l flags s, lf_date = date, lf_flags = flags\<rparr>))"

text \<open>The assignment of a format leaves the text it is written with as it was.\<close>

definition log_format_assign :: "log_format \<Rightarrow> log_format \<Rightarrow> log_format" where
  "log_format_assign old new =
     old\<lparr>lf_level := lf_level new, lf_user := lf_user new, lf_date := lf_date new, lf_flags := lf_flags new\<rparr>"

section \<open>Lines\<close>

record log_message =
  lm_level :: el_level
  lm_file :: string
  lm_line :: nat
  lm_func :: string
  lm_vlevel :: nat
  lm_text :: string

definition stripped :: "string \<Rightarrow> string" where
  "stripped file =
     (if 100 \<le> length file then
        (let f = drop (length file - 100) file
         in if f ! 0 \<noteq> CHR ''.'' \<and> f ! 1 \<noteq> CHR ''.'' then ''..'' @ drop 3 f else f)
      else file)"

definition last_slash :: "string \<Rightarrow> nat option" where
  "last_slash s = List.find (\<lambda>i. s ! i = CHR ''/'') (rev [0..<length s])"

text \<open>A slash at the very front stays, as does a name without any.\<close>

definition base_filename :: "string \<Rightarrow> string" where
  "base_filename path = stripped (case last_slash path of None \<Rightarrow> path | Some i \<Rightarrow> if i = 0 then path else drop (i + 1) path)"

definition build_line :: "clock \<Rightarrow> string \<Rightarrow> string \<Rightarrow> log_format \<Rightarrow> ms_width \<Rightarrow> log_message \<Rightarrow> string res" where
  "build_line now thread app fmt w m =
     (let flags = lf_flags fmt; s = when_flag flags F_thread thread (when_flag flags F_app app (lf_format fmt))
      in rbind (if has_flag F_date flags
                then rbind (get_date_time now (lf_date fmt) w) (\<lambda>date. Inr (replace_first (specifier F_date) date s))
                else Inr s) (\<lambda>s.
         let s = when_flag flags F_func (lm_func m) s;
             s = when_flag flags F_file (stripped (lm_file m)) s;
             s = when_flag flags F_fbase (base_filename (lm_file m)) s;
             s = when_flag flags F_line (convert_and_add 110 (lm_line m) 10 False []) s;
             s = when_flag flags F_loc
                   (convert_and_add 110 (lm_line m) 10 False (add_to_buff 110 '':'' (stripped (lm_file m)))) s;
             s = (if lm_level m = L_verbose then when_flag flags F_vlevel (convert_and_add 110 (lm_vlevel m) 1 False []) s
                  else s);
             s = when_flag flags F_msg (lm_text m) s
         in Inr (s @ [CHR 0x0A])))"

end
