(* ===== verification/Nix_Logger.thy ===== *)
theory Nix_Logger
  imports Nix_Log_Format
begin

text \<open>
  The loggers of the program (the classes \<open>TypedConfigurations\<close>, \<open>Logger\<close>, \<open>RegisteredLoggers\<close>, \<open>Storage\<close>, \<open>Writer\<close>
  and \<open>DefaultLogDispatchCallback\<close> of src/src/nix/easylogging++.h), and how \<open>setup_logging\<close>
  (src/src/nix/init/common.cxx) configures them. The files and the terminal are a parameter over a
  world \<open>'w\<close>; a stream is named by the file it was opened for. The locks of the library, which are
  recursive and held for one line at a time, are left out, and so is the splitting of a line over several
  loggers.
\<close>

section \<open>The system\<close>

text \<open>
  \<open>lh_append\<close> opens a file at its end and tells whether that succeeds; \<open>lh_size\<close> is the size of the file behind a
  stream; \<open>lh_reopen\<close> closes a stream and opens it on a file that it empties; \<open>lh_write\<close> tells whether
  the stream is in order after the write.
\<close>

record 'w log_host =
  lh_env :: "string \<Rightarrow> string option"
  lh_thread :: string
  lh_clock :: "'w \<Rightarrow> clock"
  lh_stat :: "string \<Rightarrow> 'w \<Rightarrow> bool"
  lh_mkdir :: "string \<Rightarrow> 'w \<Rightarrow> bool \<times> 'w"
  lh_append :: "string \<Rightarrow> 'w \<Rightarrow> bool \<times> 'w"
  lh_size :: "string \<Rightarrow> 'w \<Rightarrow> nat"
  lh_reopen :: "string \<Rightarrow> string \<Rightarrow> 'w \<Rightarrow> 'w"
  lh_write :: "string \<Rightarrow> string \<Rightarrow> 'w \<Rightarrow> bool \<times> 'w"
  lh_flush :: "string \<Rightarrow> 'w \<Rightarrow> 'w"
  lh_cout :: "string \<Rightarrow> 'w \<Rightarrow> 'w"

definition environment_variable :: "'w log_host \<Rightarrow> string \<Rightarrow> string \<Rightarrow> string" where
  "environment_variable H name other =
     (case lh_env H name of None \<Rightarrow> other | Some v \<Rightarrow> if v = [] then other else v)"

definition current_user :: "'w log_host \<Rightarrow> string" where
  "current_user H = environment_variable H ''USER'' ''user''"

definition current_host :: "'w log_host \<Rightarrow> string" where
  "current_host H = environment_variable H ''HOSTNAME'' ''unknown-host''"

definition term_supports_color :: "'w log_host \<Rightarrow> bool" where
  "term_supports_color H \<longleftrightarrow> environment_variable H ''TERM'' [] \<in> set
     [''xterm'', ''xterm-color'', ''xterm-256color'', ''screen'', ''linux'', ''cygwin'']"

text \<open>The directories of a path are made one by one; the last decides.\<close>

fun make_each :: "'w log_host \<Rightarrow> string \<Rightarrow> string list \<Rightarrow> bool \<times> 'w \<Rightarrow> bool \<times> 'w" where
  "make_each H built [] (ok, w) = (ok, w)"
| "make_each H built (d # ds) (ok, w) = (let b = built @ d @ ''/'' in make_each H b ds (lh_mkdir H b w))"

definition create_path :: "'w log_host \<Rightarrow> string \<Rightarrow> 'w \<Rightarrow> bool \<times> 'w" where
  "create_path H path w =
     (if path = [] then (False, w)
      else if lh_stat H path w then (True, w)
      else make_each H (if path ! 0 = CHR ''/'' then ''/'' else []) (split path ''/'') (False, w))"

definition extract_path :: "string \<Rightarrow> string" where
  "extract_path full =
     (case last_slash full of None \<Rightarrow> full | Some i \<Rightarrow> if i = 0 then ''/'' else take (i + 1) full)"

section \<open>Typed configurations\<close>

record typed =
  ty_enabled :: "(el_level, bool) umap"
  ty_to_file :: "(el_level, bool) umap"
  ty_filename :: "(el_level, string) umap"
  ty_to_stdout :: "(el_level, bool) umap"
  ty_format :: "(el_level, log_format) umap"
  ty_ms_width :: "(el_level, ms_width) umap"
  ty_performance :: "(el_level, bool) umap"
  ty_stream :: "(el_level, string option) umap"
  ty_max_size :: "(el_level, nat) umap"
  ty_flush :: "(el_level, nat) umap"

definition typed_empty :: typed where
  "typed_empty = \<lparr>ty_enabled = [], ty_to_file = [], ty_filename = [], ty_to_stdout = [], ty_format = [], ty_ms_width = [],
     ty_performance = [], ty_stream = [], ty_max_size = [], ty_flush = []\<rparr>"

text \<open>A level without a value of its own has that of the level for all, if there is one.\<close>

definition config_by_val :: "'a \<Rightarrow> el_level \<Rightarrow> (el_level, 'a) umap \<Rightarrow> 'a" where
  "config_by_val d l m =
     (case map_of m l of Some v \<Rightarrow> v | None \<Rightarrow> (case map_of m L_global of Some v \<Rightarrow> v | None \<Rightarrow> d))"

definition config_by_ref :: "el_level \<Rightarrow> (el_level, 'a) umap \<Rightarrow> 'a res" where
  "config_by_ref l m =
     (case map_of m l of Some v \<Rightarrow> Inr v
      | None \<Rightarrow> (case map_of m L_global of Some v \<Rightarrow> Inr v | None \<Rightarrow> Inl UndefinedBehaviour))"

text \<open>
  The first value of all becomes that of the level for all; a value that is the same as that of the level
  for all is not stored. \<open>assign\<close> is the assignment operator of the type.
\<close>

definition typed_set :: "('a \<Rightarrow> 'a \<Rightarrow> 'a) \<Rightarrow> el_level \<Rightarrow> 'a \<Rightarrow> (el_level, 'a) umap \<Rightarrow> (el_level, 'a) umap" where
  "typed_set assign l v m =
     (if m = [] then [(L_global, v)]
      else if map_of m L_global = Some v then m
      else case map_of m l of None \<Rightarrow> AList.update l v m | Some old \<Rightarrow> AList.update l (assign old v) m)"

abbreviation replaced :: "'a \<Rightarrow> 'a \<Rightarrow> 'a" where
  "replaced old new \<equiv> new"

definition get_bool_text :: "string \<Rightarrow> bool" where
  "get_bool_text s \<longleftrightarrow> el_trim s \<in> set [''TRUE'', ''true'', ''1'']"

text \<open>\<open>atol\<close> stops at the largest number.\<close>

definition get_ulong :: "string \<Rightarrow> nat" where
  "get_ulong s =
     (let s = el_trim s in if s \<noteq> [] \<and> list_all is_digit s then min (digits_value s) (2 ^ 63 - 1) else 0)"

text \<open>The first loop of \<open>build\<close>: everything but the file names.\<close>

definition typed_entry :: "'w log_host \<Rightarrow> configuration \<Rightarrow> typed \<Rightarrow> typed res" where
  "typed_entry H c ty =
     (let l = cf_level c; v = cf_value c in case cf_type c of
        T_enabled \<Rightarrow> Inr (ty\<lparr>ty_enabled := typed_set replaced l (get_bool_text v) (ty_enabled ty)\<rparr>)
      | T_to_file \<Rightarrow> Inr (ty\<lparr>ty_to_file := typed_set replaced l (get_bool_text v) (ty_to_file ty)\<rparr>)
      | T_to_stdout \<Rightarrow> Inr (ty\<lparr>ty_to_stdout := typed_set replaced l (get_bool_text v) (ty_to_stdout ty)\<rparr>)
      | T_format \<Rightarrow> rbind (log_format_new (current_user H) (current_host H) l v) (\<lambda>f.
          Inr (ty\<lparr>ty_format := typed_set log_format_assign l f (ty_format ty)\<rparr>))
      | T_ms_width \<Rightarrow>
          Inr (ty\<lparr>ty_ms_width := typed_set replaced L_global (ms_width_new (narrow32 (int (get_ulong v)))) (ty_ms_width ty)\<rparr>)
      | T_performance \<Rightarrow> Inr (ty\<lparr>ty_performance := typed_set replaced L_global (get_bool_text v) (ty_performance ty)\<rparr>)
      | T_max_size \<Rightarrow> Inr (ty\<lparr>ty_max_size := typed_set replaced l (get_ulong v) (ty_max_size ty)\<rparr>)
      | T_flush \<Rightarrow> Inr (ty\<lparr>ty_flush := typed_set replaced l (get_ulong v) (ty_flush ty)\<rparr>)
      | _ \<Rightarrow> Inr ty)"

fun res_each :: "('x \<Rightarrow> 's \<Rightarrow> 's res) \<Rightarrow> 'x list \<Rightarrow> 's \<Rightarrow> 's res" where
  "res_each f [] s = Inr s"
| "res_each f (x # xs) s = rbind (f x s) (res_each f xs)"

fun act_each :: "('x \<Rightarrow> 's \<Rightarrow> ('s, 'w) action) \<Rightarrow> 'x list \<Rightarrow> 's \<Rightarrow> ('s, 'w) action" where
  "act_each f [] s = act_ret s"
| "act_each f (x # xs) s = act_bind (f x s) (act_each f xs)"

text \<open>
  \<open>replaceAll\<close> looks on right behind the start of what it has put in, and does not end when that contains the text
  to be replaced.
\<close>

partial_function (option) replace_all_from :: "string \<Rightarrow> string \<Rightarrow> nat \<Rightarrow> string \<Rightarrow> string option" where
  "replace_all_from what text pos s =
     (case str_find s what pos of
        None \<Rightarrow> Some s
      | Some i \<Rightarrow> replace_all_from what text (i + 1) (take i s @ text @ drop (i + length what) s))"

definition replace_all :: "string \<Rightarrow> string \<Rightarrow> string \<Rightarrow> string option" where
  "replace_all what text s = (if what = text then Some s else replace_all_from what text 0 s)"

text \<open>The date in a file name. The text that grows without an end uses up the memory.\<close>

definition resolve_filename :: "clock \<Rightarrow> string \<Rightarrow> string res" where
  "resolve_filename now name =
     (case str_find name ''%datetime'' 0 of
        None \<Rightarrow> Inr name
      | Some i \<Rightarrow> rbind (unescaped_date i name) (\<lambda>i.
          let (fmt, name') = (case braced_format (i + length ''%datetime'') name of
                                Some r \<Rightarrow> r | None \<Rightarrow> (''%Y-%M-%d_%H-%m'', name))
          in rbind (get_date_time now fmt (ms_width_new 3)) (\<lambda>date.
               case replace_all ''%datetime'' (map (\<lambda>c. if c = CHR ''/'' then CHR ''-'' else c) date) name' of
                 Some s \<Rightarrow> Inr s | None \<Rightarrow> Inl (RuntimeError ''std::bad_alloc''))))"

text \<open>The streams of all loggers, by file name; \<open>None\<close> is the null pointer of a file that could not be opened.\<close>

type_synonym streams = "(string, string option) umap"

definition directory_made :: "'w log_host \<Rightarrow> string \<Rightarrow> 'w \<Rightarrow> 'w" where
  "directory_made H file w =
     (let path = extract_path file in if length path < length file then snd (create_path H path w) else w)"

text \<open>
  A stream that is there is shared. The table of all streams gets the stream that the level has then, which is another
  one when the level had one before.
\<close>

definition create_stream :: "'w log_host \<Rightarrow> string \<Rightarrow> el_level \<Rightarrow> typed \<Rightarrow> streams \<times> 'w \<Rightarrow> typed \<times> streams \<times> 'w" where
  "create_stream H file l ty sw =
     (let (st, w) = sw;
          (opened, p, w) = (case map_of st file of
              None \<Rightarrow> (let (ok, w') = lh_append H file w in (ok, if ok then Some file else None, w'))
            | Some p \<Rightarrow> (p \<noteq> None, p, w));
          ty = ty\<lparr>ty_filename := um_emplace l file (ty_filename ty), ty_stream := um_emplace l p (ty_stream ty)\<rparr>;
          st = um_emplace file (case map_of (ty_stream ty) l of Some q \<Rightarrow> q | None \<Rightarrow> p) st
      in (if opened then ty else ty\<lparr>ty_to_file := typed_set replaced l False (ty_to_file ty)\<rparr>, st, w))"

definition insert_file :: "'w log_host \<Rightarrow> configuration \<Rightarrow> typed \<Rightarrow> (typed, streams \<times> 'w) action" where
  "insert_file H c ty sw =
     (case resolve_filename (lh_clock H (snd sw)) (cf_value c) of
        Inl e \<Rightarrow> (Inl e, sw)
      | Inr file \<Rightarrow>
          let (ty, sw) = create_stream H file (if ty_filename ty = [] \<and> ty_stream ty = [] then L_global else cf_level c) ty
                           (fst sw, directory_made H file (snd sw))
          in (Inr ty, sw))"

definition insert_filename :: "'w log_host \<Rightarrow> configuration \<Rightarrow> typed \<Rightarrow> (typed, streams \<times> 'w) action" where
  "insert_filename H c ty = (if cf_type c = T_filename then insert_file H c ty else act_ret ty)"

text \<open>A file that has reached its size is emptied.\<close>

definition validate_rolling :: "'w log_host \<Rightarrow> el_level \<Rightarrow> typed \<Rightarrow> (bool, 'w) action" where
  "validate_rolling H l ty w =
     (case config_by_ref l (ty_stream ty) of
        Inl e \<Rightarrow> (Inl e, w)
      | Inr None \<Rightarrow> (Inr True, w)
      | Inr (Some fs) \<Rightarrow>
          let limit = config_by_val 0 l (ty_max_size ty)
          in if limit \<noteq> 0 \<and> limit \<le> lh_size H fs w
             then (case config_by_ref l (ty_filename ty) of
                     Inl e \<Rightarrow> (Inl e, w) | Inr name \<Rightarrow> (Inr True, lh_reopen H fs name w))
             else (Inr False, w))"

definition roll_entry :: "'w log_host \<Rightarrow> configuration \<Rightarrow> typed \<Rightarrow> (typed, streams \<times> 'w) action" where
  "roll_entry H c ty sw =
     (if cf_type c = T_max_size
      then (case validate_rolling H (cf_level c) ty (snd sw) of
              (Inl e, w) \<Rightarrow> (Inl e, fst sw, w) | (Inr _, w) \<Rightarrow> (Inr ty, fst sw, w))
      else (Inr ty, sw))"

definition typed_build :: "'w log_host \<Rightarrow> configurations \<Rightarrow> (typed, streams \<times> 'w) action" where
  "typed_build H cs =
     act_bind (act_lift (res_each (typed_entry H) cs typed_empty)) (\<lambda>ty.
     act_bind (act_each (insert_filename H) cs ty) (act_each (roll_entry H) cs))"

section \<open>Loggers\<close>

record logger =
  lg_id :: string
  lg_typed :: "typed option"
  lg_configs :: configurations
  lg_unflushed :: "(el_level, nat) umap"

definition init_unflushed :: "(el_level, nat) umap" where
  "init_unflushed = map (\<lambda>l. (l, 0)) each_level"

definition logger_blank :: "string \<Rightarrow> logger" where
  "logger_blank ident = \<lparr>lg_id = ident, lg_typed = None, lg_configs = [], lg_unflushed = init_unflushed\<rparr>"

text \<open>\<open>flush(level, fs)\<close>; the stream is looked up when none is given. A level that is not counted has no place.\<close>

definition flush_level :: "'w log_host \<Rightarrow> typed \<Rightarrow> el_level \<Rightarrow> string option \<Rightarrow> logger \<Rightarrow> (logger, 'w) action" where
  "flush_level H ty l fs lg =
     act_bind (if fs = None \<and> config_by_val False l (ty_to_file ty)
               then act_lift (config_by_ref l (ty_stream ty)) else act_ret fs) (\<lambda>fs w.
       case fs of None \<Rightarrow> (Inr lg, w)
       | Some f \<Rightarrow>
           (if map_of (lg_unflushed lg) l = None then Inl UndefinedBehaviour
            else Inr (lg\<lparr>lg_unflushed := AList.update l 0 (lg_unflushed lg)\<rparr>), lh_flush H f w))"

definition logger_flush :: "'w log_host \<Rightarrow> typed \<Rightarrow> logger \<Rightarrow> (logger, 'w) action" where
  "logger_flush H ty = act_each (\<lambda>l. flush_level H ty l None) each_level"

text \<open>The name of the logger is put into the format each level refers to.\<close>

definition resolve_logger_name :: "string \<Rightarrow> el_level \<Rightarrow> typed \<Rightarrow> typed res" where
  "resolve_logger_name ident l ty =
     (let key = (if map_of (ty_format ty) l = None then L_global else l)
      in case map_of (ty_format ty) key of
           None \<Rightarrow> Inl UndefinedBehaviour
         | Some f \<Rightarrow> Inr (ty\<lparr>ty_format := AList.update key (f\<lparr>lf_format := replace_first ''%logger'' ident (lf_format f)\<rparr>)
                                       (ty_format ty)\<rparr>))"

text \<open>\<open>configure\<close>; without a base it is \<open>reconfigure\<close>, which uses the configurations the logger has.\<close>

definition logger_configure :: "'w log_host \<Rightarrow> configurations option \<Rightarrow> logger \<Rightarrow> (logger, streams \<times> 'w) action" where
  "logger_configure H base lg sw =
     (let lg = lg\<lparr>lg_unflushed := init_unflushed\<rparr>; (st, w) = sw
      in case (case lg_typed lg of
                 Some ty \<Rightarrow> if has_configuration L_global T_filename (lg_configs lg) then logger_flush H ty lg w else (Inr lg, w)
               | None \<Rightarrow> (Inr lg, w)) of
           (Inl e, w) \<Rightarrow> (Inl e, st, w)
         | (Inr lg, w) \<Rightarrow>
             (let lg = (case base of None \<Rightarrow> lg | Some cs \<Rightarrow> lg\<lparr>lg_configs := set_from_base cs (lg_configs lg)\<rparr>)
              in case typed_build H (lg_configs lg) (st, w) of
                   (Inl e, sw) \<Rightarrow> (Inl e, sw)
                 | (Inr ty, sw) \<Rightarrow>
                     (case res_each (resolve_logger_name (lg_id lg)) each_level ty of
                        Inl e \<Rightarrow> (Inl e, sw) | Inr ty \<Rightarrow> (Inr (lg\<lparr>lg_typed := Some ty\<rparr>), sw))))"

definition logger_enabled :: "el_level \<Rightarrow> typed \<Rightarrow> bool" where
  "logger_enabled l ty = config_by_val False l (ty_enabled ty)"

text \<open>The count of unflushed lines goes up with each look at it.\<close>

definition is_flush_needed :: "el_level \<Rightarrow> typed \<Rightarrow> logger \<Rightarrow> (bool \<times> logger) res" where
  "is_flush_needed l ty lg =
     (case map_of (lg_unflushed lg) l of
        None \<Rightarrow> Inl UndefinedBehaviour
      | Some n \<Rightarrow> let n' = (n + 1) mod 2 ^ 32
          in Inr (config_by_val 0 l (ty_flush ty) \<le> n', lg\<lparr>lg_unflushed := AList.update l n' (lg_unflushed lg)\<rparr>))"

definition valid_logger_id :: "string \<Rightarrow> bool" where
  "valid_logger_id ident = list_all (\<lambda>c. c \<in> set
     ''abcdefghijklmnopqrstuvwxyzABCDEFGHIJKLMNOPQRSTUVWXYZ0123456789-._'') ident"

section \<open>All loggers\<close>

record log_storage =
  ls_loggers :: "(string, logger) umap"
  ls_default :: configurations
  ls_streams :: streams
  ls_flags :: "16 word"
  ls_level :: el_level

text \<open>The flags a program can set; this one sets none but \<open>AllowVerboseIfModuleNotSpecified\<close>.\<close>

definition lf_disable_abort :: "16 word" where "lf_disable_abort = 8"
definition lf_immediate_flush :: "16 word" where "lf_immediate_flush = 16"
definition lf_strict_size :: "16 word" where "lf_strict_size = 32"
definition lf_colored :: "16 word" where "lf_colored = 64"
definition lf_hierarchical :: "16 word" where "lf_hierarchical = 2048"
definition lf_create :: "16 word" where "lf_create = 4096"

definition has_log_flag :: "16 word \<Rightarrow> log_storage \<Rightarrow> bool" where
  "has_log_flag f S \<longleftrightarrow> 0 < ls_flags S AND f"

type_synonym 'w logging = "log_storage \<times> 'w"

text \<open>A logger is configured in place; the streams are shared by all.\<close>

definition on_logger :: "('w log_host \<Rightarrow> logger \<Rightarrow> (logger, streams \<times> 'w) action) \<Rightarrow> 'w log_host \<Rightarrow> string \<Rightarrow> logger
    \<Rightarrow> (logger, 'w logging) action" where
  "on_logger f H ident lg Sw =
     (case f H lg (ls_streams (fst Sw), snd Sw) of
        (Inl e, st, w) \<Rightarrow> (Inl e, (fst Sw)\<lparr>ls_streams := st\<rparr>, w)
      | (Inr lg, st, w) \<Rightarrow>
          (Inr lg, (fst Sw)\<lparr>ls_streams := st, ls_loggers := AList.update ident lg (ls_loggers (fst Sw))\<rparr>, w))"

definition get_logger :: "'w log_host \<Rightarrow> string \<Rightarrow> bool \<Rightarrow> (logger option, 'w logging) action" where
  "get_logger H ident force Sw =
     (case map_of (ls_loggers (fst Sw)) ident of
        Some lg \<Rightarrow> (Inr (Some lg), Sw)
      | None \<Rightarrow>
          if \<not> force \<or> \<not> valid_logger_id ident then (Inr None, Sw)
          else act_bind (on_logger (\<lambda>H. logger_configure H (Some (ls_default (fst Sw)))) H ident (logger_blank ident))
                 (\<lambda>lg. act_ret (Some lg)) Sw)"

text \<open>The storage at the start of the program: the loggers \<open>default\<close> and \<open>performance\<close>.\<close>

definition storage_new :: "'w log_host \<Rightarrow> el_level \<Rightarrow> (unit, 'w logging) action" where
  "storage_new H unset Sw =
     (let S = \<lparr>ls_loggers = [], ls_default = set_to_default [], ls_streams = [], ls_flags = 0, ls_level = unset\<rparr>
      in act_bind (get_logger H ''default'' True) (\<lambda>_.
         act_bind (get_logger H ''performance'' True) (\<lambda>lg.
         act_bind (deref lg) (\<lambda>lg.
         act_bind (on_logger (\<lambda>H. logger_configure H None) H ''performance''
                     (lg\<lparr>lg_configs := set_globally T_format ''%datetime %level %msg'' False (lg_configs lg)\<rparr>)) (\<lambda>_ Sw.
         (Inr (), (fst Sw)\<lparr>ls_flags := ls_flags (fst Sw) OR 2\<rparr>, snd Sw))))) (S, snd Sw))"

definition reconfigure_one :: "'w log_host \<Rightarrow> configurations \<Rightarrow> string \<Rightarrow> unit \<Rightarrow> (unit, 'w logging) action" where
  "reconfigure_one H cs ident u =
     act_bind (\<lambda>Sw. deref (map_of (ls_loggers (fst Sw)) ident) Sw) (\<lambda>lg.
       act_bind (on_logger (\<lambda>H. logger_configure H (Some cs)) H ident lg) (\<lambda>_. act_ret u))"

definition reconfigure_all :: "'w log_host \<Rightarrow> configurations \<Rightarrow> (unit, 'w logging) action" where
  "reconfigure_all H cs Sw = act_each (reconfigure_one H cs) (keys (ls_loggers (fst Sw))) () Sw"

definition set_default_configurations :: "'w log_host \<Rightarrow> configurations \<Rightarrow> bool \<Rightarrow> (unit, 'w logging) action" where
  "set_default_configurations H cs existing Sw =
     (let Sw = ((fst Sw)\<lparr>ls_default := set_from_base cs (ls_default (fst Sw))\<rparr>, snd Sw)
      in if existing then reconfigure_all H cs Sw else (Inr (), Sw))"

section \<open>Writing a line\<close>

definition colored :: "'w log_host \<Rightarrow> el_level \<Rightarrow> string \<Rightarrow> string" where
  "colored H l line =
     (if \<not> term_supports_color H then line
      else if l = L_error \<or> l = L_fatal then [CHR 0x1B] @ ''[31m'' @ line @ [CHR 0x1B] @ ''[0m''
      else if l = L_warning then [CHR 0x1B] @ ''[33m'' @ line @ [CHR 0x1B] @ ''[0m''
      else line)"

text \<open>To the file, when the level has one; a line that cannot be written is lost.\<close>

definition write_to_file :: "'w log_host \<Rightarrow> bool \<Rightarrow> el_level \<Rightarrow> typed \<Rightarrow> string \<Rightarrow> logger \<Rightarrow> (logger, 'w) action" where
  "write_to_file H immediate l ty line lg =
     (if config_by_val False l (ty_to_file ty)
      then act_bind (act_lift (config_by_ref l (ty_stream ty))) (\<lambda>fs w.
             case fs of
               None \<Rightarrow> (Inr lg, w)
             | Some f \<Rightarrow>
                 (case lh_write H f line w of
                    (False, w) \<Rightarrow> (Inr lg, w)
                  | (True, w) \<Rightarrow>
                      if immediate then flush_level H ty l (Some f) lg w
                      else (case is_flush_needed l ty lg of
                              Inl e \<Rightarrow> (Inl e, w)
                            | Inr (needed, lg) \<Rightarrow> if needed then flush_level H ty l (Some f) lg w else (Inr lg, w))))
      else act_ret lg)"

definition dispatch_line :: "'w log_host \<Rightarrow> log_storage \<Rightarrow> typed \<Rightarrow> log_message \<Rightarrow> logger \<Rightarrow> (logger, 'w) action" where
  "dispatch_line H S ty m lg =
     (let l = lm_level m in
      act_bind (if has_log_flag lf_strict_size S then validate_rolling H l ty else act_ret True) (\<lambda>_ w.
      act_bind (act_lift (rbind (config_by_ref l (ty_format ty)) (\<lambda>f. rbind (config_by_ref l (ty_ms_width ty)) (\<lambda>mw.
                  build_line (lh_clock H w) (lh_thread H) [] f mw m)))) (\<lambda>line.
      act_bind (write_to_file H (has_log_flag lf_immediate_flush S) l ty line lg) (\<lambda>lg w.
        (Inr lg, if config_by_val False l (ty_to_stdout ty)
                 then lh_cout H (if has_log_flag lf_colored S then colored H l line else line) w else w))) w))"

text \<open>Whether the line is written at all.\<close>

definition proceeds :: "log_storage \<Rightarrow> el_level \<Rightarrow> typed \<Rightarrow> bool" where
  "proceeds S l ty \<longleftrightarrow>
     (if has_log_flag lf_hierarchical S \<and> l \<noteq> L_verbose then level_code (ls_level S) \<le> level_code l
      else logger_enabled l ty)"

text \<open>With a logger that is there. The result tells whether the program goes on.\<close>

definition write_with :: "'w log_host \<Rightarrow> string \<Rightarrow> logger \<Rightarrow> log_message \<Rightarrow> (bool, 'w logging) action" where
  "write_with H ident lg m =
     act_bind (deref (lg_typed lg)) (\<lambda>ty Sw.
       if proceeds (fst Sw) (lm_level m) ty
       then (case dispatch_line H (fst Sw) ty m lg (snd Sw) of
               (Inl e, w) \<Rightarrow> (Inl e, fst Sw, w)
             | (Inr lg, w) \<Rightarrow>
                 (Inr (lm_level m \<noteq> L_fatal \<or> has_log_flag lf_disable_abort (fst Sw)),
                  (fst Sw)\<lparr>ls_loggers := AList.update ident lg (ls_loggers (fst Sw))\<rparr>, w))
       else (Inr True, Sw))"

text \<open>The default logger, which is made again if it is not there.\<close>

definition write_default :: "'w log_host \<Rightarrow> log_message \<Rightarrow> (bool, 'w logging) action" where
  "write_default H m =
     act_bind (get_logger H ''default'' True) (\<lambda>lg. act_bind (deref lg) (\<lambda>lg. write_with H ''default'' lg m))"

text \<open>\<open>LOG(level) << text\<close>, for a logger by its name. A fatal line is followed by a warning and the end of the program.\<close>

definition log_write :: "'w log_host \<Rightarrow> string \<Rightarrow> log_message \<Rightarrow> (bool, 'w logging) action" where
  "log_write H ident m Sw =
     act_bind (get_logger H ident (has_log_flag lf_create (fst Sw))) (\<lambda>lg.
       case lg of
         None \<Rightarrow> write_default H (m\<lparr>lm_level := L_debug, lm_vlevel := 0,
                   lm_text := ''Logger ['' @ ident @ ''] is not registered yet!''\<rparr>)
       | Some lg \<Rightarrow>
           act_bind (write_with H ident lg m) (\<lambda>goes_on.
             if goes_on then act_ret True
             else act_bind (write_default H (m\<lparr>lm_level := L_warning, lm_vlevel := 0,
                    lm_text := ''Aborting application. Reason: Fatal log at ['' @ lm_file m @ '':'' @ decimal (lm_line m) @ '']''\<rparr>))
                    (\<lambda>_. act_ret False))) Sw"

section \<open>The log of the program\<close>

text \<open>What \<open>setup_logging\<close> makes of etc/log.conf, and its end.\<close>

definition program_log_conf :: "string option \<Rightarrow> bool \<Rightarrow> string \<Rightarrow> configurations" where
  "program_log_conf text foreground log_path =
     set_globally T_filename log_path False
       (set_globally T_to_stdout (if foreground then ''true'' else ''false'') False (configurations_of_file text))"

definition start_logging :: "'w log_host \<Rightarrow> string option \<Rightarrow> bool \<Rightarrow> string \<Rightarrow> (unit, 'w logging) action" where
  "start_logging H text foreground log_path =
     (let conf = program_log_conf text foreground log_path
      in act_bind (set_default_configurations H conf True) (\<lambda>_. reconfigure_all H conf))"

text \<open>What the simulator does with its log.conf.\<close>

definition simulator_log_conf :: "string option \<Rightarrow> configurations" where
  "simulator_log_conf text = set_globally T_to_stdout ''true'' False (configurations_of_file text)"

definition start_simulator_logging :: "'w log_host \<Rightarrow> string option \<Rightarrow> (unit, 'w logging) action" where
  "start_simulator_logging H text = set_default_configurations H (simulator_log_conf text) True"

end
