(* ===== verification/Nix_Log_Laws.thy ===== *)
theory Nix_Log_Laws
  imports Nix_Logger
begin

text \<open>
  The laws of the loggers: what the typed configurations of a logger hold is what its repository says, level by
  level; a logger that is configured from a base has the values that base gives it; and where the lines
  of the program go after its log has been set up.
\<close>

section \<open>Complete repositories\<close>

text \<open>All types for all levels, in the order of \<open>setToDefault\<close>: the repository of every logger.\<close>

definition complete_keys :: "(el_level \<times> el_ctype) list" where
  "complete_keys =
     concat (map (\<lambda>t. map (\<lambda>l. (l, t)) (L_global # each_level))
       [T_enabled, T_filename, T_to_file, T_to_stdout, T_ms_width, T_performance, T_max_size, T_flush, T_format])"

definition all_set :: "configurations \<Rightarrow> bool" where
  "all_set cs \<longleftrightarrow> map cf_key cs = complete_keys"

lemma complete_keys_iff: "(l, t) \<in> set complete_keys \<longleftrightarrow> l \<noteq> L_unknown \<and> t \<noteq> T_unknown"
  by (cases l; cases t) (simp_all add: complete_keys_def each_level_def)

lemma distinct_complete_keys: "distinct complete_keys"
  by (simp add: complete_keys_def each_level_def)

lemma complete_wf: "all_set cs \<Longrightarrow> conf_wf cs"
  by (simp add: all_set_def conf_wf_def distinct_complete_keys)

lemma complete_value: "all_set cs \<Longrightarrow> l \<noteq> L_unknown \<Longrightarrow> t \<noteq> T_unknown \<Longrightarrow> conf_value l t cs \<noteq> None"
  using complete_keys_iff [of l t] by (simp add: conf_value_None_iff all_set_def flip: set_map)

lemma complete_put: "all_set cs \<Longrightarrow> l \<noteq> L_unknown \<Longrightarrow> t \<noteq> T_unknown \<Longrightarrow> all_set (conf_put l t v cs)"
  using complete_value [of cs l t] keys_put_same [of l t cs v] by (simp add: all_set_def conf_value_def)

lemma complete_fold_put:
  "all_set cs \<Longrightarrow> L_unknown \<notin> set ls \<Longrightarrow> t \<noteq> T_unknown \<Longrightarrow> all_set (fold (\<lambda>l. conf_put l t v) ls cs)"
  by (induction ls arbitrary: cs) (auto simp: complete_put)

lemma complete_set: "all_set cs \<Longrightarrow> l \<noteq> L_unknown \<Longrightarrow> t \<noteq> T_unknown \<Longrightarrow> all_set (conf_set l t v cs)"
  by (simp add: conf_set_def unsafe_set_def unsafe_set_globally_def complete_fold_put complete_put Let_def each_level_iff)

lemma complete_set_globally: "all_set cs \<Longrightarrow> t \<noteq> T_unknown \<Longrightarrow> all_set (set_globally t v b cs)"
proof -
  assume c: "all_set cs" and t: "t \<noteq> T_unknown"
  have "all_set cs' \<Longrightarrow> L_unknown \<notin> set ls \<Longrightarrow> all_set (fold (\<lambda>l. conf_set l t v) ls cs')" for ls cs'
    by (induction ls arbitrary: cs') (auto simp: complete_set t)
  with c t show ?thesis by (simp add: set_globally_def complete_set each_level_iff)
qed

lemma complete_from_base:
  "all_set cs \<Longrightarrow> \<forall>c \<in> set base. cf_level c \<noteq> L_unknown \<and> cf_type c \<noteq> T_unknown \<Longrightarrow> all_set (set_from_base base cs)"
  unfolding set_from_base_def by (induction base arbitrary: cs) (simp_all add: complete_set)

lemma all_set_default: "all_set (set_to_default [])"
proof -
  have "map cf_key (set_to_default []) = complete_keys" by code_simp
  then show ?thesis by (simp add: all_set_def)
qed

text \<open>The entries of one type in a complete repository.\<close>

definition val :: "el_level \<Rightarrow> el_ctype \<Rightarrow> configurations \<Rightarrow> string" where
  "val l t cs = (case conf_value l t cs of Some v \<Rightarrow> v | None \<Rightarrow> [])"

definition entry :: "el_ctype \<Rightarrow> configurations \<Rightarrow> el_level \<Rightarrow> configuration" where
  "entry t cs l = \<lparr>cf_level = l, cf_type = t, cf_value = val l t cs\<rparr>"

lemma conf_value_member: "conf_wf cs \<Longrightarrow> c \<in> set cs \<Longrightarrow> conf_value (cf_level c) (cf_type c) cs = Some (cf_value c)"
proof (induction cs)
  case (Cons d cs)
  show ?case
  proof (cases "c = d")
    case False
    with Cons.prems have "c \<in> set cs" "cf_key d \<noteq> cf_key c" by (auto simp: conf_wf_def)
    with Cons show ?thesis by (auto simp: conf_wf_def conf_value_def conf_get_def cf_matches_def)
  qed (simp add: conf_value_def conf_get_def cf_matches_def)
qed simp

lemma entries_of_type:
  assumes "all_set cs" "t \<noteq> T_unknown"
  shows "filter (\<lambda>c. cf_type c = t) cs = map (entry t cs) (L_global # each_level)"
proof -
  let ?f = "filter (\<lambda>c. cf_type c = t) cs"
  have "map cf_key ?f = filter (\<lambda>k. snd k = t) (map cf_key cs)"
    by (simp add: filter_map comp_def)
  also have "\<dots> = map (\<lambda>l. (l, t)) (L_global # each_level)"
    using assms by (cases t) (simp_all add: all_set_def complete_keys_def each_level_def)
  finally have k: "map cf_key ?f = map (\<lambda>l. (l, t)) (L_global # each_level)" .
  have "map cf_level ?f = map fst (map cf_key ?f)" by simp
  also have "\<dots> = L_global # each_level" unfolding k by (simp add: comp_def)
  finally have "map cf_level ?f = L_global # each_level" .
  moreover have "map (entry t cs) (map cf_level ?f) = ?f"
  proof -
    have "entry t cs (cf_level c) = c" if "c \<in> set ?f" for c
      using conf_value_member [OF complete_wf [OF assms(1)], of c] that by (simp add: entry_def val_def)
    then have "map (\<lambda>c. entry t cs (cf_level c)) ?f = ?f" by (rule map_idI)
    then show ?thesis by (simp add: comp_def)
  qed
  ultimately show ?thesis by simp
qed

section \<open>Typed configurations hold what the repository says\<close>

lemma by_val_set:
  assumes "map_of m L_global = Some g" "map_of m l = None"
  shows "config_by_val d k (typed_set a l v m) = (if k = l then v else config_by_val d k m)"
    and "map_of (typed_set a l v m) L_global = Some g"
    and "k \<noteq> l \<Longrightarrow> map_of (typed_set a l v m) k = map_of m k"
  using assms by (auto simp: typed_set_def config_by_val_def update_conv' split: option.split)

lemma typed_set_fresh:
  assumes "map_of m L_global = Some g" "\<forall>x \<in> set (l # ls). map_of m x = None" "distinct (l # ls)"
  shows "\<forall>x \<in> set ls. map_of (typed_set a l v m) x = None"
proof
  fix x
  assume x: "x \<in> set ls"
  with assms(3) have "x \<noteq> l" by auto
  with by_val_set(3) [OF assms(1), of l x] x assms(2) show "map_of (typed_set a l v m) x = None" by simp
qed

lemma typed_fold:
  "distinct ls \<Longrightarrow> L_global \<notin> set ls \<Longrightarrow> map_of m L_global = Some g \<Longrightarrow> \<forall>l \<in> set ls. map_of m l = None \<Longrightarrow>
     config_by_val d k (fold (\<lambda>l. typed_set a l (f l)) ls m) = (if k \<in> set ls then f k else config_by_val d k m)
     \<and> map_of (fold (\<lambda>l. typed_set a l (f l)) ls m) L_global = Some g"
proof (induction ls arbitrary: m)
  case (Cons l ls)
  have "map_of m l = None" using Cons.prems(4) by simp
  note set = by_val_set [OF Cons.prems(3) this]
  note typed_set_fresh [OF Cons.prems(3,4,1), of a "f l"]
  with Cons.IH [of "typed_set a l (f l) m"] Cons.prems set(1,2) show ?case by auto
qed simp

text \<open>All levels of one type, the level for all first.\<close>

lemma typed_all:
  "map_of (fold (\<lambda>l. typed_set a l (f l)) (L_global # each_level) []) L_global = Some (f L_global)"
  "l \<in> set each_level \<Longrightarrow> config_by_val d l (fold (\<lambda>l. typed_set a l (f l)) (L_global # each_level) []) = f l"
proof -
  have "map_of [(L_global, f L_global)] L_global = Some (f L_global)" "L_global \<notin> set each_level"
    "\<forall>l \<in> set each_level. map_of [(L_global, f L_global)] l = None" by (auto simp: each_level_iff)
  note f = typed_fold [OF distinct_each_level this(2,1,3), where a = a and f = f and d = d]
  from f show "map_of (fold (\<lambda>l. typed_set a l (f l)) (L_global # each_level) []) L_global = Some (f L_global)"
    by (simp add: typed_set_def [of _ L_global])
  from f show "l \<in> set each_level \<Longrightarrow> config_by_val d l (fold (\<lambda>l. typed_set a l (f l)) (L_global # each_level) []) = f l"
    by (simp add: typed_set_def [of _ L_global])
qed

lemma by_ref_val: "map_of m L_global \<noteq> None \<Longrightarrow> config_by_ref l m = Inr (config_by_val d l m)"
  by (auto simp: config_by_ref_def config_by_val_def split: option.split)

text \<open>The fields, each a fold over the entries of its type.\<close>

abbreviation of_type :: "el_ctype \<Rightarrow> configurations \<Rightarrow> configurations" where
  "of_type t cs \<equiv> filter (\<lambda>c. cf_type c = t) cs"

definition typed_field :: "('a \<Rightarrow> 'a \<Rightarrow> 'a) \<Rightarrow> (el_level \<Rightarrow> string \<Rightarrow> 'a) \<Rightarrow> configurations \<Rightarrow> (el_level, 'a) umap \<Rightarrow> (el_level, 'a) umap" where
  "typed_field a f cs m = fold (\<lambda>c. typed_set a (cf_level c) (f (cf_level c) (cf_value c))) cs m"

definition format_of :: "'w log_host \<Rightarrow> el_level \<Rightarrow> string \<Rightarrow> log_format" where
  "format_of H l v = (case log_format_new (current_user H) (current_host H) l v of Inr f \<Rightarrow> f
     | Inl e \<Rightarrow> \<lparr>lf_level = l, lf_user = v, lf_format = [], lf_date = [], lf_flags = 0\<rparr>)"

definition width_of :: "string \<Rightarrow> ms_width" where
  "width_of v = ms_width_new (narrow32 (int (get_ulong v)))"

lemma typed_entries:
  "res_each (typed_entry H) cs ty = Inr ty' \<Longrightarrow>
     ty_enabled ty' = typed_field replaced (\<lambda>_. get_bool_text) (of_type T_enabled cs) (ty_enabled ty)
   \<and> ty_to_file ty' = typed_field replaced (\<lambda>_. get_bool_text) (of_type T_to_file cs) (ty_to_file ty)
   \<and> ty_to_stdout ty' = typed_field replaced (\<lambda>_. get_bool_text) (of_type T_to_stdout cs) (ty_to_stdout ty)
   \<and> ty_max_size ty' = typed_field replaced (\<lambda>_. get_ulong) (of_type T_max_size cs) (ty_max_size ty)
   \<and> ty_flush ty' = typed_field replaced (\<lambda>_. get_ulong) (of_type T_flush cs) (ty_flush ty)
   \<and> ty_format ty' = typed_field log_format_assign (format_of H) (of_type T_format cs) (ty_format ty)
   \<and> ty_ms_width ty' = fold (\<lambda>c. typed_set replaced L_global (width_of (cf_value c))) (of_type T_ms_width cs) (ty_ms_width ty)
   \<and> ty_filename ty' = ty_filename ty \<and> ty_stream ty' = ty_stream ty"
proof (induction cs arbitrary: ty)
  case (Cons c cs)
  then obtain ty1 where e: "typed_entry H c ty = Inr ty1" "res_each (typed_entry H) cs ty1 = Inr ty'"
    by (auto simp: rbind_Inr_iff)
  from e(1) Cons.IH [OF e(2)] show ?case
    by (cases "cf_type c") (auto simp: typed_entry_def typed_field_def format_of_def width_of_def Let_def rbind_Inr_iff)
qed (simp add: typed_field_def)

lemma typed_field_all:
  assumes "all_set cs" "t \<noteq> T_unknown"
  shows "map_of (typed_field a f (of_type t cs) []) L_global = Some (f L_global (val L_global t cs))"
    and "l \<in> set each_level \<Longrightarrow> config_by_val d l (typed_field a f (of_type t cs) []) = f l (val l t cs)"
proof -
  have "typed_field a f (of_type t cs) [] = fold (\<lambda>l. typed_set a l (f l (val l t cs))) (L_global # each_level) []"
    unfolding entries_of_type [OF assms] typed_field_def by (simp add: fold_map comp_def entry_def)
  with typed_all [where f = "\<lambda>l. f l (val l t cs)" and a = a]
  show "map_of (typed_field a f (of_type t cs) []) L_global = Some (f L_global (val L_global t cs))"
    and "l \<in> set each_level \<Longrightarrow> config_by_val d l (typed_field a f (of_type t cs) []) = f l (val l t cs)"
    by simp_all
qed

lemma entries_succeed:
  "\<forall>c \<in> set cs. cf_type c = T_format \<longrightarrow>
      (\<exists>f. log_format_new (current_user H) (current_host H) (cf_level c) (cf_value c) = Inr f) \<Longrightarrow>
    \<exists>ty'. res_each (typed_entry H) cs ty = Inr ty'"
proof (induction cs arbitrary: ty)
  case (Cons c cs)
  then obtain ty1 where "typed_entry H c ty = Inr ty1"
    by (cases "cf_type c") (auto simp: typed_entry_def Let_def)
  with Cons show ?case by auto
qed simp

lemma width_fold:
  "(ty = [] \<or> (\<exists>g. ty = [(L_global, g)])) \<Longrightarrow> cs \<noteq> [] \<Longrightarrow>
     fold (\<lambda>c. typed_set replaced L_global (width_of (cf_value c))) cs ty = [(L_global, width_of (cf_value (last cs)))]"
proof (induction cs arbitrary: ty)
  case (Cons c cs)
  then have "typed_set replaced L_global (width_of (cf_value c)) ty = [(L_global, width_of (cf_value c))]"
    by (auto simp: typed_set_def)
  with Cons.IH [of "[(L_global, width_of (cf_value c))]"] show ?case by (cases "cs = []") auto
qed simp

lemma lf_level_new: "log_format_new u h l v = Inr f \<Longrightarrow> lf_level f = l"
  by (auto simp: log_format_new_def rbind_Inr_iff split: prod.splits)

lemma lf_level_of: "lf_level (format_of H l v) = l"
  by (auto simp: format_of_def lf_level_new split: sum.split)

text \<open>A value that differs from that of the level for all is stored under its own level.\<close>

lemma typed_fold_other:
  "distinct ls \<Longrightarrow> map_of m L_global = Some g \<Longrightarrow> \<forall>l \<in> set ls. map_of m l = None \<Longrightarrow> k \<notin> set ls \<Longrightarrow>
     map_of (fold (\<lambda>l. typed_set a l (f l)) ls m) k = map_of m k"
proof (induction ls arbitrary: m)
  case (Cons l ls)
  have "map_of m l = None" using Cons.prems(3) by simp
  note set = by_val_set [OF Cons.prems(2) this]
  note typed_set_fresh [OF Cons.prems(2,3,1), of a "f l"]
  with Cons.IH [of "typed_set a l (f l) m"] Cons.prems set show ?case by auto
qed simp

lemma typed_fold_stored:
  "distinct ls \<Longrightarrow> L_global \<notin> set ls \<Longrightarrow> map_of m L_global = Some g \<Longrightarrow> \<forall>l \<in> set ls. map_of m l = None \<Longrightarrow>
     k \<in> set ls \<Longrightarrow> f k \<noteq> g \<Longrightarrow> map_of (fold (\<lambda>l. typed_set a l (f l)) ls m) k = Some (f k)"
proof (induction ls arbitrary: m)
  case (Cons l ls)
  have l: "map_of m l = None" using Cons.prems(4) by simp
  note set = by_val_set [OF Cons.prems(3) l]
  note rest = typed_set_fresh [OF Cons.prems(3,4,1), of a "f l"]
  show ?case
  proof (cases "k = l")
    case True
    then have "map_of (typed_set a l (f l) m) k = Some (f k)"
      using Cons.prems(3,6) l by (auto simp: typed_set_def update_conv')
    with typed_fold_other [OF _ set(2) rest] True Cons.prems(1) show ?thesis by simp
  next
    case False
    with Cons.IH [of "typed_set a l (f l) m"] set(2) rest Cons.prems show ?thesis by simp
  qed
qed simp

section \<open>The files\<close>

text \<open>Which files can be opened, now and later, is fixed; a stream is what the file of its name gives.\<close>

definition opens :: "(string \<Rightarrow> bool) \<Rightarrow> 'w log_host \<Rightarrow> bool" where
  "opens ok H \<longleftrightarrow> (\<forall>f w. fst (lh_append H f w) = ok f)"

definition stream_of :: "(string \<Rightarrow> bool) \<Rightarrow> string \<Rightarrow> string option" where
  "stream_of ok f = (if ok f then Some f else None)"

definition streams_match :: "(string \<Rightarrow> bool) \<Rightarrow> streams \<Rightarrow> bool" where
  "streams_match ok st \<longleftrightarrow> (\<forall>f s. map_of st f = Some s \<longrightarrow> s = stream_of ok f)"

definition plain_name :: "string \<Rightarrow> bool" where
  "plain_name f \<longleftrightarrow> str_find f ''%datetime'' 0 = None"

definition stream_added :: "(string \<Rightarrow> bool) \<Rightarrow> string \<Rightarrow> el_level \<Rightarrow> typed \<Rightarrow> typed" where
  "stream_added ok file l ty =
     ty\<lparr>ty_filename := um_emplace l file (ty_filename ty), ty_stream := um_emplace l (stream_of ok file) (ty_stream ty),
        ty_to_file := (if ok file then ty_to_file ty else typed_set replaced l False (ty_to_file ty))\<rparr>"

lemma create_stream_ok:
  assumes "opens ok H" "streams_match ok st" "map_of (ty_stream ty) l = None"
  shows "\<exists>st' w'. create_stream H file l ty (st, w) = (stream_added ok file l ty, st', w') \<and> streams_match ok st'"
proof -
  have new: "map_of (um_emplace l p (ty_stream ty)) l = Some p" for p
    using assms(3) by (simp add: um_emplace_def um_count_def update_conv')
  have match: "streams_match ok (um_emplace file (stream_of ok file) st)"
    using assms(2) by (auto simp: streams_match_def map_of_um_emplace)
  obtain p w' where p: "(case map_of st file of
      None \<Rightarrow> (let (ok, w') = lh_append H file w in (ok, if ok then Some file else None, w'))
    | Some p \<Rightarrow> (p \<noteq> None, p, w)) = (ok file, p, w')" "p = stream_of ok file"
  proof (cases "map_of st file")
    case None
    have "lh_append H file w = (ok file, snd (lh_append H file w))"
      using assms(1) by (simp add: opens_def prod_eq_iff)
    with None that show thesis by (cases "lh_append H file w") (simp add: stream_of_def)
  next
    case (Some p)
    then have "p = stream_of ok file" using assms(2) by (simp add: streams_match_def)
    with Some that show thesis by (simp add: stream_of_def split: if_splits)
  qed
  then show ?thesis
    using match by (simp add: create_stream_def stream_added_def new)
qed

lemma insert_file_plain:
  assumes "opens ok H" "streams_match ok st" "plain_name (cf_value c)"
    and "l = (if ty_filename ty = [] \<and> ty_stream ty = [] then L_global else cf_level c)" "map_of (ty_stream ty) l = None"
  shows "\<exists>st' w'. insert_file H c ty (st, w) = (Inr (stream_added ok (cf_value c) l ty), st', w') \<and> streams_match ok st'"
proof -
  have name: "resolve_filename (lh_clock H w) (cf_value c) = Inr (cf_value c)"
    using assms(3) by (simp add: resolve_filename_def plain_name_def)
  obtain st' w' where "create_stream H (cf_value c) l ty (st, directory_made H (cf_value c) w)
      = (stream_added ok (cf_value c) l ty, st', w')" "streams_match ok st'"
    using create_stream_ok [OF assms(1,2,5)] by blast
  with assms(4) show ?thesis by (simp add: insert_file_def name)
qed

text \<open>All file names of a complete repository, one after the other.\<close>

definition files_inserted :: "(string \<Rightarrow> bool) \<Rightarrow> (el_level \<Rightarrow> string) \<Rightarrow> el_level list \<Rightarrow> typed \<Rightarrow> typed" where
  "files_inserted ok f ls ty =
     ty\<lparr>ty_filename := fold (\<lambda>l. um_emplace l (f l)) ls (ty_filename ty),
        ty_stream := fold (\<lambda>l. um_emplace l (stream_of ok (f l))) ls (ty_stream ty),
        ty_to_file := fold (\<lambda>l m. if ok (f l) then m else typed_set replaced l False m) ls (ty_to_file ty)\<rparr>"

lemma um_emplace_ne [simp]: "um_emplace k v m \<noteq> []"
proof
  assume "um_emplace k v m = []"
  then have "map_of (um_emplace k v m) k = None" by simp
  then show False by (simp add: map_of_um_emplace um_count_def split: if_splits)
qed

lemma insert_rest:
  assumes "opens ok H"
  shows "distinct ls \<Longrightarrow> ty_filename ty \<noteq> [] \<Longrightarrow> streams_match ok st \<Longrightarrow> \<forall>l \<in> set ls. plain_name (f l) \<Longrightarrow>
     \<forall>l \<in> set ls. map_of (ty_stream ty) l = None \<Longrightarrow>
     \<exists>st' w'. act_each (insert_file H) (map (\<lambda>l. \<lparr>cf_level = l, cf_type = T_filename, cf_value = f l\<rparr>) ls) ty (st, w)
        = (Inr (files_inserted ok f ls ty), st', w') \<and> streams_match ok st'"
proof (induction ls arbitrary: ty st w)
  case (Cons l ls)
  let ?ty = "stream_added ok (f l) l ty"
  obtain st1 w1 where s: "insert_file H \<lparr>cf_level = l, cf_type = T_filename, cf_value = f l\<rparr> ty (st, w) = (Inr ?ty, st1, w1)"
    "streams_match ok st1"
    using insert_file_plain [OF assms Cons.prems(3), of "\<lparr>cf_level = l, cf_type = T_filename, cf_value = f l\<rparr>" l ty w]
      Cons.prems by auto
  have "files_inserted ok f ls ?ty = files_inserted ok f (l # ls) ty" by (simp add: files_inserted_def stream_added_def)
  moreover have "\<forall>x \<in> set ls. map_of (ty_stream ?ty) x = None"
    using Cons.prems(1,5) by (auto simp: map_of_um_emplace stream_added_def)
  moreover have "ty_filename ?ty \<noteq> []" by (simp add: stream_added_def)
  ultimately show ?case
    using Cons.IH [of ?ty st1 w1] s Cons.prems(1,4) by simp
qed (simp add: files_inserted_def)

lemma act_each_filter:
  "act_each (\<lambda>c s. if P c then f c s else act_ret s) cs s w = act_each f (filter P cs) s w"
  by (induction cs arbitrary: s w) (auto simp: act_bind_def split: prod.split sum.split)

lemma insert_all:
  assumes "opens ok H" "streams_match ok st" "all_set cs" "\<forall>l. l \<noteq> L_unknown \<longrightarrow> plain_name (val l T_filename cs)"
    and "ty_filename ty = []" "ty_stream ty = []"
  shows "\<exists>st' w'. act_each (insert_filename H) cs ty (st, w)
      = (Inr (files_inserted ok (\<lambda>l. val l T_filename cs) (L_global # each_level) ty), st', w') \<and> streams_match ok st'"
proof -
  let ?f = "\<lambda>l. val l T_filename cs"
  let ?ty = "stream_added ok (?f L_global) L_global ty"
  obtain st1 w1 where s: "insert_file H \<lparr>cf_level = L_global, cf_type = T_filename, cf_value = ?f L_global\<rparr> ty (st, w)
      = (Inr ?ty, st1, w1)" "streams_match ok st1"
    using insert_file_plain [OF assms(1,2), of "\<lparr>cf_level = L_global, cf_type = T_filename, cf_value = ?f L_global\<rparr>" L_global ty w]
      assms(4-6) by auto
  have "\<exists>st' w'. act_each (insert_file H) (map (\<lambda>l. \<lparr>cf_level = l, cf_type = T_filename, cf_value = ?f l\<rparr>) each_level) ?ty (st1, w1)
      = (Inr (files_inserted ok ?f each_level ?ty), st', w') \<and> streams_match ok st'"
    by (rule insert_rest [OF assms(1) distinct_each_level _ s(2)])
      (use assms(4-6) in \<open>auto simp: each_level_iff map_of_um_emplace um_count_def stream_added_def\<close>)
  moreover have "files_inserted ok ?f each_level ?ty = files_inserted ok ?f (L_global # each_level) ty"
    by (simp add: files_inserted_def stream_added_def)
  moreover have "act_each (insert_filename H) cs ty (st, w)
      = act_each (insert_file H) (map (entry T_filename cs) (L_global # each_level)) ty (st, w)"
  proof -
    have "insert_filename H = (\<lambda>c s. if cf_type c = T_filename then insert_file H c s else act_ret s)"
      by (simp add: insert_filename_def fun_eq_iff)
    then have "act_each (insert_filename H) cs ty (st, w) = act_each (insert_file H) (of_type T_filename cs) ty (st, w)"
      by (simp only: act_each_filter)
    with entries_of_type [OF assms(3), of T_filename] show ?thesis by simp
  qed
  ultimately show ?thesis using s(1) by (simp add: entry_def [abs_def])
qed

text \<open>The rolling looks at the files and leaves the typed configurations as they are.\<close>

lemma roll_all:
  assumes "map_of (ty_stream ty) L_global \<noteq> None" "map_of (ty_filename ty) L_global \<noteq> None"
  shows "\<exists>w'. act_each (roll_entry H) cs ty (st, w) = (Inr ty, st, w')"
proof (induction cs arbitrary: w)
  case (Cons c cs)
  note refs = by_ref_val [OF assms(1), of "cf_level c" None] by_ref_val [OF assms(2), of "cf_level c" "[]"]
  have "\<exists>b. fst (validate_rolling H (cf_level c) ty w) = Inr b"
    by (auto simp: validate_rolling_def refs Let_def split: option.split)
  then have "\<exists>w1. roll_entry H c ty (st, w) = (Inr ty, st, w1)"
    by (cases "validate_rolling H (cf_level c) ty w") (auto simp: roll_entry_def)
  then obtain w1 where "roll_entry H c ty (st, w) = (Inr ty, st, w1)" ..
  with Cons.IH [of w1] show ?case by simp
qed simp

lemma emplace_fold:
  "distinct ls \<Longrightarrow> \<forall>l \<in> set ls. map_of m l = None \<Longrightarrow>
     map_of (fold (\<lambda>l. um_emplace l (g l)) ls m) k = (if k \<in> set ls then Some (g k) else map_of m k)"
proof (induction ls arbitrary: m)
  case (Cons l ls)
  then have "\<forall>x \<in> set ls. map_of (um_emplace l (g l) m) x = None" by (auto simp: map_of_um_emplace)
  with Cons show ?case by (auto simp: map_of_um_emplace um_count_def)
qed simp

lemma levels_distinct: "distinct (L_global # each_level)"
  by (simp add: distinct_each_level each_level_iff)

lemma inserted_lookup:
  assumes "ty_filename ty = []" "ty_stream ty = []" "l \<noteq> L_unknown"
  shows "map_of (ty_filename (files_inserted ok f (L_global # each_level) ty)) l = Some (f l)"
    "map_of (ty_stream (files_inserted ok f (L_global # each_level) ty)) l = Some (stream_of ok (f l))"
  using emplace_fold [OF levels_distinct, of "[]" f l] emplace_fold [OF levels_distinct, of "[]" "\<lambda>l. stream_of ok (f l)" l] assms
  by (auto simp: files_inserted_def each_level_iff simp del: fold.simps)

text \<open>
  What becomes of the switch for the file: nothing when all files open; when the file of the level for all does not
  and no level has a switch of its own, it is off for all.
\<close>

lemma to_file_kept:
  "(\<forall>l \<in> set ls. ok (f l)) \<Longrightarrow> fold (\<lambda>l m. if ok (f l) then m else typed_set replaced l False m) ls m = m"
  by (induction ls) simp_all

lemma to_file_off:
  assumes "\<not> ok (f L_global)"
  shows "fold (\<lambda>l m. if ok (f l) then m else typed_set replaced l False m) (L_global # ls) [(L_global, b)] = [(L_global, False)]"
proof -
  have "fold (\<lambda>l m. if ok (f l) then m else typed_set replaced l False m) ls [(L_global, False)] = [(L_global, False)]"
    by (induction ls) (simp_all add: typed_set_def)
  moreover have "typed_set replaced L_global False [(L_global, b)] = [(L_global, False)]"
    by (simp add: typed_set_def)
  ultimately show ?thesis using assms by simp
qed

lemma typed_field_uniform:
  assumes "all_set cs" "t \<noteq> T_unknown" "\<forall>l \<in> set each_level. f l (val l t cs) = b" "f L_global (val L_global t cs) = b"
  shows "typed_field a f (of_type t cs) [] = [(L_global, b)]"
proof -
  have "(\<forall>l \<in> set ls. f l (val l t cs) = b) \<Longrightarrow>
      fold (\<lambda>l. typed_set a l (f l (val l t cs))) ls [(L_global, b)] = [(L_global, b)]" for ls
    by (induction ls) (simp_all add: typed_set_def)
  moreover have "typed_field a f (of_type t cs) [] = fold (\<lambda>l. typed_set a l (f l (val l t cs))) (L_global # each_level) []"
    unfolding entries_of_type [OF assms(1,2)] typed_field_def by (simp add: fold_map comp_def entry_def)
  ultimately show ?thesis using assms(3,4) by (simp add: typed_set_def)
qed

section \<open>A configured logger\<close>

text \<open>What the typed configurations of a logger answer for each level.\<close>

definition typed_spec :: "(string \<Rightarrow> bool) \<Rightarrow> 'w log_host \<Rightarrow> string \<Rightarrow> configurations \<Rightarrow> typed \<Rightarrow> bool" where
  "typed_spec ok H ident cs ty \<longleftrightarrow> (\<forall>l \<in> set each_level.
       logger_enabled l ty = get_bool_text (val l T_enabled cs)
     \<and> config_by_val False l (ty_to_stdout ty) = get_bool_text (val l T_to_stdout cs)
     \<and> config_by_val 0 l (ty_max_size ty) = get_ulong (val l T_max_size cs)
     \<and> config_by_val 0 l (ty_flush ty) = get_ulong (val l T_flush cs)
     \<and> config_by_ref l (ty_filename ty) = Inr (val l T_filename cs)
     \<and> config_by_ref l (ty_stream ty) = Inr (stream_of ok (val l T_filename cs))
     \<and> config_by_ref l (ty_format ty) = (let f = format_of H l (val l T_format cs)
          in Inr (f\<lparr>lf_format := replace_first ''%logger'' ident (lf_format f)\<rparr>))
     \<and> config_by_ref l (ty_ms_width ty) = Inr (width_of (val L_info T_ms_width cs))
     \<and> ((\<forall>k. k \<noteq> L_unknown \<longrightarrow> ok (val k T_filename cs)) \<longrightarrow>
          config_by_val False l (ty_to_file ty) = get_bool_text (val l T_to_file cs))
     \<and> (\<not> ok (val L_global T_filename cs) \<and>
         (\<forall>k. k \<noteq> L_unknown \<longrightarrow> get_bool_text (val k T_to_file cs) = get_bool_text (val L_global T_to_file cs)) \<longrightarrow>
          \<not> config_by_val False l (ty_to_file ty)))"

definition conf_ok :: "'w log_host \<Rightarrow> configurations \<Rightarrow> bool" where
  "conf_ok H cs \<longleftrightarrow> all_set cs
     \<and> (\<forall>l. l \<noteq> L_unknown \<longrightarrow> plain_name (val l T_filename cs)
          \<and> (\<exists>f. log_format_new (current_user H) (current_host H) l (val l T_format cs) = Inr f))"

lemma build_ok:
  assumes "opens ok H" "streams_match ok st" "conf_ok H cs"
  obtains ty0 ty st' w' where "res_each (typed_entry H) cs typed_empty = Inr ty0"
    "ty = files_inserted ok (\<lambda>l. val l T_filename cs) (L_global # each_level) ty0"
    "typed_build H cs (st, w) = (Inr ty, st', w')" "streams_match ok st'"
proof -
  have all: "all_set cs" using assms(3) by (simp add: conf_ok_def)
  have "\<exists>f. log_format_new (current_user H) (current_host H) (cf_level c) (cf_value c) = Inr f"
    if "c \<in> set cs" "cf_type c = T_format" for c
  proof -
    have "cf_key c \<in> set (map cf_key cs)" using that(1) by simp
    then have "cf_key c \<in> set complete_keys" using all by (simp only: all_set_def)
    then have "cf_level c \<noteq> L_unknown" by (simp add: complete_keys_iff)
    moreover have "val (cf_level c) T_format cs = cf_value c"
      using conf_value_member [OF complete_wf [OF all] that(1)] that(2) by (simp add: val_def)
    ultimately show ?thesis using assms(3) unfolding conf_ok_def by metis
  qed
  then obtain ty0 where ty0: "res_each (typed_entry H) cs typed_empty = Inr ty0"
    using entries_succeed [of cs H typed_empty] by blast
  then have "ty_filename ty0 = []" "ty_stream ty0 = []"
    using typed_entries [OF ty0] by (simp_all add: typed_empty_def)
  with insert_all [OF assms(1,2) all, of ty0 w] assms(3) obtain st1 w1 where
    i: "act_each (insert_filename H) cs ty0 (st, w)
      = (Inr (files_inserted ok (\<lambda>l. val l T_filename cs) (L_global # each_level) ty0), st1, w1)" "streams_match ok st1"
    by (auto simp: conf_ok_def)
  let ?ty = "files_inserted ok (\<lambda>l. val l T_filename cs) (L_global # each_level) ty0"
  have "map_of (ty_stream ?ty) L_global \<noteq> None" "map_of (ty_filename ?ty) L_global \<noteq> None"
    using inserted_lookup [OF \<open>ty_filename ty0 = []\<close> \<open>ty_stream ty0 = []\<close>, of L_global ok] by simp_all
  from roll_all [OF this, of H cs st1 w1] obtain w2 where "act_each (roll_entry H) cs ?ty (st1, w1) = (Inr ?ty, st1, w2)" by blast
  with ty0 i have "typed_build H cs (st, w) = (Inr ?ty, st1, w2)" by (simp add: typed_build_def)
  with that ty0 i(2) show thesis by blast
qed

lemma entries_empty:
  assumes "res_each (typed_entry H) cs typed_empty = Inr ty0"
  shows "ty_enabled ty0 = typed_field replaced (\<lambda>_. get_bool_text) (of_type T_enabled cs) []"
    "ty_to_file ty0 = typed_field replaced (\<lambda>_. get_bool_text) (of_type T_to_file cs) []"
    "ty_to_stdout ty0 = typed_field replaced (\<lambda>_. get_bool_text) (of_type T_to_stdout cs) []"
    "ty_max_size ty0 = typed_field replaced (\<lambda>_. get_ulong) (of_type T_max_size cs) []"
    "ty_flush ty0 = typed_field replaced (\<lambda>_. get_ulong) (of_type T_flush cs) []"
    "ty_format ty0 = typed_field log_format_assign (format_of H) (of_type T_format cs) []"
    "ty_ms_width ty0 = fold (\<lambda>c. typed_set replaced L_global (width_of (cf_value c))) (of_type T_ms_width cs) []"
    "ty_filename ty0 = []" "ty_stream ty0 = []"
  using typed_entries [OF assms] by (simp_all add: typed_empty_def)

lemma inserted_fields [simp]:
  "ty_enabled (files_inserted ok f ls ty) = ty_enabled ty" "ty_to_stdout (files_inserted ok f ls ty) = ty_to_stdout ty"
  "ty_max_size (files_inserted ok f ls ty) = ty_max_size ty" "ty_flush (files_inserted ok f ls ty) = ty_flush ty"
  "ty_format (files_inserted ok f ls ty) = ty_format ty" "ty_ms_width (files_inserted ok f ls ty) = ty_ms_width ty"
  by (simp_all add: files_inserted_def)

text \<open>Each level has a format of its own.\<close>

lemma format_stored:
  assumes "all_set cs" "l \<in> set each_level"
  shows "map_of (typed_field log_format_assign (format_of H) (of_type T_format cs) []) l = Some (format_of H l (val l T_format cs))"
proof -
  let ?f = "\<lambda>l. format_of H l (val l T_format cs)"
  have "lf_level (?f l) \<noteq> lf_level (?f L_global)" using assms(2) by (simp add: lf_level_of each_level_iff)
  then have ne: "?f l \<noteq> ?f L_global" by auto
  have "typed_field log_format_assign (format_of H) (of_type T_format cs) []
      = fold (\<lambda>l. typed_set log_format_assign l (?f l)) (L_global # each_level) []"
    unfolding entries_of_type [OF assms(1), of T_format, simplified] typed_field_def
    by (simp add: fold_map comp_def entry_def)
  also have "map_of \<dots> l = Some (?f l)"
    using typed_fold_stored [OF distinct_each_level _ _ _ assms(2), of "[(L_global, ?f L_global)]" "?f L_global" ?f log_format_assign] ne
    by (simp add: typed_set_def [of _ L_global] each_level_iff)
  finally show ?thesis .
qed

text \<open>The name of the logger, put into the formats.\<close>

lemma resolve_fold:
  "distinct ls \<Longrightarrow> (\<forall>l \<in> set ls. map_of (ty_format ty) l = Some (f l)) \<Longrightarrow>
     \<exists>fm. res_each (resolve_logger_name ident) ls ty = Inr (ty\<lparr>ty_format := fm\<rparr>)
       \<and> (\<forall>k. map_of fm k = (if k \<in> set ls then Some ((f k)\<lparr>lf_format := replace_first ''%logger'' ident (lf_format (f k))\<rparr>)
                          else map_of (ty_format ty) k))"
proof (induction ls arbitrary: ty)
  case Nil
  then show ?case by (intro exI [of _ "ty_format ty"]) simp
next
  case (Cons l ls)
  let ?ty = "ty\<lparr>ty_format := AList.update l ((f l)\<lparr>lf_format := replace_first ''%logger'' ident (lf_format (f l))\<rparr>) (ty_format ty)\<rparr>"
  have "resolve_logger_name ident l ty = Inr ?ty" using Cons.prems(2) by (simp add: resolve_logger_name_def)
  moreover have "\<forall>x \<in> set ls. map_of (ty_format ?ty) x = Some (f x)"
    using Cons.prems by (auto simp: update_conv')
  ultimately obtain fm where "res_each (resolve_logger_name ident) (l # ls) ty = Inr (ty\<lparr>ty_format := fm\<rparr>)"
    "\<forall>k. map_of fm k = (if k \<in> set ls then Some ((f k)\<lparr>lf_format := replace_first ''%logger'' ident (lf_format (f k))\<rparr>)
        else map_of (ty_format ?ty) k)"
    using Cons.IH [of ?ty] Cons.prems(1) by auto
  then show ?case using Cons.prems(1) by (intro exI [of _ fm]) (auto simp: update_conv')
qed

lemma width_all:
  assumes "all_set cs"
  shows "fold (\<lambda>c. typed_set replaced L_global (width_of (cf_value c))) (of_type T_ms_width cs) []
    = [(L_global, width_of (val L_info T_ms_width cs))]"
  using width_fold [of "[]" "of_type T_ms_width cs"] unfolding entries_of_type [OF assms, of T_ms_width, simplified]
  by (simp add: each_level_def entry_def)

lemma built_spec:
  assumes "all_set cs" "res_each (typed_entry H) cs typed_empty = Inr ty0"
    and "ty1 = files_inserted ok (\<lambda>l. val l T_filename cs) (L_global # each_level) ty0"
    and "res_each (resolve_logger_name ident) each_level ty1 = Inr ty"
  shows "typed_spec ok H ident cs ty"
proof -
  note e = entries_empty [OF assms(2)]
  have "\<forall>l \<in> set each_level. map_of (ty_format ty1) l = Some (format_of H l (val l T_format cs))"
    using format_stored [OF assms(1), of _ H] e(6) assms(3) by simp
  from resolve_fold [OF distinct_each_level this, of ident] assms(4) obtain fm where
    ty: "ty = ty1\<lparr>ty_format := fm\<rparr>" and
    fm: "\<forall>k. map_of fm k = (if k \<in> set each_level then Some ((format_of H k (val k T_format cs))\<lparr>lf_format :=
          replace_first ''%logger'' ident (lf_format (format_of H k (val k T_format cs)))\<rparr>) else map_of (ty_format ty1) k)"
    by auto
  let ?to = "typed_field replaced (\<lambda>_. get_bool_text) (of_type T_to_file cs) []"
  have to: "ty_to_file ty = fold (\<lambda>l m. if ok (val l T_filename cs) then m else typed_set replaced l False m) (L_global # each_level) ?to"
    using ty assms(3) e(2) by (simp add: files_inserted_def)
  have levels: "l \<in> set (L_global # each_level) \<longleftrightarrow> l \<noteq> L_unknown" for l by (auto simp: each_level_iff)
  have kept: "ty_to_file ty = ?to" if "\<forall>k. k \<noteq> L_unknown \<longrightarrow> ok (val k T_filename cs)"
    unfolding to by (rule to_file_kept [of "L_global # each_level" ok "\<lambda>l. val l T_filename cs"]) (metis that levels)
  have off: "ty_to_file ty = [(L_global, False)]" if "\<not> ok (val L_global T_filename cs)"
      "\<forall>k. k \<noteq> L_unknown \<longrightarrow> get_bool_text (val k T_to_file cs) = get_bool_text (val L_global T_to_file cs)"
  proof -
    have "?to = [(L_global, get_bool_text (val L_global T_to_file cs))]"
    proof (rule typed_field_uniform [OF assms(1)])
      show "\<forall>l \<in> set each_level. get_bool_text (val l T_to_file cs) = get_bool_text (val L_global T_to_file cs)"
        using that(2) each_level_iff by blast
    qed simp_all
    with to show ?thesis by (simp only: to_file_off [of ok "\<lambda>l. val l T_filename cs", OF that(1)])
  qed
  show ?thesis
    unfolding typed_spec_def
  proof (intro ballI)
    fix l
    assume l: "l \<in> set each_level"
    then have known: "l \<noteq> L_unknown" by (simp add: each_level_iff)
    note stored = inserted_lookup [OF e(8,9) known, of ok "\<lambda>l. val l T_filename cs"]
    show "logger_enabled l ty = get_bool_text (val l T_enabled cs)
     \<and> config_by_val False l (ty_to_stdout ty) = get_bool_text (val l T_to_stdout cs)
     \<and> config_by_val 0 l (ty_max_size ty) = get_ulong (val l T_max_size cs)
     \<and> config_by_val 0 l (ty_flush ty) = get_ulong (val l T_flush cs)
     \<and> config_by_ref l (ty_filename ty) = Inr (val l T_filename cs)
     \<and> config_by_ref l (ty_stream ty) = Inr (stream_of ok (val l T_filename cs))
     \<and> config_by_ref l (ty_format ty) = (let f = format_of H l (val l T_format cs)
          in Inr (f\<lparr>lf_format := replace_first ''%logger'' ident (lf_format f)\<rparr>))
     \<and> config_by_ref l (ty_ms_width ty) = Inr (width_of (val L_info T_ms_width cs))
     \<and> ((\<forall>k. k \<noteq> L_unknown \<longrightarrow> ok (val k T_filename cs)) \<longrightarrow>
          config_by_val False l (ty_to_file ty) = get_bool_text (val l T_to_file cs))
     \<and> (\<not> ok (val L_global T_filename cs) \<and>
         (\<forall>k. k \<noteq> L_unknown \<longrightarrow> get_bool_text (val k T_to_file cs) = get_bool_text (val L_global T_to_file cs)) \<longrightarrow>
          \<not> config_by_val False l (ty_to_file ty))"
    proof (intro conjI)
      show "logger_enabled l ty = get_bool_text (val l T_enabled cs)"
        using typed_field_all(2) [OF assms(1) _ l, of T_enabled False replaced "\<lambda>_. get_bool_text"] e(1) ty assms(3)
        by (simp add: logger_enabled_def)
      show "config_by_val False l (ty_to_stdout ty) = get_bool_text (val l T_to_stdout cs)"
        using typed_field_all(2) [OF assms(1) _ l, of T_to_stdout False replaced "\<lambda>_. get_bool_text"] e(3) ty assms(3) by simp
      show "config_by_val 0 l (ty_max_size ty) = get_ulong (val l T_max_size cs)"
        using typed_field_all(2) [OF assms(1) _ l, of T_max_size 0 replaced "\<lambda>_. get_ulong"] e(4) ty assms(3) by simp
      show "config_by_val 0 l (ty_flush ty) = get_ulong (val l T_flush cs)"
        using typed_field_all(2) [OF assms(1) _ l, of T_flush 0 replaced "\<lambda>_. get_ulong"] e(5) ty assms(3) by simp
      show "config_by_ref l (ty_filename ty) = Inr (val l T_filename cs)"
        "config_by_ref l (ty_stream ty) = Inr (stream_of ok (val l T_filename cs))"
        using stored ty assms(3) by (simp_all add: config_by_ref_def del: fold.simps)
      show "config_by_ref l (ty_format ty) = (let f = format_of H l (val l T_format cs)
          in Inr (f\<lparr>lf_format := replace_first ''%logger'' ident (lf_format f)\<rparr>))"
        using fm l ty by (simp add: config_by_ref_def Let_def)
      show "config_by_ref l (ty_ms_width ty) = Inr (width_of (val L_info T_ms_width cs))"
        using width_all [OF assms(1)] e(7) ty assms(3) l by (simp add: config_by_ref_def each_level_iff)
      show "(\<forall>k. k \<noteq> L_unknown \<longrightarrow> ok (val k T_filename cs)) \<longrightarrow>
          config_by_val False l (ty_to_file ty) = get_bool_text (val l T_to_file cs)"
        using kept typed_field_all(2) [OF assms(1) _ l, of T_to_file False replaced "\<lambda>_. get_bool_text"] by simp
      show "\<not> ok (val L_global T_filename cs) \<and>
         (\<forall>k. k \<noteq> L_unknown \<longrightarrow> get_bool_text (val k T_to_file cs) = get_bool_text (val L_global T_to_file cs)) \<longrightarrow>
          \<not> config_by_val False l (ty_to_file ty)"
        by (intro impI, elim conjE, drule (1) off) (simp add: config_by_val_def)
    qed
  qed
qed

text \<open>A logger that has been configured once can be flushed, whatever level, and so be configured again.\<close>

definition flushable :: "logger \<Rightarrow> bool" where
  "flushable lg \<longleftrightarrow> (\<forall>ty. lg_typed lg = Some ty \<longrightarrow> (\<forall>l \<in> set each_level. \<exists>s. config_by_ref l (ty_stream ty) = Inr s))"

text \<open>Every level has a count of its unflushed lines.\<close>

definition counted :: "(el_level, nat) umap \<Rightarrow> bool" where
  "counted u \<longleftrightarrow> (\<forall>l \<in> set each_level. map_of u l \<noteq> None)"

lemma counted_init: "counted init_unflushed"
  by (simp add: counted_def init_unflushed_def map_of_map_restrict)

lemma counted_update: "counted u \<Longrightarrow> counted (AList.update l n u)"
  by (simp add: counted_def update_conv')

definition logger_ok :: "(string \<Rightarrow> bool) \<Rightarrow> 'w log_host \<Rightarrow> logger \<Rightarrow> bool" where
  "logger_ok ok H lg \<longleftrightarrow> counted (lg_unflushed lg) \<and> (\<exists>ty. lg_typed lg = Some ty \<and> conf_ok H (lg_configs lg)
     \<and> typed_spec ok H (lg_id lg) (lg_configs lg) ty)"

lemma ok_flushable: "logger_ok ok H lg \<Longrightarrow> flushable lg"
  by (auto simp: logger_ok_def flushable_def typed_spec_def)

lemma flush_ok:
  assumes "\<forall>l \<in> set each_level. \<exists>s. config_by_ref l (ty_stream ty) = Inr s"
  shows "set ls \<subseteq> set each_level \<Longrightarrow> counted (lg_unflushed lg) \<Longrightarrow>
    \<exists>u w'. act_each (\<lambda>l. flush_level H ty l None) ls lg w = (Inr (lg\<lparr>lg_unflushed := u\<rparr>), w') \<and> counted u"
proof (induction ls arbitrary: lg w)
  case Nil
  then show ?case by (intro exI [of _ "lg_unflushed lg"]) simp
next
  case (Cons l ls)
  then obtain s where "config_by_ref l (ty_stream ty) = Inr s" using assms by auto
  then have "\<exists>u w'. flush_level H ty l None lg w = (Inr (lg\<lparr>lg_unflushed := u\<rparr>), w') \<and> counted u"
    using Cons.prems counted_update
    by (cases s) (auto simp: flush_level_def act_bind_def counted_def intro: exI [of _ "lg_unflushed lg"])
  then obtain u w1 where "flush_level H ty l None lg w = (Inr (lg\<lparr>lg_unflushed := u\<rparr>), w1)" "counted u" by blast
  with Cons.IH [of "lg\<lparr>lg_unflushed := u\<rparr>" w1] Cons.prems show ?case by simp
qed

lemma configure_ok:
  assumes "opens ok H" "streams_match ok st" "flushable lg"
    and "cs = (case base of None \<Rightarrow> lg_configs lg | Some b \<Rightarrow> set_from_base b (lg_configs lg))" "conf_ok H cs"
  shows "\<exists>lg' st' w'. logger_configure H base lg (st, w) = (Inr lg', st', w') \<and> streams_match ok st'
    \<and> lg_id lg' = lg_id lg \<and> lg_configs lg' = cs \<and> logger_ok ok H lg'"
proof -
  let ?lg = "lg\<lparr>lg_unflushed := init_unflushed\<rparr>"
  have "\<exists>u w'. (case lg_typed ?lg of
                 Some ty \<Rightarrow> if has_configuration L_global T_filename (lg_configs ?lg) then logger_flush H ty ?lg w else (Inr ?lg, w)
               | None \<Rightarrow> (Inr ?lg, w)) = (Inr (?lg\<lparr>lg_unflushed := u\<rparr>), w') \<and> counted u"
  proof (cases "lg_typed lg")
    case None
    then show ?thesis by (intro exI [of _ init_unflushed]) (simp add: counted_init)
  next
    case (Some ty)
    with assms(3) have "\<forall>l \<in> set each_level. \<exists>s. config_by_ref l (ty_stream ty) = Inr s" by (simp add: flushable_def)
    from flush_ok [OF this, of each_level ?lg H w] Some counted_init show ?thesis
      by (auto simp: logger_flush_def intro: exI [of _ init_unflushed])
  qed
  then obtain u w1 where f: "(case lg_typed ?lg of
                 Some ty \<Rightarrow> if has_configuration L_global T_filename (lg_configs ?lg) then logger_flush H ty ?lg w else (Inr ?lg, w)
               | None \<Rightarrow> (Inr ?lg, w)) = (Inr (?lg\<lparr>lg_unflushed := u\<rparr>), w1)" "counted u" by blast
  let ?lg1 = "lg\<lparr>lg_unflushed := u, lg_configs := cs\<rparr>"
  obtain ty0 ty1 st' w2 where b: "res_each (typed_entry H) cs typed_empty = Inr ty0"
    "ty1 = files_inserted ok (\<lambda>l. val l T_filename cs) (L_global # each_level) ty0"
    "typed_build H cs (st, w1) = (Inr ty1, st', w2)" "streams_match ok st'"
    using build_ok [OF assms(1,2,5)] by blast
  have all: "all_set cs" using assms(5) by (simp add: conf_ok_def)
  have "\<forall>l \<in> set each_level. map_of (ty_format ty1) l = Some (format_of H l (val l T_format cs))"
    using format_stored [OF all, of _ H] entries_empty(6) [OF b(1)] b(2) by simp
  from resolve_fold [OF distinct_each_level this, of "lg_id lg"] obtain ty where
    ty: "res_each (resolve_logger_name (lg_id lg)) each_level ty1 = Inr ty" by blast
  have "logger_configure H base lg (st, w) = (Inr (?lg1\<lparr>lg_typed := Some ty\<rparr>), st', w2)"
    using f(1) b(3) ty assms(4) by (cases base) (simp_all add: logger_configure_def Let_def)
  moreover have "logger_ok ok H (?lg1\<lparr>lg_typed := Some ty\<rparr>)"
    using built_spec [OF all b(1,2) ty] assms(5) f(2) by (simp add: logger_ok_def)
  ultimately show ?thesis using b(4) by (intro exI [of _ "?lg1\<lparr>lg_typed := Some ty\<rparr>"]) simp
qed

end
