(* ===== verification/Nix_Log_Start.thy ===== *)
theory Nix_Log_Start
  imports Nix_Log_Laws
begin

text \<open>
  How the log of the program comes to be: the storage with its two loggers is made when the program is loaded, and
  \<open>setup_logging\<close> (src/src/nix/init/common.cxx) configures both from etc/log.conf. What the loggers do
  with a line afterwards follows from the values that etc/log.conf leaves.
\<close>

section \<open>Usable repositories\<close>

text \<open>A format with which a \<open>LogFormat\<close> can be made; the level and the names put into it do not matter.\<close>

definition format_ok :: "string \<Rightarrow> bool" where
  "format_ok s = (case log_format_new [] [] L_info s of Inr _ \<Rightarrow> True | Inl _ \<Rightarrow> False)"

lemma format_ok_new: "format_ok s \<Longrightarrow> \<exists>f. log_format_new u h l s = Inr f"
proof -
  assume ok: "format_ok s"
  let ?r = "fold (\<lambda>f. conditional_add_flag f 0)
    [F_app, F_level, F_levshort, F_logger, F_thread, F_file, F_fbase, F_line, F_loc, F_func, F_user, F_host,
     F_msg, F_vlevel] (s, 0)"
  obtain s' flags where r: "?r = (s', flags)" by (cases ?r)
  show ?thesis
  proof (cases "str_find s' ''%datetime'' 0")
    case None
    then show ?thesis by (simp only: log_format_new_def r Let_def prod.case) simp
  next
    case (Some i)
    with ok obtain j where "unescaped_date i s' = Inr j"
      by (cases "unescaped_date i s'") (simp_all only: format_ok_def log_format_new_def r Let_def prod.case option.case, simp_all)
    with Some show ?thesis
      by (cases "update_date_format j s'") (simp only: log_format_new_def r Let_def prod.case option.case, simp)
  qed
qed

definition entry_usable :: "configuration \<Rightarrow> bool" where
  "entry_usable c \<longleftrightarrow> cf_level c \<noteq> L_unknown \<and> cf_type c \<noteq> T_unknown
     \<and> (cf_type c = T_filename \<longrightarrow> plain_name (cf_value c)) \<and> (cf_type c = T_format \<longrightarrow> format_ok (cf_value c))"

definition usable :: "configurations \<Rightarrow> bool" where
  "usable cs \<longleftrightarrow> list_all entry_usable cs"

lemma usable_conf_ok: "all_set cs \<Longrightarrow> usable cs \<Longrightarrow> conf_ok H cs"
proof -
  assume a: "all_set cs" and u: "usable cs"
  have "plain_name (val l T_filename cs)
      \<and> (\<exists>f. log_format_new (current_user H) (current_host H) l (val l T_format cs) = Inr f)" if l: "l \<noteq> L_unknown" for l
  proof
    have e: "\<exists>c \<in> set cs. cf_key c = (l, t) \<and> cf_value c = val l t cs" if "t \<noteq> T_unknown" for t
      using complete_value [OF a l that] conf_value_entry [of l t cs] by (auto simp: val_def)
    from e [of T_filename] u show "plain_name (val l T_filename cs)"
      by (auto simp: usable_def list_all_iff entry_usable_def)
    from e [of T_format] u have "format_ok (val l T_format cs)"
      by (auto simp: usable_def list_all_iff entry_usable_def)
    then show "\<exists>f. log_format_new (current_user H) (current_host H) l (val l T_format cs) = Inr f"
      by (rule format_ok_new)
  qed
  with a show ?thesis by (simp add: conf_ok_def)
qed

lemma usable_put: "usable cs \<Longrightarrow> entry_usable \<lparr>cf_level = l, cf_type = t, cf_value = v\<rparr> \<Longrightarrow> usable (conf_put l t v cs)"
  by (induction cs) (auto simp: usable_def entry_usable_def cf_matches_def)

lemma entry_usable_level:
  "entry_usable \<lparr>cf_level = l, cf_type = t, cf_value = v\<rparr> \<Longrightarrow> l' \<noteq> L_unknown \<Longrightarrow>
     entry_usable \<lparr>cf_level = l', cf_type = t, cf_value = v\<rparr>"
  by (simp add: entry_usable_def)

lemma usable_fold_put:
  "usable cs \<Longrightarrow> entry_usable \<lparr>cf_level = L_global, cf_type = t, cf_value = v\<rparr> \<Longrightarrow> L_unknown \<notin> set ls \<Longrightarrow>
     usable (fold (\<lambda>l. conf_put l t v) ls cs)"
proof (induction ls arbitrary: cs)
  case (Cons l ls)
  then have "entry_usable \<lparr>cf_level = l, cf_type = t, cf_value = v\<rparr>" using entry_usable_level by auto
  with Cons show ?case by (simp add: usable_put)
qed simp

lemma usable_set: "usable cs \<Longrightarrow> entry_usable \<lparr>cf_level = l, cf_type = t, cf_value = v\<rparr> \<Longrightarrow> usable (conf_set l t v cs)"
  using usable_fold_put [where ls = each_level] usable_put [of cs l t v]
  by (auto simp: conf_set_def unsafe_set_def unsafe_set_globally_def Let_def each_level_iff)

lemma usable_from_base: "usable base \<Longrightarrow> usable cs \<Longrightarrow> usable (set_from_base base cs)"
  unfolding set_from_base_def
proof (induction base arbitrary: cs)
  case (Cons c base)
  then have "entry_usable \<lparr>cf_level = cf_level c, cf_type = cf_type c, cf_value = cf_value c\<rparr>"
    by (simp add: usable_def entry_usable_def)
  with Cons usable_set [of cs] show ?case by (simp add: usable_def)
qed simp

lemma usable_set_globally:
  assumes "usable cs" "entry_usable \<lparr>cf_level = L_global, cf_type = t, cf_value = v\<rparr>"
  shows "usable (set_globally t v b cs)"
proof -
  have "usable cs' \<Longrightarrow> L_unknown \<notin> set ls \<Longrightarrow> usable (fold (\<lambda>l. conf_set l t v) ls cs')" for ls cs'
  proof (induction ls arbitrary: cs')
    case (Cons l ls)
    then have "entry_usable \<lparr>cf_level = l, cf_type = t, cf_value = v\<rparr>" using entry_usable_level [OF assms(2)] by auto
    with Cons show ?case by (simp add: usable_set)
  qed simp
  with assms usable_set [OF assms] show ?thesis by (simp add: set_globally_def each_level_iff)
qed

text \<open>Evaluating formats.\<close>

lemmas line_eval = log_format_new_def conditional_add_flag.simps str_find_eval update_format_spec_def when_flag_def
  replace_first_def replace_first_from.simps unescaped_date.simps update_date_format_def braced_format_def default_date_format_def

lemma default_formats_ok:
  "format_ok ''%datetime %level [%logger] [%user@%host] [%func] [%loc] %msg''"
  "format_ok ''%datetime %level [%logger] %msg''" "format_ok ''%datetime %level-%vlevel [%logger] %msg''"
  "format_ok ''%datetime %level [%logger] [%func] [%loc] %msg''" "format_ok ''%datetime %level %msg''"
  by (simp_all add: format_ok_def line_eval)

lemma default_name_plain: "plain_name default_log_file"
  by code_simp

lemma usable_empty: "usable []"
  by (simp add: usable_def)

lemma usable_default: "usable (set_to_default [])"
  by (simp add: set_to_default_def level_formats_def usable_set usable_set_globally usable_empty entry_usable_def
      default_formats_ok default_name_plain del: fold_simps)

lemma all_set_from_base: "all_set cs \<Longrightarrow> usable base \<Longrightarrow> all_set (set_from_base base cs)"
  by (rule complete_from_base) (auto simp: usable_def list_all_iff entry_usable_def)

section \<open>The two loggers\<close>

definition well_logged :: "(string \<Rightarrow> bool) \<Rightarrow> 'w log_host \<Rightarrow> string \<Rightarrow> logger \<Rightarrow> bool" where
  "well_logged ok H ident lg \<longleftrightarrow> lg_id lg = ident \<and> logger_ok ok H lg \<and> usable (lg_configs lg)"

definition storage_ok :: "(string \<Rightarrow> bool) \<Rightarrow> 'w log_host \<Rightarrow> log_storage \<Rightarrow> bool" where
  "storage_ok ok H S \<longleftrightarrow> streams_match ok (ls_streams S) \<and> keys (ls_loggers S) = [''default'', ''performance'']
     \<and> (\<forall>ident lg. map_of (ls_loggers S) ident = Some lg \<longrightarrow> well_logged ok H ident lg)"

lemma on_logger_ok:
  assumes "opens ok H" "streams_match ok (ls_streams S)" "flushable lg" "lg_id lg = ident"
    and "cs = (case base of None \<Rightarrow> lg_configs lg | Some b \<Rightarrow> set_from_base b (lg_configs lg))" "all_set cs" "usable cs"
  shows "\<exists>lg' st w'. on_logger (\<lambda>H. logger_configure H base) H ident lg (S, w)
      = (Inr lg', S\<lparr>ls_streams := st, ls_loggers := AList.update ident lg' (ls_loggers S)\<rparr>, w')
    \<and> streams_match ok st \<and> well_logged ok H ident lg' \<and> lg_configs lg' = cs"
  using configure_ok [OF assms(1,2,3,5) usable_conf_ok [OF assms(6,7)], of w] assms(4,7)
  by (auto simp: on_logger_def well_logged_def)

lemma keys_update: "map_of m k = Some v \<Longrightarrow> keys (AList.update k v' m) = keys m"
  by (simp add: update_keys weak_map_of_SomeI image_iff) (metis fst_conv map_of_SomeD)

text \<open>All loggers are configured from a base.\<close>

lemma reconfigure_each:
  assumes "opens ok H" "usable cs"
  shows "distinct ids \<Longrightarrow> storage_ok ok H S \<Longrightarrow> \<forall>i \<in> set ids. map_of (ls_loggers S) i \<noteq> None \<Longrightarrow>
    \<exists>S' w'. act_each (reconfigure_one H cs) ids () (S, w) = (Inr (), S', w')
     \<and> storage_ok ok H S' \<and> ls_flags S' = ls_flags S \<and> ls_level S' = ls_level S
     \<and> (\<forall>i. map_option lg_configs (map_of (ls_loggers S') i)
          = (if i \<in> set ids then map_option (set_from_base cs \<circ> lg_configs) (map_of (ls_loggers S) i)
             else map_option lg_configs (map_of (ls_loggers S) i)))"
proof (induction ids arbitrary: S w)
  case Nil
  then show ?case by auto
next
  case (Cons i ids)
  from Cons.prems(3) obtain lg where lg: "map_of (ls_loggers S) i = Some lg" by auto
  with Cons.prems(2) have w: "well_logged ok H i lg" and st: "streams_match ok (ls_streams S)"
    by (auto simp: storage_ok_def)
  let ?cs = "set_from_base cs (lg_configs lg)"
  have f: "flushable lg" "lg_id lg = i" using w ok_flushable by (auto simp: well_logged_def)
  have all: "all_set ?cs" "usable ?cs"
    using w assms(2) all_set_from_base usable_from_base by (auto simp: well_logged_def logger_ok_def conf_ok_def)
  obtain lg' st' w1 where c: "on_logger (\<lambda>H. logger_configure H (Some cs)) H i lg (S, w)
      = (Inr lg', S\<lparr>ls_streams := st', ls_loggers := AList.update i lg' (ls_loggers S)\<rparr>, w1)"
    "streams_match ok st'" "well_logged ok H i lg'" "lg_configs lg' = ?cs"
    using on_logger_ok [OF assms(1) st f _ all, of "Some cs" w] by auto
  let ?S = "S\<lparr>ls_streams := st', ls_loggers := AList.update i lg' (ls_loggers S)\<rparr>"
  have "storage_ok ok H ?S"
    using Cons.prems(2) c(2,3) by (auto simp: storage_ok_def update_conv' keys_update [OF lg])
  moreover have "\<forall>j \<in> set ids. map_of (ls_loggers ?S) j \<noteq> None"
    using Cons.prems(3) by (simp add: update_conv')
  ultimately obtain S' w' where r: "act_each (reconfigure_one H cs) ids () (?S, w1) = (Inr (), S', w')"
    "storage_ok ok H S'" "ls_flags S' = ls_flags S" "ls_level S' = ls_level S"
    "\<forall>j. map_option lg_configs (map_of (ls_loggers S') j)
          = (if j \<in> set ids then map_option (set_from_base cs \<circ> lg_configs) (map_of (ls_loggers ?S) j)
             else map_option lg_configs (map_of (ls_loggers ?S) j))"
    using Cons.IH [of ?S w1] Cons.prems(1) by (auto simp del: fun_upd_apply)
  have i: "i \<notin> set ids" using Cons.prems(1) by simp
  have "\<forall>j. map_option lg_configs (map_of (ls_loggers S') j)
          = (if j \<in> set (i # ids) then map_option (set_from_base cs \<circ> lg_configs) (map_of (ls_loggers S) j)
             else map_option lg_configs (map_of (ls_loggers S) j))"
    using r(5) i lg c(4) by (auto simp: update_conv')
  moreover have "act_each (reconfigure_one H cs) (i # ids) () (S, w) = (Inr (), S', w')"
    using r(1) lg c(1) by (simp add: reconfigure_one_def)
  ultimately show ?case using r(2-4) by blast
qed

lemma reconfigure_ok:
  assumes "opens ok H" "usable cs" "storage_ok ok H S"
  shows "\<exists>S' w'. reconfigure_all H cs (S, w) = (Inr (), S', w') \<and> storage_ok ok H S'
    \<and> ls_flags S' = ls_flags S \<and> ls_level S' = ls_level S
    \<and> (\<forall>i. map_option lg_configs (map_of (ls_loggers S') i) = map_option (set_from_base cs \<circ> lg_configs) (map_of (ls_loggers S) i))"
proof -
  have k: "map_of (ls_loggers S) i \<noteq> None \<longleftrightarrow> i \<in> set (keys (ls_loggers S))" for i
    by (simp add: map_of_eq_None_iff)
  have d: "distinct (keys (ls_loggers S))" using assms(3) by (simp add: storage_ok_def)
  have "\<forall>i \<in> set (keys (ls_loggers S)). map_of (ls_loggers S) i \<noteq> None" using k by blast
  from reconfigure_each [OF assms(1,2) d assms(3) this, of w] obtain S' w' where
    r: "reconfigure_all H cs (S, w) = (Inr (), S', w')" "storage_ok ok H S'" "ls_flags S' = ls_flags S" "ls_level S' = ls_level S"
    "\<forall>i. map_option lg_configs (map_of (ls_loggers S') i)
          = (if i \<in> set (keys (ls_loggers S)) then map_option (set_from_base cs \<circ> lg_configs) (map_of (ls_loggers S) i)
             else map_option lg_configs (map_of (ls_loggers S) i))"
    by (auto simp: reconfigure_all_def)
  have "map_option lg_configs (map_of (ls_loggers S') i) = map_option (set_from_base cs \<circ> lg_configs) (map_of (ls_loggers S) i)" for i
    using r(5) k [of i] by (cases "map_of (ls_loggers S) i") auto
  with r(1-4) show ?thesis by blast
qed

section \<open>The storage\<close>

lemma default_base_all_set: "all_set (set_from_base (set_to_default []) [])"
proof -
  have "map cf_key (set_from_base (set_to_default []) []) = complete_keys" by code_simp
  then show ?thesis by (simp add: all_set_def)
qed

text \<open>A logger that is made new gets the configurations that are the default then.\<close>

lemma get_new:
  assumes "opens ok H" "streams_match ok (ls_streams S)" "map_of (ls_loggers S) ident = None" "valid_logger_id ident"
    and "cs = set_from_base (ls_default S) []" "all_set cs" "usable cs"
  shows "\<exists>lg st w'. get_logger H ident True (S, w)
      = (Inr (Some lg), S\<lparr>ls_streams := st, ls_loggers := AList.update ident lg (ls_loggers S)\<rparr>, w')
    \<and> streams_match ok st \<and> well_logged ok H ident lg \<and> lg_configs lg = cs"
proof -
  have "flushable (logger_blank ident)" "lg_id (logger_blank ident) = ident"
    "cs = (case Some (ls_default S) of None \<Rightarrow> lg_configs (logger_blank ident)
             | Some b \<Rightarrow> set_from_base b (lg_configs (logger_blank ident)))"
    using assms(5) by (simp_all add: flushable_def logger_blank_def)
  from on_logger_ok [OF assms(1,2) this assms(6,7), of w] show ?thesis
    using assms(3,4) by (auto simp: get_logger_def)
qed

lemma storage_new_ok:
  assumes "opens ok H"
  shows "\<exists>S' w'. storage_new H unset (S, w) = (Inr (), S', w') \<and> storage_ok ok H S' \<and> ls_flags S' = 2 \<and> ls_level S' = unset"
proof -
  let ?S = "\<lparr>ls_loggers = [], ls_default = set_to_default [], ls_streams = [], ls_flags = 0, ls_level = unset\<rparr>"
  let ?cs = "set_from_base (set_to_default []) []"
  have u: "usable ?cs" by (simp add: usable_from_base usable_default usable_empty)
  obtain lg1 st1 w1 where l1: "get_logger H ''default'' True (?S, w)
      = (Inr (Some lg1), ?S\<lparr>ls_streams := st1, ls_loggers := [(''default'', lg1)]\<rparr>, w1)"
    "streams_match ok st1" "well_logged ok H ''default'' lg1"
    using get_new [OF assms _ _ _ _ default_base_all_set u, of ?S "''default''" w]
    by (auto simp: streams_match_def valid_logger_id_def)
  let ?S1 = "?S\<lparr>ls_streams := st1, ls_loggers := [(''default'', lg1)]\<rparr>"
  obtain lg2 st2 w2 where l2: "get_logger H ''performance'' True (?S1, w1)
      = (Inr (Some lg2), ?S1\<lparr>ls_streams := st2, ls_loggers := [(''default'', lg1), (''performance'', lg2)]\<rparr>, w2)"
    "streams_match ok st2" "well_logged ok H ''performance'' lg2"
    using get_new [OF assms _ _ _ _ default_base_all_set u, of ?S1 "''performance''" w1] l1(2)
    by (auto simp: valid_logger_id_def)
  let ?S2 = "?S1\<lparr>ls_streams := st2, ls_loggers := [(''default'', lg1), (''performance'', lg2)]\<rparr>"
  let ?cs2 = "set_globally T_format ''%datetime %level %msg'' False (lg_configs lg2)"
  let ?lg2 = "lg2\<lparr>lg_configs := ?cs2\<rparr>"
  have "flushable ?lg2" "lg_id ?lg2 = ''performance''"
    using l2(3) ok_flushable [of ok H lg2] by (auto simp: well_logged_def flushable_def)
  moreover have "all_set ?cs2"
    using l2(3) by (auto simp: well_logged_def logger_ok_def conf_ok_def intro: complete_set_globally)
  moreover have "usable ?cs2"
    using l2(3) by (auto simp: well_logged_def intro!: usable_set_globally) (simp add: entry_usable_def default_formats_ok)
  ultimately obtain lg3 st3 w3 where l3: "on_logger (\<lambda>H. logger_configure H None) H ''performance'' ?lg2 (?S2, w2)
      = (Inr lg3, ?S2\<lparr>ls_streams := st3, ls_loggers := [(''default'', lg1), (''performance'', lg3)]\<rparr>, w3)"
    "streams_match ok st3" "well_logged ok H ''performance'' lg3"
    using on_logger_ok [OF assms, of ?S2 ?lg2 "''performance''" ?cs2 None w2] l2(2) by auto
  let ?S3 = "?S2\<lparr>ls_streams := st3, ls_loggers := [(''default'', lg1), (''performance'', lg3)], ls_flags := 2\<rparr>"
  have "storage_new H unset (S, w) = (Inr (), ?S3, w3)"
    using l1(1) l2(1) l3(1) by (simp add: storage_new_def Let_def)
  moreover have "storage_ok ok H ?S3"
    using l1(3) l3(2,3) by (simp add: storage_ok_def)
  ultimately show ?thesis by (intro exI [of _ ?S3] exI [of _ w3]) simp
qed

lemma start_logging_ok:
  assumes "opens ok H" "usable (program_log_conf src foreground path)" "storage_ok ok H S"
  shows "\<exists>S' w'. start_logging H src foreground path (S, w) = (Inr (), S', w') \<and> storage_ok ok H S'
    \<and> ls_flags S' = ls_flags S \<and> ls_level S' = ls_level S
    \<and> (\<forall>i lg. map_of (ls_loggers S') i = Some lg \<longrightarrow>
         (\<exists>cs. lg_configs lg = set_from_base (program_log_conf src foreground path) cs))"
proof -
  let ?c = "program_log_conf src foreground path"
  let ?S = "S\<lparr>ls_default := set_from_base ?c (ls_default S)\<rparr>"
  have "storage_ok ok H ?S" using assms(3) by (simp add: storage_ok_def)
  from reconfigure_ok [OF assms(1,2) this, of w] obtain S1 w1 where
    r1: "reconfigure_all H ?c (?S, w) = (Inr (), S1, w1)" "storage_ok ok H S1" "ls_flags S1 = ls_flags S" "ls_level S1 = ls_level S"
    by auto
  from reconfigure_ok [OF assms(1,2) r1(2), of w1] obtain S2 w2 where
    r2: "reconfigure_all H ?c (S1, w1) = (Inr (), S2, w2)" "storage_ok ok H S2" "ls_flags S2 = ls_flags S1" "ls_level S2 = ls_level S1"
    "\<forall>i. map_option lg_configs (map_of (ls_loggers S2) i) = map_option (set_from_base ?c \<circ> lg_configs) (map_of (ls_loggers S1) i)"
    by auto
  have "start_logging H src foreground path (S, w) = (Inr (), S2, w2)"
    using r1(1) r2(1) by (simp add: start_logging_def set_default_configurations_def Let_def)
  moreover have "\<exists>cs. lg_configs lg = set_from_base ?c cs" if "map_of (ls_loggers S2) i = Some lg" for i lg
    using r2(5) [rule_format, of i] that by (cases "map_of (ls_loggers S1) i") auto
  ultimately show ?thesis using r1(3,4) r2(2-4) by auto
qed

section \<open>What setup_logging leaves\<close>

lemma program_conf_wf: "conf_wf (program_log_conf src foreground path)"
  by (simp add: program_log_conf_def set_globally_wf of_file_inv)

text \<open>The entries of etc/log.conf for the three values that \<open>setup_logging\<close> sets or relies on.\<close>

lemma program_before_global: "before_global t' (program_log_conf src foreground path) = before_global t' (parsed_part src)"
proof -
  have levels: "\<forall>l \<in> set each_level. conf_value l t (configurations_of_file src) \<noteq> None"
    if "t \<in> fst ` set remaining_defaults" for t
    using of_file_global [OF that] of_file_inv(2) by (simp add: conf_closed_iff)
  have out: "T_to_stdout \<in> fst ` set remaining_defaults" "T_filename \<in> fst ` set remaining_defaults"
    by (simp_all add: remaining_defaults_def)
  have k1: "map cf_key (set_globally T_to_stdout v False (configurations_of_file src)) = map cf_key (configurations_of_file src)" for v
    by (rule set_globally_keys [OF levels [OF out(1)]])
  have k2: "map cf_key (program_log_conf src foreground path)
      = map cf_key (set_globally T_to_stdout (if foreground then ''true'' else ''false'') False (configurations_of_file src))"
    unfolding program_log_conf_def
    by (rule set_globally_keys) (use levels [OF out(2)] in \<open>simp add: set_globally_value\<close>)
  show ?thesis using before_global_keys [OF trans [OF k2 k1]] by (simp add: of_file_before_global)
qed

definition program_logging :: "'w log_host \<Rightarrow> el_level \<Rightarrow> string option \<Rightarrow> bool \<Rightarrow> string \<Rightarrow> (unit, 'w logging) action" where
  "program_logging H unset src foreground path =
     act_bind (storage_new H unset) (\<lambda>_. start_logging H src foreground path)"

lemma usable_of_file: "usable (parsed_part src) \<Longrightarrow> usable (configurations_of_file src)"
proof -
  have g: "usable cs \<Longrightarrow> list_all (\<lambda>(t, v). entry_usable \<lparr>cf_level = L_global, cf_type = t, cf_value = v\<rparr>) ds \<Longrightarrow>
      usable (fold (\<lambda>(t, v). unsafe_set_if_not_exist L_global t v) ds cs)" for ds cs
  proof (induction ds arbitrary: cs)
    case (Cons d ds)
    then have "usable (unsafe_set_if_not_exist L_global (fst d) (snd d) cs)"
      by (auto simp: unsafe_set_if_not_exist_def unsafe_set_def unsafe_set_globally_def Let_def each_level_iff
          intro!: usable_fold_put usable_put)
    with Cons show ?case by (simp add: case_prod_unfold)
  qed simp
  assume "usable (parsed_part src)"
  then show ?thesis
    unfolding of_file_parsed remaining_eq [OF parsed_part_inv(2)]
    by (rule g) (simp add: remaining_defaults_def entry_usable_def default_name_plain default_formats_ok)
qed

lemma program_usable:
  "usable (parsed_part src) \<Longrightarrow> plain_name path \<Longrightarrow> usable (program_log_conf src foreground path)"
  by (auto simp: program_log_conf_def entry_usable_def intro!: usable_set_globally usable_of_file)

text \<open>The values of a type that \<open>setup_logging\<close> leaves alone, or sets.\<close>

lemma from_base_global:
  assumes "conf_wf base" "conf_value L_global t base = Some g"
  shows "conf_value L_global t (set_from_base base cs) = Some g"
proof -
  from conf_value_entry [OF assms(2)] obtain d where d: "d \<in> set base" "cf_key d = (L_global, t)" "cf_value d = g" by blast
  then obtain as es where base: "base = as @ d # es" by (auto simp: in_set_conv_decomp)
  have "\<forall>b \<in> set es. cf_key b \<noteq> (L_global, t) \<and> cf_key b \<noteq> (L_global, t)"
    using wf_later [OF assms(1) [unfolded base], of d] d(2) by simp
  with from_base_last [of as d es L_global t cs] assms(1) d base show ?thesis by (simp add: overrides_def)
qed

lemma file_value:
  assumes "t \<in> fst ` set remaining_defaults" "l \<noteq> L_unknown"
  shows "conf_value l t (configurations_of_file src) = Some (val l t (configurations_of_file src))"
proof -
  have "conf_value l t (configurations_of_file src) \<noteq> None"
    using of_file_global [OF assms(1), of src] of_file_inv(2) [of src] assms(2)
    by (cases "l = L_global") (auto simp: conf_closed_iff each_level_iff)
  then show ?thesis by (auto simp: val_def)
qed

lemma default_types: "t \<noteq> T_flush \<Longrightarrow> t \<noteq> T_unknown \<Longrightarrow> t \<in> fst ` set remaining_defaults"
  by (cases t) (simp_all add: remaining_defaults_def)

text \<open>What is in the repository of a logger in the end, of a type with a default.\<close>

lemma left_global:
  assumes "t \<noteq> T_flush" "t \<noteq> T_unknown"
  shows "val L_global t (set_from_base (program_log_conf src foreground path) cs) = val L_global t (configurations_of_file src)"
proof -
  have "conf_value L_global t (program_log_conf src foreground path) = Some (val L_global t (configurations_of_file src))"
    using file_value [OF default_types [OF assms], of L_global src]
    by (simp add: program_log_conf_def set_globally_value each_level_iff)
  from from_base_global [OF program_conf_wf this, of cs] show ?thesis by (simp add: val_def)
qed

lemma left_value:
  assumes "l \<in> set each_level" "t \<noteq> T_flush" "t \<noteq> T_unknown"
  shows "val l t (set_from_base (program_log_conf src foreground path) cs)
    = (if l \<in> set (before_global t (parsed_part src)) then val L_global t (configurations_of_file src)
       else if t = T_filename then path else if t = T_to_stdout then (if foreground then ''true'' else ''false'')
       else val l t (configurations_of_file src))"
proof -
  let ?p = "program_log_conf src foreground path"
  let ?v = "if t = T_filename then path else if t = T_to_stdout then (if foreground then ''true'' else ''false'')
    else val l t (configurations_of_file src)"
  have "l \<noteq> L_unknown" using assms(1) by (simp add: each_level_iff)
  note f = file_value [OF default_types [OF assms(2,3)]]
  have "conf_value L_global t ?p = Some (val L_global t (configurations_of_file src))"
    using f [of L_global src] by (simp add: program_log_conf_def set_globally_value each_level_iff)
  moreover have "conf_value l t ?p = Some ?v"
    using f [OF \<open>l \<noteq> L_unknown\<close>, of src] assms(1) by (simp add: program_log_conf_def set_globally_value)
  ultimately have "conf_value l t (set_from_base ?p cs)
      = Some (if l \<in> set (before_global t ?p) then val L_global t (configurations_of_file src) else ?v)"
    using from_base_order [OF program_conf_wf assms(1)] by blast
  then show ?thesis by (simp add: val_def program_before_global)
qed

text \<open>The start succeeds, and both loggers hold what their repositories say.\<close>

lemma logging_ok:
  assumes "opens ok H" "usable (parsed_part src)" "plain_name path"
  shows "\<exists>S w'. program_logging H unset src foreground path (S0, w) = (Inr (), S, w') \<and> ls_flags S = 2
    \<and> keys (ls_loggers S) = [''default'', ''performance'']
    \<and> (\<forall>ident lg. map_of (ls_loggers S) ident = Some lg \<longrightarrow>
         (\<exists>ty cs. lg_typed lg = Some ty \<and> counted (lg_unflushed lg)
            \<and> typed_spec ok H ident (set_from_base (program_log_conf src foreground path) cs) ty))"
proof -
  obtain S1 w1 where 1: "storage_new H unset (S0, w) = (Inr (), S1, w1)" "storage_ok ok H S1" "ls_flags S1 = 2"
    using storage_new_ok [OF assms(1), of unset S0 w] by blast
  obtain S2 w2 where 2: "start_logging H src foreground path (S1, w1) = (Inr (), S2, w2)" "storage_ok ok H S2"
    "ls_flags S2 = 2" "\<forall>i lg. map_of (ls_loggers S2) i = Some lg \<longrightarrow>
         (\<exists>cs. lg_configs lg = set_from_base (program_log_conf src foreground path) cs)"
    using start_logging_ok [OF assms(1) program_usable [OF assms(2,3)] 1(2), of foreground w1] 1(3) by auto
  have "program_logging H unset src foreground path (S0, w) = (Inr (), S2, w2)"
    using 1(1) 2(1) by (simp add: program_logging_def)
  moreover have "\<exists>ty cs. lg_typed lg = Some ty \<and> counted (lg_unflushed lg)
      \<and> typed_spec ok H ident (set_from_base (program_log_conf src foreground path) cs) ty"
    if "map_of (ls_loggers S2) ident = Some lg" for ident lg
  proof -
    note member = that
    have "well_logged ok H ident lg" using 2(2) member by (simp add: storage_ok_def)
    moreover obtain cs where "lg_configs lg = set_from_base (program_log_conf src foreground path) cs"
      using 2(4) member by blast
    ultimately show ?thesis by (auto simp: well_logged_def logger_ok_def)
  qed
  ultimately show ?thesis using 2(2,3) by (auto simp: storage_ok_def)
qed

end
