(* ===== verification/Nix_Log_Output.thy ===== *)
theory Nix_Log_Output
  imports Nix_Log_Start
begin

text \<open>
  Where a line of the program goes once its log has been set up: to which file, whether to the terminal, and what
  is lost (src/src/nix/init/common.cxx over src/src/nix/easylogging++.h).
\<close>

section \<open>What a line depends on\<close>

lemma write_to_file_typed: "write_to_file H b l ty line lg w = (Inr lg', w') \<Longrightarrow> lg_typed lg' = lg_typed lg"
  by (auto simp: write_to_file_def flush_level_def is_flush_needed_def act_bind_def Let_def
      split: if_splits sum.splits option.splits prod.splits bool.splits)

lemma dispatch_typed: "dispatch_line H S ty m lg w = (Inr lg', w') \<Longrightarrow> lg_typed lg' = lg_typed lg"
  unfolding dispatch_line_def Let_def
  by (auto simp: act_bind_def split: sum.splits prod.splits dest: write_to_file_typed)

definition all_typed :: "(typed \<Rightarrow> bool) \<Rightarrow> log_storage \<Rightarrow> bool" where
  "all_typed Q S \<longleftrightarrow> (\<forall>i lg ty. map_of (ls_loggers S) i = Some lg \<and> lg_typed lg = Some ty \<longrightarrow> Q ty)"

lemma write_with_cong:
  assumes "\<And>ty m lg w. Q ty \<Longrightarrow> lm_level m \<in> Ls \<Longrightarrow> dispatch_line H S ty m lg w = dispatch_line H' S ty m lg w"
    and "all_typed Q S" "map_of (ls_loggers S) i = Some lg" "lm_level m \<in> Ls"
  shows "write_with H i lg m (S, w) = write_with H' i lg m (S, w)"
proof (cases "lg_typed lg")
  case (Some ty)
  with assms(2,3) have "Q ty" by (auto simp: all_typed_def)
  with Some assms(1,4) show ?thesis by (simp add: write_with_def)
qed (simp add: write_with_def)

text \<open>The loggers stay as they are but for their counts.\<close>

lemma write_with_keeps:
  assumes "all_typed Q S" "map_of (ls_loggers S) i = Some lg" "write_with H i lg m (S, w) = (Inr b, S', w')"
  shows "all_typed Q S' \<and> ls_flags S' = ls_flags S \<and> (map_of (ls_loggers S) j \<noteq> None \<longrightarrow> map_of (ls_loggers S') j \<noteq> None)"
proof (cases "lg_typed lg")
  case (Some ty)
  show ?thesis
  proof (cases "proceeds S (lm_level m) ty")
    case True
    with Some assms(3) obtain lg' w1 where d: "dispatch_line H S ty m lg w = (Inr lg', w1)"
      "S' = S\<lparr>ls_loggers := AList.update i lg' (ls_loggers S)\<rparr>"
      by (auto simp: write_with_def split: prod.splits sum.splits)
    from dispatch_typed [OF d(1)] assms(1,2) d(2) show ?thesis by (auto simp: all_typed_def update_conv')
  next
    case False
    with Some assms show ?thesis by (simp add: write_with_def)
  qed
qed (use assms(3) in \<open>simp add: write_with_def\<close>)

text \<open>A line that cannot be written as it is leaves one of the level DEBUG or WARNING with the default logger.\<close>

definition levels_of_line :: "log_message \<Rightarrow> el_level set" where
  "levels_of_line m = {lm_level m, L_debug, L_warning}"

lemma log_write_cong:
  assumes same: "\<And>S' ty m lg w. ls_flags S' = ls_flags S \<Longrightarrow> Q ty \<Longrightarrow> lm_level m \<in> Ls \<Longrightarrow>
      dispatch_line H S' ty m lg w = dispatch_line H' S' ty m lg w"
    and Q: "all_typed Q S" and d: "map_of (ls_loggers S) ''default'' \<noteq> None" and f: "\<not> has_log_flag lf_create S"
    and ls: "levels_of_line m \<subseteq> Ls"
  shows "log_write H ident m (S, w) = log_write H' ident m (S, w)"
proof -
  have m: "lm_level m \<in> Ls" and l: "L_debug \<in> Ls" "L_warning \<in> Ls" using ls by (auto simp: levels_of_line_def)
  have default: "write_default H m (S', w) = write_default H' m (S', w)"
    if "ls_flags S' = ls_flags S" "all_typed Q S'" "map_of (ls_loggers S') ''default'' \<noteq> None" "lm_level m \<in> Ls"
    for m S' w
    using that write_with_cong [OF same [OF that(1)] that(2) _ that(4), of "''default''" _ w]
    by (auto simp: write_default_def get_logger_def)
  show ?thesis
  proof (cases "map_of (ls_loggers S) ident")
    case None
    have "write_default H (m\<lparr>lm_level := L_debug, lm_vlevel := 0, lm_text := t\<rparr>) (S, w)
        = write_default H' (m\<lparr>lm_level := L_debug, lm_vlevel := 0, lm_text := t\<rparr>) (S, w)" for t
      by (rule default [OF refl Q d]) (simp add: l)
    with None f show ?thesis by (simp add: log_write_def get_logger_def)
  next
    case (Some lg)
    note ww = write_with_cong [OF same [OF refl] Q Some m, of w]
    obtain r S' w' where r: "write_with H' ident lg m (S, w) = (r, S', w')" by (cases "write_with H' ident lg m (S, w)") auto
    show ?thesis
    proof (cases r)
      case (Inr b)
      have "write_default H (m\<lparr>lm_level := L_warning, lm_vlevel := 0, lm_text := t\<rparr>) (S', w')
          = write_default H' (m\<lparr>lm_level := L_warning, lm_vlevel := 0, lm_text := t\<rparr>) (S', w')" for t
        by (rule default) (use write_with_keeps [OF Q Some r [unfolded Inr], of "''default''"] d l in auto)
      with Some r Inr ww f show ?thesis by (simp add: log_write_def get_logger_def act_bind_def)
    qed (use Some r ww f in \<open>simp add: log_write_def get_logger_def\<close>)
  qed
qed

text \<open>Without the switch for the terminal nothing depends on it, without that for the file nothing on files.\<close>

lemmas branch_cong = if_cong option.case_cong sum.case_cong prod.case_cong bool.case_cong

lemma silent_dispatch:
  assumes "\<not> config_by_val False (lm_level m) (ty_to_stdout ty)"
  shows "dispatch_line (H\<lparr>lh_cout := out\<rparr>) S ty m lg w = dispatch_line H S ty m lg w"
proof -
  have "validate_rolling (H\<lparr>lh_cout := out\<rparr>) = validate_rolling H" "flush_level (H\<lparr>lh_cout := out\<rparr>) = flush_level H"
    by (simp_all add: validate_rolling_def flush_level_def fun_eq_iff Let_def cong: branch_cong)
  moreover from this(2) have "write_to_file (H\<lparr>lh_cout := out\<rparr>) = write_to_file H"
    by (simp add: write_to_file_def [abs_def] cong: branch_cong)
  ultimately show ?thesis using assms by (simp add: dispatch_line_def Let_def)
qed

lemma fileless_dispatch:
  assumes "\<not> config_by_val False (lm_level m) (ty_to_file ty)" "\<not> has_log_flag lf_strict_size S"
  shows "dispatch_line (H\<lparr>lh_write := wr, lh_flush := fl\<rparr>) S ty m lg w = dispatch_line H S ty m lg w"
  using assms by (simp add: dispatch_line_def write_to_file_def Let_def colored_def term_supports_color_def environment_variable_def
      cong: branch_cong)

text \<open>A line depends on no other file than the one of its stream.\<close>

lemma destined_dispatch:
  assumes "config_by_ref (lm_level m) (ty_stream ty) = Inr st" "\<not> has_log_flag lf_strict_size S"
    and "\<And>f. st = Some f \<Longrightarrow> wr f = lh_write H f"
    and "config_by_val False (lm_level m) (ty_to_stdout ty) \<Longrightarrow> out = lh_cout H"
  shows "dispatch_line (H\<lparr>lh_write := wr, lh_cout := out\<rparr>) S ty m lg w = dispatch_line H S ty m lg w"
proof -
  let ?H = "H\<lparr>lh_write := wr, lh_cout := out\<rparr>"
  have "flush_level ?H = flush_level H" by (simp add: flush_level_def fun_eq_iff Let_def cong: branch_cong)
  moreover from this assms(1,3) have "write_to_file ?H b (lm_level m) ty line lg w = write_to_file H b (lm_level m) ty line lg w" for b line lg w
    by (cases st) (simp_all add: write_to_file_def act_bind_def act_lift_def cong: branch_cong)
  moreover have "colored ?H = colored H"
    by (simp add: colored_def term_supports_color_def environment_variable_def fun_eq_iff cong: branch_cong)
  ultimately show ?thesis using assms(2,4)
    by (simp add: dispatch_line_def Let_def act_bind_def cong: branch_cong split: prod.split sum.split)
qed

section \<open>The typed configurations that are left\<close>

lemma left_typed:
  assumes "typed_spec ok H ident (set_from_base (program_log_conf src foreground path) cs) ty" "l \<in> set each_level"
  shows "config_by_ref l (ty_filename ty)
       = Inr (if l \<in> set (before_global T_filename (parsed_part src)) then val L_global T_filename (configurations_of_file src) else path)"
    and "config_by_val False l (ty_to_stdout ty)
       = (if l \<in> set (before_global T_to_stdout (parsed_part src)) then get_bool_text (val L_global T_to_stdout (configurations_of_file src))
          else foreground)"
    and "logger_enabled l ty
       = get_bool_text (val (if l \<in> set (before_global T_enabled (parsed_part src)) then L_global else l) T_enabled (configurations_of_file src))"
    and "config_by_ref l (ty_stream ty)
       = Inr (stream_of ok (if l \<in> set (before_global T_filename (parsed_part src)) then val L_global T_filename (configurations_of_file src) else path))"
  using assms(1) left_value [OF assms(2), where src = src and foreground = foreground and path = path and cs = cs] assms(2)
  by (auto simp: typed_spec_def get_bool_text_def el_trim_def ltrim_def rtrim_def is_space_def)

definition toy_log_host :: "string list log_host" where
  "toy_log_host = \<lparr>lh_env = (\<lambda>_. None), lh_thread = ''1'',
     lh_clock = (\<lambda>_. \<lparr>tm_year = 114, tm_mon = 8, tm_mday = 17, tm_wday = 3, tm_hour = 12, tm_min = 34, tm_sec = 56, tm_usec = 789000\<rparr>),
     lh_stat = (\<lambda>_ _. True), lh_mkdir = (\<lambda>_ w. (True, w)), lh_append = (\<lambda>f w. (f = ''/log/error.log'', w)),
     lh_size = (\<lambda>_ _. 0), lh_reopen = (\<lambda>_ _ w. w), lh_write = (\<lambda>f s w. (True, w @ [f @ '': '' @ s])),
     lh_flush = (\<lambda>_ w. w), lh_cout = (\<lambda>s w. w @ [s])\<rparr>"

definition no_storage :: log_storage where
  "no_storage = \<lparr>ls_loggers = [], ls_default = [], ls_streams = [], ls_flags = 0, ls_level = L_info\<rparr>"

lemma toy_opens: "opens (\<lambda>f. f = ''/log/error.log'') toy_log_host"
  by (simp add: opens_def toy_log_host_def)

section \<open>Where lines go\<close>

lemma keys_registered:
  assumes "keys m = [a, b]" "i \<in> {a, b}"
  shows "\<exists>v. map_of m i = Some v"
proof -
  have "i \<in> set (keys m)" using assms by (simp only:) simp
  then show ?thesis using map_of_eq_None_iff [of m i] by (cases "map_of m i") auto
qed

text \<open>The file of a level and its switch for the terminal, as etc/log.conf and the set-up leave them.\<close>

definition log_file :: "string option \<Rightarrow> string \<Rightarrow> el_level \<Rightarrow> string" where
  "log_file src path l = (if l \<in> set (before_global T_filename (parsed_part src))
     then val L_global T_filename (configurations_of_file src) else path)"

definition log_terminal :: "string option \<Rightarrow> bool \<Rightarrow> el_level \<Rightarrow> bool" where
  "log_terminal src foreground l = (if l \<in> set (before_global T_to_stdout (parsed_part src))
     then get_bool_text (val L_global T_to_stdout (configurations_of_file src)) else foreground)"

text \<open>C23. After \<open>setup_logging\<close> the stream of each level, for both loggers of the program, is that of error.log, if it
  opens, and the switch for the terminal is on in the foreground only, unless etc/log.conf sets the file name or the switch
  for that level before it sets it for all levels, or without doing so: then the value for all levels of etc/log.conf, or the
  default of the library, counts instead, since \<open>setGlobally\<close> leaves the level for all alone and \<open>setFromBase\<close>
  spreads its value over what has come before. And a line goes nowhere else: whatever logger it is for and whatever
  becomes of it, it has nothing to do with any file but those of its level and of the two levels of the messages the library
  writes in its place, nor with the terminal when the switch of none of the three is on.\<close>

theorem log_destination:
  assumes "opens ok H" "usable (parsed_part src)" "plain_name path"
  shows "\<exists>S w'. program_logging H unset src foreground path (S0, w) = (Inr (), S, w')
    \<and> (\<forall>ident \<in> {''default'', ''performance''}. \<exists>lg ty. map_of (ls_loggers S) ident = Some lg \<and> lg_typed lg = Some ty
        \<and> (\<forall>l \<in> set each_level.
             config_by_ref l (ty_stream ty) = Inr (stream_of ok (log_file src path l))
           \<and> config_by_val False l (ty_to_stdout ty) = log_terminal src foreground l))
    \<and> (\<forall>ident m wr out w2. lm_level m \<in> set each_level
        \<and> (\<forall>l \<in> levels_of_line m. wr (log_file src path l) = lh_write H (log_file src path l))
        \<and> ((\<exists>l \<in> levels_of_line m. log_terminal src foreground l) \<longrightarrow> out = lh_cout H) \<longrightarrow>
          log_write (H\<lparr>lh_write := wr, lh_cout := out\<rparr>) ident m (S, w2) = log_write H ident m (S, w2))"
proof -
  obtain S w' where s: "program_logging H unset src foreground path (S0, w) = (Inr (), S, w')" "ls_flags S = 2"
    "keys (ls_loggers S) = [''default'', ''performance'']"
    "\<forall>ident lg. map_of (ls_loggers S) ident = Some lg \<longrightarrow>
       (\<exists>ty cs. lg_typed lg = Some ty \<and> counted (lg_unflushed lg)
          \<and> typed_spec ok H ident (set_from_base (program_log_conf src foreground path) cs) ty)"
    using logging_ok [OF assms, of unset foreground S0 w] by (elim exE conjE) (rule that)
  note registered = keys_registered [OF s(3)]
  let ?Q = "\<lambda>ty. \<forall>l \<in> set each_level. config_by_ref l (ty_stream ty) = Inr (stream_of ok (log_file src path l))
           \<and> config_by_val False l (ty_to_stdout ty) = log_terminal src foreground l"
  have Q: "?Q ty" if "map_of (ls_loggers S) i = Some lg" "lg_typed lg = Some ty" for i lg ty
    using s(4) that left_typed(2,4) unfolding log_file_def log_terminal_def by fastforce
  then have all: "all_typed ?Q S" by (auto simp: all_typed_def)
  show ?thesis
  proof (intro exI [of _ S] exI [of _ w'] conjI ballI allI impI)
    fix ident
    assume "ident \<in> {''default'', ''performance''}"
    with registered obtain lg where lg: "map_of (ls_loggers S) ident = Some lg" by blast
    with s(4) obtain ty where "lg_typed lg = Some ty" by blast
    with lg Q show "\<exists>lg ty. map_of (ls_loggers S) ident = Some lg \<and> lg_typed lg = Some ty \<and> ?Q ty" by blast
  next
    fix ident m wr out w2
    assume m: "lm_level m \<in> set each_level
        \<and> (\<forall>l \<in> levels_of_line m. wr (log_file src path l) = lh_write H (log_file src path l))
        \<and> ((\<exists>l \<in> levels_of_line m. log_terminal src foreground l) \<longrightarrow> out = lh_cout H)"
    then have ls: "levels_of_line m \<subseteq> set each_level" by (simp add: levels_of_line_def each_level_def)
    show "log_write (H\<lparr>lh_write := wr, lh_cout := out\<rparr>) ident m (S, w2) = log_write H ident m (S, w2)"
    proof (rule log_write_cong [where Q = ?Q and Ls = "levels_of_line m", OF _ all])
      show "dispatch_line (H\<lparr>lh_write := wr, lh_cout := out\<rparr>) S' ty k lg w = dispatch_line H S' ty k lg w"
        if "ls_flags S' = ls_flags S" "?Q ty" "lm_level k \<in> levels_of_line m" for S' ty k lg w
        by (rule destined_dispatch [where st = "stream_of ok (log_file src path (lm_level k))"])
          (use that ls m s(2) in \<open>auto simp: has_log_flag_def lf_strict_size_def stream_of_def split: if_splits\<close>)
      show "map_of (ls_loggers S) ''default'' \<noteq> None" using registered by auto
      show "\<not> has_log_flag lf_create S" using s(2) by (simp add: has_log_flag_def lf_create_def)
    qed simp
  qed (rule s(1))
qed

text \<open>Evaluating what a file sets, and what is left to the defaults.\<close>

lemma file_value_parsed:
  assumes "t \<noteq> T_flush" "t \<noteq> T_unknown" "l \<noteq> L_unknown"
  shows "val l t (configurations_of_file src)
    = (if conf_value L_global t (parsed_part src) = None then the (map_of remaining_defaults t) else val l t (parsed_part src))"
  using remaining_value [OF parsed_part_inv(2), of l t src] assms
  by (cases t) (auto simp: of_file_parsed val_def each_level_iff remaining_defaults_def)

definition debug_file :: string where
  "debug_file = ''* DEBUG:'' @ [CHR 0x0A] @ ''FILENAME = d.log'' @ [CHR 0x0A]"

lemma debug_parsed: "parsed_part (Some debug_file) = [\<lparr>cf_level = L_debug, cf_type = T_filename, cf_value = ''d.log''\<rparr>]"
  by code_simp

text \<open>The lines of the level DEBUG go to the default file, which does not open here: neither to the one of etc/log.conf nor
  to error.log. Those of INFO go to error.log, and a write to d.log, or to the terminal, is none of theirs.\<close>

theorem log_destination_witness:
  "\<exists>S w'. program_logging toy_log_host L_info (Some debug_file) False ''/log/error.log'' (no_storage, []) = (Inr (), S, w')
    \<and> (\<exists>lg ty. map_of (ls_loggers S) ''default'' = Some lg \<and> lg_typed lg = Some ty
         \<and> config_by_ref L_debug (ty_stream ty) = Inr None
         \<and> config_by_ref L_info (ty_stream ty) = Inr (Some ''/log/error.log'') \<and> \<not> config_by_val False L_info (ty_to_stdout ty))
    \<and> log_write (toy_log_host\<lparr>lh_write := \<lambda>f s w. if f = ''d.log'' then (True, [''lost'']) else lh_write toy_log_host f s w,
          lh_cout := \<lambda>_ _. [''lost'']\<rparr>) ''default''
        \<lparr>lm_level = L_info, lm_file = ''x.cxx'', lm_line = 1, lm_func = ''f'', lm_vlevel = 0, lm_text = ''hello''\<rparr> (S, [])
      = log_write toy_log_host ''default''
        \<lparr>lm_level = L_info, lm_file = ''x.cxx'', lm_line = 1, lm_func = ''f'', lm_vlevel = 0, lm_text = ''hello''\<rparr> (S, [])"
proof -
  have u: "usable (parsed_part (Some debug_file))" "plain_name ''/log/error.log''"
    unfolding debug_parsed by code_simp+
  have b: "before_global T_filename (parsed_part (Some debug_file)) = [L_debug]"
    "before_global T_to_stdout (parsed_part (Some debug_file)) = []"
    unfolding debug_parsed by code_simp+
  have g: "val L_global T_filename (configurations_of_file (Some debug_file)) = ''logs/myeasylog.log''"
    by (simp add: file_value_parsed debug_parsed)
      (simp add: remaining_defaults_def default_log_file_def conf_value_def conf_get_def cf_matches_def)
  have f: "log_file (Some debug_file) ''/log/error.log'' l = (if l = L_debug then ''logs/myeasylog.log'' else ''/log/error.log'')"
    and t: "\<not> log_terminal (Some debug_file) False l" for l
    by (simp_all add: log_file_def log_terminal_def b g)
  obtain S w' where s: "program_logging toy_log_host L_info (Some debug_file) False ''/log/error.log'' (no_storage, []) = (Inr (), S, w')"
    and d: "\<forall>ident \<in> {''default'', ''performance''}. \<exists>lg ty. map_of (ls_loggers S) ident = Some lg \<and> lg_typed lg = Some ty
        \<and> (\<forall>l \<in> set each_level. config_by_ref l (ty_stream ty)
              = Inr (stream_of (\<lambda>f. f = ''/log/error.log'') (log_file (Some debug_file) ''/log/error.log'' l))
           \<and> config_by_val False l (ty_to_stdout ty) = log_terminal (Some debug_file) False l)"
    and n: "\<forall>ident m wr out w2. lm_level m \<in> set each_level
        \<and> (\<forall>l \<in> levels_of_line m. wr (log_file (Some debug_file) ''/log/error.log'' l)
              = lh_write toy_log_host (log_file (Some debug_file) ''/log/error.log'' l))
        \<and> ((\<exists>l \<in> levels_of_line m. log_terminal (Some debug_file) False l) \<longrightarrow> out = lh_cout toy_log_host) \<longrightarrow>
          log_write (toy_log_host\<lparr>lh_write := wr, lh_cout := out\<rparr>) ident m (S, w2) = log_write toy_log_host ident m (S, w2)"
    using log_destination [OF toy_opens u, of L_info False no_storage "[]"] by (elim exE conjE) (rule that)
  show ?thesis
  proof (intro exI [of _ S] exI [of _ w'] conjI s)
    show "\<exists>lg ty. map_of (ls_loggers S) ''default'' = Some lg \<and> lg_typed lg = Some ty
         \<and> config_by_ref L_debug (ty_stream ty) = Inr None
         \<and> config_by_ref L_info (ty_stream ty) = Inr (Some ''/log/error.log'') \<and> \<not> config_by_val False L_info (ty_to_stdout ty)"
      using d by (force simp: f t stream_of_def each_level_iff)
  qed (rule n [rule_format], simp add: f t each_level_iff fun_eq_iff)
qed

text \<open>After the start, with what the typed configurations of both loggers are.\<close>

lemma started:
  assumes "opens ok H" "usable (parsed_part src)" "plain_name path"
    and "program_logging H unset src foreground path (S0, w) = (Inr (), S, w1)"
  shows "ls_flags S = 2" "\<exists>lg. map_of (ls_loggers S) ''default'' = Some lg"
    and "map_of (ls_loggers S) ident = Some lg \<Longrightarrow>
      \<exists>ty cs. lg_typed lg = Some ty \<and> counted (lg_unflushed lg)
          \<and> typed_spec ok H ident (set_from_base (program_log_conf src foreground path) cs) ty"
proof -
  obtain S' w' where s: "program_logging H unset src foreground path (S0, w) = (Inr (), S', w')" "ls_flags S' = 2"
    "keys (ls_loggers S') = [''default'', ''performance'']"
    "\<forall>ident lg. map_of (ls_loggers S') ident = Some lg \<longrightarrow>
       (\<exists>ty cs. lg_typed lg = Some ty \<and> counted (lg_unflushed lg)
          \<and> typed_spec ok H ident (set_from_base (program_log_conf src foreground path) cs) ty)"
    using logging_ok [OF assms(1-3), of unset foreground S0 w] by (elim exE conjE) (rule that)
  with assms(4) have S: "S' = S" by simp
  show "ls_flags S = 2" using s(2) S by simp
  show "\<exists>lg. map_of (ls_loggers S) ''default'' = Some lg" using keys_registered [OF s(3)] S by simp
  show "map_of (ls_loggers S) ident = Some lg \<Longrightarrow>
      \<exists>ty cs. lg_typed lg = Some ty \<and> counted (lg_unflushed lg)
          \<and> typed_spec ok H ident (set_from_base (program_log_conf src foreground path) cs) ty"
    using s(4) S by blast
qed

lemma toy_started:
  assumes "usable (parsed_part src)"
  shows "\<exists>S w1. program_logging toy_log_host L_info src foreground ''/log/error.log'' (no_storage, []) = (Inr (), S, w1)"
proof -
  have "plain_name ''/log/error.log''" by code_simp
  from logging_ok [OF toy_opens assms this, of L_info foreground no_storage "[]"] show ?thesis by blast
qed

text \<open>In the background a line never reaches the terminal, whatever logger it is for and whatever becomes of it,
  as long as etc/log.conf sets the switch for the terminal, if at all, for all levels first.\<close>

theorem background_log_is_silent:
  assumes "opens ok H" "usable (parsed_part src)" "plain_name path"
    and "before_global T_to_stdout (parsed_part src) = []"
    and "program_logging H unset src False path (S0, w) = (Inr (), S, w1)"
    and "lm_level m \<in> set each_level"
  shows "log_write (H\<lparr>lh_cout := out\<rparr>) ident m (S, w2) = log_write H ident m (S, w2)"
proof (rule log_write_cong [where Q = "\<lambda>ty. \<forall>l \<in> set each_level. \<not> config_by_val False l (ty_to_stdout ty)"])
  note st = started [OF assms(1-3,5)]
  show "dispatch_line (H\<lparr>lh_cout := out\<rparr>) S' ty m lg w = dispatch_line H S' ty m lg w"
    if "\<forall>l \<in> set each_level. \<not> config_by_val False l (ty_to_stdout ty)" "lm_level m \<in> set each_level" for S' ty m lg w
    using that by (intro silent_dispatch) blast
  show "all_typed (\<lambda>ty. \<forall>l \<in> set each_level. \<not> config_by_val False l (ty_to_stdout ty)) S"
    using st(3) left_typed(2) assms(4) by (fastforce simp: all_typed_def)
  show "map_of (ls_loggers S) ''default'' \<noteq> None" using st(2) by simp
  show "\<not> has_log_flag lf_create S" using st(1) by (simp add: has_log_flag_def lf_create_def)
  show "levels_of_line m \<subseteq> set each_level" using assms(6) by (simp add: levels_of_line_def each_level_def)
qed

theorem background_log_is_silent_witness:
  "\<exists>S w1. program_logging toy_log_host L_info (Some debug_file) False ''/log/error.log'' (no_storage, []) = (Inr (), S, w1)
    \<and> log_write (toy_log_host\<lparr>lh_cout := \<lambda>_ _. [''lost'']\<rparr>) ''default''
        \<lparr>lm_level = L_info, lm_file = ''x.cxx'', lm_line = 1, lm_func = ''f'', lm_vlevel = 0, lm_text = ''hello''\<rparr> (S, [])
      = log_write toy_log_host ''default''
        \<lparr>lm_level = L_info, lm_file = ''x.cxx'', lm_line = 1, lm_func = ''f'', lm_vlevel = 0, lm_text = ''hello''\<rparr> (S, [])"
proof -
  have u: "usable (parsed_part (Some debug_file))" "plain_name ''/log/error.log''"
    "before_global T_to_stdout (parsed_part (Some debug_file)) = []"
    unfolding debug_parsed by code_simp+
  obtain S w1 where s: "program_logging toy_log_host L_info (Some debug_file) False ''/log/error.log'' (no_storage, []) = (Inr (), S, w1)"
    using toy_started [OF u(1)] by blast
  with background_log_is_silent [OF toy_opens u s] show ?thesis by (auto simp: each_level_def)
qed

text \<open>C24. When the file that etc/log.conf names for all levels, or the default logs/myeasylog.log below the working
  directory, cannot be opened, and no level has a switch for the file of its own, no line of any logger
  is written to a file: error.log stays empty although it can be opened.\<close>

theorem default_file_switches_logging_off:
  assumes "opens ok H" "usable (parsed_part src)" "plain_name path"
    and "\<not> ok (val L_global T_filename (configurations_of_file src))"
    and "\<forall>l. l \<noteq> L_unknown \<longrightarrow> val l T_to_file (configurations_of_file src) = v"
    and "program_logging H unset src foreground path (S0, w) = (Inr (), S, w1)"
    and "lm_level m \<in> set each_level"
  shows "log_write (H\<lparr>lh_write := wr, lh_flush := fl\<rparr>) ident m (S, w2) = log_write H ident m (S, w2)"
proof -
  note st = started [OF assms(1-3,6)]
  let ?Q = "\<lambda>ty. \<forall>l \<in> set each_level. \<not> config_by_val False l (ty_to_file ty)"
  have "?Q ty" if t: "typed_spec ok H i (set_from_base (program_log_conf src foreground path) cs) ty" for i ty cs
  proof -
    let ?cs = "set_from_base (program_log_conf src foreground path) cs"
    have "\<not> ok (val L_global T_filename ?cs)" using assms(4) by (simp add: left_global)
    moreover have "val k T_to_file ?cs = v" if "k \<noteq> L_unknown" for k
      using that assms(5) left_value [of k T_to_file src foreground path cs] left_global [of T_to_file src foreground path cs]
      by (cases "k = L_global") (auto simp: each_level_iff)
    ultimately show ?thesis using t by (simp add: typed_spec_def)
  qed
  with st(3) have Q: "all_typed ?Q S" by (fastforce simp: all_typed_def)
  show ?thesis
  proof (rule log_write_cong [where Q = ?Q and Ls = "set each_level", OF _ Q])
    show "dispatch_line (H\<lparr>lh_write := wr, lh_flush := fl\<rparr>) S' ty m lg w = dispatch_line H S' ty m lg w"
      if "ls_flags S' = ls_flags S" "?Q ty" "lm_level m \<in> set each_level" for S' ty m lg w
      by (rule fileless_dispatch) (use that st(1) in \<open>simp_all add: has_log_flag_def lf_strict_size_def\<close>)
    show "map_of (ls_loggers S) ''default'' \<noteq> None" using st(2) by simp
    show "\<not> has_log_flag lf_create S" using st(1) by (simp add: has_log_flag_def lf_create_def)
    show "levels_of_line m \<subseteq> set each_level" using assms(7) by (simp add: levels_of_line_def each_level_def)
  qed
qed

theorem default_file_switches_logging_off_witness:
  "\<exists>S w1. program_logging toy_log_host L_info None False ''/log/error.log'' (no_storage, []) = (Inr (), S, w1)
    \<and> fst (lh_append toy_log_host ''/log/error.log'' w1)
    \<and> log_write (toy_log_host\<lparr>lh_write := \<lambda>_ _ _. (True, [''lost'']), lh_flush := \<lambda>_ w. w\<rparr>) ''default''
        \<lparr>lm_level = L_error, lm_file = ''x.cxx'', lm_line = 1, lm_func = ''f'', lm_vlevel = 0, lm_text = ''hello''\<rparr> (S, [])
      = log_write toy_log_host ''default''
        \<lparr>lm_level = L_error, lm_file = ''x.cxx'', lm_line = 1, lm_func = ''f'', lm_vlevel = 0, lm_text = ''hello''\<rparr> (S, [])"
proof -
  have n: "parsed_part None = []" by (simp add: parsed_part_def)
  have u: "usable (parsed_part None)" "plain_name ''/log/error.log''"
    unfolding n by code_simp+
  have v: "val l t (configurations_of_file None) = the (map_of remaining_defaults t)"
    if "t \<noteq> T_flush" "t \<noteq> T_unknown" "l \<noteq> L_unknown" for l t
    by (simp add: file_value_parsed that n conf_value_def conf_get_def)
  have g: "\<not> val L_global T_filename (configurations_of_file None) = ''/log/error.log''"
    "\<forall>l. l \<noteq> L_unknown \<longrightarrow> val l T_to_file (configurations_of_file None) = ''true''"
    by (simp_all add: v) (simp_all add: remaining_defaults_def default_log_file_def)
  obtain S w1 where s: "program_logging toy_log_host L_info None False ''/log/error.log'' (no_storage, []) = (Inr (), S, w1)"
    using toy_started [OF u(1)] by blast
  with default_file_switches_logging_off [OF toy_opens u g s] show ?thesis
    by (auto simp: each_level_def) (simp add: toy_log_host_def)
qed

lemma written_once:
  assumes "lm_level m = l" "l \<in> set each_level" "config_by_val False l (ty_to_file ty)" "\<not> config_by_val False l (ty_to_stdout ty)"
    and "config_by_ref l (ty_stream ty) = Inr (Some path)" "counted (lg_unflushed lg)" "ls_flags S = 2"
    and "config_by_ref l (ty_format ty) = Inr f" "config_by_ref l (ty_ms_width ty) = Inr mw"
    and "build_line (lh_clock H w) (lh_thread H) [] f mw m = Inr line"
  shows "\<exists>lg' w'. dispatch_line H S ty m lg w = (Inr lg', w')
    \<and> w' \<in> {snd (lh_write H path line w), lh_flush H path (snd (lh_write H path line w))}"
proof -
  have flags: "\<not> has_log_flag lf_strict_size S" "\<not> has_log_flag lf_immediate_flush S"
    using assms(7) by (simp_all add: has_log_flag_def lf_strict_size_def lf_immediate_flush_def)
  obtain n where n: "map_of (lg_unflushed lg) l = Some n" using assms(2,6) by (auto simp: counted_def)
  obtain good w1 where w: "lh_write H path line w = (good, w1)" by (cases "lh_write H path line w")
  have "\<exists>lg' w'. write_to_file H False l ty line lg w = (Inr lg', w') \<and> w' \<in> {w1, lh_flush H path w1}"
    using assms(3,5) n w by (cases good) (auto simp: write_to_file_def is_flush_needed_def flush_level_def Let_def update_conv')
  then show ?thesis using assms(1,4,8-10) flags w by (auto simp: dispatch_line_def Let_def)
qed

text \<open>C22. With its files in order and etc/log.conf setting all levels first, a line of an enabled level that is not
  fatal is written in the background exactly once, to error.log, in the format of its level with the name of
  the logger put in, and then flushed or not; the program goes on.\<close>

theorem log_line_to_file:
  assumes "opens ok H" "usable (parsed_part src)" "plain_name path"
    and "\<forall>t. before_global t (parsed_part src) = []"
    and "ok path" "ok (val L_global T_filename (configurations_of_file src))"
    and "program_logging H unset src False path (S0, w) = (Inr (), S, w1)"
    and "map_of (ls_loggers S) ident \<noteq> None" "lm_level m = l" "l \<in> set each_level" "l \<noteq> L_fatal"
    and "get_bool_text (val l T_enabled (configurations_of_file src))"
    and "get_bool_text (val l T_to_file (configurations_of_file src))"
    and "f = format_of H l (val l T_format (configurations_of_file src))"
    and "build_line (lh_clock H wl) (lh_thread H) [] (f\<lparr>lf_format := replace_first ''%logger'' ident (lf_format f)\<rparr>)
           (width_of (val L_info T_ms_width (configurations_of_file src))) m = Inr line"
  shows "\<exists>S' w3. log_write H ident m (S, wl) = (Inr True, S', w3)
    \<and> w3 \<in> {snd (lh_write H path line wl), lh_flush H path (snd (lh_write H path line wl))}"
proof -
  note st = started [OF assms(1-3,7)]
  obtain lg where lg: "map_of (ls_loggers S) ident = Some lg" using assms(8) by blast
  from st(3) [OF lg] obtain ty cs where ty: "lg_typed lg = Some ty" "counted (lg_unflushed lg)"
    "typed_spec ok H ident (set_from_base (program_log_conf src False path) cs) ty" by blast
  let ?cs = "set_from_base (program_log_conf src False path) cs"
  have v: "val k t ?cs = (if t = T_filename then path else if t = T_to_stdout then ''false'' else val k t (configurations_of_file src))"
    if "k \<in> set each_level" "t \<noteq> T_flush" "t \<noteq> T_unknown" for k t
    using left_value [OF that, of src False path cs] assms(4) by simp
  have "ok (val k T_filename ?cs)" if "k \<noteq> L_unknown" for k
    using that assms(5,6) v [of k T_filename] left_global [of T_filename src False path cs]
    by (cases "k = L_global") (auto simp: each_level_iff)
  then have to_file: "config_by_val False l (ty_to_file ty)"
    using ty(3) assms(10,13) v [of l T_to_file] by (simp add: typed_spec_def)
  have fields: "config_by_ref l (ty_stream ty) = Inr (Some path)" "logger_enabled l ty" "\<not> config_by_val False l (ty_to_stdout ty)"
    using left_typed(2-4) [OF ty(3) assms(10)] assms(4,5,12) by (simp_all add: stream_of_def)
  have fmt: "config_by_ref l (ty_format ty) = Inr (f\<lparr>lf_format := replace_first ''%logger'' ident (lf_format f)\<rparr>)"
    "config_by_ref l (ty_ms_width ty) = Inr (width_of (val L_info T_ms_width (configurations_of_file src)))"
    using ty(3) assms(10,14) v [of l T_format] v [of L_info T_ms_width] by (simp_all add: typed_spec_def each_level_iff Let_def)
  obtain lg' w3 where d: "dispatch_line H S ty m lg wl = (Inr lg', w3)"
    "w3 \<in> {snd (lh_write H path line wl), lh_flush H path (snd (lh_write H path line wl))}"
    using written_once [OF assms(9,10) to_file fields(3,1) ty(2) st(1) fmt assms(15)] by blast
  have "proceeds S l ty"
    using st(1) fields(2) by (simp add: proceeds_def has_log_flag_def lf_hierarchical_def)
  then have "write_with H ident lg m (S, wl) = (Inr True, S\<lparr>ls_loggers := AList.update ident lg' (ls_loggers S)\<rparr>, w3)"
    using d(1) ty(1) assms(9,11) by (simp add: write_with_def)
  with lg d(2) show ?thesis by (simp add: log_write_def get_logger_def)
qed

definition global_file :: string where
  "global_file = ''* GLOBAL:'' @ [CHR 0x0A] @ ''FILENAME = /log/error.log'' @ [CHR 0x0A]"

lemma global_parsed:
  "parsed_part (Some global_file) = map (\<lambda>l. \<lparr>cf_level = l, cf_type = T_filename, cf_value = ''/log/error.log''\<rparr>) (L_global # each_level)"
  by code_simp

definition hello :: log_message where
  "hello = \<lparr>lm_level = L_info, lm_file = ''x.cxx'', lm_line = 1, lm_func = ''f'', lm_vlevel = 0, lm_text = ''hello''\<rparr>"

lemma digit_eval:
  "digit 0 = CHR ''0''" "digit (Suc 0) = CHR ''1''" "digit 1 = CHR ''1''" "digit 2 = CHR ''2''" "digit 3 = CHR ''3''"
  "digit 4 = CHR ''4''" "digit 5 = CHR ''5''" "digit 6 = CHR ''6''" "digit 7 = CHR ''7''" "digit 8 = CHR ''8''" "digit 9 = CHR ''9''"
  by code_simp+

lemma conv_digits_numeral:
  "conv_digits n (numeral p) len acc = (if 0 < n \<and> 0 < len
     then conv_digits (n div 10) (pred_numeral p) (len - 1) (digit (n mod 10) # acc) else (acc, numeral p, len))"
  by (metis conv_digits.simps(2) numeral_eq_Suc)

lemmas date_eval = date_specifier_def convert_and_add_def conv_digits_numeral add_to_buff_def digit_eval

lemma toy_width: "width_of ''3'' = \<lparr>mw_width = 3, mw_offset = 1000\<rparr>"
proof -
  have "el_trim ''3'' = ''3''" "digits_value ''3'' = 3" "list_all is_digit ''3''" by code_simp+
  then show ?thesis by (simp add: width_of_def get_ulong_def narrow32_def ms_width_new_def)
qed

lemma toy_parsed:
  "parse_format 30 (lh_clock toy_log_host w) \<lparr>mw_width = 3, mw_offset = 1000\<rparr> ''%Y-%M-%d %H:%m:%s,%g'' [] = ''2014-09-17 12:34:56,789''"
  by (simp add: toy_log_host_def date_eval)

lemma toy_date: "get_date_time (lh_clock toy_log_host w) ''%Y-%M-%d %H:%m:%s,%g'' (width_of ''3'') = Inr ''2014-09-17 12:34:56,789''"
  by (simp add: get_date_time_def toy_width toy_parsed del: parse_format.simps)

lemma toy_format:
  "log_format_new u h L_info ''%datetime %level [%logger] %msg'' = Inr \<lparr>lf_level = L_info,
     lf_user = ''%datetime %level [%logger] %msg'', lf_format = ''%datetime INFO  [%logger] %msg'', lf_date = default_date_format,
     lf_flags = add_flag F_date (add_flag F_msg (add_flag F_logger (add_flag F_level 0)))\<rparr>"
  by (simp add: line_eval)

lemma hello_line:
  "build_line (lh_clock toy_log_host []) (lh_thread toy_log_host) []
     ((format_of toy_log_host L_info ''%datetime %level [%logger] %msg'')\<lparr>lf_format := replace_first ''%logger'' ''default''
        (lf_format (format_of toy_log_host L_info ''%datetime %level [%logger] %msg''))\<rparr>) (width_of ''3'') hello
   = Inr (''2014-09-17 12:34:56,789 INFO  [default] hello'' @ [CHR 0x0A])"
  by (simp add: format_of_def toy_format build_line_def hello_def line_eval toy_date Let_def)

theorem log_line_to_file_witness:
  "\<exists>S w1 S' w3. program_logging toy_log_host L_info (Some global_file) False ''/log/error.log'' (no_storage, []) = (Inr (), S, w1)
    \<and> log_write toy_log_host ''default'' hello (S, []) = (Inr True, S', w3)
    \<and> w3 = [''/log/error.log: 2014-09-17 12:34:56,789 INFO  [default] hello'' @ [CHR 0x0A]]"
proof -
  have u: "usable (parsed_part (Some global_file))" "plain_name ''/log/error.log''"
    unfolding global_parsed by code_simp+
  have b: "\<forall>t. before_global t (parsed_part (Some global_file)) = []"
    unfolding global_parsed by (simp add: before_global_def type_levels_def each_level_def)
  have v: "val L_global T_filename (configurations_of_file (Some global_file)) = ''/log/error.log''"
    "val L_info T_enabled (configurations_of_file (Some global_file)) = ''true''"
    "val L_info T_to_file (configurations_of_file (Some global_file)) = ''true''"
    "val L_info T_format (configurations_of_file (Some global_file)) = ''%datetime %level [%logger] %msg''"
    "val L_info T_ms_width (configurations_of_file (Some global_file)) = ''3''"
    by (simp_all add: file_value_parsed global_parsed)
      (simp_all add: val_def conf_value_def conf_get_def cf_matches_def each_level_def remaining_defaults_def)
  have g: "get_bool_text ''true''" by code_simp
  obtain S w1 where s: "program_logging toy_log_host L_info (Some global_file) False ''/log/error.log'' (no_storage, []) = (Inr (), S, w1)"
    using toy_started [OF u(1)] by blast
  then have "map_of (ls_loggers S) ''default'' \<noteq> None" using started(2) [OF toy_opens u] by blast
  from log_line_to_file [where m = hello and wl = "[]" and f = "format_of toy_log_host L_info ''%datetime %level [%logger] %msg''"
      and line = "''2014-09-17 12:34:56,789 INFO  [default] hello'' @ [CHR 0x0A]", OF toy_opens u b _ _ s this refl] hello_line v g
  have "\<exists>S' w3. log_write toy_log_host ''default'' hello (S, []) = (Inr True, S', w3)
    \<and> w3 = [''/log/error.log: 2014-09-17 12:34:56,789 INFO  [default] hello'' @ [CHR 0x0A]]"
    by (simp add: hello_def each_level_def) (simp add: toy_log_host_def)
  with s show ?thesis by blast
qed

section \<open>The date\<close>

text \<open>Nothing is written behind the end of a buffer, and a specifier of a number writes no more digits than it may.\<close>

lemma add_to_buff_bound: "length buf \<le> limit \<Longrightarrow> length (add_to_buff limit s buf) \<le> limit"
  by (simp add: add_to_buff_def)

lemma convert_bound: "length buf \<le> limit \<Longrightarrow> length (convert_and_add limit n len z buf) \<le> limit"
  by (simp add: convert_and_add_def add_to_buff_bound case_prod_unfold Let_def)

lemma date_specifier_bound: "length buf \<le> limit \<Longrightarrow> length (date_specifier limit now w c buf) \<le> limit"
  by (simp add: date_specifier_def convert_bound add_to_buff_bound Let_def)

lemma parse_format_bound: "length buf \<le> limit \<Longrightarrow> length (parse_format limit now w f buf) \<le> limit"
  by (induction limit now w f buf rule: parse_format.induct) (simp_all add: date_specifier_bound)

lemma conv_digits_length: "conv_digits n p len acc = (s, p', len') \<Longrightarrow> length s + len' = length acc + len"
  by (induction n p len acc rule: conv_digits.induct) (auto split: if_splits)

lemma convert_length: "0 < len \<Longrightarrow> length (convert_and_add limit n len z buf) \<le> length buf + len"
  by (auto simp: convert_and_add_def add_to_buff_def Let_def split: prod.split dest!: conv_digits_length)

text \<open>What a format adds to a date at most.\<close>

fun specifier_weight :: "char \<Rightarrow> nat" where
  "specifier_weight c =
     (if c \<in> set ''dMyhHmsF'' then 2 else if c \<in> set ''ab'' then 3 else if c = CHR ''Y'' then 4
      else if c \<in> set ''zg'' then 6 else if c \<in> set ''AB'' then 9 else 0)"

fun format_weight :: "string \<Rightarrow> nat" where
  "format_weight [] = 0"
| "format_weight [c] = 1"
| "format_weight (c # d # f) =
     (if c = CHR 0x25 \<and> d \<noteq> CHR 0x25 then specifier_weight d + format_weight f
      else 1 + format_weight (if c = CHR 0x25 then f else d # f))"

definition clock_ok :: "clock \<Rightarrow> bool" where
  "clock_ok now \<longleftrightarrow> tm_mon now < 12 \<and> tm_wday now < 7"

lemma name_lengths:
  "i < 7 \<Longrightarrow> length (k_days ! i) \<le> 9 \<and> length (k_days_abbrev ! i) \<le> 3"
  "i < 12 \<Longrightarrow> length (k_months ! i) \<le> 9 \<and> length (k_months_abbrev ! i) \<le> 3"
proof -
  have "list_all (\<lambda>i. length (k_days ! i) \<le> 9 \<and> length (k_days_abbrev ! i) \<le> 3) [0..<7]"
    "list_all (\<lambda>i. length (k_months ! i) \<le> 9 \<and> length (k_months_abbrev ! i) \<le> 3) [0..<12]" by code_simp+
  then show "i < 7 \<Longrightarrow> length (k_days ! i) \<le> 9 \<and> length (k_days_abbrev ! i) \<le> 3"
    "i < 12 \<Longrightarrow> length (k_months ! i) \<le> 9 \<and> length (k_months_abbrev ! i) \<le> 3"
    by (simp_all add: list_all_iff)
qed

lemma text_length: "length s \<le> n \<Longrightarrow> length (add_to_buff limit s buf) \<le> length buf + n"
  by (simp add: add_to_buff_def)

lemma number_length: "0 < len \<Longrightarrow> len \<le> n \<Longrightarrow> length (convert_and_add limit k len z buf) \<le> length buf + n"
  using convert_length [of len limit k z buf] by simp

lemma specifier_length:
  assumes "clock_ok now" "0 < mw_width w" "mw_width w \<le> 6"
  shows "length (date_specifier limit now w c buf) \<le> length buf + specifier_weight c"
  using assms name_lengths(1) [of "tm_wday now"] name_lengths(2) [of "tm_mon now"]
  by (simp add: date_specifier_def clock_ok_def Let_def number_length text_length number_length [of _ 2, simplified]
      text_length [of _ 2, simplified])

lemma format_length:
  assumes "clock_ok now" "0 < mw_width w" "mw_width w \<le> 6"
  shows "length (parse_format limit now w f buf) \<le> length buf + format_weight f"
  using assms
proof (induction limit now w f buf rule: parse_format.induct)
  case (3 limit now w c d f buf)
  show ?case
  proof (cases "c = CHR 0x25 \<and> d \<noteq> CHR 0x25")
    case True
    with "3.IH"(1) [OF True] "3.prems" specifier_length [OF "3.prems", of limit d buf] show ?thesis
      by (simp del: specifier_weight.simps)
  next
    case False
    with "3.IH"(2) "3.prems" show ?thesis by (cases "c = CHR 0x25"; cases "length buf = limit") auto
  qed
qed simp_all

text \<open>C26. Whatever its format, a date never runs over its buffer of 30 characters; and when the specifiers and the other
  characters of the format cannot give more than 29 characters, the buffer ends with a zero and the date is what
  has been put in, for every time and every width of the fraction of a second.\<close>

theorem date_within_buffer:
  assumes "clock_ok now" "format_weight f < 30"
  shows "(\<exists>d. get_date_time now f (ms_width_new k) = Inr d \<and> length d \<le> format_weight f)
    \<and> length (parse_format 30 now w g []) \<le> 30"
proof
  have w: "0 < mw_width (ms_width_new k)" "mw_width (ms_width_new k) \<le> 6" by (auto simp: ms_width_new_def Let_def)
  with format_length [OF assms(1) w, of 30 f "[]"] assms(2)
  show "\<exists>d. get_date_time now f (ms_width_new k) = Inr d \<and> length d \<le> format_weight f"
    by (simp add: get_date_time_def Let_def)
  show "length (parse_format 30 now w g []) \<le> 30" by (rule parse_format_bound) simp
qed

theorem date_within_buffer_witness:
  "\<exists>d. get_date_time (lh_clock toy_log_host []) default_date_format (ms_width_new 3) = Inr d \<and> length d \<le> 26"
proof -
  have "format_weight default_date_format = 26" by code_simp
  with date_within_buffer [of "lh_clock toy_log_host []" default_date_format 3] show ?thesis
    by (simp add: toy_log_host_def clock_ok_def)
qed

text \<open>A longer date fills the buffer, and the string made of it reads on behind its end.\<close>

lemma long_date_unterminated:
  "get_date_time (lh_clock toy_log_host w) ''%A, %d %B %Y %H:%m:%s'' (width_of ''3'') = Inl UndefinedBehaviour"
  by (simp add: get_date_time_def toy_width toy_log_host_def date_eval k_days_def k_months_def)

section \<open>The defaults\<close>

text \<open>C25. What \<open>Configurations(file)\<close> holds for a level and a type: the value that the lines of the file set, if they set one for
  all levels; otherwise, where there is a default, the default, even over a value that the file sets for this level alone.\<close>

theorem defaults_override:
  "conf_value l t (configurations_of_file (Some s))
     = (case map_of remaining_defaults t of
          Some v \<Rightarrow> if conf_value L_global t (snd (parse_log_file s [])) = None \<and> l \<noteq> L_unknown then Some v
                    else conf_value l t (snd (parse_log_file s []))
        | None \<Rightarrow> conf_value l t (snd (parse_log_file s [])))"
proof -
  have "snd (parse_log_file s []) = parsed_part (Some s)" by (simp add: parsed_part_def)
  then show ?thesis
    using remaining_value [OF parsed_part_inv(2), of l t "Some s"]
    by (auto simp: of_file_parsed each_level_iff split: option.split)
qed

text \<open>A file that disables DEBUG alone does not disable it.\<close>

lemma debug_not_disabled:
  "conf_value L_debug T_enabled (configurations_of_file (Some (''* DEBUG:'' @ [CHR 0x0A] @ ''ENABLED = false''))) = Some ''true''"
proof -
  have p: "parsed_part (Some (''* DEBUG:'' @ [CHR 0x0A] @ ''ENABLED = false''))
      = [\<lparr>cf_level = L_debug, cf_type = T_enabled, cf_value = ''false''\<rparr>]" by code_simp
  show ?thesis
    unfolding of_file_parsed remaining_value [OF parsed_part_inv(2)]
    unfolding p by (simp add: remaining_defaults_def conf_value_def conf_get_def cf_matches_def each_level_def)
qed

end
