(* ===== verification/Spec2Isabelle.thy ===== *)
theory Spec2Isabelle
  imports Nix_Workflow Nix_Sim_Status Nix_Resolver_Threads Nix_Job_Threads Nix_Log_Output
begin

text \<open>
  nixsrv: a server for small services over the transport YAMI4 (src/src/nix, src/src/main.cxx).

  \<^bold>\<open>The program.\<close> \<open>main\<close> reads its options, sets up logging, a pool of clients, the module manager and
  the server, and waits for a signal. YAMI delivers messages to the server; the dispatcher finds the
  route of a message, checks its key and runs the handler of the module behind the route. The
  modules of the program are a cache, a resolver of nodes and services, a job queue and a module
  for debugging. Clients of these services send messages and wait for their answers. All messages
  are JSON documents that are read and set along dotted paths.

  \<^bold>\<open>The theories\<close>, in the order of their imports, with the code they model:

  \<^item> Nix_Prelude: exceptions, the outcome of a handler (\<open>Done\<close>, \<open>Raised\<close>, \<open>Blocked\<close>, with what it sent),
    operations on the world around the program (\<open>action\<close>), 32 bit integers, unordered maps as
    association lists; the locale \<open>event_system\<close> for invariants over sequences of events. Nix_Runs: runs that
    end where the process ends (\<open>alive_run\<close>), with the locale \<open>mortal_system\<close> for their invariants.
  \<^item> Nix_Strings: \<open>split\<close> of util/string.cxx against a reference tokeniser; decimal numbers.
  \<^item> Nix_Json, Nix_Message: the values of jsoncpp and class \<open>Message\<close> (message.cxx) on them. Reading and
    writing text, and the conversions of values, are the parameter \<open>jlib\<close>; \<open>jlib_ok\<close> states the laws of
    the library that are used, \<open>reads_back\<close> that the text of a document reads as the document, and \<open>reads_as\<close> of
    Nix_Job that the text of a job reads as the job, with its progress in whatever form the library reads it (the
    bundled jsoncpp writes 100.0 as 100, which reads as an integer).
  \<^item> Nix_Reference: an instance of \<open>jlib\<close> with a reader and a writer, on which all hypotheses about the
    library hold; the witnesses compute with it.
  \<^item> Nix_Job (job.cxx), Nix_Incoming (message/incoming.cxx, response.cxx), Nix_Documents: jobs, the answers
    of the server and what clients read of them; documents with many entries.
  \<^item> Nix_Queue (queue.hxx): the bounded queue, and the locale its users rest on.
  \<^item> Nix_Route (route.cxx, module.cxx), Nix_Auth (core/auth.cxx), Nix_Options (server/options.hxx,
    core/client_config.hxx), Nix_Dispatcher (server/dispatcher.cxx), Nix_Server (server.cxx): from a message
    to a handler.
  \<^item> Nix_Cache, Nix_Resolver, Nix_Job_Queue, Nix_Debug (module/builtin): the state of each service as a
    record, one definition per handler, \<open>*_run\<close> for the dispatch to them, and what the threads of the
    service do. A \<open>get_work\<close> that waits in \<open>pop\<close> is kept with the job queue (\<open>jq_waiting\<close>) and goes on when it
    wakes up (\<open>job_wake_worker\<close>). The cache and the resolver are refined from a map whose entries expire and from a
    directory of nodes and services.
  \<^item> Nix_Background, Nix_Signals: the protocols of the background threads and of the wait for a signal, as step
    relations with their invariants.
  \<^item> Nix_Client (core/*client.cxx), Nix_Pool (object_pool.hxx, core/client_pool.cxx, queue/worker.cxx): the
    clients over an agent that is a parameter, the pools, the loop of a worker.
  \<^item> Nix_Host (util/fs.cxx, util/pid.cxx, init/daemon.cxx), Nix_Program_Options (program_options.cxx),
    Nix_Config (queue/options.cxx, db/options.cxx), Nix_Modules (module/instance.cxx, manager.cxx): the
    parts of the start-up, over calls of the operating system and of boost that are parameters.
  \<^item> Nix_System (init/common.cxx, main.cxx): the four services behind one server with their threads, the set-up and
    \<open>main\<close>.
  \<^item> Nix_Program: what holds of the whole: the routes of a started program, what happens in it (messages, handlers
    that wake up, turns of the threads, up to where the process ends), its end.
  \<^item> Nix_Network: an instance of the agent of the clients that delivers each message to the server at its
    address, and the clients of the cache and of the resolver over it.
  \<^item> Nix_Workflow: jobs on their way between the clients of the job queue, refined from boards of jobs, one for
    each node.
  \<^item> Nix_Sections, Nix_Resolver_Threads, Nix_Job_Threads: handlers that look something up without the mutex, or go on
    after their answer, in several threads of the server. A turn is a section of a handler.
  \<^item> Nix_Simulator (simulator/src), Nix_Sim_Status: the second program of the repository, which puts load on a
    server, and what it does against the first.
  \<^item> Nix_Log_Config, Nix_Log_Format, Nix_Logger (easylogging++.h): the log. A repository of configurations by level
    and type with the parser of etc/log.conf; formats, dates and the text of a line; typed configurations
    with their files and streams, the loggers and the way of a line to a file and the terminal. Nix_Log_Laws shows
    that a configured logger holds what its repository says; Nix_Log_Start makes the storage and runs the end of
    \<open>setup_logging\<close> on it; Nix_Log_Output has the properties.

  \<^bold>\<open>What is shown.\<close> The clients and the server fit together: a message stored through the client of the
  cache comes back through it; a sequence of calls of resolver clients does to a directory, and of job queue
  clients to boards of jobs, what the specification says; a job that is submitted comes back done. Without
  development mode nothing reaches a service, and with it
  exactly the keys of the table do. The contents of the cache and of the resolver follow their
  specifications in every step; the queue is bounded and first in first out; jobs are handed out
  in order and results delivered once, and a worker that waits gets the next job. Messages that are handled one after
  the other do not make the dispatcher run into undefined behaviour, nor the job queue as long as no queue is
  removed under a worker that waits there. The options have the types they are read at. Background threads end when
  they are told to. The simulator shows the counters of the server. Lines go to error.log, once, when etc/log.conf sets
  all levels before single ones, and to no other file whatever it sets; a date stays within its buffer. The properties also pin down where
  the code falls short: each such theorem says exactly when.

  \<^bold>\<open>Concurrency.\<close> In the theories of the services, and in those that follow messages through the server, requests come
  one after the other: a handler is one step, up to its end or to the point where it waits. That is not what the
  threads of the server guarantee, and no theorem says that their runs amount to requests one after the other: status
  of the cache reads counters that store changes outside of the mutex, submit, get_work, manage and status of the
  job queue consist of several steps, and some lookups (\<open>nodes_.count\<close> in service/bind, those of \<open>job/result/get\<close> and
  \<open>job/progress/set\<close>, \<open>auth_keys_[...]\<close> of the dispatcher in development mode) race with changes of the same map,
  which is undefined. What is shown of several threads are runs that go wrong: between the sections of \<open>retrieve\<close>
  (Nix_Cache), of \<open>service/bind\<close>, \<open>job/result/get\<close>, \<open>job/progress/set\<close>, \<open>job/work/get\<close> and \<open>job/submit\<close>, in \<open>stop\<close> of
  the background threads and in the wait for a signal. Background threads are step relations in Nix_Background and
  Nix_Signals, turns in Nix_Debug and Nix_System. Undefined behaviour is the exception \<open>UndefinedBehaviour\<close>;
  runs of the cache, the job queue and the program end there.

  \<^bold>\<open>Bounds and termination.\<close> Integers have the width of the code where it matters (counters are words of 64
  bits, times are narrowed to 32). Loops are structural recursion or have a measure; the loop of a
  queue worker and that of a thread of the simulator, which may not end, are each a \<open>partial_function\<close>. The
  witnesses of Nix_Program start the program with concrete options and a concrete machine. The replacement of a text
  in the name of a log file may not end and is a \<open>partial_function\<close> too; dates have the buffer of the code.

  \<^bold>\<open>Assumptions about the code that is not in the repository.\<close> YAMI, jsoncpp's reader and writer, boost and
  the operating system are parameters (\<open>log_host\<close> for the files, the clock and the terminal of the log, \<open>agent\<close> with the instance \<open>network_agent\<close>, \<open>jlib\<close>, \<open>po_lib\<close>, \<open>host\<close>,
  \<open>linker\<close>, fields of \<open>outside\<close>); laws about them are named hypotheses (\<open>jlib_ok\<close>, \<open>reads_back\<close>, \<open>po_lib_ok\<close>, \<open>linker_ok\<close>), each with an instance. The
  options the module manager refers to after their block has ended are a parameter too (\<open>ou_stale\<close>).

  \<^bold>\<open>Not modelled.\<close> The parts of the logging library the program does not use (performance tracking, hit counters,
  verbose modules, crash handling, custom specifiers), its locks, and where in the code lines are logged; the text on the terminal; the time that threads sleep and what debug builds add; messages that arrive while the modules are destroyed;
  connections to databases, which the code does not make; the tests.
\<close>

end
